(* ===== verification/Prelude.thy ===== *)
theory Prelude
  imports Complex_Main "HOL-Library.Word" "HOL-Library.AList" "HOL-Library.Sublist"
begin

text \<open>
  Shared vocabulary of the development: the widths of the Rust integers, the parts of
  the Rust standard library the gateway's sources call (ASCII case folding, string
  stripping, saturating and saturating-cast arithmetic), and the list and map lemmas that
  several components use.

  Conventions. Rust's \<open>u32\<close>/\<open>u64\<close> are words of that width. Rust's \<open>f64\<close> is modelled by
  the exact real numbers; nothing proved here depends on rounding, and the components that
  compute with \<open>f64\<close> say so. A \<open>String\<close> is the list of its bytes. A \<open>HashMap\<close> or \<open>BTreeMap\<close>
  that is only looked up is a partial function; one whose entries are enumerated is an
  association list, and the unspecified iteration order of a hash table is a parameter.
  \<open>Result<T, E>\<close> is the sum \<open>'e + 'a\<close> with the error on the left.
\<close>

type_synonym u8 = "8 word"
type_synonym u32 = "32 word"
type_synonym u64 = "64 word"
type_synonym f64 = real

named_theorems breaker_simps \<open>unfolding rules of the circuit breaker\<close>
named_theorems lifecycle_simps \<open>evaluation rules of the lifecycle validator\<close>

section \<open>Strings\<close>

text \<open>\<open>str::to_ascii_lowercase\<close> and \<open>str::eq_ignore_ascii_case\<close> work byte by byte.\<close>

definition to_ascii_lower_char :: "char \<Rightarrow> char" where
  "to_ascii_lower_char c =
     (if 65 \<le> (of_char c :: nat) \<and> (of_char c :: nat) \<le> 90 then char_of ((of_char c :: nat) + 32) else c)"

definition to_ascii_lowercase :: "string \<Rightarrow> string" where
  "to_ascii_lowercase s = map to_ascii_lower_char s"

definition eq_ignore_ascii_case :: "string \<Rightarrow> string \<Rightarrow> bool" where
  "eq_ignore_ascii_case a b \<longleftrightarrow> to_ascii_lowercase a = to_ascii_lowercase b"

definition starts_with :: "string \<Rightarrow> string \<Rightarrow> bool" where
  "starts_with s p \<longleftrightarrow> take (length p) s = p"

definition strip_suffix_char :: "string \<Rightarrow> char \<Rightarrow> string option" where
  "strip_suffix_char s c = (if s \<noteq> [] \<and> last s = c then Some (butlast s) else None)"

text \<open>\<open>str::trim\<close> on ASCII white space.\<close>

definition is_space :: "char \<Rightarrow> bool" where
  "is_space c \<longleftrightarrow> c = CHR '' '' \<or> (9 \<le> (of_char c :: nat) \<and> (of_char c :: nat) \<le> 13)"

definition trim :: "string \<Rightarrow> string" where
  "trim s = rev (dropWhile is_space (rev (dropWhile is_space s)))"

text \<open>A lower-case hexadecimal digit (\<open>{:02x}\<close>), and \<open>Display\<close> of an integer and of a \<open>bool\<close>.\<close>

definition hex_digit :: "nat \<Rightarrow> char" where
  "hex_digit n = char_of (if n < 10 then 48 + n else 87 + n)"

fun show_nat :: "nat \<Rightarrow> string" where
  "show_nat n = (if n < 10 then [char_of (48 + n)] else show_nat (n div 10) @ [char_of (48 + n mod 10)])"

declare show_nat.simps [simp del]

definition show_bool :: "bool \<Rightarrow> string" where
  "show_bool b = (if b then ''true'' else ''false'')"

lemma trim_eq_Nil: "trim s = [] \<longleftrightarrow> (\<forall>c \<in> set s. is_space c)"
  by (auto simp: trim_def dropWhile_eq_Nil_conv dest: set_dropWhileD)
     (metis dropWhile_eq_self_iff hd_in_set list.sel(1) set_dropWhileD rev.simps(1) dropWhile_eq_Nil_conv hd_dropWhile)

lemma starts_with_iff_prefix: "starts_with s p \<longleftrightarrow> prefix p s"
proof
  assume "starts_with s p"
  then have "s = p @ drop (length p) s" by (metis append_take_drop_id starts_with_def)
  then show "prefix p s" by (metis prefixI)
qed (auto simp: starts_with_def prefix_def)

lemma strip_suffix_char_Some:
  "strip_suffix_char s c = Some p \<longleftrightarrow> s = p @ [c]"
  by (cases s rule: rev_cases) (auto simp: strip_suffix_char_def)

lemma to_ascii_lower_char_idem [simp]:
  "to_ascii_lower_char (to_ascii_lower_char c) = to_ascii_lower_char c"
proof (cases "65 \<le> (of_char c :: nat) \<and> (of_char c :: nat) \<le> 90")
  case True
  then have "(of_char (char_of ((of_char c :: nat) + 32)) :: nat) = of_char c + 32"
    by simp
  with True show ?thesis by (simp add: to_ascii_lower_char_def)
next
  case False
  then show ?thesis by (auto simp: to_ascii_lower_char_def)
qed

lemma to_ascii_lowercase_idem [simp]:
  "to_ascii_lowercase (to_ascii_lowercase s) = to_ascii_lowercase s"
  by (simp add: to_ascii_lowercase_def)

lemma eq_ignore_ascii_case_refl [simp]: "eq_ignore_ascii_case s s"
  by (simp add: eq_ignore_ascii_case_def)

section \<open>Integers\<close>

definition saturating_add :: "u32 \<Rightarrow> u32 \<Rightarrow> u32" where
  "saturating_add a b = (if unat a + unat b < 2 ^ 32 then a + b else 4294967295)"

lemma unat_saturating_add: "unat (saturating_add a b) = min (unat a + unat b) (2 ^ 32 - 1)"
proof (cases "unat a + unat b < 2 ^ 32")
  case True
  then have "unat (a + b) = unat a + unat b"
    by (simp add: unat_word_ariths)
  with True show ?thesis by (simp add: saturating_add_def)
next
  case False
  have "unat (4294967295 :: u32) = 2 ^ 32 - 1" by simp
  with False show ?thesis by (simp add: saturating_add_def)
qed

lemma unat_of_nat_u32 [simp]: "n < 2 ^ 32 \<Longrightarrow> unat (of_nat n :: u32) = n"
  by (simp add: unat_of_nat)

lemma unat_Suc_u32: "Suc (unat n) < 2 ^ 32 \<Longrightarrow> unat (n + 1 :: u32) = Suc (unat n)"
  by (simp add: unat_word_ariths)

section \<open>Loops that thread a state\<close>

text \<open>A \<open>for\<close> loop over a list that pushes one result per element and threads a state.\<close>

fun map_state :: "('x \<Rightarrow> 's \<Rightarrow> 'a \<times> 's) \<Rightarrow> 'x list \<Rightarrow> 's \<Rightarrow> 'a list \<times> 's" where
  "map_state f [] s = ([], s)"
| "map_state f (x # xs) s =
     (let (a, s1) = f x s; (as, s2) = map_state f xs s1 in (a # as, s2))"

lemma length_map_state [simp]: "length (fst (map_state f xs s)) = length xs"
  by (induction xs arbitrary: s) (simp_all add: Let_def case_prod_unfold)

lemma map_state_inv:
  "(\<And>x s. I s \<Longrightarrow> I (snd (f x s))) \<Longrightarrow> I s \<Longrightarrow> I (snd (map_state f xs s))"
  by (induction xs arbitrary: s) (simp_all add: Let_def case_prod_unfold)

lemma map_state_all2: "(\<And>x s. P x (fst (f x s))) \<Longrightarrow> list_all2 P xs (fst (map_state f xs s))"
  by (induction xs arbitrary: s) (simp_all add: Let_def case_prod_unfold)

lemma map_state_map:
  "(\<And>x s. f' (\<phi> x) s = (\<psi> (fst (f x s)), snd (f x s))) \<Longrightarrow>
     map_state f' (map \<phi> xs) s = (map \<psi> (fst (map_state f xs s)), snd (map_state f xs s))"
  by (induction xs arbitrary: s) (simp_all add: Let_def case_prod_unfold)

section \<open>Lists and association lists\<close>

text \<open>A hash table insert, keeping one entry per key.\<close>

lemma map_of_update [simp]: "map_of (AList.update k v al) = (map_of al)(k \<mapsto> v)"
  by (simp add: update_conv')

lemma map_of_delete [simp]: "map_of (AList.delete k al) = (map_of al)(k := None)"
  by (simp add: delete_conv')

lemma AList_update_fresh: "map_of al k = None \<Longrightarrow> AList.update k v al = al @ [(k, v)]"
  by (induction al) (auto split: if_splits)

lemma delete_eq_Nil [simp]: "AList.delete k al = [] \<longleftrightarrow> (map_of al)(k := None) = Map.empty"
  by (metis map_of_delete empty_eq_map_of_iff)

lemma subseq_filter_list: "subseq (filter P xs) xs"
  by (induction xs) auto

lemma sort_key_eq_Nil [simp]: "sort_key f xs = [] \<longleftrightarrow> xs = []"
  by (simp flip: length_0_conv)

lemma find_append: "find P (xs @ ys) = (case find P xs of None \<Rightarrow> find P ys | Some x \<Rightarrow> Some x)"
  by (induction xs) auto

end
