(* ===== verification/Json.thy ===== *)
theory Json
  imports Prelude
begin

text \<open>
  The dynamically typed JSON values of \<open>serde_json\<close> as the providers read them. The
  reader itself (\<open>serde_json::from_str\<close>, \<open>from_slice\<close>) is third-party code and stays a
  parameter of the definitions that call it; what is modelled here is \<open>serde_json::Value\<close>
  with the accessors the sources use: \<open>Value::get\<close> with a string key, \<open>as_str\<close>, \<open>as_u64\<close>,
  \<open>as_array\<close> and \<open>is_null\<close>. An object is the association list of its members (one entry
  per key after parsing, so the first hit is the member).
\<close>

datatype json =
    JNull
  | JBool bool
  | JPosInt u64
  | JNegInt int
  | JFloat f64
  | JString string
  | JArray "json list"
  | JObject "(string \<times> json) list"

fun jget :: "json \<Rightarrow> string \<Rightarrow> json option" where
  "jget (JObject kvs) k = map_of kvs k"
| "jget _ k = None"

fun as_str :: "json \<Rightarrow> string option" where
  "as_str (JString s) = Some s"
| "as_str _ = None"

fun as_u64 :: "json \<Rightarrow> u64 option" where
  "as_u64 (JPosInt n) = Some n"
| "as_u64 _ = None"

fun as_array :: "json \<Rightarrow> json list option" where
  "as_array (JArray xs) = Some xs"
| "as_array _ = None"

fun is_null :: "json \<Rightarrow> bool" where
  "is_null JNull = True"
| "is_null _ = False"

text \<open>The recurring chains of the parsers, such as
  \<^verbatim>\<open>v.get("id").and_then(|x| x.as_str())\<close>.\<close>

definition get_str :: "json \<Rightarrow> string \<Rightarrow> string option" where
  "get_str v k = Option.bind (jget v k) as_str"

definition get_u64 :: "json \<Rightarrow> string \<Rightarrow> u64 option" where
  "get_u64 v k = Option.bind (jget v k) as_u64"

definition get_array :: "json \<Rightarrow> string \<Rightarrow> json list option" where
  "get_array v k = Option.bind (jget v k) as_array"

definition unwrap_or :: "'a option \<Rightarrow> 'a \<Rightarrow> 'a" where
  "unwrap_or o' d = (case o' of None \<Rightarrow> d | Some x \<Rightarrow> x)"

definition or_opt :: "'a option \<Rightarrow> 'a option \<Rightarrow> 'a option" where
  "or_opt a b = (case a of None \<Rightarrow> b | Some x \<Rightarrow> Some x)"

text \<open>The lossy cast \<^verbatim>\<open>n as u32\<close> of a \<open>u64\<close> keeps the low 32 bits.\<close>

definition as_u32 :: "u64 \<Rightarrow> u32" where
  "as_u32 n = ucast n"

lemma unwrap_or_simps [simp]: "unwrap_or None d = d" "unwrap_or (Some x) d = x"
  by (simp_all add: unwrap_or_def)

lemma or_opt_simps [simp]: "or_opt None b = b" "or_opt (Some x) b = Some x"
  by (simp_all add: or_opt_def)

lemma unat_as_u32: "unat (as_u32 n) = unat n mod 2 ^ 32"
  by (simp add: as_u32_def unsigned_ucast_eq take_bit_eq_mod)

lemmas json_accessors = get_str_def get_u64_def get_array_def

end
