(* ===== verification/Core_Model.thy ===== *)
theory Core_Model
  imports Json
begin

text \<open>
  The canonical, protocol-neutral data model of \<open>crates/core\<close>: identifiers, roles, content
  blocks, tools, usage, stop reasons, stream events and errors, routing targets, the
  request, and the wire names that \<open>core/src/mapping\<close> and the open enums of
  \<open>core/src/safety.rs\<close> translate. Enums keep their variants in source order (with a prefix
  where two enums share a variant name), structs are records whose fields carry a prefix
  because Isabelle's field names are global.
\<close>

section \<open>Identifiers, roles and binary sources\<close>

type_synonym extension_map = "(string \<times> json) list"
type_synonym ResponseId = string
type_synonym ToolCallId = string

datatype MessageRole = User | Assistant | ToolRole | SystemRole

datatype SystemSource = AnthropicSystem | OpenAiSystem | OpenAiDeveloper

datatype BinarySource =
    Url string
  | Base64 string string
  | Bytes string string
  | ProviderFileId string

section \<open>Content blocks, tools and messages\<close>

record TextBlock =
  tb_text :: string
  tb_extensions :: extension_map

record MediaBlock =
  mb_source :: BinarySource
  mb_extensions :: extension_map

datatype ToolCallArguments = Complete json | Streaming string

record ToolCallBlock =
  tc_id :: ToolCallId
  tc_name :: string
  tc_arguments :: ToolCallArguments
  tc_extensions :: extension_map

record ToolResultBlock =
  tr_tool_call_id :: ToolCallId
  tr_content :: json
  tr_is_error :: bool
  tr_extensions :: extension_map

record RedactedReasoningBlock =
  rr_data :: string
  rr_extensions :: extension_map

record UnsupportedBlock =
  ub_origin :: string
  ub_raw :: json

datatype ContentBlock =
    BText TextBlock
  | BImage MediaBlock
  | BAudio MediaBlock
  | BFile MediaBlock
  | BToolCall ToolCallBlock
  | BToolResult ToolResultBlock
  | BReasoning TextBlock
  | BRedactedReasoning RedactedReasoningBlock
  | BUnsupported UnsupportedBlock

definition text_content_block :: "string \<Rightarrow> ContentBlock" where
  "text_content_block s = BText \<lparr>tb_text = s, tb_extensions = []\<rparr>"

record Message =
  msg_role :: MessageRole
  msg_content :: "ContentBlock list"
  msg_name :: "string option"
  msg_source :: "SystemSource option"
  msg_extensions :: extension_map

definition message_user :: "ContentBlock list \<Rightarrow> Message" where
  "message_user c = \<lparr>msg_role = User, msg_content = c, msg_name = None, msg_source = None,
     msg_extensions = []\<rparr>"

definition message_assistant :: "ContentBlock list \<Rightarrow> Message" where
  "message_assistant c = \<lparr>msg_role = Assistant, msg_content = c, msg_name = None,
     msg_source = None, msg_extensions = []\<rparr>"

definition message_system :: "SystemSource \<Rightarrow> ContentBlock list \<Rightarrow> Message" where
  "message_system src c = \<lparr>msg_role = SystemRole, msg_content = c, msg_name = None,
     msg_source = Some src, msg_extensions = []\<rparr>"

record SystemInstruction =
  si_source :: SystemSource
  si_content :: "ContentBlock list"

record ToolDefinition =
  td_name :: string
  td_description :: "string option"
  td_input_schema :: json
  td_extensions :: extension_map

datatype ToolChoice = ChoiceAuto | ChoiceNone | ChoiceRequired | ChoiceSpecific string

section \<open>Usage, stop reasons and safety ratings\<close>

datatype SafetyCategory =
  HateSpeech | Harassment | DangerousContent | SexuallyExplicit | OtherCategory string

datatype SafetyLevel = LevelNegligible | LevelLow | LevelMedium | LevelHigh | OtherLevel string

record SafetyRating =
  sr_category :: SafetyCategory
  sr_probability :: SafetyLevel

definition safety_category_of_string :: "string \<Rightarrow> SafetyCategory" where
  "safety_category_of_string s =
     (if s = ''HARM_CATEGORY_HATE_SPEECH'' then HateSpeech
      else if s = ''HARM_CATEGORY_HARASSMENT'' then Harassment
      else if s = ''HARM_CATEGORY_DANGEROUS_CONTENT'' then DangerousContent
      else if s = ''HARM_CATEGORY_SEXUALLY_EXPLICIT'' then SexuallyExplicit
      else OtherCategory s)"

fun string_of_safety_category :: "SafetyCategory \<Rightarrow> string" where
  "string_of_safety_category HateSpeech = ''HARM_CATEGORY_HATE_SPEECH''"
| "string_of_safety_category Harassment = ''HARM_CATEGORY_HARASSMENT''"
| "string_of_safety_category DangerousContent = ''HARM_CATEGORY_DANGEROUS_CONTENT''"
| "string_of_safety_category SexuallyExplicit = ''HARM_CATEGORY_SEXUALLY_EXPLICIT''"
| "string_of_safety_category (OtherCategory s) = s"

definition safety_level_of_string :: "string \<Rightarrow> SafetyLevel" where
  "safety_level_of_string s =
     (if s = ''NEGLIGIBLE'' then LevelNegligible
      else if s = ''LOW'' then LevelLow
      else if s = ''MEDIUM'' then LevelMedium
      else if s = ''HIGH'' then LevelHigh
      else OtherLevel s)"

fun string_of_safety_level :: "SafetyLevel \<Rightarrow> string" where
  "string_of_safety_level LevelNegligible = ''NEGLIGIBLE''"
| "string_of_safety_level LevelLow = ''LOW''"
| "string_of_safety_level LevelMedium = ''MEDIUM''"
| "string_of_safety_level LevelHigh = ''HIGH''"
| "string_of_safety_level (OtherLevel s) = s"

record Usage =
  input_tokens :: "u32 option"
  output_tokens :: "u32 option"
  cache_creation_input_tokens :: "u32 option"
  cache_read_input_tokens :: "u32 option"
  reasoning_tokens :: "u32 option"
  estimated :: bool
  provider_raw :: "json option"
  safety_ratings :: "SafetyRating list option"

definition usage_default :: Usage where
  "usage_default = \<lparr>input_tokens = None, output_tokens = None,
     cache_creation_input_tokens = None, cache_read_input_tokens = None,
     reasoning_tokens = None, estimated = False, provider_raw = None, safety_ratings = None\<rparr>"

datatype StopReason =
  EndTurn | MaxTokens | ToolUse | StopSequence | ContentFilter | OtherStop string

definition stop_reason_from_provider_string :: "string \<Rightarrow> StopReason" where
  "stop_reason_from_provider_string s =
     (if s = ''end_turn'' \<or> s = ''stop'' then EndTurn
      else if s = ''max_tokens'' \<or> s = ''length'' then MaxTokens
      else if s = ''tool_use'' \<or> s = ''tool_calls'' then ToolUse
      else if s = ''stop_sequence'' then StopSequence
      else if s = ''content_filter'' then ContentFilter
      else OtherStop s)"

section \<open>Anthropic wire names (core/src/mapping/anthropic\_wire.rs)\<close>

fun stop_reason_to_anthropic :: "StopReason \<Rightarrow> string" where
  "stop_reason_to_anthropic EndTurn = ''end_turn''"
| "stop_reason_to_anthropic MaxTokens = ''max_tokens''"
| "stop_reason_to_anthropic ToolUse = ''tool_use''"
| "stop_reason_to_anthropic StopSequence = ''stop_sequence''"
| "stop_reason_to_anthropic ContentFilter = ''content_filter''"
| "stop_reason_to_anthropic (OtherStop _) = ''end_turn''"

definition stop_reason_from_anthropic :: "string \<Rightarrow> StopReason" where
  "stop_reason_from_anthropic s =
     (if s = ''end_turn'' then EndTurn
      else if s = ''max_tokens'' then MaxTokens
      else if s = ''tool_use'' then ToolUse
      else if s = ''stop_sequence'' then StopSequence
      else if s = ''content_filter'' then ContentFilter
      else OtherStop s)"

fun role_to_anthropic :: "MessageRole \<Rightarrow> string" where
  "role_to_anthropic User = ''user''"
| "role_to_anthropic Assistant = ''assistant''"
| "role_to_anthropic ToolRole = ''user''"
| "role_to_anthropic SystemRole = ''system''"

definition role_from_anthropic :: "string \<Rightarrow> MessageRole option" where
  "role_from_anthropic s =
     (if s = ''user'' then Some User
      else if s = ''assistant'' then Some Assistant
      else if s = ''system'' then Some SystemRole
      else None)"

section \<open>Stream events and stream errors\<close>

datatype ContentBlockKind =
  KText | KToolCall | KReasoning | KRedactedReasoning | KImage | KAudio

record RawProviderEvent =
  raw_provider :: string
  raw_event_name :: string
  raw_data :: json

datatype StreamEvent =
    ResponseStart ResponseId string u64
  | MessageStart MessageRole
  | ContentBlockStart u32 ContentBlockKind
  | TextDelta u32 string
  | ReasoningDelta u32 string
  | ToolCallStart u32 ToolCallId string
  | ToolCallArgumentsDelta u32 string
  | ToolCallStop u32
  | ContentBlockStop u32
  | UsageDelta Usage
  | MessageStop StopReason "string option"
  | ResponseStop "Usage option"
  | ErrorEvent string
  | RawEvent RawProviderEvent

datatype StreamError =
  SE_Upstream string | SE_Decode string | SE_Encode string | ClientDisconnected | SE_Timeout

type_synonym stream_item = "StreamError + StreamEvent"

fun is_retryable_pre_first_byte :: "StreamError \<Rightarrow> bool" where
  "is_retryable_pre_first_byte (SE_Upstream _) = True"
| "is_retryable_pre_first_byte SE_Timeout = True"
| "is_retryable_pre_first_byte _ = False"

section \<open>Complete responses\<close>

record CanonicalResponse =
  cr_id :: ResponseId
  cr_model :: string
  cr_content :: "ContentBlock list"
  cr_stop_reason :: StopReason
  cr_stop_sequence :: "string option"
  cr_usage :: "Usage option"

section \<open>Round trips of the open enums and the wire names\<close>

lemma safety_category_roundtrip:
  "string_of_safety_category (safety_category_of_string s) = s"
  by (simp add: safety_category_of_string_def)

lemma safety_level_roundtrip: "string_of_safety_level (safety_level_of_string s) = s"
  by (simp add: safety_level_of_string_def)

lemma stop_reason_anthropic_roundtrip:
  "(\<forall>s. r \<noteq> OtherStop s) \<Longrightarrow> stop_reason_from_anthropic (stop_reason_to_anthropic r) = r"
  by (cases r) (simp_all add: stop_reason_from_anthropic_def)

lemma role_anthropic_roundtrip:
  "r \<noteq> ToolRole \<Longrightarrow> role_from_anthropic (role_to_anthropic r) = Some r"
  by (cases r) (simp_all add: role_from_anthropic_def)

end
