(* ===== verification/Policy.thy ===== *)
theory Policy
  imports Core_Model
begin

text \<open>
  The canonical request (\<open>core/src/request.rs\<close>), the reasoning-effort vocabulary with its
  clamp to a model's advertised tiers, the routing target (\<open>core/src/target.rs\<close>) and the
  per-route policy merge \<open>RoutePolicy::resolve\<close> (\<open>core/src/policy.rs\<close>).
\<close>

section \<open>Reasoning effort\<close>

datatype ReasoningEffort = Minimal | Low | Medium | High | Xhigh | MaxEffort

fun effort_rank :: "ReasoningEffort \<Rightarrow> nat" where
  "effort_rank Minimal = 0"
| "effort_rank Low = 1"
| "effort_rank Medium = 2"
| "effort_rank High = 3"
| "effort_rank Xhigh = 4"
| "effort_rank MaxEffort = 5"

lemma effort_rank_inject [simp]: "effort_rank a = effort_rank b \<longleftrightarrow> a = b"
  by (cases a; cases b) auto

text \<open>The derived \<open>Ord\<close> is declaration order.\<close>

instantiation ReasoningEffort :: linorder
begin

definition less_eq_ReasoningEffort :: "ReasoningEffort \<Rightarrow> ReasoningEffort \<Rightarrow> bool" where
  "less_eq_ReasoningEffort a b \<longleftrightarrow> effort_rank a \<le> effort_rank b"

definition less_ReasoningEffort :: "ReasoningEffort \<Rightarrow> ReasoningEffort \<Rightarrow> bool" where
  "less_ReasoningEffort a b \<longleftrightarrow> effort_rank a < effort_rank b"

instance
  by standard (auto simp: less_eq_ReasoningEffort_def less_ReasoningEffort_def)

end

fun effort_as_str :: "ReasoningEffort \<Rightarrow> string" where
  "effort_as_str Minimal = ''minimal''"
| "effort_as_str Low = ''low''"
| "effort_as_str Medium = ''medium''"
| "effort_as_str High = ''high''"
| "effort_as_str Xhigh = ''xhigh''"
| "effort_as_str MaxEffort = ''max''"

definition effort_parse :: "string \<Rightarrow> ReasoningEffort option" where
  "effort_parse s =
     (let l = to_ascii_lowercase s in
      if l = ''minimal'' \<or> l = ''none'' then Some Minimal
      else if l = ''low'' then Some Low
      else if l = ''medium'' \<or> l = ''default'' then Some Medium
      else if l = ''high'' then Some High
      else if l = ''xhigh'' \<or> l = ''x-high'' \<or> l = ''extra_high'' then Some Xhigh
      else if l = ''max'' then Some MaxEffort
      else None)"

definition clamp_to_advertised :: "ReasoningEffort \<Rightarrow> string list \<Rightarrow> string option" where
  "clamp_to_advertised e advertised =
     (let parsed = List.map_filter (\<lambda>s. map_option (\<lambda>t. (t, s)) (effort_parse s)) advertised in
      if parsed = [] then None
      else let sorted = sort_key fst parsed in
        (case find (\<lambda>(t, raw). t \<le> e) (rev sorted) of
           Some (t, raw) \<Rightarrow> Some raw
         | None \<Rightarrow> (case sorted of [] \<Rightarrow> None | (t, raw) # _ \<Rightarrow> Some raw)))"

section \<open>Requests and routing targets\<close>

record ReasoningOptions =
  ro_effort :: "ReasoningEffort option"
  ro_budget_tokens :: "u32 option"

record GenerationOptions =
  max_tokens :: "u32 option"
  temperature :: "f64 option"
  top_p :: "f64 option"
  top_k :: "u32 option"
  presence_penalty :: "f64 option"
  frequency_penalty :: "f64 option"
  stop_sequences :: "string list"
  seed :: "u64 option"
  reasoning :: "ReasoningOptions option"

datatype ResponseFormat = FormatText | FormatJsonObject | FormatJsonSchema string json bool

record RequestMetadata =
  user_id :: "string option"
  agent :: "string option"

datatype FrontendKind = AnthropicMessages | OpenAiChat | OpenAiResponses

record FrontendInfo =
  fi_kind :: FrontendKind
  fi_requested_model :: string

record MappingRule =
  mr_match :: ReasoningEffort
  mr_set :: ReasoningEffort

record RoutePolicy =
  default_reasoning_effort :: "ReasoningEffort option"
  default_anthropic_beta :: "string option"
  reasoning_mapping :: "MappingRule list"

record ResolvedPolicy =
  rp_reasoning_effort :: "ReasoningEffort option"
  rp_reasoning_budget_tokens :: "u32 option"
  rp_supported_efforts :: "string list option"
  rp_supported_endpoints :: "string list option"
  rp_anthropic_headers :: "(string \<times> string) list"

record BackendTarget =
  bt_provider :: string
  bt_model :: string
  bt_policy :: RoutePolicy

record CanonicalRequest =
  req_id :: string
  req_frontend :: FrontendInfo
  req_model :: string
  req_system :: "SystemInstruction list"
  req_messages :: "Message list"
  req_tools :: "ToolDefinition list"
  req_tool_choice :: ToolChoice
  req_generation :: GenerationOptions
  req_response_format :: "ResponseFormat option"
  req_stream :: bool
  req_metadata :: RequestMetadata
  req_inbound_anthropic_headers :: "(string \<times> string) list"
  req_resolved_policy :: ResolvedPolicy
  req_extensions :: extension_map

section \<open>The policy merge\<close>

definition anthropic_header :: "ResolvedPolicy \<Rightarrow> string \<Rightarrow> string option" where
  "anthropic_header p name =
     map_option snd (find (\<lambda>(k, v). eq_ignore_ascii_case k name) (rp_anthropic_headers p))"

definition resolve_policy :: "RoutePolicy \<Rightarrow> CanonicalRequest \<Rightarrow> ResolvedPolicy" where
  "resolve_policy pol req =
     (let inbound_effort = Option.bind (reasoning (req_generation req)) ro_effort;
          inbound_budget = Option.bind (reasoning (req_generation req)) ro_budget_tokens;
          post_default = or_opt inbound_effort (default_reasoning_effort pol);
          final_effort =
            (case post_default of
               Some e \<Rightarrow> or_opt (map_option mr_set
                          (find (\<lambda>rule. mr_match rule = e) (reasoning_mapping pol))) (Some e)
             | None \<Rightarrow> None);
          headers = req_inbound_anthropic_headers req;
          inbound_has_beta = list_ex (\<lambda>(k, v). eq_ignore_ascii_case k ''anthropic-beta'') headers;
          anthropic_headers =
            (if \<not> inbound_has_beta
             then (case default_anthropic_beta pol of
                     Some beta \<Rightarrow> headers @ [(''anthropic-beta'', beta)]
                   | None \<Rightarrow> headers)
             else headers)
      in \<lparr>rp_reasoning_effort = final_effort, rp_reasoning_budget_tokens = inbound_budget,
          rp_supported_efforts = None, rp_supported_endpoints = None,
          rp_anthropic_headers = anthropic_headers\<rparr>)"

section \<open>Properties of the effort vocabulary\<close>

lemma effort_parse_as_str: "effort_parse (effort_as_str e) = Some e"
  by (cases e) (simp_all add: effort_parse_def to_ascii_lowercase_def to_ascii_lower_char_def)

lemma effort_parse_ignores_case: "effort_parse (to_ascii_lowercase s) = effort_parse s"
  by (simp add: effort_parse_def)

text \<open>The tiers a list of advertised strings names.\<close>

definition advertised_tiers :: "string list \<Rightarrow> ReasoningEffort set" where
  "advertised_tiers adv = {t. \<exists>s \<in> set adv. effort_parse s = Some t}"

lemma finite_advertised_tiers [simp]: "finite (advertised_tiers adv)"
proof -
  have "advertised_tiers adv \<subseteq> (the \<circ> effort_parse) ` set adv"
    by (force simp: advertised_tiers_def)
  then show ?thesis by (rule finite_subset) simp
qed

lemma set_parsed:
  "set (List.map_filter (\<lambda>s. map_option (\<lambda>t. (t, s)) (effort_parse s)) adv)
     = {(t, s). s \<in> set adv \<and> effort_parse s = Some t}"
  by (force simp: List.map_filter_def)

lemma sort_key_hd_le:
  assumes "sort_key f xs = x # rest" "y \<in> set xs"
  shows "f x \<le> f y"
proof -
  have "sorted (map f (sort_key f xs))" by simp
  moreover have "y \<in> set (x # rest)" using assms by (metis set_sort)
  ultimately show ?thesis using assms(1) by auto
qed

lemma find_rev_sort_key:
  assumes "find P (rev (sort_key f xs)) = Some x"
  shows "x \<in> set xs" "P x" "\<And>y. y \<in> set xs \<Longrightarrow> P y \<Longrightarrow> f y \<le> f x"
proof -
  obtain i where i: "i < length xs" "P (rev (sort_key f xs) ! i)"
    "x = rev (sort_key f xs) ! i" "\<forall>j<i. \<not> P (rev (sort_key f xs) ! j)"
    using assms by (auto simp: find_Some_iff)
  show "P x" using i by simp
  show "x \<in> set xs" using i(1,3) by (metis length_rev length_sort nth_mem set_rev set_sort)
  fix y assume y: "y \<in> set xs" "P y"
  then obtain j where j: "j < length xs" "y = rev (sort_key f xs) ! j"
    by (metis in_set_conv_nth length_rev length_sort set_rev set_sort)
  with i y have "i \<le> j" by (metis not_less)
  have srt: "sorted (rev (map f (rev (sort_key f xs))))" by (simp add: rev_map)
  then have "rev (map f (rev (sort_key f xs))) ! (length xs - 1 - j)
      \<le> rev (map f (rev (sort_key f xs))) ! (length xs - 1 - i)"
    by (rule sorted_nth_mono) (use \<open>i \<le> j\<close> j(1) i(1) in auto)
  then show "f y \<le> f x" using i(1,3) j by (simp add: rev_nth)
qed

lemma clamp_to_advertised_None:
  "clamp_to_advertised e adv = None \<longleftrightarrow> advertised_tiers adv = {}"
proof -
  let ?parsed = "List.map_filter (\<lambda>s. map_option (\<lambda>t. (t, s)) (effort_parse s)) adv"
  have empty: "?parsed = [] \<longleftrightarrow> advertised_tiers adv = {}"
    unfolding set_empty [symmetric] set_parsed by (auto simp: advertised_tiers_def)
  show ?thesis
    unfolding clamp_to_advertised_def Let_def using empty
    by (auto split: option.splits list.splits)
qed



end
