(* ===== verification/Circuit_Breaker.thy ===== *)
theory Circuit_Breaker
  imports Core_Model
begin

text \<open>
  The sliding-window circuit breaker of \<open>router/src/circuit_breaker.rs\<close>: the per-key state
  machine \<open>BreakerState\<close> (\<open>record\<close>, \<open>decision\<close>), the registry keyed by
  \<open>(provider, model)\<close>, and the RAII handle \<open>BreakerHold\<close>.

  An \<open>Instant\<close> is the number of nanoseconds since the earliest instant the platform
  represents, so \<open>checked_sub\<close> fails exactly below zero and \<open>duration_since\<close> saturates at
  zero. The \<open>Clock\<close> is read once per operation; the reading is an argument. Locks serialise
  the operations on one breaker, so a concurrent history is a sequence of these operations.
  Counters are \<open>u32\<close> with the wrap-around of a release build. The tracing event and metric of
  \<open>emit_state_change\<close> are returned as a list.
\<close>

section \<open>State and operations\<close>

type_synonym instant = nat

record BreakerPolicy =
  bp_enabled :: bool
  bp_failure_threshold_pct :: u32
  bp_min_requests :: u32
  bp_window :: nat
  bp_open_cooldown :: nat

datatype BreakerDecision = Allow | SkipCall | Probe

record BreakerState =
  bs_upstream :: string
  bs_model :: string
  samples :: "(instant \<times> bool) list"
  open_since :: "instant option"
  probe_in_flight :: bool

record StateChange =
  sc_upstream :: string
  sc_model :: string
  sc_from :: string
  sc_to :: string
  sc_reason :: string

definition new_breaker :: "string \<Rightarrow> string \<Rightarrow> BreakerState" where
  "new_breaker u m = \<lparr>bs_upstream = u, bs_model = m, samples = [], open_since = None,
     probe_in_flight = False\<rparr>"

definition emit_state_change :: "BreakerState \<Rightarrow> string \<Rightarrow> string \<Rightarrow> string \<Rightarrow> StateChange" where
  "emit_state_change st from to reason =
     \<lparr>sc_upstream = bs_upstream st, sc_model = bs_model st, sc_from = from, sc_to = to,
      sc_reason = reason\<rparr>"

text \<open>The first half of \<open>record\<close>: evict what left the window, then append the sample.\<close>

definition slide :: "(instant \<times> bool) list \<Rightarrow> bool \<Rightarrow> instant \<Rightarrow> BreakerPolicy
    \<Rightarrow> (instant \<times> bool) list" where
  "slide ss succeeded now pol =
     (if bp_window pol \<le> now then dropWhile (\<lambda>(t, _). t < now - bp_window pol) ss else ss)
     @ [(now, succeeded)]"

definition failure_count :: "(instant \<times> bool) list \<Rightarrow> nat" where
  "failure_count ss = length (filter (\<lambda>(_, ok). \<not> ok) ss)"

definition breaker_record :: "BreakerState \<Rightarrow> bool \<Rightarrow> instant \<Rightarrow> BreakerPolicy
    \<Rightarrow> BreakerState \<times> StateChange list" where
  "breaker_record st succeeded now pol =
     (let ss = slide (samples st) succeeded now pol in
      case open_since st of
        Some opened \<Rightarrow>
          (if succeeded then
             (st\<lparr>samples := [(now, True)], open_since := None, probe_in_flight := False\<rparr>,
              [emit_state_change st ''half_open'' ''closed'' ''probe_succeeded''])
           else if now - opened \<ge> bp_open_cooldown pol then
             (st\<lparr>samples := ss, open_since := Some now, probe_in_flight := False\<rparr>,
              [emit_state_change st ''half_open'' ''open'' ''probe_failed''])
           else (st\<lparr>samples := ss, probe_in_flight := False\<rparr>, []))
      | None \<Rightarrow>
          (let total = (of_nat (length ss) :: u32) in
           if total < bp_min_requests pol then (st\<lparr>samples := ss\<rparr>, [])
           else let failures = (of_nat (failure_count ss) :: u32);
                    pct = (failures * 100) div total in
             if pct \<ge> bp_failure_threshold_pct pol then
               (st\<lparr>samples := ss, open_since := Some now\<rparr>,
                [emit_state_change st ''closed'' ''open'' ''failure_threshold_exceeded''])
             else (st\<lparr>samples := ss\<rparr>, [])))"

definition breaker_decision :: "BreakerState \<Rightarrow> instant \<Rightarrow> BreakerPolicy
    \<Rightarrow> BreakerDecision \<times> BreakerState \<times> StateChange list" where
  "breaker_decision st now pol =
     (if \<not> bp_enabled pol then (Allow, st, [])
      else case open_since st of
        None \<Rightarrow> (Allow, st, [])
      | Some opened \<Rightarrow>
          (if now - opened \<ge> bp_open_cooldown pol then
             (if \<not> probe_in_flight st then
                (Probe, st\<lparr>probe_in_flight := True\<rparr>,
                 [emit_state_change st ''open'' ''half_open'' ''cooldown_elapsed''])
              else (SkipCall, st, []))
           else (SkipCall, st, [])))"

section \<open>The registry and the RAII hold\<close>

type_synonym BreakerKey = "string \<times> string"
type_synonym BreakerRegistry = "BreakerKey \<rightharpoonup> BreakerState"

record BreakerHold =
  bh_provider :: string
  bh_model :: string
  bh_policy :: BreakerPolicy
  bh_consumed :: bool

definition registry_get_or_create :: "BreakerRegistry \<Rightarrow> string \<Rightarrow> string
    \<Rightarrow> BreakerRegistry \<times> BreakerState" where
  "registry_get_or_create reg p m =
     (case reg (p, m) of
        Some st \<Rightarrow> (reg, st)
      | None \<Rightarrow> (reg((p, m) \<mapsto> new_breaker p m), new_breaker p m))"

definition registry_decision :: "BreakerRegistry \<Rightarrow> instant \<Rightarrow> string \<Rightarrow> string \<Rightarrow> BreakerPolicy
    \<Rightarrow> BreakerDecision \<times> BreakerRegistry" where
  "registry_decision reg now p m pol =
     (let (reg1, st) = registry_get_or_create reg p m;
          (d, st1, _) = breaker_decision st now pol
      in (d, reg1((p, m) \<mapsto> st1)))"

definition registry_record :: "BreakerRegistry \<Rightarrow> instant \<Rightarrow> string \<Rightarrow> string \<Rightarrow> bool
    \<Rightarrow> BreakerPolicy \<Rightarrow> BreakerRegistry" where
  "registry_record reg now p m succeeded pol =
     (let (reg1, st) = registry_get_or_create reg p m
      in reg1((p, m) \<mapsto> fst (breaker_record st succeeded now pol)))"

definition try_hold :: "BreakerRegistry \<Rightarrow> instant \<Rightarrow> string \<Rightarrow> string \<Rightarrow> BreakerPolicy
    \<Rightarrow> BreakerHold option \<times> BreakerRegistry" where
  "try_hold reg now p m pol =
     (case registry_decision reg now p m pol of
        (SkipCall, reg1) \<Rightarrow> (None, reg1)
      | (_, reg1) \<Rightarrow>
          (Some \<lparr>bh_provider = p, bh_model = m, bh_policy = pol, bh_consumed = False\<rparr>, reg1))"

text \<open>\<open>Drop\<close> records an abandoned authorisation as a failure; \<open>consume\<close> records the outcome,
  marks the hold and then drops it.\<close>

definition hold_drop :: "BreakerRegistry \<Rightarrow> instant \<Rightarrow> BreakerHold \<Rightarrow> BreakerRegistry" where
  "hold_drop reg now h =
     (if \<not> bh_consumed h
      then registry_record reg now (bh_provider h) (bh_model h) False (bh_policy h) else reg)"

definition hold_consume :: "BreakerRegistry \<Rightarrow> instant \<Rightarrow> BreakerHold \<Rightarrow> bool
    \<Rightarrow> BreakerRegistry" where
  "hold_consume reg now h succeeded =
     (let reg1 = (if \<not> bh_consumed h
                  then registry_record reg now (bh_provider h) (bh_model h) succeeded (bh_policy h)
                  else reg)
      in hold_drop reg1 now (h\<lparr>bh_consumed := True\<rparr>))"

lemmas breaker_defs = breaker_record_def breaker_decision_def
lemmas registry_defs = registry_get_or_create_def registry_decision_def registry_record_def
  try_hold_def hold_drop_def hold_consume_def

section \<open>The invariant of one breaker\<close>

text \<open>
  What every reachable breaker satisfies at clock reading \<open>t\<close>: samples are in time order and
  not from the future, an opening instant lies in the past, and a probe is only in flight
  while the breaker is open. Each operation may come with its own policy, as two routes to
  the same upstream may configure theirs differently.
\<close>

definition breaker_inv :: "BreakerState \<Rightarrow> instant \<Rightarrow> bool" where
  "breaker_inv st t \<longleftrightarrow>
     sorted (map fst (samples st)) \<and> (\<forall>s \<in> set (samples st). fst s \<le> t)
     \<and> (\<forall>opened. open_since st = Some opened \<longrightarrow> opened \<le> t)
     \<and> (probe_in_flight st \<longrightarrow> open_since st \<noteq> None)"

inductive breaker_reachable :: "BreakerState \<Rightarrow> instant \<Rightarrow> bool" where
  fresh: "breaker_reachable (new_breaker u m) t"
| tick: "breaker_reachable st t \<Longrightarrow> t \<le> t' \<Longrightarrow> breaker_reachable st t'"
| decide: "breaker_reachable st t \<Longrightarrow> breaker_decision st t pol = (d, st', evs)
    \<Longrightarrow> breaker_reachable st' t"
| outcome: "breaker_reachable st t \<Longrightarrow> breaker_record st ok t pol = (st', evs)
    \<Longrightarrow> breaker_reachable st' t"

lemma set_slide: "set (slide ss ok now pol) \<subseteq> insert (now, ok) (set ss)"
  by (auto simp: slide_def dest: set_dropWhileD)

lemma sorted_slide:
  assumes "sorted (map fst ss)" "\<forall>s \<in> set ss. fst s \<le> now"
  shows "sorted (map fst (slide ss ok now pol))"
proof -
  have "sorted (map fst (dropWhile P ss))" for P
    using assms(1) by (metis map_append sorted_append takeWhile_dropWhile_id)
  then show ?thesis
    using assms by (auto simp: slide_def sorted_append dest: set_dropWhileD)
qed

lemma breaker_decision_inv:
  "breaker_decision st t pol = (d, st', evs) \<Longrightarrow> breaker_inv st t \<Longrightarrow> breaker_inv st' t"
  by (auto simp: breaker_decision_def breaker_inv_def split: if_splits option.splits)

lemma breaker_record_inv:
  assumes "breaker_record st ok t pol = (st', evs)" "breaker_inv st t"
  shows "breaker_inv st' t"
proof -
  have "sorted (map fst (slide (samples st) ok t pol))"
    "\<forall>s \<in> set (slide (samples st) ok t pol). fst s \<le> t"
    using assms(2) sorted_slide set_slide [of "samples st" ok t pol]
    by (fastforce simp: breaker_inv_def)+
  with assms show ?thesis
    by (auto simp: breaker_record_def breaker_inv_def Let_def split: if_splits option.splits)
qed

lemma breaker_inv_tick: "breaker_inv st t \<Longrightarrow> t \<le> t' \<Longrightarrow> breaker_inv st t'"
  by (fastforce simp: breaker_inv_def)

text \<open>
  C15. Every breaker state reachable by any interleaving of decisions and recorded outcomes,
  under any mixture of policies and any advance of the clock, keeps its samples in time
  order and not in the future, its opening instant in the past, and a probe in flight only
  while it is open.
\<close>

theorem breaker_reachable_inv:
  assumes "breaker_reachable st t"
  shows "breaker_inv st t"
  using assms
proof (induction rule: breaker_reachable.induct)
  case (fresh u m t)
  then show ?case by (simp add: breaker_inv_def new_breaker_def)
qed (auto intro: breaker_inv_tick breaker_decision_inv breaker_record_inv)

theorem breaker_reachable_inv_witness:
  "breaker_inv (fst (breaker_record (new_breaker ''openai'' ''gpt-4o'') False 7
     \<lparr>bp_enabled = True, bp_failure_threshold_pct = 50, bp_min_requests = 1, bp_window = 60,
      bp_open_cooldown = 30\<rparr>)) 9"
proof (rule breaker_reachable_inv)
  let ?pol = "\<lparr>bp_enabled = True, bp_failure_threshold_pct = 50, bp_min_requests = 1,
    bp_window = 60, bp_open_cooldown = 30\<rparr>"
  obtain st' evs where "breaker_record (new_breaker ''openai'' ''gpt-4o'') False 7 ?pol = (st', evs)"
    by (metis surj_pair)
  then show "breaker_reachable (fst (breaker_record (new_breaker ''openai'' ''gpt-4o'') False 7 ?pol)) 9"
    using breaker_reachable.outcome [OF breaker_reachable.fresh] breaker_reachable.tick [of st' 7 9]
    by simp
qed

section \<open>Tripping\<close>

lemma dropWhile_sorted_filter:
  "sorted (map f xs) \<Longrightarrow> dropWhile (\<lambda>x. f x < c) xs = filter (\<lambda>x. \<not> f x < c) xs"
  by (induction xs) (auto simp: not_less intro!: filter_True [symmetric])

lemma slide_window:
  assumes "sorted (map fst ss)"
  shows "slide ss ok now pol = filter (\<lambda>s. now \<le> fst s + bp_window pol) ss @ [(now, ok)]"
proof (cases "bp_window pol \<le> now")
  case True
  then have "(\<not> fst s < now - bp_window pol) = (now \<le> fst s + bp_window pol)"
    for s :: "instant \<times> bool" by linarith
  with True show ?thesis
    using dropWhile_sorted_filter [OF assms, of "now - bp_window pol"]
    by (simp add: slide_def case_prod_unfold)
next
  case False
  then show ?thesis by (simp add: slide_def)
qed

lemma failure_count_le: "failure_count ss \<le> length ss"
  by (simp add: failure_count_def)

lemma pct_threshold:
  fixes thr :: u32
  assumes "n > 0" "f \<le> n" "100 * n < 2 ^ 32"
  shows "thr \<le> (of_nat f * 100) div of_nat n \<longleftrightarrow> unat thr * n \<le> 100 * f"
proof -
  have n: "unat (of_nat n :: u32) = n" using assms by (intro unat_of_nat_u32) simp
  have "unat (of_nat f * 100 :: u32) = (f * 100) mod 2 ^ 32"
    by (simp add: unat_word_ariths unat_of_nat mod_mult_left_eq)
  also have "\<dots> = f * 100" using assms by simp
  finally have "unat ((of_nat f * 100) div of_nat n :: u32) = (f * 100) div n"
    using n by (simp add: unat_div)
  then show ?thesis using assms(1)
    by (simp add: word_le_nat_alt less_eq_div_iff_mult_less_eq mult.commute)
qed



section \<open>Probes\<close>

text \<open>A run of decisions with no outcome recorded in between.\<close>

fun run_decisions :: "BreakerState \<Rightarrow> (instant \<times> BreakerPolicy) list \<Rightarrow> BreakerDecision list" where
  "run_decisions st [] = []"
| "run_decisions st ((t, pol) # qs) =
     (let (d, st', _) = breaker_decision st t pol in d # run_decisions st' qs)"

lemma decision_with_probe_in_flight:
  "probe_in_flight st \<Longrightarrow> breaker_decision st t pol = (d, st', evs) \<Longrightarrow> d \<noteq> Probe \<and> st' = st"
  by (auto simp: breaker_decision_def split: if_splits option.splits)

lemma decision_step:
  "breaker_decision st t pol = (d, st', evs) \<Longrightarrow>
     (d = Probe \<longrightarrow> probe_in_flight st') \<and> (d \<noteq> Probe \<longrightarrow> st' = st)"
  by (auto simp: breaker_decision_def split: if_splits option.splits)

lemma run_decisions_in_flight:
  "probe_in_flight st \<Longrightarrow> filter ((=) Probe) (run_decisions st qs) = []"
proof (induction st qs rule: run_decisions.induct)
  case (2 st t pol qs)
  obtain d st' evs where d: "breaker_decision st t pol = (d, st', evs)" by (metis prod_cases3)
  with decision_with_probe_in_flight [OF "2.prems" d] 2 show ?case by auto
qed simp

text \<open>
  C13. Half-open admits a single probe: however many callers ask, at whatever times and under
  whatever policies, as long as no outcome is recorded at most one of them is told to probe,
  and none is while a probe is already in flight.
\<close>

theorem at_most_one_probe:
  "length (filter ((=) Probe) (run_decisions st qs)) \<le> (if probe_in_flight st then 0 else 1)"
proof (cases "probe_in_flight st")
  case True
  then show ?thesis by (simp add: run_decisions_in_flight)
next
  case False
  then show ?thesis
  proof (induction qs arbitrary: st)
    case (Cons q qs)
    obtain t pol where q: "q = (t, pol)" by (cases q)
    obtain d st' evs where d: "breaker_decision st t pol = (d, st', evs)" by (metis prod_cases3)
    show ?case
    proof (cases "d = Probe")
      case True
      with decision_step [OF d] have "filter ((=) Probe) (run_decisions st' qs) = []"
        by (simp add: run_decisions_in_flight)
      with True d q Cons.prems show ?thesis by simp
    next
      case False
      with decision_step [OF d] have "st' = st" by simp
      with False d q Cons show ?thesis by simp
    qed
  qed simp
qed

text \<open>
  A probe settles the breaker: when its outcome is a success the breaker closes and its
  window restarts with that one success, when it is a failure the breaker re-opens with a
  fresh cooldown that starts at the failure.
\<close>

theorem probe_settles:
  assumes "breaker_decision st t pol = (Probe, st1, evs)" "t \<le> t'"
  shows "open_since (fst (breaker_record st1 True t' pol)) = None
    \<and> samples (fst (breaker_record st1 True t' pol)) = [(t', True)]
    \<and> open_since (fst (breaker_record st1 False t' pol)) = Some t'
    \<and> (\<forall>t''. t' \<le> t'' \<longrightarrow> t'' < t' + bp_open_cooldown pol \<longrightarrow>
         fst (breaker_decision (fst (breaker_record st1 False t' pol)) t'' pol) = SkipCall)"
proof -
  from assms(1) obtain opened where st1: "st1 = st\<lparr>probe_in_flight := True\<rparr>" "bp_enabled pol"
    "open_since st = Some opened" "bp_open_cooldown pol \<le> t - opened"
    by (auto simp: breaker_decision_def split: if_splits option.splits)
  with assms(2) have "bp_open_cooldown pol \<le> t' - opened" by linarith
  with st1 show ?thesis
    by (auto simp: breaker_record_def breaker_decision_def Let_def)
qed

theorem probe_settles_witness:
  "open_since (fst (breaker_record \<lparr>bs_upstream = ''a'', bs_model = ''m'', samples = [(0, False)],
     open_since = Some 0, probe_in_flight = True\<rparr> False 40
     \<lparr>bp_enabled = True, bp_failure_threshold_pct = 50, bp_min_requests = 1, bp_window = 60,
      bp_open_cooldown = 30\<rparr>)) = Some 40"
proof -
  let ?pol = "\<lparr>bp_enabled = True, bp_failure_threshold_pct = 50, bp_min_requests = 1,
    bp_window = 60, bp_open_cooldown = 30\<rparr>"
  let ?st = "\<lparr>bs_upstream = ''a'', bs_model = ''m'', samples = [(0, False)],
    open_since = Some 0, probe_in_flight = False\<rparr>"
  have "breaker_decision ?st 31 ?pol = (Probe, ?st\<lparr>probe_in_flight := True\<rparr>,
      [emit_state_change ?st ''open'' ''half_open'' ''cooldown_elapsed''])"
    by (simp add: breaker_decision_def)
  from probe_settles [OF this, of 40] show ?thesis by simp
qed

text \<open>
  A straggler closes the breaker: an outcome recorded while the breaker is open, from a
  call that was authorised before it tripped, closes it at once when that call succeeded,
  although the cooldown has not elapsed and no probe was sent. (The module comment describes
  closing only as the result of a half-open probe.)
\<close>

theorem straggler_closes_open_breaker:
  assumes "open_since st = Some opened" "opened \<le> t" "t < opened + bp_open_cooldown pol"
    "bp_enabled pol"
  shows "fst (breaker_decision st t pol) = SkipCall
    \<and> fst (breaker_decision (fst (breaker_record st True t pol)) t pol) = Allow"
proof -
  have "\<not> bp_open_cooldown pol \<le> t - opened" using assms(2,3) by linarith
  with assms show ?thesis by (simp add: breaker_decision_def breaker_record_def Let_def)
qed

theorem straggler_closes_open_breaker_witness:
  "fst (breaker_decision (fst (breaker_record \<lparr>bs_upstream = ''a'', bs_model = ''m'',
     samples = [(0, False)], open_since = Some 0, probe_in_flight = False\<rparr> True 5
     \<lparr>bp_enabled = True, bp_failure_threshold_pct = 50, bp_min_requests = 1, bp_window = 60,
      bp_open_cooldown = 30\<rparr>)) 5
     \<lparr>bp_enabled = True, bp_failure_threshold_pct = 50, bp_min_requests = 1, bp_window = 60,
      bp_open_cooldown = 30\<rparr>) = Allow"
  by (rule straggler_closes_open_breaker [where opened = 0, THEN conjunct2]) simp_all

section \<open>The hold interface\<close>

text \<open>
  What a client of the breakers may rely on when it acquires one authorisation per chain
  element and later releases each of them once: an acquisition touches only its own key and
  leaves it alone when it is refused, and a release frees its key. From these laws alone no
  sequence of acquisitions and releases leaks a probe.
\<close>

locale probe_gate =
  fixes acquire :: "'c \<Rightarrow> 'k \<Rightarrow> 'r \<Rightarrow> bool \<times> 'r"
    and release :: "'c \<Rightarrow> 'k \<Rightarrow> bool \<Rightarrow> 'r \<Rightarrow> 'r"
    and busy :: "'r \<Rightarrow> 'k \<Rightarrow> bool"
    and wf :: "'r \<Rightarrow> bool"
  assumes acquire_wf: "wf r \<Longrightarrow> wf (snd (acquire c k r))"
    and release_wf: "wf r \<Longrightarrow> wf (release c k ok r)"
    and acquire_frame: "k' \<noteq> k \<Longrightarrow> busy (snd (acquire c k r)) k' = busy r k'"
    and acquire_refused: "\<not> fst (acquire c k r) \<Longrightarrow> busy (snd (acquire c k r)) k = busy r k"
    and release_frame: "k' \<noteq> k \<Longrightarrow> busy (release c k ok r) k' = busy r k'"
    and release_frees: "wf r \<Longrightarrow> \<not> busy (release c k ok r) k"
begin

lemma acquire_all_wf: "wf r \<Longrightarrow> wf (snd (map_state (\<lambda>(c, k). acquire c k) cks r))"
  by (rule map_state_inv) (auto intro: acquire_wf)

lemma acquire_all_busy:
  "busy (snd (map_state (\<lambda>(c, k). acquire c k) cks r)) k \<Longrightarrow>
     busy r k \<or> (k, True) \<in> set (zip (map snd cks) (fst (map_state (\<lambda>(c, k). acquire c k) cks r)))"
proof (induction cks arbitrary: r)
  case (Cons a cks)
  obtain c k1 where a: "a = (c, k1)" by (cases a)
  let ?r1 = "snd (acquire c k1 r)"
  from Cons.prems have "busy (snd (map_state (\<lambda>(c, k). acquire c k) cks ?r1)) k"
    by (simp add: a Let_def case_prod_unfold)
  from Cons.IH [OF this] show ?case
    using acquire_frame [of k k1 c r] acquire_refused [of c k1 r]
    by (cases "k = k1") (auto simp: a Let_def case_prod_unfold)
qed simp

lemma release_all_wf:
  "wf r \<Longrightarrow> wf (fold (\<lambda>(c, k, ok) r. release c k ok r) rels r)"
  by (induction rels arbitrary: r) (auto intro: release_wf)

lemma release_all_busy:
  "wf r \<Longrightarrow> busy (fold (\<lambda>(c, k, ok) r. release c k ok r) rels r) k \<longleftrightarrow>
     busy r k \<and> k \<notin> (fst \<circ> snd) ` set rels"
proof (induction rels arbitrary: r)
  case (Cons a rels)
  obtain c k1 ok where a: "a = (c, k1, ok)" by (cases a)
  have "busy (fold (\<lambda>(c, k, ok) r. release c k ok r) rels (release c k1 ok r)) k
      \<longleftrightarrow> busy (release c k1 ok r) k \<and> k \<notin> (fst \<circ> snd) ` set rels"
    using Cons.IH [of "release c k1 ok r"] Cons.prems release_wf by simp
  then show ?case
    using release_frees [OF Cons.prems(1), of c k1 ok] release_frame [of k k1 c ok r] a
    by (cases "k = k1") auto
qed simp

lemma no_probe_leaked:
  assumes "wf r" "map_state (\<lambda>(c, k). acquire c k) cks r = (gs, r1)"
    and "{k. (k, True) \<in> set (zip (map snd cks) gs)} \<subseteq> (fst \<circ> snd) ` set rels"
    and "busy (fold (\<lambda>(c, k, ok) r. release c k ok r) rels r1) k"
  shows "busy r k"
proof -
  have "wf r1" using acquire_all_wf [OF assms(1), of cks] assms(2) by simp
  with assms(4) release_all_busy have "busy r1 k" "k \<notin> (fst \<circ> snd) ` set rels" by auto
  with acquire_all_busy [of cks r k] assms(2,3) show ?thesis by auto
qed

end

definition hold_acquire :: "instant \<times> BreakerPolicy \<Rightarrow> BreakerKey \<Rightarrow> BreakerRegistry
    \<Rightarrow> bool \<times> BreakerRegistry" where
  "hold_acquire c k reg =
     (let (h, reg1) = try_hold reg (fst c) (fst k) (snd k) (snd c) in (h \<noteq> None, reg1))"

definition hold_release :: "instant \<times> BreakerPolicy \<Rightarrow> BreakerKey \<Rightarrow> bool \<Rightarrow> BreakerRegistry
    \<Rightarrow> BreakerRegistry" where
  "hold_release c k ok reg =
     hold_consume reg (fst c)
       \<lparr>bh_provider = fst k, bh_model = snd k, bh_policy = snd c, bh_consumed = False\<rparr> ok"

definition probe_busy :: "BreakerRegistry \<Rightarrow> BreakerKey \<Rightarrow> bool" where
  "probe_busy reg k \<longleftrightarrow> (case reg k of None \<Rightarrow> False | Some st \<Rightarrow> probe_in_flight st)"

definition registry_wf :: "BreakerRegistry \<Rightarrow> bool" where
  "registry_wf reg \<longleftrightarrow>
     (\<forall>k st. reg k = Some st \<longrightarrow> probe_in_flight st \<longrightarrow> open_since st \<noteq> None)"

lemma decision_wf:
  "breaker_decision st t pol = (d, st', evs) \<Longrightarrow> (probe_in_flight st \<longrightarrow> open_since st \<noteq> None)
     \<Longrightarrow> (probe_in_flight st' \<longrightarrow> open_since st' \<noteq> None)"
  by (auto simp: breaker_decision_def split: if_splits option.splits)

lemma record_clears_probe:
  "(probe_in_flight st \<longrightarrow> open_since st \<noteq> None) \<Longrightarrow>
     \<not> probe_in_flight (fst (breaker_record st ok t pol))"
  by (auto simp: breaker_record_def Let_def split: option.splits)

lemma decision_refused_same:
  "breaker_decision st t pol = (SkipCall, st', evs) \<Longrightarrow> st' = st"
  by (auto simp: breaker_decision_def split: if_splits option.splits)

lemma hold_consume_record:
  "\<not> bh_consumed h \<Longrightarrow>
     hold_consume reg t h ok = registry_record reg t (bh_provider h) (bh_model h) ok (bh_policy h)"
  by (simp add: hold_consume_def hold_drop_def Let_def)

lemma hold_drop_record:
  "\<not> bh_consumed h \<Longrightarrow>
     hold_drop reg t h = registry_record reg t (bh_provider h) (bh_model h) False (bh_policy h)"
  by (simp add: hold_drop_def)

lemma registry_record_at:
  "registry_record reg t p m ok pol =
     reg((p, m) \<mapsto> fst (breaker_record
        (case reg (p, m) of Some st \<Rightarrow> st | None \<Rightarrow> new_breaker p m) ok t pol))"
  by (simp add: registry_record_def registry_get_or_create_def split: option.splits)

lemma try_hold_at:
  assumes "breaker_decision (case reg (p, m) of Some st \<Rightarrow> st | None \<Rightarrow> new_breaker p m) t pol
     = (d, st', evs)"
  shows "try_hold reg t p m pol =
     (if d = SkipCall then None
      else Some \<lparr>bh_provider = p, bh_model = m, bh_policy = pol, bh_consumed = False\<rparr>,
      reg((p, m) \<mapsto> st'))"
  using assms
  by (cases d) (auto simp: try_hold_def registry_decision_def registry_get_or_create_def
      split: option.splits)

interpretation holds: probe_gate hold_acquire hold_release probe_busy registry_wf
proof
  fix r :: BreakerRegistry and c :: "instant \<times> BreakerPolicy" and k k' :: BreakerKey and ok :: bool
  obtain d st' evs where d: "breaker_decision
      (case r k of Some st \<Rightarrow> st | None \<Rightarrow> new_breaker (fst k) (snd k)) (fst c) (snd c)
      = (d, st', evs)" by (metis prod_cases3)
  then have th: "try_hold r (fst c) (fst k) (snd k) (snd c) =
     (if d = SkipCall then None
      else Some \<lparr>bh_provider = fst k, bh_model = snd k, bh_policy = snd c, bh_consumed = False\<rparr>,
      r(k \<mapsto> st'))"
    using try_hold_at [where reg = r and p = "fst k" and m = "snd k"] by simp
  have rel: "hold_release c k ok r = r(k \<mapsto> fst (breaker_record
     (case r k of Some st \<Rightarrow> st | None \<Rightarrow> new_breaker (fst k) (snd k)) ok (fst c) (snd c)))"
    by (simp add: hold_release_def hold_consume_record registry_record_at)
  have fresh: "probe_in_flight st \<longrightarrow> open_since st \<noteq> None"
    if "registry_wf r" "st = (case r k of Some st \<Rightarrow> st | None \<Rightarrow> new_breaker (fst k) (snd k))" for st
    using that by (cases k) (auto simp: registry_wf_def new_breaker_def split: option.splits)
  show "registry_wf (snd (hold_acquire c k r))" if "registry_wf r"
    using that decision_wf [OF d] fresh [OF that]
    by (auto simp: registry_wf_def hold_acquire_def th)
  show "registry_wf (hold_release c k ok r)" if "registry_wf r"
    using that record_clears_probe fresh [OF that] by (auto simp: registry_wf_def rel)
  show "probe_busy (snd (hold_acquire c k r)) k' = probe_busy r k'" if "k' \<noteq> k"
    using that by (simp add: probe_busy_def hold_acquire_def th)
  show "probe_busy (snd (hold_acquire c k r)) k = probe_busy r k" if "\<not> fst (hold_acquire c k r)"
  proof -
    from that have "d = SkipCall" by (simp add: hold_acquire_def th split: if_splits)
    with decision_refused_same d have "st' = (case r k of Some st \<Rightarrow> st
        | None \<Rightarrow> new_breaker (fst k) (snd k))" by simp
    then show ?thesis
      by (auto simp: probe_busy_def hold_acquire_def th new_breaker_def split: option.splits)
  qed
  show "probe_busy (hold_release c k ok r) k' = probe_busy r k'" if "k' \<noteq> k"
    using that by (simp add: probe_busy_def rel)
  show "\<not> probe_busy (hold_release c k ok r) k" if "registry_wf r"
    using record_clears_probe fresh [OF that] by (simp add: probe_busy_def rel)
qed

section \<open>Recovery\<close>

lemma decision_eventually:
  assumes "\<not> probe_in_flight st"
  shows "\<exists>t0. \<forall>t \<ge> t0. fst (breaker_decision st t pol) \<noteq> SkipCall"
proof (cases "open_since st")
  case None
  then show ?thesis by (simp add: breaker_decision_def)
next
  case (Some opened)
  have "fst (breaker_decision st t pol) \<noteq> SkipCall" if "t \<ge> opened + bp_open_cooldown pol" for t
  proof -
    have "bp_open_cooldown pol \<le> t - opened" using that by linarith
    with assms Some show ?thesis by (simp add: breaker_decision_def)
  qed
  then show ?thesis by blast
qed

lemma try_hold_eventually:
  assumes "\<not> probe_busy reg (p, m)"
  shows "\<exists>t0. \<forall>t \<ge> t0. fst (try_hold reg t p m pol) \<noteq> None"
proof -
  let ?st = "case reg (p, m) of Some st \<Rightarrow> st | None \<Rightarrow> new_breaker p m"
  have "\<not> probe_in_flight ?st"
    using assms by (auto simp: probe_busy_def new_breaker_def split: option.splits)
  then obtain t0 where "\<forall>t \<ge> t0. fst (breaker_decision ?st t pol) \<noteq> SkipCall"
    using decision_eventually by blast
  moreover have "fst (try_hold reg t p m pol) \<noteq> None"
    if "fst (breaker_decision ?st t pol) \<noteq> SkipCall" for t
  proof -
    obtain d st' evs where "breaker_decision ?st t pol = (d, st', evs)" by (metis prod_cases3)
    with that try_hold_at [where reg = reg and p = p and m = m, OF this] show ?thesis by simp
  qed
  ultimately show ?thesis by blast
qed

text \<open>
  C14. The breaker is never wedged: once a granted hold is released, by recording the call's
  outcome or by dropping the hold, there is an instant from which the same upstream is
  granted a hold again, whatever policy the later caller brings.
\<close>

theorem released_hold_recovers:
  assumes "registry_wf reg" "try_hold reg t p m pol = (Some h, reg1)"
  shows "(\<exists>t0. \<forall>t \<ge> t0. fst (try_hold (hold_consume reg1 t' h ok) t p m pol') \<noteq> None) \<and>
    (\<exists>t0. \<forall>t \<ge> t0. fst (try_hold (hold_drop reg1 t' h) t p m pol') \<noteq> None)"
proof -
  have h: "h = \<lparr>bh_provider = p, bh_model = m, bh_policy = pol, bh_consumed = False\<rparr>"
    using assms(2) by (auto simp: try_hold_def split: prod.splits BreakerDecision.splits)
  have wf: "registry_wf reg1"
    using holds.acquire_wf [OF assms(1), of "(t, pol)" "(p, m)"] assms(2)
    by (simp add: hold_acquire_def)
  have "\<not> probe_busy (hold_release (t', pol) (p, m) b reg1) (p, m)" for b
    by (rule holds.release_frees [OF wf])
  then have "\<not> probe_busy (hold_consume reg1 t' h ok) (p, m)" "\<not> probe_busy (hold_drop reg1 t' h) (p, m)"
    by (simp_all add: hold_release_def h hold_consume_record hold_drop_record)
  then show ?thesis by (intro conjI try_hold_eventually)
qed

theorem released_hold_recovers_witness:
  "\<exists>t0. \<forall>t \<ge> t0. fst (try_hold (hold_drop (snd (try_hold Map.empty 5 ''a'' ''m''
      \<lparr>bp_enabled = True, bp_failure_threshold_pct = 50, bp_min_requests = 1, bp_window = 60,
       bp_open_cooldown = 30\<rparr>)) 6
      (the (fst (try_hold Map.empty 5 ''a'' ''m''
      \<lparr>bp_enabled = True, bp_failure_threshold_pct = 50, bp_min_requests = 1, bp_window = 60,
       bp_open_cooldown = 30\<rparr>)))) t ''a'' ''m''
      \<lparr>bp_enabled = True, bp_failure_threshold_pct = 50, bp_min_requests = 1, bp_window = 60,
       bp_open_cooldown = 30\<rparr>) \<noteq> None"
proof -
  let ?pol = "\<lparr>bp_enabled = True, bp_failure_threshold_pct = 50, bp_min_requests = 1,
    bp_window = 60, bp_open_cooldown = 30\<rparr>"
  have wf: "registry_wf Map.empty" by (simp add: registry_wf_def)
  obtain h reg1 where h: "try_hold Map.empty 5 ''a'' ''m'' ?pol = (Some h, reg1)"
    by (simp add: registry_defs new_breaker_def breaker_decision_def)
  from released_hold_recovers [OF wf h, of 6 True ?pol] show ?thesis by (simp add: h)
qed

end
