(* ===== verification/Config.thy ===== *)
theory Config
  imports Policy Circuit_Breaker
begin

text \<open>
  The parts of the gateway configuration (\<open>config/src/schema.rs\<close>,
  \<open>config/src/upstream_accessors.rs\<close>) that the router consults: retry and breaker blocks with
  their defaults, tiers, per-upstream cost and latency budget, and route entries. Connection
  settings (URLs, keys, timeouts) of the upstream variants are not consulted by the modelled
  code and are left out of their records. The plugin blocks are those of \<open>config/src/plugins.rs\<close>.
\<close>

record RetryConfig =
  rc_max_attempts :: u32
  rc_initial_backoff_ms :: u64
  rc_multiplier :: f64
  rc_jitter_pct :: f64
  rc_total_budget_ms :: u64
  rc_retry_on :: "string list"

definition retry_config_default :: RetryConfig where
  "retry_config_default = \<lparr>rc_max_attempts = 2, rc_initial_backoff_ms = 100, rc_multiplier = 2,
     rc_jitter_pct = 25, rc_total_budget_ms = 5000,
     rc_retry_on = [''network'', ''upstream_5xx'', ''upstream_429'']\<rparr>"

record BreakerConfig =
  bc_enabled :: bool
  bc_failure_threshold_pct :: u32
  bc_min_requests :: u32
  bc_window_secs :: u64
  bc_open_cooldown_secs :: u64

definition breaker_config_default :: BreakerConfig where
  "breaker_config_default = \<lparr>bc_enabled = True, bc_failure_threshold_pct = 50, bc_min_requests = 20,
     bc_window_secs = 60, bc_open_cooldown_secs = 30\<rparr>"

text \<open>\<open>Duration::from_secs\<close>; an instant counts nanoseconds.\<close>

definition nanos_of_secs :: "u64 \<Rightarrow> nat" where
  "nanos_of_secs n = unat n * 1000000000"

definition breaker_policy_from :: "BreakerConfig \<Rightarrow> BreakerPolicy" where
  "breaker_policy_from c = \<lparr>bp_enabled = bc_enabled c,
     bp_failure_threshold_pct = bc_failure_threshold_pct c, bp_min_requests = bc_min_requests c,
     bp_window = nanos_of_secs (bc_window_secs c), bp_open_cooldown = nanos_of_secs (bc_open_cooldown_secs c)\<rparr>"

datatype Tier = Economy | Standard | Premium

fun tier_rank :: "Tier \<Rightarrow> nat" where
  "tier_rank Economy = 0"
| "tier_rank Standard = 1"
| "tier_rank Premium = 2"

lemma tier_rank_inject [simp]: "tier_rank a = tier_rank b \<longleftrightarrow> a = b"
  by (cases a; cases b) auto

instantiation Tier :: linorder
begin

definition less_eq_Tier :: "Tier \<Rightarrow> Tier \<Rightarrow> bool" where
  "less_eq_Tier a b \<longleftrightarrow> tier_rank a \<le> tier_rank b"

definition less_Tier :: "Tier \<Rightarrow> Tier \<Rightarrow> bool" where
  "less_Tier a b \<longleftrightarrow> tier_rank a < tier_rank b"

instance
  by standard (auto simp: less_eq_Tier_def less_Tier_def)

end

record UpstreamCost =
  input_per_million_usd :: f64
  output_per_million_usd :: f64

record UpstreamFields =
  uf_tier :: Tier
  uf_cost :: "UpstreamCost option"
  uf_p95_latency_budget_ms :: "u64 option"

datatype UpstreamConfig =
    OpenAiCompatible UpstreamFields
  | GithubCopilot UpstreamFields
  | Anthropic UpstreamFields
  | Deepseek UpstreamFields
  | Gemini UpstreamFields
  | Glm UpstreamFields

fun upstream_tier :: "UpstreamConfig \<Rightarrow> Tier" where
  "upstream_tier (OpenAiCompatible c) = uf_tier c"
| "upstream_tier (GithubCopilot c) = uf_tier c"
| "upstream_tier (Anthropic c) = uf_tier c"
| "upstream_tier (Deepseek c) = uf_tier c"
| "upstream_tier (Gemini c) = uf_tier c"
| "upstream_tier (Glm c) = uf_tier c"

fun upstream_cost :: "UpstreamConfig \<Rightarrow> UpstreamCost option" where
  "upstream_cost (OpenAiCompatible c) = uf_cost c"
| "upstream_cost (GithubCopilot c) = uf_cost c"
| "upstream_cost (Anthropic c) = uf_cost c"
| "upstream_cost (Deepseek c) = uf_cost c"
| "upstream_cost (Gemini c) = uf_cost c"
| "upstream_cost (Glm c) = uf_cost c"

fun upstream_latency_budget :: "UpstreamConfig \<Rightarrow> u64 option" where
  "upstream_latency_budget (OpenAiCompatible c) = uf_p95_latency_budget_ms c"
| "upstream_latency_budget (GithubCopilot c) = uf_p95_latency_budget_ms c"
| "upstream_latency_budget (Anthropic c) = uf_p95_latency_budget_ms c"
| "upstream_latency_budget (Deepseek c) = uf_p95_latency_budget_ms c"
| "upstream_latency_budget (Gemini c) = uf_p95_latency_budget_ms c"
| "upstream_latency_budget (Glm c) = uf_p95_latency_budget_ms c"

record UpstreamRef =
  ur_name :: string
  ur_model :: string

record MappingRuleConfig =
  mc_match :: string
  mc_set :: string

text \<open>\<open>config/src/plugins.rs\<close>: a declared plugin and the hook lists of a route.\<close>

datatype OnErrorYaml = YamlSkip | YamlFail

datatype TimeoutMs =
    Uniform u64
  | PerHook (ty_default: "u64 option") (ty_decoded: "u64 option") (ty_resolved: "u64 option")
      (ty_stream: "u64 option") (ty_complete: "u64 option")

record PluginSpec =
  ps_kind :: string
  ps_config :: json
  ps_on_error :: OnErrorYaml
  ps_timeout_ms :: "TimeoutMs option"
  ps_enabled :: bool

record RoutePluginsBlock =
  rb_on_decoded_request :: "string list"
  rb_on_resolved :: "string list"
  rb_on_stream_event :: "string list"
  rb_on_response_complete :: "string list"

definition route_plugins_is_empty :: "RoutePluginsBlock \<Rightarrow> bool" where
  "route_plugins_is_empty b \<longleftrightarrow> rb_on_decoded_request b = [] \<and> rb_on_resolved b = []
     \<and> rb_on_stream_event b = [] \<and> rb_on_response_complete b = []"

record RouteEntry =
  re_frontend :: string
  re_model :: string
  re_upstream :: "string option"
  re_upstream_model :: "string option"
  re_upstreams :: "UpstreamRef list"
  re_reasoning_effort :: "string option"
  re_anthropic_beta :: "string option"
  re_retry :: RetryConfig
  re_breaker :: BreakerConfig
  re_min_tier :: "Tier option"
  re_max_cost_usd :: "f64 option"
  re_reasoning_mapping :: "MappingRuleConfig list"
  re_plugins :: "RoutePluginsBlock option"

record BucketConfig =
  rate_per_sec :: u32
  burst :: u32

record PerIpConfig =
  pi_enabled :: bool
  pi_rate_per_sec :: u32
  pi_burst :: u32

definition per_ip_config_default :: PerIpConfig where
  "per_ip_config_default = \<lparr>pi_enabled = False, pi_rate_per_sec = 5, pi_burst = 20\<rparr>"

text \<open>A \<open>BTreeMap\<close> that is iterated is the association list of its entries in key order.\<close>

record RateLimitConfig =
  rl_enabled :: bool
  rl_per_key_default :: "BucketConfig option"
  rl_per_key_anonymous :: "BucketConfig option"
  rl_per_key_overrides :: "(string \<times> BucketConfig) list"
  rl_per_route :: "(string \<times> BucketConfig) list"
  rl_per_upstream :: "(string \<times> BucketConfig) list"
  rl_per_ip :: PerIpConfig

definition rate_limit_config_default :: RateLimitConfig where
  "rate_limit_config_default = \<lparr>rl_enabled = False, rl_per_key_default = None, rl_per_key_anonymous = None,
     rl_per_key_overrides = [], rl_per_route = [], rl_per_upstream = [], rl_per_ip = per_ip_config_default\<rparr>"

record AuthConfig =
  au_enabled :: bool
  au_required :: bool
  au_keys :: "(string \<times> string) list"

definition auth_config_default :: AuthConfig where
  "auth_config_default = \<lparr>au_enabled = False, au_required = False, au_keys = []\<rparr>"

record GatewayConfig =
  gc_upstreams :: "string \<rightharpoonup> UpstreamConfig"
  gc_routes :: "RouteEntry list"
  gc_auth :: AuthConfig
  gc_rate_limit :: RateLimitConfig

end
