(* ===== verification/Static_Routes.thy ===== *)
theory Static_Routes
  imports Config
begin

text \<open>
  Route validation (\<open>validate_routes\<close> of \<open>config/src/validation.rs\<close>) and the static router
  (\<open>router/src/static_routes.rs\<close>): construction from the configuration and the three-tier lookup.
  An \<open>expect\<close> that would panic is \<open>None\<close>. Warnings are not modelled; the formatted validation
  messages are the constructors of \<open>route_error\<close> with the route's index. Being finite is not a
  condition on the exact reals that stand for \<open>f64\<close>.
\<close>

section \<open>Validation\<close>

datatype route_error =
    BothForms nat
  | NoUpstreamConfigured nat
  | SingularIncomplete nat
  | UnknownUpstream nat string
  | ZeroMaxAttempts nat
  | BudgetBelowBackoff nat
  | BadMultiplier nat
  | BadJitter nat
  | BadThreshold nat
  | ZeroMinRequests nat
  | UnknownEffortMatch nat nat
  | UnknownEffortSet nat nat
  | BadModelPattern nat

definition upstream_is_configured :: "GatewayConfig \<Rightarrow> string list \<Rightarrow> string \<Rightarrow> bool" where
  "upstream_is_configured cfg names name \<longleftrightarrow>
     gc_upstreams cfg name \<noteq> None
     \<or> (name = ''copilot'' \<and>
        list_ex (\<lambda>n. case gc_upstreams cfg n of Some (GithubCopilot _) \<Rightarrow> True | _ \<Rightarrow> False) names)"

text \<open>The loop over the mapping rules: the first offending rule.\<close>

fun check_mapping :: "nat \<Rightarrow> nat \<Rightarrow> MappingRuleConfig list \<Rightarrow> route_error option" where
  "check_mapping i idx [] = None"
| "check_mapping i idx (rule # rules) =
     (if effort_parse (mc_match rule) = None then Some (UnknownEffortMatch i idx)
      else if effort_parse (mc_set rule) = None then Some (UnknownEffortSet i idx)
      else check_mapping i (Suc idx) rules)"

definition valid_model_pattern :: "string \<Rightarrow> bool" where
  "valid_model_pattern model \<longleftrightarrow>
     (model = ''*'' \<or>
      (let star_count = length (filter (\<lambda>c. c = CHR ''*'') model);
           star_at_end = (model \<noteq> [] \<and> last model = CHR ''*'');
           prefix_non_empty = (length model > 1);
           valid_no_star = (star_count = 0);
           valid_prefix = (star_count = 1 \<and> star_at_end \<and> prefix_non_empty)
       in valid_no_star \<or> valid_prefix))"

definition route_upstream_names :: "RouteEntry \<Rightarrow> string list" where
  "route_upstream_names route =
     (if re_upstreams route \<noteq> [] then map ur_name (re_upstreams route)
      else [the (re_upstream route)])"

definition validate_route :: "GatewayConfig \<Rightarrow> string list \<Rightarrow> nat \<Rightarrow> RouteEntry \<Rightarrow> route_error option" where
  "validate_route cfg names i route =
     (let has_singular = (re_upstream route \<noteq> None \<or> re_upstream_model route \<noteq> None);
          has_array = (re_upstreams route \<noteq> [])
      in if has_singular \<and> has_array then Some (BothForms i)
         else if \<not> has_singular \<and> \<not> has_array then Some (NoUpstreamConfigured i)
         else if has_singular \<and> \<not> has_array \<and> (re_upstream route = None \<or> re_upstream_model route = None)
         then Some (SingularIncomplete i)
         else case find (\<lambda>n. \<not> upstream_is_configured cfg names n) (route_upstream_names route) of
           Some n \<Rightarrow> Some (UnknownUpstream i n)
         | None \<Rightarrow>
             if rc_max_attempts (re_retry route) = 0 then Some (ZeroMaxAttempts i)
             else if rc_total_budget_ms (re_retry route) < rc_initial_backoff_ms (re_retry route)
             then Some (BudgetBelowBackoff i)
             else if rc_multiplier (re_retry route) \<le> 1 then Some (BadMultiplier i)
             else if rc_jitter_pct (re_retry route) < 0 \<or> rc_jitter_pct (re_retry route) > 100
             then Some (BadJitter i)
             else if \<not> (1 \<le> bc_failure_threshold_pct (re_breaker route)
                        \<and> bc_failure_threshold_pct (re_breaker route) \<le> 100)
             then Some (BadThreshold i)
             else if bc_min_requests (re_breaker route) = 0 then Some (ZeroMinRequests i)
             else case check_mapping i 0 (re_reasoning_mapping route) of
               Some e \<Rightarrow> Some e
             | None \<Rightarrow> if \<not> valid_model_pattern (re_model route) then Some (BadModelPattern i) else None)"

fun validate_loop :: "GatewayConfig \<Rightarrow> string list \<Rightarrow> nat \<Rightarrow> RouteEntry list \<Rightarrow> route_error + unit" where
  "validate_loop cfg names i [] = Inr ()"
| "validate_loop cfg names i (route # routes) =
     (case validate_route cfg names i route of
        Some e \<Rightarrow> Inl e
      | None \<Rightarrow> validate_loop cfg names (Suc i) routes)"

text \<open>\<open>names\<close> enumerates the keys of the upstream table.\<close>

definition validate_routes :: "GatewayConfig \<Rightarrow> string list \<Rightarrow> route_error + unit" where
  "validate_routes cfg names = validate_loop cfg names 0 (gc_routes cfg)"

section \<open>Construction\<close>

record WildcardTarget =
  wt_provider :: string
  wt_upstream_model :: string
  wt_policy :: RoutePolicy

record PrefixRoute =
  pr_prefix :: string
  pr_chain :: "BackendTarget list"
  pr_passthrough :: bool
  pr_entry :: RouteEntry

record StaticRouter =
  sr_exact :: "FrontendKind \<times> string \<rightharpoonup> BackendTarget list"
  sr_exact_entries :: "FrontendKind \<times> string \<rightharpoonup> RouteEntry"
  sr_prefixes :: "FrontendKind \<Rightarrow> PrefixRoute list"
  sr_wildcards :: "FrontendKind \<rightharpoonup> WildcardTarget"
  sr_wildcard_entries :: "FrontendKind \<rightharpoonup> RouteEntry"

definition frontend_of_string :: "string \<Rightarrow> FrontendKind option" where
  "frontend_of_string s =
     (if s = ''anthropic_messages'' \<or> s = ''anthropic'' then Some AnthropicMessages
      else if s = ''openai_chat'' \<or> s = ''openai'' then Some OpenAiChat
      else if s = ''openai_responses'' \<or> s = ''responses'' then Some OpenAiResponses
      else None)"

definition route_policy :: "RouteEntry \<Rightarrow> RoutePolicy" where
  "route_policy entry =
     \<lparr>default_reasoning_effort = Option.bind (re_reasoning_effort entry) effort_parse,
      default_anthropic_beta = re_anthropic_beta entry,
      reasoning_mapping = List.map_filter (\<lambda>rule. case (effort_parse (mc_match rule), effort_parse (mc_set rule)) of
          (Some m, Some s) \<Rightarrow> Some \<lparr>mr_match = m, mr_set = s\<rparr> | _ \<Rightarrow> None) (re_reasoning_mapping entry)\<rparr>"

definition route_targets :: "RouteEntry \<Rightarrow> BackendTarget list option" where
  "route_targets entry =
     (if re_upstreams entry \<noteq> []
      then Some (map (\<lambda>u. \<lparr>bt_provider = ur_name u, bt_model = ur_model u, bt_policy = route_policy entry\<rparr>)
                   (re_upstreams entry))
      else case (re_upstream entry, re_upstream_model entry) of
        (Some provider, Some upstream_model) \<Rightarrow>
          Some [\<lparr>bt_provider = provider, bt_model = upstream_model, bt_policy = route_policy entry\<rparr>]
      | _ \<Rightarrow> None)"

definition wildcard_target :: "BackendTarget list \<Rightarrow> WildcardTarget" where
  "wildcard_target targets = \<lparr>wt_provider = bt_provider (hd targets),
     wt_upstream_model = bt_model (hd targets), wt_policy = bt_policy (hd targets)\<rparr>"

definition prefix_route :: "string \<Rightarrow> BackendTarget list \<Rightarrow> RouteEntry \<Rightarrow> PrefixRoute" where
  "prefix_route p targets entry = \<lparr>pr_prefix = p, pr_chain = targets,
     pr_passthrough = (re_upstreams entry = [] \<and> re_upstream_model entry = Some ''*''), pr_entry = entry\<rparr>"

definition add_route :: "StaticRouter \<Rightarrow> RouteEntry \<Rightarrow> StaticRouter option" where
  "add_route r entry =
     (case frontend_of_string (re_frontend entry) of
        None \<Rightarrow> Some r
      | Some fe \<Rightarrow>
          (case route_targets entry of
             None \<Rightarrow> None
           | Some targets \<Rightarrow>
               (if re_model entry = ''*'' then
                  Some (r\<lparr>sr_wildcards := (sr_wildcards r)(fe \<mapsto> wildcard_target targets),
                          sr_wildcard_entries := (sr_wildcard_entries r)(fe \<mapsto> entry)\<rparr>)
                else case strip_suffix_char (re_model entry) CHR ''*'' of
                  Some p \<Rightarrow>
                    Some (r\<lparr>sr_prefixes := (sr_prefixes r)(fe :=
                       filter (\<lambda>existing. pr_prefix existing \<noteq> p) (sr_prefixes r fe)
                         @ [prefix_route p targets entry])\<rparr>)
                | None \<Rightarrow>
                    Some (r\<lparr>sr_exact := (sr_exact r)((fe, re_model entry) \<mapsto> targets),
                            sr_exact_entries := (sr_exact_entries r)((fe, re_model entry) \<mapsto> entry)\<rparr>))))"

definition router_empty :: StaticRouter where
  "router_empty = \<lparr>sr_exact = Map.empty, sr_exact_entries = Map.empty, sr_prefixes = (\<lambda>_. []),
     sr_wildcards = Map.empty, sr_wildcard_entries = Map.empty\<rparr>"

fun add_routes :: "StaticRouter \<Rightarrow> RouteEntry list \<Rightarrow> StaticRouter option" where
  "add_routes r [] = Some r"
| "add_routes r (entry # entries) = Option.bind (add_route r entry) (\<lambda>r'. add_routes r' entries)"

definition router_from_config :: "GatewayConfig \<Rightarrow> StaticRouter option" where
  "router_from_config cfg = map_option
     (\<lambda>r. r\<lparr>sr_prefixes := (\<lambda>fe. sort_key (\<lambda>pr. - int (length (pr_prefix pr))) (sr_prefixes r fe))\<rparr>)
     (add_routes router_empty (gc_routes cfg))"

section \<open>Lookup\<close>

record ResolvedRoute =
  rr_chain :: "BackendTarget list"
  rr_retry :: RetryConfig
  rr_breaker :: BreakerConfig
  rr_route_label :: string

datatype RouteError = NoRoute FrontendKind string

fun frontend_kind_str :: "FrontendKind \<Rightarrow> string" where
  "frontend_kind_str AnthropicMessages = ''anthropic_messages''"
| "frontend_kind_str OpenAiChat = ''openai_chat''"
| "frontend_kind_str OpenAiResponses = ''openai_responses''"

definition route_label :: "FrontendKind \<Rightarrow> string \<Rightarrow> string" where
  "route_label fe model = frontend_kind_str fe @ ''/'' @ model"

definition retry_config_for :: "RouteEntry option \<Rightarrow> RetryConfig" where
  "retry_config_for o' = (case o' of Some entry \<Rightarrow> re_retry entry | None \<Rightarrow> retry_config_default)"

definition breaker_config_for :: "RouteEntry option \<Rightarrow> BreakerConfig" where
  "breaker_config_for o' = (case o' of Some entry \<Rightarrow> re_breaker entry | None \<Rightarrow> breaker_config_default)"

definition set_head_model :: "string \<Rightarrow> BackendTarget list \<Rightarrow> BackendTarget list" where
  "set_head_model model chain = (case chain of [] \<Rightarrow> [] | t # ts \<Rightarrow> t\<lparr>bt_model := model\<rparr> # ts)"

definition resolve_route :: "StaticRouter \<Rightarrow> FrontendKind \<Rightarrow> string \<Rightarrow> RouteError + ResolvedRoute" where
  "resolve_route r fe model =
     (case sr_exact r (fe, model) of
        Some targets \<Rightarrow> Inr \<lparr>rr_chain = targets, rr_retry = retry_config_for (sr_exact_entries r (fe, model)),
          rr_breaker = breaker_config_for (sr_exact_entries r (fe, model)), rr_route_label = route_label fe model\<rparr>
      | None \<Rightarrow>
          (case find (\<lambda>pr. starts_with model (pr_prefix pr)) (sr_prefixes r fe) of
             Some pr \<Rightarrow> Inr \<lparr>rr_chain = (if pr_passthrough pr then set_head_model model (pr_chain pr) else pr_chain pr),
               rr_retry = re_retry (pr_entry pr), rr_breaker = re_breaker (pr_entry pr),
               rr_route_label = route_label fe model\<rparr>
           | None \<Rightarrow>
               (case sr_wildcards r fe of
                  Some wc \<Rightarrow> Inr \<lparr>rr_chain = [\<lparr>bt_provider = wt_provider wc,
                      bt_model = (if wt_upstream_model wc = ''*'' then model else wt_upstream_model wc),
                      bt_policy = wt_policy wc\<rparr>],
                    rr_retry = retry_config_for (sr_wildcard_entries r fe),
                    rr_breaker = breaker_config_for (sr_wildcard_entries r fe),
                    rr_route_label = route_label fe model\<rparr>
                | None \<Rightarrow> Inl (NoRoute fe model))))"

definition router_resolve :: "StaticRouter \<Rightarrow> FrontendKind \<Rightarrow> string \<Rightarrow> RouteError + BackendTarget list" where
  "router_resolve r fe model = map_sum id rr_chain (resolve_route r fe model)"

definition list_routes :: "StaticRouter \<Rightarrow> (FrontendKind \<times> string) set" where
  "list_routes r = dom (sr_exact_entries r)"

section \<open>The specification of the lookup\<close>

text \<open>The kinds of route, and the last one of a kind that the configuration lists.\<close>

definition is_exact :: "FrontendKind \<Rightarrow> string \<Rightarrow> RouteEntry \<Rightarrow> bool" where
  "is_exact fe m e \<longleftrightarrow> frontend_of_string (re_frontend e) = Some fe \<and> re_model e = m
     \<and> strip_suffix_char (re_model e) CHR ''*'' = None"

definition is_prefix :: "FrontendKind \<Rightarrow> string \<Rightarrow> RouteEntry \<Rightarrow> bool" where
  "is_prefix fe p e \<longleftrightarrow> frontend_of_string (re_frontend e) = Some fe \<and> re_model e \<noteq> ''*''
     \<and> strip_suffix_char (re_model e) CHR ''*'' = Some p"

definition is_wild :: "FrontendKind \<Rightarrow> RouteEntry \<Rightarrow> bool" where
  "is_wild fe e \<longleftrightarrow> frontend_of_string (re_frontend e) = Some fe \<and> re_model e = ''*''"

definition last_route :: "(RouteEntry \<Rightarrow> bool) \<Rightarrow> RouteEntry list \<Rightarrow> RouteEntry option" where
  "last_route P es = find P (rev es)"

text \<open>The route that serves a model: an exact one, else the one with the longest matching
  prefix, else the catch-all; of several equal ones the last.\<close>

definition route_for :: "RouteEntry list \<Rightarrow> FrontendKind \<Rightarrow> string \<Rightarrow> RouteEntry option" where
  "route_for es fe m =
     (case last_route (is_exact fe m) es of
        Some e \<Rightarrow> Some e
      | None \<Rightarrow>
          (case find (\<lambda>k. last_route (is_prefix fe (take k m)) es \<noteq> None) (rev [0..<Suc (length m)]) of
             Some k \<Rightarrow> last_route (is_prefix fe (take k m)) es
           | None \<Rightarrow> last_route (is_wild fe) es))"

definition served_chain :: "string \<Rightarrow> RouteEntry \<Rightarrow> BackendTarget list" where
  "served_chain m e =
     (let targets = the (route_targets e) in
      if re_model e = ''*'' then
        [(hd targets)\<lparr>bt_model := (if bt_model (hd targets) = ''*'' then m else bt_model (hd targets))\<rparr>]
      else if strip_suffix_char (re_model e) CHR ''*'' \<noteq> None \<and> re_upstreams e = [] \<and> re_upstream_model e = Some ''*''
      then set_head_model m targets
      else targets)"

definition served_by :: "FrontendKind \<Rightarrow> string \<Rightarrow> RouteEntry \<Rightarrow> ResolvedRoute" where
  "served_by fe m e = \<lparr>rr_chain = served_chain m e, rr_retry = re_retry e, rr_breaker = re_breaker e,
     rr_route_label = route_label fe m\<rparr>"

definition router_inv :: "RouteEntry list \<Rightarrow> StaticRouter \<Rightarrow> bool" where
  "router_inv es r \<longleftrightarrow>
     (\<forall>e \<in> set es. frontend_of_string (re_frontend e) \<noteq> None \<longrightarrow> route_targets e \<noteq> None)
     \<and> (\<forall>fe m. sr_exact_entries r (fe, m) = last_route (is_exact fe m) es
          \<and> sr_exact r (fe, m) = map_option (the \<circ> route_targets) (last_route (is_exact fe m) es))
     \<and> (\<forall>fe. sr_wildcard_entries r fe = last_route (is_wild fe) es
          \<and> sr_wildcards r fe = map_option (wildcard_target \<circ> the \<circ> route_targets) (last_route (is_wild fe) es))
     \<and> (\<forall>fe p. find (\<lambda>pr. pr_prefix pr = p) (sr_prefixes r fe) =
          map_option (\<lambda>e. prefix_route p (the (route_targets e)) e) (last_route (is_prefix fe p) es))
     \<and> (\<forall>fe. distinct (map pr_prefix (sr_prefixes r fe)))"

lemma last_route_snoc: "last_route P (es @ [e]) = (if P e then Some e else last_route P es)"
  by (simp add: last_route_def)

lemma find_filter_neq:
  "find (\<lambda>pr. f pr = p) (filter (\<lambda>pr. f pr \<noteq> q) xs) = (if p = q then None else find (\<lambda>pr. f pr = p) xs)"
  by (induction xs) auto

lemma distinct_map_filter: "distinct (map f xs) \<Longrightarrow> distinct (map f (filter P xs))"
  by (induction xs) auto

lemma add_route_inv:
  assumes inv: "router_inv es r" and add: "add_route r e = Some r'"
  shows "router_inv (es @ [e]) r'"
proof (cases "frontend_of_string (re_frontend e)")
  case None
  with assms show ?thesis
    by (auto simp: add_route_def router_inv_def last_route_snoc is_exact_def is_prefix_def is_wild_def)
next
  case (Some fe)
  with add obtain targets where t: "route_targets e = Some targets"
    by (auto simp: add_route_def split: option.splits)
  consider (wild) "re_model e = ''*''"
    | (pre) p where "re_model e \<noteq> ''*''" "strip_suffix_char (re_model e) CHR ''*'' = Some p"
    | (ex) "re_model e \<noteq> ''*''" "strip_suffix_char (re_model e) CHR ''*'' = None"
    by (cases "strip_suffix_char (re_model e) CHR ''*''") auto
  then show ?thesis
  proof cases
    case wild
    have "strip_suffix_char ''*'' CHR ''*'' \<noteq> None" by (simp add: strip_suffix_char_def)
    with wild inv add Some t show ?thesis
      by (auto simp: add_route_def router_inv_def last_route_snoc is_exact_def is_prefix_def is_wild_def)
  next
    case pre
    with inv add Some t show ?thesis
      by (auto simp: add_route_def router_inv_def last_route_snoc is_exact_def is_prefix_def is_wild_def
          find_append find_filter_neq distinct_map_filter prefix_route_def split: option.splits)
  next
    case ex
    with inv add Some t show ?thesis
      by (auto simp: add_route_def router_inv_def last_route_snoc is_exact_def is_prefix_def is_wild_def)
  qed
qed

lemma add_routes_inv:
  "router_inv es r \<Longrightarrow> add_routes r fs = Some r' \<Longrightarrow> router_inv (es @ fs) r'"
proof (induction fs arbitrary: es r)
  case (Cons e fs)
  then obtain r1 where "add_route r e = Some r1" "add_routes r1 fs = Some r'"
    by (auto simp: bind_eq_Some_conv)
  with Cons.IH [of "es @ [e]" r1] Cons.prems(1) add_route_inv show ?case by simp
qed simp

lemma find_rev_upt:
  "find Q (rev [0..<Suc n]) = Some k \<longleftrightarrow> k \<le> n \<and> Q k \<and> (\<forall>j. k < j \<and> j \<le> n \<longrightarrow> \<not> Q j)"
proof (induction n)
  case (Suc n)
  then show ?case by (auto simp: le_Suc_eq)
qed auto

lemma find_sorted_least:
  "sorted (map f xs) \<Longrightarrow> find P xs = Some x \<Longrightarrow> y \<in> set xs \<Longrightarrow> P y \<Longrightarrow> f x \<le> f y"
  by (induction xs) (auto split: if_splits)

lemma find_prefix_mem:
  "distinct (map f xs) \<Longrightarrow> find (\<lambda>x. f x = p) xs = Some x \<longleftrightarrow> x \<in> set xs \<and> f x = p"
  by (induction xs) (auto split: if_splits)

text \<open>The scan of a bucket that is sorted by descending prefix length finds the longest match.\<close>

lemma longest_prefix_scan:
  assumes b: "distinct (map pr_prefix b)" "sorted (map (\<lambda>pr. - int (length (pr_prefix pr))) b)"
  shows "find (\<lambda>pr. starts_with m (pr_prefix pr)) b =
    (case find (\<lambda>k. find (\<lambda>pr. pr_prefix pr = take k m) b \<noteq> None) (rev [0..<Suc (length m)]) of
       Some k \<Rightarrow> find (\<lambda>pr. pr_prefix pr = take k m) b | None \<Rightarrow> None)"
proof (cases "find (\<lambda>pr. starts_with m (pr_prefix pr)) b")
  case None
  have "starts_with m (take k m)" for k by (simp add: starts_with_def min_def)
  with None have "find (\<lambda>pr. pr_prefix pr = take k m) b = None" for k
    by (metis (mono_tags, lifting) find_None_iff)
  then show ?thesis using None by (simp split: option.splits)
next
  case (Some pr)
  then have pr: "pr \<in> set b" "starts_with m (pr_prefix pr)"
    by (auto simp: find_Some_iff)
  let ?k = "length (pr_prefix pr)"
  have k: "pr_prefix pr = take ?k m" "?k \<le> length m"
    using pr(2) unfolding starts_with_def by (simp, metis length_take min.cobounded1)
  have hit: "find (\<lambda>x. pr_prefix x = take ?k m) b = Some pr"
    using b(1) pr(1) k(1) by (simp add: find_prefix_mem)
  have "find (\<lambda>x. pr_prefix x = take j m) b = None" if "?k < j" "j \<le> length m" for j
  proof (rule ccontr)
    assume "find (\<lambda>x. pr_prefix x = take j m) b \<noteq> None"
    then obtain x where "x \<in> set b" "pr_prefix x = take j m"
      by (auto simp: find_prefix_mem [OF b(1)])
    with find_sorted_least [OF b(2) Some, of x] that show False
      by (auto simp: starts_with_def)
  qed
  with hit k have "find (\<lambda>k. find (\<lambda>pr. pr_prefix pr = take k m) b \<noteq> None) (rev [0..<Suc (length m)]) = Some ?k"
    by (subst find_rev_upt) auto
  with Some hit show ?thesis by simp
qed

lemma target_eta:
  "\<lparr>bt_provider = bt_provider h, bt_model = x, bt_policy = bt_policy h\<rparr> = h\<lparr>bt_model := x\<rparr>"
  by (cases h) simp

lemma find_sort_key:
  assumes "distinct (map f xs)"
  shows "find (\<lambda>x. f x = p) (sort_key g xs) = find (\<lambda>x. f x = p) xs"
proof -
  have d: "distinct (map f (sort_key g xs))"
    using assms by (simp add: distinct_map)
  show ?thesis
  proof (cases "find (\<lambda>x. f x = p) xs")
    case None
    then have "find (\<lambda>x. f x = p) (sort_key g xs) = None" by (simp add: find_None_iff)
    with None show ?thesis by simp
  next
    case (Some x)
    then have "x \<in> set xs" "f x = p" by (simp_all add: find_prefix_mem [OF assms])
    with Some show ?thesis using find_prefix_mem [OF d, of p x] by simp
  qed
qed

text \<open>The tables of a built router, in terms of the configured routes.\<close>

lemma router_tables:
  assumes "router_from_config cfg = Some r"
  shows "sr_exact r (fe, m) = map_option (the \<circ> route_targets) (last_route (is_exact fe m) (gc_routes cfg))"
    and "sr_exact_entries r (fe, m) = last_route (is_exact fe m) (gc_routes cfg)"
    and "sr_wildcards r fe = map_option (wildcard_target \<circ> the \<circ> route_targets) (last_route (is_wild fe) (gc_routes cfg))"
    and "sr_wildcard_entries r fe = last_route (is_wild fe) (gc_routes cfg)"
    and "find (\<lambda>pr. starts_with m (pr_prefix pr)) (sr_prefixes r fe) =
      (case find (\<lambda>k. last_route (is_prefix fe (take k m)) (gc_routes cfg) \<noteq> None) (rev [0..<Suc (length m)]) of
         Some k \<Rightarrow> map_option (\<lambda>e. prefix_route (take k m) (the (route_targets e)) e) (last_route (is_prefix fe (take k m)) (gc_routes cfg))
       | None \<Rightarrow> None)"
proof -
  let ?es = "gc_routes cfg"
  obtain r0 where r0: "add_routes router_empty ?es = Some r0"
      "r = r0\<lparr>sr_prefixes := (\<lambda>fe. sort_key (\<lambda>pr. - int (length (pr_prefix pr))) (sr_prefixes r0 fe))\<rparr>"
    using assms by (auto simp: router_from_config_def)
  have "router_inv [] router_empty" by (simp add: router_inv_def router_empty_def last_route_def)
  from add_routes_inv [OF this r0(1)] have inv: "router_inv ?es r0" by simp
  show "sr_exact r (fe, m) = map_option (the \<circ> route_targets) (last_route (is_exact fe m) (gc_routes cfg))"
      "sr_exact_entries r (fe, m) = last_route (is_exact fe m) (gc_routes cfg)"
      "sr_wildcards r fe = map_option (wildcard_target \<circ> the \<circ> route_targets) (last_route (is_wild fe) (gc_routes cfg))"
      "sr_wildcard_entries r fe = last_route (is_wild fe) (gc_routes cfg)"
    using inv by (auto simp: router_inv_def r0(2))
  have d: "distinct (map pr_prefix (sr_prefixes r0 fe))" using inv by (simp add: router_inv_def)
  have pre: "find (\<lambda>pr. pr_prefix pr = p) (sr_prefixes r fe) =
      map_option (\<lambda>e. prefix_route p (the (route_targets e)) e) (last_route (is_prefix fe p) ?es)" for p
    using inv by (simp add: r0(2) find_sort_key [OF d] router_inv_def)
  have "distinct (map pr_prefix (sr_prefixes r fe))"
      "sorted (map (\<lambda>pr. - int (length (pr_prefix pr))) (sr_prefixes r fe))"
    using d by (simp_all add: r0(2) distinct_map)
  from longest_prefix_scan [OF this, of m, unfolded pre]
  show "find (\<lambda>pr. starts_with m (pr_prefix pr)) (sr_prefixes r fe) =
      (case find (\<lambda>k. last_route (is_prefix fe (take k m)) (gc_routes cfg) \<noteq> None) (rev [0..<Suc (length m)]) of
         Some k \<Rightarrow> map_option (\<lambda>e. prefix_route (take k m) (the (route_targets e)) e) (last_route (is_prefix fe (take k m)) (gc_routes cfg))
       | None \<Rightarrow> None)" by simp
qed

text \<open>Every chain of a built router has a head.\<close>

definition chains_nonempty :: "StaticRouter \<Rightarrow> bool" where
  "chains_nonempty r \<longleftrightarrow> (\<forall>fe m. sr_exact r (fe, m) \<noteq> Some []) \<and> (\<forall>fe. \<forall>pr \<in> set (sr_prefixes r fe). pr_chain pr \<noteq> [])"

lemma add_route_nonempty: "add_route r e = Some r' \<Longrightarrow> chains_nonempty r \<Longrightarrow> chains_nonempty r'"
  by (auto simp: add_route_def chains_nonempty_def route_targets_def prefix_route_def split: option.splits if_splits)

lemma router_chain_nonempty:
  assumes "router_from_config cfg = Some r" "resolve_route r fe m = Inr resolved"
  shows "rr_chain resolved \<noteq> []"
proof -
  have run: "add_routes r0 es = Some r1 \<Longrightarrow> chains_nonempty r0 \<Longrightarrow> chains_nonempty r1" for r0 r1 es
    by (induction es arbitrary: r0) (auto split: Option.bind_splits dest: add_route_nonempty)
  have "chains_nonempty router_empty" by (simp add: chains_nonempty_def router_empty_def)
  then have "chains_nonempty r"
    using assms(1) run [of router_empty "gc_routes cfg"] by (auto simp: router_from_config_def chains_nonempty_def)
  moreover have "find P xs = Some pr \<Longrightarrow> pr \<in> set xs" for P and pr :: PrefixRoute and xs by (auto simp: find_Some_iff)
  ultimately show ?thesis using assms(2)
    by (fastforce simp: resolve_route_def chains_nonempty_def set_head_model_def split: option.splits list.splits if_splits)
qed

text \<open>C18. The router built from a configuration serves every model by the route the specification
  names: an exact route before any pattern, among the matching prefix patterns the longest,
  the catch-all only when nothing else matches, the later of two equal entries, and
  \<open>NoRoute\<close> exactly when none matches; retry and breaker settings are that route's own.\<close>

theorem resolve_route_spec:
  assumes "router_from_config cfg = Some r"
  shows "resolve_route r fe m =
    (case route_for (gc_routes cfg) fe m of
       None \<Rightarrow> Inl (NoRoute fe m) | Some e \<Rightarrow> Inr (served_by fe m e))"
proof -
  let ?es = "gc_routes cfg"
  note ex = router_tables(1,2) [OF assms, of fe m] and wc = router_tables(3,4) [OF assms, of fe]
    and scan = router_tables(5) [OF assms, of m fe]
  show ?thesis
  proof (cases "last_route (is_exact fe m) ?es")
    case (Some e)
    then have "re_model e = m" "m \<noteq> ''*''" "strip_suffix_char m CHR ''*'' = None"
      by (auto simp: last_route_def find_Some_iff is_exact_def strip_suffix_char_def)
    with Some ex show ?thesis
      by (simp add: resolve_route_def route_for_def served_by_def served_chain_def retry_config_for_def
          breaker_config_for_def)
  next
    case noex: None
    show ?thesis
    proof (cases "find (\<lambda>k. last_route (is_prefix fe (take k m)) ?es \<noteq> None) (rev [0..<Suc (length m)])")
      case (Some k)
      from this [unfolded find_rev_upt] obtain e
        where e: "last_route (is_prefix fe (take k m)) ?es = Some e" by auto
      then have "re_model e \<noteq> ''*''" "strip_suffix_char (re_model e) CHR ''*'' \<noteq> None"
        by (auto simp: last_route_def find_Some_iff is_prefix_def)
      with noex ex scan Some e show ?thesis
        by (simp add: resolve_route_def route_for_def served_by_def served_chain_def prefix_route_def Let_def)
    next
      case nopre: None
      show ?thesis
      proof (cases "last_route (is_wild fe) ?es")
        case None
        with noex ex scan nopre wc show ?thesis by (simp add: resolve_route_def route_for_def)
      next
        case (Some e)
        then have "re_model e = ''*''" by (auto simp: last_route_def find_Some_iff is_wild_def)
        with noex ex scan nopre wc Some show ?thesis
          by (simp add: resolve_route_def route_for_def served_by_def served_chain_def wildcard_target_def
              retry_config_for_def breaker_config_for_def Let_def target_eta)
      qed
    qed
  qed
qed

definition demo_route :: "string \<Rightarrow> string \<Rightarrow> string \<Rightarrow> RouteEntry" where
  "demo_route model up um = \<lparr>re_frontend = ''openai'', re_model = model, re_upstream = Some up,
     re_upstream_model = Some um, re_upstreams = [], re_reasoning_effort = None, re_anthropic_beta = None,
     re_retry = retry_config_default, re_breaker = breaker_config_default, re_min_tier = None,
     re_max_cost_usd = None, re_reasoning_mapping = [], re_plugins = None\<rparr>"

definition demo_upstream :: UpstreamConfig where
  "demo_upstream = OpenAiCompatible \<lparr>uf_tier = Standard, uf_cost = None, uf_p95_latency_budget_ms = None\<rparr>"

definition demo_gateway :: "RouteEntry list \<Rightarrow> GatewayConfig" where
  "demo_gateway routes = \<lparr>gc_upstreams = [''a'' \<mapsto> demo_upstream, ''b'' \<mapsto> demo_upstream], gc_routes = routes,
     gc_auth = auth_config_default, gc_rate_limit = rate_limit_config_default\<rparr>"

definition demo_config :: GatewayConfig where
  "demo_config =
     demo_gateway [demo_route ''*'' ''a'' ''*'', demo_route ''gpt-*'' ''a'' ''*'', demo_route ''gpt-4*'' ''b'' ''x'']"

lemmas demo_route_defs = demo_route_def demo_config_def demo_upstream_def demo_gateway_def

theorem resolve_route_spec_witness:
  "map_option (\<lambda>r. map_sum id (map bt_provider) (router_resolve r OpenAiChat ''gpt-4o''))
     (router_from_config demo_config) = Some (Inr [''b''])"
proof -
  obtain r where r: "router_from_config demo_config = Some r"
    by (simp add: router_from_config_def add_route_def demo_route_defs frontend_of_string_def
        route_targets_def strip_suffix_char_def)
  have "route_for (gc_routes demo_config) OpenAiChat ''gpt-4o'' = Some (demo_route ''gpt-4*'' ''b'' ''x'')"
    by (simp add: route_for_def last_route_def is_exact_def is_prefix_def is_wild_def demo_route_defs
        frontend_of_string_def strip_suffix_char_def)
  with resolve_route_spec [OF r, of OpenAiChat "''gpt-4o''"] r show ?thesis
    by (simp add: router_resolve_def served_by_def served_chain_def demo_route_def strip_suffix_char_def
        route_targets_def)
qed

section \<open>Validated configurations\<close>

lemma validate_loop_ok:
  "validate_loop cfg names i routes = Inr () \<Longrightarrow> route \<in> set routes \<Longrightarrow>
     \<exists>j. validate_route cfg names j route = None"
  by (induction cfg names i routes rule: validate_loop.induct) (auto split: option.splits)

lemma validated_targets: "validate_route cfg names i route = None \<Longrightarrow> route_targets route \<noteq> None"
  by (auto simp: validate_route_def route_targets_def Let_def split: if_splits option.splits)

lemma add_routes_total:
  "(\<forall>e \<in> set es. route_targets e \<noteq> None) \<Longrightarrow> \<exists>r'. add_routes r es = Some r'"
proof (induction es arbitrary: r)
  case (Cons e es)
  have "add_route r e \<noteq> None"
    using Cons.prems by (auto simp: add_route_def split: option.splits)
  with Cons show ?case by auto
qed simp

lemma validated_router:
  assumes "validate_routes cfg names = Inr ()"
  shows "\<exists>r. router_from_config cfg = Some r"
proof -
  have "\<exists>r'. add_routes router_empty (gc_routes cfg) = Some r'"
    by (rule add_routes_total) (use assms validate_loop_ok validated_targets in \<open>unfold validate_routes_def, blast\<close>)
  then show ?thesis by (auto simp: router_from_config_def)
qed

text \<open>A configuration whose routes pass validation always yields a router: neither \<open>expect\<close> of
  the construction can panic. In every validated route the breaker threshold lies between 1
  and 100 percent, at least one attempt is made, the jitter stays in its range, the
  reasoning mapping survives translation in full, and the model pattern has at most one star,
  at its end.\<close>

theorem validated_config_routes:
  assumes "validate_routes cfg names = Inr ()"
  shows "(\<exists>r. router_from_config cfg = Some r)
    \<and> (\<forall>route \<in> set (gc_routes cfg).
         1 \<le> rc_max_attempts (re_retry route)
         \<and> 1 \<le> bc_failure_threshold_pct (re_breaker route) \<and> bc_failure_threshold_pct (re_breaker route) \<le> 100
         \<and> 1 < rc_multiplier (re_retry route)
         \<and> 0 \<le> rc_jitter_pct (re_retry route) \<and> rc_jitter_pct (re_retry route) \<le> 100
         \<and> length (reasoning_mapping (route_policy route)) = length (re_reasoning_mapping route)
         \<and> valid_model_pattern (re_model route))"
proof -
  have ok: "\<exists>j. validate_route cfg names j route = None" if "route \<in> set (gc_routes cfg)" for route
    using assms that unfolding validate_routes_def by (rule validate_loop_ok)
  have mapping: "check_mapping i j rules = None \<Longrightarrow>
      length (List.map_filter (\<lambda>rule. case (effort_parse (mc_match rule), effort_parse (mc_set rule)) of
          (Some m, Some s) \<Rightarrow> Some \<lparr>mr_match = m, mr_set = s\<rparr> | _ \<Rightarrow> None) rules) = length rules" for i j rules
    by (induction i j rules rule: check_mapping.induct)
      (auto simp: List.map_filter_simps split: if_splits option.splits)
  have one: "n \<noteq> 0 \<Longrightarrow> 1 \<le> n" for n :: u32
    by (simp add: word_le_nat_alt unat_gt_0 Suc_le_eq)
  have "\<exists>r. router_from_config cfg = Some r" by (rule validated_router [OF assms])
  moreover have "1 \<le> rc_max_attempts (re_retry route)
         \<and> 1 \<le> bc_failure_threshold_pct (re_breaker route) \<and> bc_failure_threshold_pct (re_breaker route) \<le> 100
         \<and> 1 < rc_multiplier (re_retry route)
         \<and> 0 \<le> rc_jitter_pct (re_retry route) \<and> rc_jitter_pct (re_retry route) \<le> 100
         \<and> length (reasoning_mapping (route_policy route)) = length (re_reasoning_mapping route)
         \<and> valid_model_pattern (re_model route)" if "route \<in> set (gc_routes cfg)" for route
    using ok [OF that] one mapping
    by (auto simp: validate_route_def Let_def route_policy_def split: if_splits option.splits)
  ultimately show ?thesis by blast
qed

theorem validated_config_routes_witness:
  "validate_routes demo_config [''a'', ''b''] = Inr () \<and> (\<exists>r. router_from_config demo_config = Some r)"
proof -
  have "validate_routes demo_config [''a'', ''b''] = Inr ()"
    by (simp add: validate_routes_def validate_route_def demo_route_defs upstream_is_configured_def
        route_upstream_names_def retry_config_default_def breaker_config_default_def
        valid_model_pattern_def word_le_nat_alt)
  with validated_config_routes [OF this] show ?thesis by blast
qed

text \<open>A catch-all route written in the array form keeps only the head of its chain: the other
  upstreams are never tried, although validation accepts the route.\<close>

theorem wildcard_array_loses_fallbacks:
  "let cfg = demo_gateway [(demo_route ''*'' [] [])\<lparr>re_upstream := None, re_upstream_model := None,
        re_upstreams := [\<lparr>ur_name = ''a'', ur_model = ''x''\<rparr>, \<lparr>ur_name = ''b'', ur_model = ''y''\<rparr>]\<rparr>]
   in validate_routes cfg [''a'', ''b''] = Inr ()
      \<and> map_option (\<lambda>r. map_sum id (map bt_provider) (router_resolve r OpenAiChat ''m''))
          (router_from_config cfg) = Some (Inr [''a''])"
  by (simp add: validate_routes_def validate_route_def demo_route_defs upstream_is_configured_def
      route_upstream_names_def retry_config_default_def breaker_config_default_def
      valid_model_pattern_def word_le_nat_alt router_from_config_def add_route_def frontend_of_string_def
      route_targets_def router_empty_def router_resolve_def resolve_route_def wildcard_target_def)

end
