(* ===== verification/Plugins.thy ===== *)
theory Plugins
  imports Static_Routes "HOL-Library.List_Lexorder" "HOL-Library.Char_ord"
begin

unbundle bit_operations_syntax

text \<open>
  The plugin system, \<open>plugins/src\<close>: the hook sets of \<open>trait_def.rs\<close>, the error envelope of \<open>invoke.rs\<close>, the
  registry of \<open>registry.rs\<close> with its construction, its lookup and the four hook runners, and the
  supervisor of fire-and-forget tasks of \<open>supervisor.rs\<close>.

  A plugin is an open trait, so it is a record of its methods. A hook call takes the scratch state of the
  request's \<open>PluginContext\<close> (type \<open>'c\<close>) and answers with the time in milliseconds after which its future
  completes and its result, or with \<open>None\<close> when it never completes; the timer of \<open>tokio::time::timeout\<close> is exact.
  Logging, spans and metrics are not modelled.
\<close>

section \<open>Hooks\<close>

datatype Hook = HDecodedRequest | HResolved | HStreamEvent | HResponseComplete

fun hook_as_str :: "Hook \<Rightarrow> string" where
  "hook_as_str HDecodedRequest = ''on_decoded_request''"
| "hook_as_str HResolved = ''on_resolved''"
| "hook_as_str HStreamEvent = ''on_stream_event''"
| "hook_as_str HResponseComplete = ''on_response_complete''"

type_synonym HookSet = u8

fun hook_bit :: "Hook \<Rightarrow> u8" where
  "hook_bit HDecodedRequest = push_bit 0 1"
| "hook_bit HResolved = push_bit 1 1"
| "hook_bit HStreamEvent = push_bit 2 1"
| "hook_bit HResponseComplete = push_bit 3 1"

definition hook_set_contains :: "HookSet \<Rightarrow> Hook \<Rightarrow> bool" where
  "hook_set_contains hs hook \<longleftrightarrow> hs AND hook_bit hook \<noteq> 0"

definition hook_set_or :: "HookSet \<Rightarrow> HookSet \<Rightarrow> HookSet" where
  "hook_set_or a b = a OR b"

definition hook_set_to_strs :: "HookSet \<Rightarrow> string list" where
  "hook_set_to_strs hs = map hook_as_str (filter (hook_set_contains hs) [HDecodedRequest, HResolved, HStreamEvent, HResponseComplete])"

section \<open>Errors\<close>

datatype OnError = OnErrorSkip | OnErrorFail

datatype PluginError =
    PE_Timeout string string u64
  | PE_Failed string string string
  | PE_Aborted string string
  | PE_ProtectedFieldMutated string string string

datatype PluginConfigError =
    PCE_MissingField string string string
  | PCE_InvalidValue string string string
  | PCE_Deserialize string string

section \<open>Plugins\<close>

datatype UpstreamStatus = US_Success | US_Error | US_Cancelled

record ResponseSummary =
  su_usage :: "Usage option"
  su_elapsed_ms :: u64
  su_upstream_status :: UpstreamStatus

type_synonym 'a hook_run = "(u64 \<times> (PluginError + 'a)) option"

record 'c Plugin =
  pg_kind_name :: string
  pg_hooks :: HookSet
  pg_on_decoded_request :: "'c \<Rightarrow> CanonicalRequest \<Rightarrow> CanonicalRequest hook_run \<times> 'c"
  pg_on_resolved :: "'c \<Rightarrow> CanonicalRequest \<Rightarrow> BackendTarget \<Rightarrow> CanonicalRequest hook_run \<times> 'c"
  pg_on_stream_event :: "'c \<Rightarrow> StreamEvent \<Rightarrow> StreamEvent list hook_run \<times> 'c"
  pg_on_response_complete :: "'c \<Rightarrow> ResponseSummary \<Rightarrow> unit hook_run \<times> 'c"

text \<open>The trait's default methods.\<close>

definition plugin_default :: "string \<Rightarrow> HookSet \<Rightarrow> 'c Plugin" where
  "plugin_default kind hs = \<lparr>pg_kind_name = kind, pg_hooks = hs,
     pg_on_decoded_request = (\<lambda>c req. (Some (0, Inr req), c)),
     pg_on_resolved = (\<lambda>c req target. (Some (0, Inr req), c)),
     pg_on_stream_event = (\<lambda>c ev. (Some (0, Inr [ev]), c)),
     pg_on_response_complete = (\<lambda>c summary. (Some (0, Inr ()), c))\<rparr>"

record HookTimeouts =
  ht_on_decoded_request :: u64
  ht_on_resolved :: u64
  ht_on_stream_event :: u64
  ht_on_response_complete :: u64

definition hook_timeouts_default :: HookTimeouts where
  "hook_timeouts_default = \<lparr>ht_on_decoded_request = 50, ht_on_resolved = 50, ht_on_stream_event = 5, ht_on_response_complete = 50\<rparr>"

definition hook_timeouts_uniform :: "u64 \<Rightarrow> HookTimeouts" where
  "hook_timeouts_uniform ms = \<lparr>ht_on_decoded_request = ms, ht_on_resolved = ms, ht_on_stream_event = ms, ht_on_response_complete = ms\<rparr>"

fun timeout_for_hook :: "HookTimeouts \<Rightarrow> Hook \<Rightarrow> u64" where
  "timeout_for_hook t HDecodedRequest = ht_on_decoded_request t"
| "timeout_for_hook t HResolved = ht_on_resolved t"
| "timeout_for_hook t HStreamEvent = ht_on_stream_event t"
| "timeout_for_hook t HResponseComplete = ht_on_response_complete t"

fun hook_timeouts_from_yaml :: "TimeoutMs \<Rightarrow> HookTimeouts" where
  "hook_timeouts_from_yaml (Uniform ms) = hook_timeouts_uniform ms"
| "hook_timeouts_from_yaml (PerHook d h2 h3 h5 h7) =
     \<lparr>ht_on_decoded_request = unwrap_or (or_opt h2 d) (ht_on_decoded_request hook_timeouts_default),
      ht_on_resolved = unwrap_or (or_opt h3 d) (ht_on_resolved hook_timeouts_default),
      ht_on_stream_event = unwrap_or (or_opt h5 d) (ht_on_stream_event hook_timeouts_default),
      ht_on_response_complete = unwrap_or (or_opt h7 d) (ht_on_response_complete hook_timeouts_default)\<rparr>"

record 'c PluginEntry =
  pe_name :: string
  pe_kind :: string
  pe_plugin :: "'c Plugin"
  pe_on_error :: OnError
  pe_timeouts :: HookTimeouts
  pe_enabled :: bool

section \<open>One invocation\<close>

datatype 'a InvokeOutcome = Success 'a | Skipped | Propagate PluginError

definition on_error_outcome :: "OnError \<Rightarrow> PluginError \<Rightarrow> 'a InvokeOutcome" where
  "on_error_outcome on_error e = (case on_error of OnErrorSkip \<Rightarrow> Skipped | OnErrorFail \<Rightarrow> Propagate e)"

definition invoke :: "'c PluginEntry \<Rightarrow> Hook \<Rightarrow> 'a hook_run \<Rightarrow> 'a InvokeOutcome" where
  "invoke entry hook run =
     (let timeout_ms = timeout_for_hook (pe_timeouts entry) hook;
          elapsed = on_error_outcome (pe_on_error entry) (PE_Timeout (pe_name entry) (hook_as_str hook) timeout_ms)
      in case run of
           None \<Rightarrow> elapsed
         | Some (t, result) \<Rightarrow>
             (if t > timeout_ms then elapsed
              else case result of
                Inr value \<Rightarrow> Success value
              | Inl e \<Rightarrow>
                  (case e of
                     PE_Aborted p r \<Rightarrow> Propagate e
                   | PE_ProtectedFieldMutated p h f \<Rightarrow> on_error_outcome (pe_on_error entry) e
                   | PE_Failed p h m \<Rightarrow> on_error_outcome (pe_on_error entry) e
                   | PE_Timeout p h t' \<Rightarrow> on_error_outcome (pe_on_error entry) e)))"

definition check_protected_fields :: "string \<Rightarrow> Hook \<Rightarrow> CanonicalRequest \<Rightarrow> CanonicalRequest \<Rightarrow> PluginError option" where
  "check_protected_fields name hook before after =
     (let mutated = PE_ProtectedFieldMutated name (hook_as_str hook) in
      if req_id before \<noteq> req_id after then Some (mutated ''id'')
      else if req_frontend before \<noteq> req_frontend after then Some (mutated ''frontend'')
      else if req_model before \<noteq> req_model after then Some (mutated ''model'')
      else if req_stream before \<noteq> req_stream after then Some (mutated ''stream'')
      else None)"

section \<open>The registry\<close>

record 'c RouteHookPlan =
  hp_on_decoded_request :: "'c PluginEntry list"
  hp_on_resolved :: "'c PluginEntry list"
  hp_on_stream_event :: "'c PluginEntry list"
  hp_on_response_complete :: "'c PluginEntry list"

record 'c FrontendRoutePlans =
  fp_specific :: "string \<rightharpoonup> 'c RouteHookPlan"
  fp_wildcard :: "'c RouteHookPlan option"
  fp_is_empty :: bool

record 'c PluginRegistry =
  rg_plugins :: "string \<rightharpoonup> 'c PluginEntry"
  rg_plans :: "FrontendKind \<rightharpoonup> 'c FrontendRoutePlans"

definition registry_empty :: "'c PluginRegistry" where
  "registry_empty = \<lparr>rg_plugins = Map.empty, rg_plans = Map.empty\<rparr>"

definition plugin_lookup :: "'c PluginRegistry \<Rightarrow> FrontendKind \<Rightarrow> string \<Rightarrow> 'c RouteHookPlan option" where
  "plugin_lookup reg fe model =
     (case rg_plans reg fe of
        None \<Rightarrow> None
      | Some fp \<Rightarrow>
          (if fp_is_empty fp then None
           else case fp_specific fp model of
             Some plan \<Rightarrow> Some plan
           | None \<Rightarrow> fp_wildcard fp))"

definition has_on_decoded_request_subscriber :: "'c PluginRegistry \<Rightarrow> FrontendKind \<Rightarrow> string \<Rightarrow> bool" where
  "has_on_decoded_request_subscriber reg fe model \<longleftrightarrow>
     (case plugin_lookup reg fe model of None \<Rightarrow> False | Some plan \<Rightarrow> hp_on_decoded_request plan \<noteq> [])"

definition has_on_resolved_subscriber :: "'c PluginRegistry \<Rightarrow> FrontendKind \<Rightarrow> string \<Rightarrow> bool" where
  "has_on_resolved_subscriber reg fe model \<longleftrightarrow>
     (case plugin_lookup reg fe model of None \<Rightarrow> False | Some plan \<Rightarrow> hp_on_resolved plan \<noteq> [])"

subsection \<open>The request hooks\<close>

datatype RequestHookKind = RH_DecodedRequest | RH_Resolved BackendTarget

fun request_hook :: "RequestHookKind \<Rightarrow> Hook" where
  "request_hook RH_DecodedRequest = HDecodedRequest"
| "request_hook (RH_Resolved target) = HResolved"

fun call_request_hook :: "RequestHookKind \<Rightarrow> 'c Plugin \<Rightarrow> 'c \<Rightarrow> CanonicalRequest \<Rightarrow> CanonicalRequest hook_run \<times> 'c" where
  "call_request_hook RH_DecodedRequest plugin ctx candidate = pg_on_decoded_request plugin ctx candidate"
| "call_request_hook (RH_Resolved target) plugin ctx candidate = pg_on_resolved plugin ctx candidate target"

fun walk_request_hook :: "RequestHookKind \<Rightarrow> 'c PluginEntry list \<Rightarrow> 'c \<Rightarrow> CanonicalRequest
    \<Rightarrow> (PluginError + CanonicalRequest) \<times> 'c" where
  "walk_request_hook kind [] ctx req = (Inr req, ctx)"
| "walk_request_hook kind (entry # entries) ctx req =
     (if \<not> pe_enabled entry then walk_request_hook kind entries ctx req
      else let (run, ctx') = call_request_hook kind (pe_plugin entry) ctx req
           in case invoke entry (request_hook kind) run of
                Success new_req \<Rightarrow>
                  (case check_protected_fields (pe_name entry) (request_hook kind) req new_req of
                     Some e \<Rightarrow>
                       (case pe_on_error entry of
                          OnErrorSkip \<Rightarrow> walk_request_hook kind entries ctx' req
                        | OnErrorFail \<Rightarrow> (Inl e, ctx'))
                   | None \<Rightarrow> walk_request_hook kind entries ctx' new_req)
              | Skipped \<Rightarrow> walk_request_hook kind entries ctx' req
              | Propagate e \<Rightarrow> (Inl e, ctx'))"

definition run_on_decoded_request :: "'c PluginRegistry \<Rightarrow> FrontendKind \<Rightarrow> string \<Rightarrow> 'c \<Rightarrow> CanonicalRequest
    \<Rightarrow> (PluginError + CanonicalRequest) \<times> 'c" where
  "run_on_decoded_request reg fe model ctx req =
     (case plugin_lookup reg fe model of
        None \<Rightarrow> (Inr req, ctx)
      | Some plan \<Rightarrow>
          (if hp_on_decoded_request plan = [] then (Inr req, ctx)
           else walk_request_hook RH_DecodedRequest (hp_on_decoded_request plan) ctx req))"

definition run_on_resolved :: "'c PluginRegistry \<Rightarrow> FrontendKind \<Rightarrow> string \<Rightarrow> 'c \<Rightarrow> CanonicalRequest \<Rightarrow> BackendTarget
    \<Rightarrow> (PluginError + CanonicalRequest) \<times> 'c" where
  "run_on_resolved reg fe model ctx req target =
     (case plugin_lookup reg fe model of
        None \<Rightarrow> (Inr req, ctx)
      | Some plan \<Rightarrow>
          (if hp_on_resolved plan = [] then (Inr req, ctx)
           else walk_request_hook (RH_Resolved target) (hp_on_resolved plan) ctx req))"

subsection \<open>The stream hook\<close>

text \<open>One plugin over the buffer, the chain of plugins over one upstream event, and the wrapped stream.\<close>

fun h5_buffer :: "'c PluginEntry \<Rightarrow> 'c \<Rightarrow> StreamEvent list \<Rightarrow> StreamEvent list \<Rightarrow> (PluginError + StreamEvent list) \<times> 'c" where
  "h5_buffer entry ctx next [] = (Inr next, ctx)"
| "h5_buffer entry ctx next (ev # buf) =
     (let (run, ctx') = pg_on_stream_event (pe_plugin entry) ctx ev
      in case invoke entry HStreamEvent run of
           Success events \<Rightarrow> h5_buffer entry ctx' (next @ events) buf
         | Skipped \<Rightarrow> h5_buffer entry ctx' (next @ [ev]) buf
         | Propagate e \<Rightarrow> (Inl e, ctx'))"

fun h5_chain :: "'c PluginEntry list \<Rightarrow> 'c \<Rightarrow> StreamEvent list \<Rightarrow> (PluginError + StreamEvent list) \<times> 'c" where
  "h5_chain [] ctx buf = (Inr buf, ctx)"
| "h5_chain (entry # entries) ctx buf =
     (if \<not> pe_enabled entry then h5_chain entries ctx buf
      else case h5_buffer entry ctx [] buf of
        (Inl e, ctx') \<Rightarrow> (Inl e, ctx')
      | (Inr next, ctx') \<Rightarrow> h5_chain entries ctx' next)"

definition h5_item :: "(PluginError \<Rightarrow> string) \<Rightarrow> 'c PluginEntry list \<Rightarrow> 'c \<Rightarrow> stream_item \<Rightarrow> stream_item list \<times> 'c" where
  "h5_item display entries ctx item =
     (case item of
        Inl err \<Rightarrow> ([Inl err], ctx)
      | Inr ev \<Rightarrow>
          (case h5_chain entries ctx [ev] of
             (Inl e, ctx') \<Rightarrow> ([Inr (ErrorEvent (display e))], ctx')
           | (Inr buf, ctx') \<Rightarrow> (map Inr buf, ctx')))"

fun h5_stream :: "(PluginError \<Rightarrow> string) \<Rightarrow> 'c PluginEntry list \<Rightarrow> 'c \<Rightarrow> stream_item list \<Rightarrow> stream_item list" where
  "h5_stream display entries ctx [] = []"
| "h5_stream display entries ctx (item # items) =
     (let (out, ctx') = h5_item display entries ctx item in out @ h5_stream display entries ctx' items)"

definition wrap_stream :: "(PluginError \<Rightarrow> string) \<Rightarrow> 'c PluginRegistry \<Rightarrow> FrontendKind \<Rightarrow> string \<Rightarrow> 'c
    \<Rightarrow> stream_item list \<Rightarrow> stream_item list" where
  "wrap_stream display reg fe model ctx upstream =
     (case plugin_lookup reg fe model of
        None \<Rightarrow> upstream
      | Some plan \<Rightarrow> (if hp_on_stream_event plan = [] then upstream
                       else h5_stream display (hp_on_stream_event plan) ctx upstream))"

subsection \<open>The completion hook\<close>

text \<open>The tasks \<open>run_on_response_complete\<close> hands to the supervisor, by plugin name.\<close>

definition run_on_response_complete :: "'c PluginRegistry \<Rightarrow> FrontendKind \<Rightarrow> string \<Rightarrow> 'c PluginEntry list" where
  "run_on_response_complete reg fe model =
     (case plugin_lookup reg fe model of
        None \<Rightarrow> []
      | Some plan \<Rightarrow> filter pe_enabled (hp_on_response_complete plan))"

section \<open>Construction\<close>

record 'c PluginFactory =
  pf_kind_name :: string
  pf_instantiate :: "string \<Rightarrow> json \<Rightarrow> PluginConfigError + 'c Plugin"

datatype RegistryBuildError =
    RB_UnknownKind string string "string list"
  | RB_Instantiation PluginConfigError string
  | RB_HookSubscriptionMismatch FrontendKind string string string "string list"
  | RB_DuplicateFactoryKind string
  | RB_UndeclaredPluginReference string string string
  | RB_UnknownFrontend string

fun index_factories :: "'c PluginFactory list \<Rightarrow> (string \<rightharpoonup> 'c PluginFactory) \<Rightarrow> RegistryBuildError + (string \<rightharpoonup> 'c PluginFactory)" where
  "index_factories [] fm = Inr fm"
| "index_factories (f # fs) fm =
     (if fm (pf_kind_name f) \<noteq> None then Inl (RB_DuplicateFactoryKind (pf_kind_name f))
      else index_factories fs (fm(pf_kind_name f \<mapsto> f)))"

definition plugin_entry :: "string \<Rightarrow> PluginSpec \<Rightarrow> 'c Plugin \<Rightarrow> 'c PluginEntry" where
  "plugin_entry name spec plugin = \<lparr>pe_name = name, pe_kind = pg_kind_name plugin, pe_plugin = plugin,
     pe_on_error = (case ps_on_error spec of YamlSkip \<Rightarrow> OnErrorSkip | YamlFail \<Rightarrow> OnErrorFail),
     pe_timeouts = (case ps_timeout_ms spec of Some t \<Rightarrow> hook_timeouts_from_yaml t | None \<Rightarrow> hook_timeouts_default),
     pe_enabled = ps_enabled spec\<rparr>"

text \<open>\<open>known\<close> lists the registered kinds in order.\<close>

fun instantiate_plugins :: "string list \<Rightarrow> (string \<rightharpoonup> 'c PluginFactory) \<Rightarrow> (string \<times> PluginSpec) list
    \<Rightarrow> (string \<rightharpoonup> 'c PluginEntry) \<Rightarrow> RegistryBuildError + (string \<rightharpoonup> 'c PluginEntry)" where
  "instantiate_plugins known fm [] plugins = Inr plugins"
| "instantiate_plugins known fm ((name, spec) # specs) plugins =
     (case fm (ps_kind spec) of
        None \<Rightarrow> Inl (RB_UnknownKind name (ps_kind spec) known)
      | Some f \<Rightarrow>
          (case pf_instantiate f name (ps_config spec) of
             Inl e \<Rightarrow> Inl (RB_Instantiation e name)
           | Inr plugin \<Rightarrow> instantiate_plugins known fm specs (plugins(name \<mapsto> plugin_entry name spec plugin))))"

fun resolve_hook :: "(string \<rightharpoonup> 'c PluginEntry) \<Rightarrow> FrontendKind \<Rightarrow> RouteEntry \<Rightarrow> Hook \<Rightarrow> string list
    \<Rightarrow> RegistryBuildError + 'c PluginEntry list" where
  "resolve_hook plugins fe route hook [] = Inr []"
| "resolve_hook plugins fe route hook (pname # names) =
     (case plugins pname of
        None \<Rightarrow> Inl (RB_UndeclaredPluginReference (re_frontend route @ ''/'' @ re_model route) (hook_as_str hook) pname)
      | Some entry \<Rightarrow>
          (if \<not> hook_set_contains (pg_hooks (pe_plugin entry)) hook
           then Inl (RB_HookSubscriptionMismatch fe (re_model route) pname (hook_as_str hook)
                  (hook_set_to_strs (pg_hooks (pe_plugin entry))))
           else case resolve_hook plugins fe route hook names of
             Inl e \<Rightarrow> Inl e
           | Inr out \<Rightarrow> Inr (if pe_enabled entry then entry # out else out)))"

definition resolve_plan :: "(string \<rightharpoonup> 'c PluginEntry) \<Rightarrow> FrontendKind \<Rightarrow> RouteEntry \<Rightarrow> RoutePluginsBlock
    \<Rightarrow> RegistryBuildError + 'c RouteHookPlan" where
  "resolve_plan plugins fe route rp =
     (case resolve_hook plugins fe route HDecodedRequest (rb_on_decoded_request rp) of
        Inl e \<Rightarrow> Inl e
      | Inr h2 \<Rightarrow>
     (case resolve_hook plugins fe route HResolved (rb_on_resolved rp) of
        Inl e \<Rightarrow> Inl e
      | Inr h3 \<Rightarrow>
     (case resolve_hook plugins fe route HStreamEvent (rb_on_stream_event rp) of
        Inl e \<Rightarrow> Inl e
      | Inr h5 \<Rightarrow>
     (case resolve_hook plugins fe route HResponseComplete (rb_on_response_complete rp) of
        Inl e \<Rightarrow> Inl e
      | Inr h7 \<Rightarrow> Inr \<lparr>hp_on_decoded_request = h2, hp_on_resolved = h3, hp_on_stream_event = h5,
                       hp_on_response_complete = h7\<rparr>))))"

definition insert_plan :: "FrontendKind \<Rightarrow> string \<Rightarrow> 'c RouteHookPlan \<Rightarrow> (FrontendKind \<rightharpoonup> 'c FrontendRoutePlans)
    \<Rightarrow> (FrontendKind \<rightharpoonup> 'c FrontendRoutePlans)" where
  "insert_plan fe model plan plans =
     (let fp = (case plans fe of None \<Rightarrow> \<lparr>fp_specific = Map.empty, fp_wildcard = None, fp_is_empty = False\<rparr> | Some fp \<Rightarrow> fp);
          fp' = (if model = ''*'' then fp\<lparr>fp_wildcard := Some plan\<rparr> else fp\<lparr>fp_specific := (fp_specific fp)(model \<mapsto> plan)\<rparr>)
      in plans(fe \<mapsto> fp'\<lparr>fp_is_empty := False\<rparr>))"

fun build_plans :: "(string \<rightharpoonup> 'c PluginEntry) \<Rightarrow> RouteEntry list \<Rightarrow> (FrontendKind \<rightharpoonup> 'c FrontendRoutePlans)
    \<Rightarrow> RegistryBuildError + (FrontendKind \<rightharpoonup> 'c FrontendRoutePlans)" where
  "build_plans plugins [] plans = Inr plans"
| "build_plans plugins (route # routes) plans =
     (case frontend_of_string (re_frontend route) of
        None \<Rightarrow> Inl (RB_UnknownFrontend (re_frontend route))
      | Some fe \<Rightarrow>
          (case re_plugins route of
             None \<Rightarrow> build_plans plugins routes plans
           | Some rp \<Rightarrow>
               (if route_plugins_is_empty rp then build_plans plugins routes plans
                else case resolve_plan plugins fe route rp of
                  Inl e \<Rightarrow> Inl e
                | Inr plan \<Rightarrow> build_plans plugins routes (insert_plan fe (re_model route) plan plans))))"

definition registry_build :: "'c PluginFactory list \<Rightarrow> (string \<times> PluginSpec) list \<Rightarrow> RouteEntry list
    \<Rightarrow> RegistryBuildError + 'c PluginRegistry" where
  "registry_build factories specs routes =
     (case index_factories factories Map.empty of
        Inl e \<Rightarrow> Inl e
      | Inr fm \<Rightarrow>
          (case instantiate_plugins (sort (map pf_kind_name factories)) fm specs Map.empty of
             Inl e \<Rightarrow> Inl e
           | Inr plugins \<Rightarrow>
               (case build_plans plugins routes Map.empty of
                  Inl e \<Rightarrow> Inl e
                | Inr plans \<Rightarrow> Inr \<lparr>rg_plugins = plugins, rg_plans = plans\<rparr>)))"

section \<open>What the hooks cannot do\<close>

definition protected_fields :: "CanonicalRequest \<Rightarrow> string \<times> FrontendInfo \<times> string \<times> bool" where
  "protected_fields req = (req_id req, req_frontend req, req_model req, req_stream req)"

lemma check_protected_fields_None:
  "check_protected_fields name hook a b = None \<longleftrightarrow> protected_fields b = protected_fields a"
  by (auto simp: check_protected_fields_def protected_fields_def Let_def)

definition is_abort :: "PluginError \<Rightarrow> bool" where
  "is_abort e \<longleftrightarrow> (case e of PE_Aborted p r \<Rightarrow> True | _ \<Rightarrow> False)"

lemma invoke_Propagate:
  "invoke entry hook run = Propagate e \<Longrightarrow> pe_on_error entry = OnErrorFail \<or> is_abort e"
  by (auto simp: invoke_def on_error_outcome_def is_abort_def Let_def
      split: option.splits prod.splits if_splits sum.splits PluginError.splits OnError.splits)

lemma walk_protects:
  "walk_request_hook kind entries ctx req = (Inr req', ctx') \<Longrightarrow> protected_fields req' = protected_fields req"
proof (induction entries arbitrary: ctx req)
  case (Cons entry entries)
  then show ?case
    by (auto simp: check_protected_fields_None Let_def case_prod_unfold
        split: if_splits InvokeOutcome.splits option.splits OnError.splits)
qed simp

lemma walk_error:
  "walk_request_hook kind entries ctx req = (Inl e, ctx') \<Longrightarrow>
     \<exists>entry \<in> set entries. pe_enabled entry \<and> (pe_on_error entry = OnErrorFail \<or> is_abort e)"
proof (induction entries arbitrary: ctx req)
  case (Cons entry entries)
  then show ?case
    by (auto simp: Let_def case_prod_unfold dest: invoke_Propagate
        split: if_splits InvokeOutcome.splits option.splits OnError.splits)
qed simp


definition demo_plugin :: "nat Plugin" where
  "demo_plugin = (plugin_default ''demo'' 15)\<lparr>
     pg_on_decoded_request := (\<lambda>c req. (Some (1, Inr (req\<lparr>req_system := []\<rparr>)), Suc c)),
     pg_on_stream_event := (\<lambda>c ev. (Some (1, if c = 0 then Inl (PE_Failed ''p'' ''on_stream_event'' ''bad'') else Inr [ev]), Suc c))\<rparr>"

definition demo_entry :: "OnError \<Rightarrow> nat PluginEntry" where
  "demo_entry on_error = \<lparr>pe_name = ''p'', pe_kind = ''demo'', pe_plugin = demo_plugin, pe_on_error = on_error,
     pe_timeouts = hook_timeouts_default, pe_enabled = True\<rparr>"

definition demo_plan :: "OnError \<Rightarrow> nat RouteHookPlan" where
  "demo_plan on_error = \<lparr>hp_on_decoded_request = [demo_entry on_error], hp_on_resolved = [],
     hp_on_stream_event = [demo_entry on_error], hp_on_response_complete = []\<rparr>"

definition demo_registry :: "OnError \<Rightarrow> nat PluginRegistry" where
  "demo_registry on_error = \<lparr>rg_plugins = [''p'' \<mapsto> demo_entry on_error],
     rg_plans = [OpenAiChat \<mapsto> \<lparr>fp_specific = [''m'' \<mapsto> demo_plan on_error], fp_wildcard = None, fp_is_empty = False\<rparr>]\<rparr>"

lemmas demo_plugin_defs = demo_plugin_def demo_entry_def demo_plan_def demo_registry_def plugin_default_def
  plugin_lookup_def hook_timeouts_default_def invoke_def on_error_outcome_def


section \<open>The wrapped stream\<close>

fun stream_errors :: "stream_item list \<Rightarrow> StreamError list" where
  "stream_errors [] = []"
| "stream_errors (Inl e # is) = e # stream_errors is"
| "stream_errors (Inr ev # is) = stream_errors is"

lemma stream_errors_append [simp]: "stream_errors (a @ b) = stream_errors a @ stream_errors b"
  by (induction a rule: stream_errors.induct) simp_all

lemma stream_errors_map_Inr [simp]: "stream_errors (map Inr evs) = []"
  by (induction evs) simp_all

lemma h5_stream_errors: "stream_errors (h5_stream display entries ctx is) = stream_errors is"
proof (induction "is" arbitrary: ctx)
  case (Cons item "is")
  then show ?case
    by (cases item) (auto simp: h5_item_def Let_def split: prod.splits sum.splits)
qed simp

text \<open>A plugin whose calls never succeed and never abort, and which is configured to be skipped.\<close>

definition always_skipped :: "'c PluginEntry \<Rightarrow> bool" where
  "always_skipped entry \<longleftrightarrow> (\<forall>ctx ev. invoke entry HStreamEvent (fst (pg_on_stream_event (pe_plugin entry) ctx ev)) = Skipped)"

lemma h5_buffer_skipped:
  "always_skipped entry \<Longrightarrow> \<exists>ctx'. h5_buffer entry ctx next buf = (Inr (next @ buf), ctx')"
proof (induction buf arbitrary: ctx "next")
  case (Cons ev buf)
  from Cons.IH [OF Cons.prems, of "snd (pg_on_stream_event (pe_plugin entry) ctx ev)" "next @ [ev]"] Cons.prems
  show ?case by (simp add: always_skipped_def Let_def case_prod_unfold)
qed simp

lemma h5_chain_skipped:
  "list_all (\<lambda>entry. pe_enabled entry \<longrightarrow> always_skipped entry) entries \<Longrightarrow> \<exists>ctx'. h5_chain entries ctx buf = (Inr buf, ctx')"
proof (induction entries arbitrary: ctx)
  case (Cons entry entries)
  then show ?case using h5_buffer_skipped [of entry ctx "[]" buf] by fastforce
qed simp

lemma h5_stream_skipped:
  "list_all (\<lambda>entry. pe_enabled entry \<longrightarrow> always_skipped entry) entries \<Longrightarrow> h5_stream display entries ctx is = is"
proof (induction "is" arbitrary: ctx)
  case (Cons item "is")
  obtain ctx' where "h5_item display entries ctx item = ([item], ctx')"
    using h5_chain_skipped [OF Cons.prems, of ctx "[projr item]"]
    by (cases item) (auto simp: h5_item_def)
  with Cons show ?case by simp
qed simp

text \<open>The stream hook. Transport errors of the upstream reach the client in order and unseen by plugins, whatever
  the plugins do; and plugins that are to be skipped on errors and only ever fail or time out are transparent: the
  client sees exactly the upstream's stream.\<close>

theorem wrap_stream_contained:
  "stream_errors (wrap_stream display reg fe model ctx upstream) = stream_errors upstream
   \<and> ((\<forall>plan. plugin_lookup reg fe model = Some plan \<longrightarrow>
         list_all (\<lambda>entry. pe_enabled entry \<longrightarrow> always_skipped entry) (hp_on_stream_event plan)) \<longrightarrow>
      wrap_stream display reg fe model ctx upstream = upstream)"
  unfolding wrap_stream_def by (auto simp: h5_stream_errors h5_stream_skipped split: option.split)

definition demo_failing :: "nat PluginRegistry" where
  "demo_failing = \<lparr>rg_plugins = Map.empty, rg_plans = [OpenAiChat \<mapsto> \<lparr>fp_specific = Map.empty,
     fp_wildcard = Some ((demo_plan OnErrorSkip)\<lparr>hp_on_stream_event := [(demo_entry OnErrorSkip)\<lparr>pe_plugin :=
       demo_plugin\<lparr>pg_on_stream_event := (\<lambda>c ev. (Some (if c = 0 then 6 else 1, Inl (PE_Failed ''p'' ''h'' ''bad'')), Suc c))\<rparr>\<rparr>]\<rparr>),
     fp_is_empty = False\<rparr>]\<rparr>"

theorem wrap_stream_contained_witness:
  "wrap_stream (\<lambda>_. ''e'') demo_failing OpenAiChat ''m'' 0 [Inl (SE_Upstream ''x''), Inr (MessageStart Assistant), Inr (TextDelta 0 ''a'')]
     = [Inl (SE_Upstream ''x''), Inr (MessageStart Assistant), Inr (TextDelta 0 ''a'')]"
  using wrap_stream_contained [of "\<lambda>_. ''e''" demo_failing OpenAiChat "''m''" 0
      "[Inl (SE_Upstream ''x''), Inr (MessageStart Assistant), Inr (TextDelta 0 ''a'')]"]
  by (simp add: demo_failing_def demo_plugin_defs always_skipped_def)

text \<open>A failing plugin does not stop the stream, although the comment above \<open>wrap_stream\<close> says so: its error event
  takes the place of the event it failed on, and the events after it are processed and delivered.\<close>

theorem stream_continues_after_failure:
  "wrap_stream (\<lambda>_. ''e'') (demo_registry OnErrorFail) OpenAiChat ''m'' 0
     [Inr (MessageStart Assistant), Inr (ContentBlockStart 0 KText), Inr (TextDelta 0 ''hi'')]
   = [Inr (ErrorEvent ''e''), Inr (ContentBlockStart 0 KText), Inr (TextDelta 0 ''hi'')]"
  by (simp add: wrap_stream_def demo_plugin_defs h5_item_def)

section \<open>Which plugins run for a route\<close>

definition has_plugins :: "RouteEntry \<Rightarrow> bool" where
  "has_plugins e \<longleftrightarrow> (case re_plugins e of None \<Rightarrow> False | Some rp \<Rightarrow> \<not> route_plugins_is_empty rp)"

definition route_is :: "FrontendKind \<Rightarrow> string \<Rightarrow> RouteEntry \<Rightarrow> bool" where
  "route_is fe m e \<longleftrightarrow> frontend_of_string (re_frontend e) = Some fe \<and> re_model e = m"

text \<open>The route whose plugins run: the last one with plugins whose model is literally the requested one, else
  the last catch-all with plugins.\<close>

definition plugin_route :: "RouteEntry list \<Rightarrow> FrontendKind \<Rightarrow> string \<Rightarrow> RouteEntry option" where
  "plugin_route routes fe m =
     (case last_route (\<lambda>e. m \<noteq> ''*'' \<and> route_is fe m e \<and> has_plugins e) routes of
        Some e \<Rightarrow> Some e
      | None \<Rightarrow> last_route (\<lambda>e. route_is fe ''*'' e \<and> has_plugins e) routes)"

definition hook_entries :: "(string \<rightharpoonup> 'c PluginEntry) \<Rightarrow> string list \<Rightarrow> 'c PluginEntry list" where
  "hook_entries plugins names = filter pe_enabled (map (\<lambda>n. the (plugins n)) names)"

definition plan_of :: "(string \<rightharpoonup> 'c PluginEntry) \<Rightarrow> RouteEntry \<Rightarrow> 'c RouteHookPlan" where
  "plan_of plugins e = (let rp = the (re_plugins e) in
     \<lparr>hp_on_decoded_request = hook_entries plugins (rb_on_decoded_request rp), hp_on_resolved = hook_entries plugins (rb_on_resolved rp),
      hp_on_stream_event = hook_entries plugins (rb_on_stream_event rp), hp_on_response_complete = hook_entries plugins (rb_on_response_complete rp)\<rparr>)"

text \<open>Every name a route lists under a hook is declared and subscribes to it.\<close>

definition names_ok :: "(string \<rightharpoonup> 'c PluginEntry) \<Rightarrow> Hook \<Rightarrow> string list \<Rightarrow> bool" where
  "names_ok plugins hook names \<longleftrightarrow> (\<forall>n \<in> set names. \<exists>entry. plugins n = Some entry \<and> hook_set_contains (pg_hooks (pe_plugin entry)) hook)"

definition block_ok :: "(string \<rightharpoonup> 'c PluginEntry) \<Rightarrow> RoutePluginsBlock \<Rightarrow> bool" where
  "block_ok plugins rp \<longleftrightarrow> names_ok plugins HDecodedRequest (rb_on_decoded_request rp) \<and> names_ok plugins HResolved (rb_on_resolved rp)
     \<and> names_ok plugins HStreamEvent (rb_on_stream_event rp) \<and> names_ok plugins HResponseComplete (rb_on_response_complete rp)"

lemma resolve_hook_ok:
  "resolve_hook plugins fe route hook names = Inr out \<Longrightarrow> out = hook_entries plugins names \<and> names_ok plugins hook names"
proof (induction names arbitrary: out)
  case (Cons n names)
  then show ?case
    by (auto simp: hook_entries_def names_ok_def split: option.splits if_splits sum.splits)
qed (simp add: hook_entries_def names_ok_def)

lemma resolve_plan_ok:
  "resolve_plan plugins fe route rp = Inr plan \<Longrightarrow> re_plugins route = Some rp \<Longrightarrow> plan = plan_of plugins route \<and> block_ok plugins rp"
  by (auto simp: resolve_plan_def plan_of_def block_ok_def dest!: resolve_hook_ok split: sum.splits)

definition listed :: "RouteEntry list \<Rightarrow> FrontendKind \<Rightarrow> string \<Rightarrow> RouteEntry option" where
  "listed es fe m = last_route (\<lambda>e. route_is fe m e \<and> has_plugins e) es"

definition plans_inv :: "(string \<rightharpoonup> 'c PluginEntry) \<Rightarrow> RouteEntry list \<Rightarrow> (FrontendKind \<rightharpoonup> 'c FrontendRoutePlans) \<Rightarrow> bool" where
  "plans_inv plugins es plans \<longleftrightarrow>
     (\<forall>fe. (plans fe = None \<longrightarrow> (\<forall>m. listed es fe m = None))
        \<and> (\<forall>fp. plans fe = Some fp \<longrightarrow> \<not> fp_is_empty fp
            \<and> fp_wildcard fp = map_option (plan_of plugins) (listed es fe ''*'')
            \<and> (\<forall>m. fp_specific fp m = (if m = ''*'' then None else map_option (plan_of plugins) (listed es fe m)))))"

lemma listed_snoc:
  "listed (es @ [e]) fe m = (if route_is fe m e \<and> has_plugins e then Some e else listed es fe m)"
  by (simp add: listed_def last_route_snoc)

lemma plans_inv_skip:
  "plans_inv plugins es plans \<Longrightarrow> \<not> has_plugins route \<Longrightarrow> plans_inv plugins (es @ [route]) plans"
  by (simp add: plans_inv_def listed_snoc)

lemma plans_inv_insert:
  assumes "plans_inv plugins es plans" "has_plugins route" "frontend_of_string (re_frontend route) = Some fe"
  shows "plans_inv plugins (es @ [route]) (insert_plan fe (re_model route) (plan_of plugins route) plans)"
proof -
  have new: "listed (es @ [route]) fe' m = (if fe' = fe \<and> m = re_model route then Some route else listed es fe' m)" for fe' m
    using assms(2,3) by (auto simp: listed_snoc route_is_def)
  show ?thesis
    using assms(1) by (cases "plans fe") (auto simp: plans_inv_def insert_plan_def new Let_def split: if_splits)
qed

lemma build_plans_inv:
  "build_plans plugins routes plans = Inr plans' \<Longrightarrow> plans_inv plugins es plans \<Longrightarrow>
     plans_inv plugins (es @ routes) plans' \<and> (\<forall>e \<in> set routes. \<forall>rp. re_plugins e = Some rp \<longrightarrow> block_ok plugins rp)"
proof (induction routes arbitrary: es plans)
  case (Cons route routes)
  then obtain fe where fe: "frontend_of_string (re_frontend route) = Some fe" by (auto split: option.splits)
  have empty: "block_ok plugins rp" if "route_plugins_is_empty rp" for rp
    using that by (simp add: route_plugins_is_empty_def block_ok_def names_ok_def)
  show ?case
  proof (cases "has_plugins route")
    case False
    with Cons.prems fe have "build_plans plugins routes plans = Inr plans'"
      by (auto simp: has_plugins_def split: option.splits if_splits)
    from Cons.IH [OF this plans_inv_skip [OF Cons.prems(2) False]] False empty show ?thesis
      by (auto simp: has_plugins_def split: option.splits)
  next
    case True
    then obtain rp where rp: "re_plugins route = Some rp" "\<not> route_plugins_is_empty rp"
      by (auto simp: has_plugins_def split: option.splits)
    with Cons.prems fe obtain plan where plan: "resolve_plan plugins fe route rp = Inr plan"
      "build_plans plugins routes (insert_plan fe (re_model route) plan plans) = Inr plans'"
      by (auto split: sum.splits)
    from resolve_plan_ok [OF plan(1) rp(1)] have ok: "plan = plan_of plugins route" "block_ok plugins rp" by auto
    from Cons.IH [OF plan(2) [unfolded ok(1)] plans_inv_insert [OF Cons.prems(2) True fe]] ok(2) rp(1) show ?thesis
      by auto
  qed
qed simp

text \<open>What construction guarantees. When the registry is built, every plugin that a route names is declared and
  subscribes to the hook it is named under; and the plan found for a request is that of the last route
  with plugins whose model is literally the requested model, else of the last such catch-all, each
  hook running the enabled plugins in the order the route lists them.\<close>

theorem registry_lookup_spec:
  assumes "registry_build factories specs routes = Inr reg"
  shows "plugin_lookup reg fe m = map_option (plan_of (rg_plugins reg)) (plugin_route routes fe m)
    \<and> (\<forall>e \<in> set routes. \<forall>rp. re_plugins e = Some rp \<longrightarrow> block_ok (rg_plugins reg) rp)"
proof -
  from assms have "build_plans (rg_plugins reg) routes Map.empty = Inr (rg_plans reg)"
    by (auto simp: registry_build_def split: sum.splits)
  moreover have "plans_inv (rg_plugins reg) [] Map.empty" by (simp add: plans_inv_def listed_def last_route_def)
  ultimately have inv: "plans_inv (rg_plugins reg) routes (rg_plans reg)"
    and ok: "\<forall>e \<in> set routes. \<forall>rp. re_plugins e = Some rp \<longrightarrow> block_ok (rg_plugins reg) rp"
    using build_plans_inv [of "rg_plugins reg" routes Map.empty "rg_plans reg" "[]"] by auto
  have none: "find (\<lambda>e. False) es = None" for es :: "RouteEntry list" by (induction es) simp_all
  have "plugin_route routes fe m = (if m \<noteq> ''*'' \<and> listed routes fe m \<noteq> None then listed routes fe m else listed routes fe ''*'')"
    by (cases "m = ''*''") (auto simp: plugin_route_def listed_def last_route_def none split: option.split)
  with inv have "plugin_lookup reg fe m = map_option (plan_of (rg_plugins reg)) (plugin_route routes fe m)"
    by (cases "rg_plans reg fe") (auto simp: plugin_lookup_def plans_inv_def split: option.split)
  with ok show ?thesis by blast
qed

definition demo_factory :: "nat PluginFactory" where
  "demo_factory = \<lparr>pf_kind_name = ''demo'', pf_instantiate = (\<lambda>name config. Inr demo_plugin)\<rparr>"

definition demo_spec :: PluginSpec where
  "demo_spec = \<lparr>ps_kind = ''demo'', ps_config = JObject [], ps_on_error = YamlSkip, ps_timeout_ms = None, ps_enabled = True\<rparr>"

definition guarded_route :: "string \<Rightarrow> RouteEntry" where
  "guarded_route m = (demo_route m ''a'' ''x'')\<lparr>re_plugins := Some \<lparr>rb_on_decoded_request = [''p''], rb_on_resolved = [],
     rb_on_stream_event = [], rb_on_response_complete = []\<rparr>\<rparr>"

lemma build_guarded:
  "\<exists>reg. registry_build [demo_factory] [(''p'', demo_spec)] [guarded_route m] = Inr reg \<and> rg_plugins reg = [''p'' \<mapsto> demo_entry OnErrorSkip]"
  by (simp add: registry_build_def demo_factory_def demo_spec_def guarded_route_def demo_route_def frontend_of_string_def
      route_plugins_is_empty_def resolve_plan_def plugin_entry_def demo_entry_def demo_plugin_def plugin_default_def hook_set_contains_def
      insert_plan_def)

theorem registry_lookup_spec_witness:
  "\<exists>reg. registry_build [demo_factory] [(''p'', demo_spec)] [guarded_route ''m''] = Inr reg
     \<and> (\<exists>plan. plugin_lookup reg OpenAiChat ''m'' = Some plan \<and> hp_on_decoded_request plan = [demo_entry OnErrorSkip])"
proof -
  obtain reg where reg: "registry_build [demo_factory] [(''p'', demo_spec)] [guarded_route ''m''] = Inr reg"
    "rg_plugins reg = [''p'' \<mapsto> demo_entry OnErrorSkip]" using build_guarded by blast
  have "plugin_lookup reg OpenAiChat ''m'' = map_option (plan_of (rg_plugins reg)) (plugin_route [guarded_route ''m''] OpenAiChat ''m'')"
    using registry_lookup_spec [OF reg(1)] by blast
  moreover have "plugin_route [guarded_route ''m''] OpenAiChat ''m'' = Some (guarded_route ''m'')"
    by (simp add: plugin_route_def last_route_def route_is_def has_plugins_def guarded_route_def demo_route_def frontend_of_string_def
        route_plugins_is_empty_def)
  ultimately show ?thesis using reg
    by (simp add: plan_of_def guarded_route_def hook_entries_def demo_entry_def)
qed

text \<open>Plugins of a prefix route never run: a request that the router serves through the route finds no plan, because
  plans are looked up by the literal model.\<close>

theorem prefix_route_plugins_ignored:
  "\<exists>reg r route. registry_build [demo_factory] [(''p'', demo_spec)] [guarded_route ''gpt-*''] = Inr reg
     \<and> router_from_config (demo_gateway [guarded_route ''gpt-*'']) = Some r \<and> resolve_route r OpenAiChat ''gpt-5'' = Inr route
     \<and> plugin_lookup reg OpenAiChat ''gpt-5'' = None"
proof -
  obtain reg where reg: "registry_build [demo_factory] [(''p'', demo_spec)] [guarded_route ''gpt-*''] = Inr reg" using build_guarded by blast
  have "plugin_lookup reg OpenAiChat ''gpt-5'' = None"
    using reg by (auto simp: registry_build_def demo_factory_def demo_spec_def guarded_route_def demo_route_def frontend_of_string_def
      route_plugins_is_empty_def resolve_plan_def plugin_entry_def demo_entry_def demo_plugin_def plugin_default_def hook_set_contains_def
      insert_plan_def plugin_lookup_def)
  moreover have "\<exists>r. router_from_config (demo_gateway [guarded_route ''gpt-*'']) = Some r \<and> (\<exists>route. resolve_route r OpenAiChat ''gpt-5'' = Inr route)"
    by (simp add: router_from_config_def demo_gateway_def guarded_route_def demo_route_def add_route_def frontend_of_string_def route_targets_def
        strip_suffix_char_def prefix_route_def router_empty_def resolve_route_def starts_with_def)
  ultimately show ?thesis using reg by blast
qed

section \<open>The supervisor\<close>

text \<open>\<open>sv_tasks\<close> are the running tasks of the \<open>JoinSet\<close> by plugin name, \<open>sv_pending\<close> the counters.\<close>

record PluginSupervisor =
  sv_tasks :: "string list"
  sv_pending :: "string \<rightharpoonup> u64"

definition supervisor_new :: PluginSupervisor where
  "supervisor_new = \<lparr>sv_tasks = [], sv_pending = Map.empty\<rparr>"

definition spawn_h7 :: "string \<Rightarrow> PluginSupervisor \<Rightarrow> PluginSupervisor" where
  "spawn_h7 name s = s\<lparr>sv_pending := (sv_pending s)(name \<mapsto> unwrap_or (sv_pending s name) 0 + 1), sv_tasks := sv_tasks s @ [name]\<rparr>"

text \<open>The tail of a task's body, after its future has completed.\<close>

definition task_completed :: "string \<Rightarrow> PluginSupervisor \<Rightarrow> PluginSupervisor" where
  "task_completed name s =
     (let s' = s\<lparr>sv_tasks := remove1 name (sv_tasks s)\<rparr> in
      case sv_pending s name of
        None \<Rightarrow> s'
      | Some cnt \<Rightarrow>
          (let cnt' = (if cnt = 0 then 0 else cnt - 1)
           in s'\<lparr>sv_pending := (sv_pending s)(name := (if cnt' = 0 then None else Some cnt'))\<rparr>))"

text \<open>A task whose future panics ends without reaching the tail.\<close>

definition task_panicked :: "string \<Rightarrow> PluginSupervisor \<Rightarrow> PluginSupervisor" where
  "task_panicked name s = s\<lparr>sv_tasks := remove1 name (sv_tasks s)\<rparr>"

text \<open>The end of \<open>flush_pending_h7\<close>, when the deadline has passed or all tasks are joined: what it reports, and the state it leaves.\<close>

definition flush_pending_h7 :: "PluginSupervisor \<Rightarrow> (string \<rightharpoonup> u64) \<times> PluginSupervisor" where
  "flush_pending_h7 s = (sv_pending s, s\<lparr>sv_tasks := [], sv_pending := Map.empty\<rparr>)"

text \<open>Reachable states, with the tasks that panicked since the last flush.\<close>

inductive supervised :: "PluginSupervisor \<Rightarrow> string list \<Rightarrow> bool" where
  sup_new: "supervised supervisor_new []"
| sup_spawn: "supervised s dead \<Longrightarrow> Suc (length (sv_tasks s) + length dead) < 2 ^ 64 \<Longrightarrow> supervised (spawn_h7 name s) dead"
| sup_completed: "supervised s dead \<Longrightarrow> name \<in> set (sv_tasks s) \<Longrightarrow> supervised (task_completed name s) dead"
| sup_panicked: "supervised s dead \<Longrightarrow> name \<in> set (sv_tasks s) \<Longrightarrow> supervised (task_panicked name s) (name # dead)"
| sup_flush: "supervised s dead \<Longrightarrow> supervised (snd (flush_pending_h7 s)) []"

definition unfinished :: "PluginSupervisor \<Rightarrow> string list \<Rightarrow> string \<Rightarrow> nat" where
  "unfinished s dead name = count_list (sv_tasks s) name + count_list dead name"

definition accounted :: "PluginSupervisor \<Rightarrow> string list \<Rightarrow> bool" where
  "accounted s dead \<longleftrightarrow> length (sv_tasks s) + length dead < 2 ^ 64
     \<and> (\<forall>name. sv_pending s name = (if unfinished s dead name = 0 then None else Some (of_nat (unfinished s dead name))))"

lemma count_list_remove1: "count_list (remove1 x xs) y = (if x = y then count_list xs y - 1 else count_list xs y)"
  by (induction xs) auto

lemma accounted_bound: "accounted s dead \<Longrightarrow> unfinished s dead name < 2 ^ 64"
  using count_le_length [of "sv_tasks s" name] count_le_length [of dead name]
  by (simp add: accounted_def unfinished_def)

lemma accounted_completed:
  assumes "accounted s dead" "name \<in> set (sv_tasks s)"
  shows "accounted (task_completed name s) dead"
proof -
  let ?n = "unfinished s dead name"
  have pos: "count_list (sv_tasks s) name > 0" using assms(2) by (metis count_list_0_iff gr0I)
  then have n: "?n > 0" by (simp add: unfinished_def)
  have cnt: "sv_pending s name = Some (of_nat ?n)" using assms(1) n by (simp add: accounted_def)
  have word: "of_nat ?n \<noteq> (0 :: u64)" "(of_nat ?n :: u64) - 1 = of_nat (?n - 1)" "(of_nat (?n - 1) :: u64) = 0 \<longleftrightarrow> ?n = 1"
  proof -
    have "(of_nat k :: u64) = 0 \<longleftrightarrow> k = 0" if "k < 2 ^ 64" for k
      using that by (simp add: unat_eq_zero [symmetric] unat_of_nat)
    then show "of_nat ?n \<noteq> (0 :: u64)" "(of_nat (?n - 1) :: u64) = 0 \<longleftrightarrow> ?n = 1"
      using n accounted_bound [OF assms(1), of name] by (auto simp del: of_nat_diff)
  qed (use n in \<open>simp add: of_nat_diff\<close>)
  have "unfinished (task_completed name s) dead x = (if x = name then ?n - 1 else unfinished s dead x)" for x
    using pos by (auto simp: unfinished_def task_completed_def cnt Let_def count_list_remove1)
  moreover have "sv_pending (task_completed name s) = (sv_pending s)(name := (if ?n = 1 then None else Some (of_nat (?n - 1))))"
    using word by (simp add: task_completed_def cnt Let_def)
  moreover have "length (sv_tasks (task_completed name s)) \<le> length (sv_tasks s)"
    by (simp add: task_completed_def cnt Let_def length_remove1)
  ultimately show ?thesis using assms(1) n by (simp add: accounted_def)
qed

lemma accounted_panicked:
  assumes "accounted s dead" "name \<in> set (sv_tasks s)"
  shows "accounted (task_panicked name s) (name # dead)"
proof -
  have pos: "count_list (sv_tasks s) name > 0" "length (sv_tasks s) > 0"
    using assms(2) by (metis count_list_0_iff gr0I, auto)
  then have "unfinished (task_panicked name s) (name # dead) x = unfinished s dead x" for x
    by (auto simp: unfinished_def task_panicked_def count_list_remove1)
  moreover have "length (sv_tasks (task_panicked name s)) + length (name # dead) = length (sv_tasks s) + length dead"
    using assms(2) pos(2) by (simp add: task_panicked_def length_remove1)
  moreover have "sv_pending (task_panicked name s) = sv_pending s" by (simp add: task_panicked_def)
  ultimately show ?thesis using assms(1) unfolding accounted_def by presburger
qed

lemma supervised_accounted: "supervised s dead \<Longrightarrow> accounted s dead"
proof (induction rule: supervised.induct)
  case sup_new
  then show ?case by (simp add: accounted_def unfinished_def supervisor_new_def)
next
  case (sup_spawn s dead name)
  have "unfinished (spawn_h7 name s) dead x = (if x = name then Suc (unfinished s dead name) else unfinished s dead x)" for x
    by (simp add: unfinished_def spawn_h7_def)
  with sup_spawn show ?case by (auto simp: accounted_def spawn_h7_def add.commute)
next
  case (sup_flush s dead)
  then show ?case by (simp add: accounted_def unfinished_def flush_pending_h7_def)
qed (simp_all add: accounted_completed accounted_panicked)

text \<open>What a flush reports. In every reachable state, whatever interleaving of spawns, completions, panics and
  flushes led to it, the shutdown flush reports for each plugin exactly the tasks that have not completed,
  which are those still running and those that panicked, and nothing for a plugin without such tasks;
  afterwards nothing is pending.\<close>

theorem flush_reports_unfinished:
  assumes "supervised s dead"
  shows "fst (flush_pending_h7 s) name = (let n = count_list (sv_tasks s) name + count_list dead name
      in if n = 0 then None else Some (of_nat n))
    \<and> sv_pending (snd (flush_pending_h7 s)) = Map.empty \<and> sv_tasks (snd (flush_pending_h7 s)) = []"
  using supervised_accounted [OF assms] by (simp add: flush_pending_h7_def accounted_def unfinished_def Let_def)

theorem flush_reports_unfinished_witness:
  "fst (flush_pending_h7 (task_panicked ''a'' (task_completed ''b'' (spawn_h7 ''a'' (spawn_h7 ''b'' (spawn_h7 ''a'' supervisor_new))))))
     ''a'' = Some 2"
proof -
  have "supervised (task_panicked ''a'' (task_completed ''b'' (spawn_h7 ''a'' (spawn_h7 ''b'' (spawn_h7 ''a'' supervisor_new))))) [''a'']"
    by (intro supervised.intros) (simp_all add: spawn_h7_def supervisor_new_def task_completed_def)
  from flush_reports_unfinished [OF this, of "''a''"] show ?thesis
    by (simp add: spawn_h7_def supervisor_new_def task_completed_def task_panicked_def)
qed

end
