(* ===== verification/Rate_Limit.thy ===== *)
theory Rate_Limit
  imports Static_Routes
begin

text \<open>
  Identities (\<open>router/src/auth.rs\<close>), the token-bucket registry (\<open>router/src/rate_limit.rs\<close>) and
  the validation of its configuration (\<open>validate_rate_limit\<close> of \<open>config/src/validation.rs\<close>).

  Parameters: \<open>sha256\<close> (the digest bytes of a string) and the \<open>governor\<close> crate: \<open>direct rate burst\<close>
  is a new bucket and \<open>check\<close> asks a bucket for one token, answering \<open>None\<close> when it was granted
  or the waiting time in nanoseconds, together with the bucket's new state. Header values are
  the visible-ASCII strings that reach this code, so \<open>trim\<close> removes ASCII white space.
\<close>

section \<open>Identities\<close>

datatype AgentIdentity = Anonymous | KeyHash string

fun log_id :: "AgentIdentity \<Rightarrow> string" where
  "log_id Anonymous = ''anonymous''"
| "log_id (KeyHash h) = h"

definition hash_key :: "(string \<Rightarrow> u8 list) \<Rightarrow> string \<Rightarrow> string" where
  "hash_key sha256 plaintext =
     ''sha256:'' @ concat (map (\<lambda>b. [hex_digit (unat b div 16), hex_digit (unat b mod 16)]) (sha256 plaintext))"

definition split_once :: "char \<Rightarrow> string \<Rightarrow> (string \<times> string) option" where
  "split_once c s =
     (case dropWhile (\<lambda>x. x \<noteq> c) s of [] \<Rightarrow> None | _ # rest \<Rightarrow> Some (takeWhile (\<lambda>x. x \<noteq> c) s, rest))"

text \<open>The key that an \<open>Authorization\<close> header or an \<open>x-api-key\<close> header presents.\<close>

definition bearer_key :: "string \<Rightarrow> string option" where
  "bearer_key auth =
     (case split_once CHR '' '' auth of
        None \<Rightarrow> None
      | Some (scheme, rest) \<Rightarrow>
          (if eq_ignore_ascii_case scheme ''Bearer'' \<and> trim rest \<noteq> [] then Some (trim rest) else None))"

definition extract_identity_from_headers :: "(string \<Rightarrow> u8 list) \<Rightarrow> string option \<Rightarrow> string option
    \<Rightarrow> AgentIdentity" where
  "extract_identity_from_headers sha256 authorization x_api_key =
     (case Option.bind authorization bearer_key of
        Some key \<Rightarrow> KeyHash (hash_key sha256 key)
      | None \<Rightarrow>
          (case x_api_key of
             Some k \<Rightarrow> (if trim k \<noteq> [] then KeyHash (hash_key sha256 (trim k)) else Anonymous)
           | None \<Rightarrow> Anonymous))"

text \<open>A bearer token takes precedence over an API-key header, the scheme is recognised in any
  letter case, both headers give the same identity for the same key, and a keyed identity
  never shares the log name, and so the rate-limit bucket, of the anonymous one.\<close>

theorem identity_of_headers:
  assumes "split_once CHR '' '' auth = Some (scheme, rest)" "eq_ignore_ascii_case scheme ''bearer''"
    and "trim rest \<noteq> []"
  shows "extract_identity_from_headers sha256 (Some auth) x = KeyHash (hash_key sha256 (trim rest))
    \<and> extract_identity_from_headers sha256 None (Some rest) = KeyHash (hash_key sha256 (trim rest))
    \<and> log_id (extract_identity_from_headers sha256 (Some auth) x) \<noteq> log_id Anonymous"
proof -
  have "to_ascii_lowercase ''Bearer'' = to_ascii_lowercase ''bearer''" by code_simp
  with assms show ?thesis
    by (simp add: extract_identity_from_headers_def bearer_key_def eq_ignore_ascii_case_def hash_key_def)
qed

lemma hex_digit_demo: "hex_digit 10 = CHR ''a''" "hex_digit 11 = CHR ''b''" "hex_digit 0 = CHR ''0''" "hex_digit 5 = CHR ''5''"
  by (simp_all add: hex_digit_def) (code_simp)+

theorem identity_of_headers_witness:
  "extract_identity_from_headers (\<lambda>_. [171, 5]) (Some ''BEARER  k1 '') None = KeyHash ''sha256:ab05''"
proof -
  have split: "split_once CHR '' '' ''BEARER  k1 '' = Some (''BEARER'', '' k1 '')"
    by (simp add: split_once_def)
  have scheme: "eq_ignore_ascii_case ''BEARER'' ''bearer''" by code_simp
  have key: "trim '' k1 '' = ''k1''" by (simp add: trim_def is_space_def)
  show ?thesis
    using identity_of_headers [OF split scheme, of "\<lambda>_. [171, 5]" None] key
    by (simp add: hash_key_def hex_digit_demo)
qed

section \<open>The limiter registry\<close>

datatype RateLimitDimension = PerKey | PerRoute | PerUpstream | PerIp

datatype LimitOutcome = Allowed | Limited u32

record 'l LimiterRegistry =
  lr_buckets :: "RateLimitDimension \<times> string \<rightharpoonup> 'l"
  lr_default_per_key :: "BucketConfig option"
  lr_anonymous :: "BucketConfig option"
  lr_per_key_overrides :: "string \<rightharpoonup> BucketConfig"
  lr_per_route :: "string \<rightharpoonup> BucketConfig"
  lr_per_upstream :: "string \<rightharpoonup> BucketConfig"
  lr_per_ip :: "BucketConfig option"
  lr_enabled :: bool

definition registry_from_config :: "RateLimitConfig \<Rightarrow> 'l LimiterRegistry" where
  "registry_from_config cfg = \<lparr>lr_buckets = Map.empty, lr_default_per_key = rl_per_key_default cfg,
     lr_anonymous = rl_per_key_anonymous cfg, lr_per_key_overrides = map_of (rl_per_key_overrides cfg),
     lr_per_route = map_of (rl_per_route cfg), lr_per_upstream = map_of (rl_per_upstream cfg),
     lr_per_ip = (if pi_enabled (rl_per_ip cfg)
                  then Some \<lparr>rate_per_sec = pi_rate_per_sec (rl_per_ip cfg), burst = pi_burst (rl_per_ip cfg)\<rparr>
                  else None),
     lr_enabled = rl_enabled cfg\<rparr>"

definition registry_disabled :: "'l LimiterRegistry" where
  "registry_disabled = \<lparr>lr_buckets = Map.empty, lr_default_per_key = None, lr_anonymous = None,
     lr_per_key_overrides = Map.empty, lr_per_route = Map.empty, lr_per_upstream = Map.empty,
     lr_per_ip = None, lr_enabled = False\<rparr>"

record 'l governor =
  gov_direct :: "u32 \<Rightarrow> u32 \<Rightarrow> 'l"
  gov_check :: "'l \<Rightarrow> nat option \<times> 'l"

definition quota :: "'l governor \<Rightarrow> BucketConfig \<Rightarrow> 'l" where
  "quota g cfg = gov_direct g (max (rate_per_sec cfg) 1) (max (burst cfg) 1)"

definition limiter_get_or_create :: "'l governor \<Rightarrow> 'l LimiterRegistry \<Rightarrow> RateLimitDimension \<Rightarrow> string
    \<Rightarrow> BucketConfig \<Rightarrow> 'l" where
  "limiter_get_or_create g reg d key cfg =
     (case lr_buckets reg (d, key) of Some l \<Rightarrow> l | None \<Rightarrow> quota g cfg)"

text \<open>\<open>wait.as_secs()\<close> rounded up, at least one, cast to \<open>u32\<close>.\<close>

definition retry_after_secs :: "nat \<Rightarrow> u32" where
  "retry_after_secs wait =
     as_u32 (max ((of_nat (wait div 1000000000) :: u64) + (if wait mod 1000000000 > 0 then 1 else 0)) 1)"

definition check_bucket :: "'l governor \<Rightarrow> 'l \<Rightarrow> LimitOutcome \<times> 'l" where
  "check_bucket g l =
     (case gov_check g l of
        (None, l') \<Rightarrow> (Allowed, l')
      | (Some wait, l') \<Rightarrow> (Limited (retry_after_secs wait), l'))"

type_synonym limit_result = "RateLimitDimension \<times> u32 + unit"

text \<open>One gate: look the bucket up, ask it, store its new state.\<close>

definition run_gate :: "'l governor \<Rightarrow> RateLimitDimension \<Rightarrow> string \<Rightarrow> BucketConfig option
    \<Rightarrow> 'l LimiterRegistry \<Rightarrow> limit_result \<times> 'l LimiterRegistry" where
  "run_gate g d key cfg reg =
     (case cfg of
        None \<Rightarrow> (Inr (), reg)
      | Some c \<Rightarrow>
          (let (out, l) = check_bucket g (limiter_get_or_create g reg d key c);
               reg' = reg\<lparr>lr_buckets := (lr_buckets reg)((d, key) \<mapsto> l)\<rparr>
           in case out of
                Allowed \<Rightarrow> (Inr (), reg')
              | Limited secs \<Rightarrow> (Inl (d, secs), reg')))"

definition and_then :: "limit_result \<times> 'r \<Rightarrow> ('r \<Rightarrow> limit_result \<times> 'r) \<Rightarrow> limit_result \<times> 'r" where
  "and_then p k = (case p of (Inl e, r) \<Rightarrow> (Inl e, r) | (Inr u, r) \<Rightarrow> k r)"

definition key_bucket_config :: "'l LimiterRegistry \<Rightarrow> AgentIdentity \<Rightarrow> BucketConfig option" where
  "key_bucket_config reg identity =
     (case identity of
        KeyHash h \<Rightarrow> or_opt (lr_per_key_overrides reg h) (lr_default_per_key reg)
      | Anonymous \<Rightarrow> lr_anonymous reg)"

definition check_pre_chain :: "'l governor \<Rightarrow> 'l LimiterRegistry \<Rightarrow> AgentIdentity \<Rightarrow> string \<Rightarrow> string
    \<Rightarrow> limit_result \<times> 'l LimiterRegistry" where
  "check_pre_chain g reg identity frontend_model client_ip =
     (if \<not> lr_enabled reg then (Inr (), reg)
      else and_then (run_gate g PerKey (log_id identity) (key_bucket_config reg identity) reg) (\<lambda>reg1.
           and_then (run_gate g PerRoute frontend_model (lr_per_route reg1 frontend_model) reg1) (\<lambda>reg2.
           run_gate g PerIp client_ip (lr_per_ip reg2) reg2)))"

definition check_per_upstream :: "'l governor \<Rightarrow> 'l LimiterRegistry \<Rightarrow> string
    \<Rightarrow> limit_result \<times> 'l LimiterRegistry" where
  "check_per_upstream g reg upstream =
     (if \<not> lr_enabled reg then (Inr (), reg)
      else run_gate g PerUpstream upstream (lr_per_upstream reg upstream) reg)"

section \<open>What the gates guarantee\<close>

definition same_config :: "'l LimiterRegistry \<Rightarrow> 'l LimiterRegistry \<Rightarrow> bool" where
  "same_config reg reg' \<longleftrightarrow> reg' = reg\<lparr>lr_buckets := lr_buckets reg'\<rparr>"

lemma same_config_fields:
  "same_config reg reg' \<Longrightarrow> lr_per_route reg' = lr_per_route reg \<and> lr_per_ip reg' = lr_per_ip reg
     \<and> lr_per_upstream reg' = lr_per_upstream reg \<and> lr_enabled reg' = lr_enabled reg"
  by (cases reg; cases reg') (simp add: same_config_def)

lemma same_config_trans: "same_config a b \<Longrightarrow> same_config b c \<Longrightarrow> same_config a c"
  by (cases a; cases b; cases c) (simp add: same_config_def)

text \<open>The reported delay covers the wait that a bucket asked for.\<close>

definition covers_wait :: "'l governor \<Rightarrow> u32 \<Rightarrow> bool" where
  "covers_wait g secs \<longleftrightarrow> (\<exists>l wait l'. gov_check g l = (Some wait, l') \<and>
     (wait < (2 ^ 32 - 1) * 1000000000 \<longrightarrow> wait \<le> unat secs * 1000000000 \<and> 1 \<le> unat secs))"

lemma max_of_nat_1: "a < 2 ^ 64 \<Longrightarrow> max (of_nat a :: u64) 1 = of_nat (max a 1)"
proof -
  assume "a < 2 ^ 64"
  then have a: "unat (of_nat a :: u64) = a" by (simp add: unat_of_nat)
  consider "a = 0" | "a = 1" | "1 < a" by linarith
  then show ?thesis
  proof cases
    case 3
    with a have "(1 :: u64) \<le> of_nat a" by (simp add: word_le_nat_alt)
    with 3 show ?thesis by (simp add: max_absorb1)
  qed simp_all
qed

lemma retry_after_covers:
  assumes "wait < (2 ^ 32 - 1) * 1000000000"
  shows "wait \<le> unat (retry_after_secs wait) * 1000000000 \<and> 1 \<le> unat (retry_after_secs wait)"
proof -
  let ?m = "wait div 1000000000" and ?r = "wait mod 1000000000"
  define n where "n = ?m + (if ?r > 0 then 1 else 0)"
  have "?m < 2 ^ 32 - 1" using assms by (simp add: less_mult_imp_div_less)
  then have n: "n < 2 ^ 32" by (auto simp: n_def)
  have "(of_nat ?m :: u64) + (if ?r > 0 then 1 else 0) = of_nat n" by (simp add: n_def)
  then have "retry_after_secs wait = as_u32 (of_nat (max n 1))"
    unfolding retry_after_secs_def using n max_of_nat_1 [of n] by simp
  moreover have "unat (as_u32 (of_nat (max n 1))) = max n 1"
    using n by (simp add: unat_as_u32 unat_of_nat)
  moreover have "wait \<le> n * 1000000000"
  proof -
    have "wait = ?m * 1000000000 + ?r" "?r < 1000000000" by simp_all
    then show ?thesis by (cases "?r = 0") (simp_all add: n_def)
  qed
  ultimately show ?thesis by (auto simp: max_def)
qed

lemma covers_retry_after:
  "gov_check g l = (Some wait, l') \<Longrightarrow> covers_wait g (retry_after_secs wait)"
  using retry_after_covers unfolding covers_wait_def by blast

lemma run_gate_post:
  "run_gate g d key cfg reg = (r, reg') \<Longrightarrow>
     same_config reg reg' \<and> (\<forall>k. k \<noteq> (d, key) \<longrightarrow> lr_buckets reg' k = lr_buckets reg k)
     \<and> (\<forall>e. r = Inl e \<longrightarrow> cfg \<noteq> None \<and> fst e = d \<and> covers_wait g (snd e))"
  by (auto simp: run_gate_def check_bucket_def same_config_def Let_def
      split: option.splits prod.splits LimitOutcome.splits intro: covers_retry_after)


text \<open>A bucket that grants \<open>n\<close> tokens and then asks for one and a half seconds.\<close>

definition demo_governor :: "nat governor" where
  "demo_governor = \<lparr>gov_direct = (\<lambda>rate burst. unat burst),
     gov_check = (\<lambda>n. case n of 0 \<Rightarrow> (Some 1500000000, 0) | Suc m \<Rightarrow> (None, m))\<rparr>"

definition demo_limits :: RateLimitConfig where
  "demo_limits = \<lparr>rl_enabled = True, rl_per_key_default = None,
     rl_per_key_anonymous = Some \<lparr>rate_per_sec = 1, burst = 1\<rparr>, rl_per_key_overrides = [],
     rl_per_route = [(''openai/gpt-4o'', \<lparr>rate_per_sec = 1, burst = 1\<rparr>)], rl_per_upstream = [],
     rl_per_ip = \<lparr>pi_enabled = False, pi_rate_per_sec = 5, pi_burst = 20\<rparr>\<rparr>"

lemmas demo_limit_defs = demo_governor_def demo_limits_def registry_from_config_def


section \<open>Validation of limits and keys\<close>

datatype limit_error =
    BadRouteKey string
  | NoSuchRoute string
  | NoSuchUpstream string
  | NotHashed string
  | MalformedHash string
  | ZeroRate string
  | ZeroBurst string
  | RequiredWithoutEnabled

definition is_ascii_hexdigit :: "char \<Rightarrow> bool" where
  "is_ascii_hexdigit c \<longleftrightarrow> (let n = (of_char c :: nat) in
     (48 \<le> n \<and> n \<le> 57) \<or> (97 \<le> n \<and> n \<le> 102) \<or> (65 \<le> n \<and> n \<le> 70))"

definition check_sha256_key :: "string \<Rightarrow> limit_error option" where
  "check_sha256_key key =
     (if take 7 key \<noteq> ''sha256:'' then Some (NotHashed key)
      else let hex = drop 7 key
           in if length hex \<noteq> 64 \<or> \<not> list_all is_ascii_hexdigit hex then Some (MalformedHash key) else None)"

definition check_route_key :: "GatewayConfig \<Rightarrow> string \<Rightarrow> limit_error option" where
  "check_route_key cfg key =
     (case split_once CHR ''/'' key of
        None \<Rightarrow> Some (BadRouteKey key)
      | Some (fe, model) \<Rightarrow>
          (if list_ex (\<lambda>r. re_frontend r = fe \<and> re_model r = model) (gc_routes cfg) then None
           else Some (NoSuchRoute key)))"

definition validate_bucket :: "string \<Rightarrow> BucketConfig \<Rightarrow> limit_error option" where
  "validate_bucket ctx b =
     (if rate_per_sec b = 0 then Some (ZeroRate ctx) else if burst b = 0 then Some (ZeroBurst ctx) else None)"

text \<open>A loop that stops at the first error, and a chain of such checks.\<close>

fun first_error :: "('a \<Rightarrow> 'e option) \<Rightarrow> 'a list \<Rightarrow> 'e option" where
  "first_error f [] = None"
| "first_error f (x # xs) = (case f x of Some e \<Rightarrow> Some e | None \<Rightarrow> first_error f xs)"

definition validate_rate_limit :: "GatewayConfig \<Rightarrow> limit_error + unit" where
  "validate_rate_limit cfg =
     (let rl = gc_rate_limit cfg in
      if \<not> rl_enabled rl then Inr ()
      else case first_error (\<lambda>x. x)
        [first_error (check_route_key cfg) (map fst (rl_per_route rl)),
         first_error (\<lambda>k. if gc_upstreams cfg k = None then Some (NoSuchUpstream k) else None)
           (map fst (rl_per_upstream rl)),
         first_error check_sha256_key (map fst (rl_per_key_overrides rl)),
         (case rl_per_key_default rl of None \<Rightarrow> None | Some b \<Rightarrow> validate_bucket ''rate_limit.per_key.default'' b),
         (case rl_per_key_anonymous rl of None \<Rightarrow> None | Some b \<Rightarrow> validate_bucket ''rate_limit.per_key.anonymous'' b),
         first_error (\<lambda>(k, b). validate_bucket k b) (rl_per_key_overrides rl),
         first_error (\<lambda>(k, b). validate_bucket k b) (rl_per_route rl),
         first_error (\<lambda>(k, b). validate_bucket k b) (rl_per_upstream rl),
         (if \<not> pi_enabled (rl_per_ip rl) then None
          else if pi_rate_per_sec (rl_per_ip rl) = 0 then Some (ZeroRate ''rate_limit.per_ip'')
          else if pi_burst (rl_per_ip rl) = 0 then Some (ZeroBurst ''rate_limit.per_ip'')
          else None)]
      of Some e \<Rightarrow> Inl e | None \<Rightarrow> Inr ())"

definition validate_auth :: "GatewayConfig \<Rightarrow> limit_error + unit" where
  "validate_auth cfg =
     (if au_required (gc_auth cfg) \<and> \<not> au_enabled (gc_auth cfg) then Inl RequiredWithoutEnabled
      else case first_error check_sha256_key (map fst (au_keys (gc_auth cfg))) of
        Some e \<Rightarrow> Inl e
      | None \<Rightarrow> Inr ())"

lemma first_error_none: "first_error f xs = None \<longleftrightarrow> (\<forall>x \<in> set xs. f x = None)"
  by (induction xs) (auto split: option.splits)

lemma one_le_u32: "n \<noteq> 0 \<Longrightarrow> 1 \<le> (n :: u32)"
  by (simp add: word_le_nat_alt unat_gt_0 Suc_le_eq)

lemma validate_bucket_none:
  "validate_bucket ctx b = None \<longleftrightarrow> 1 \<le> rate_per_sec b \<and> 1 \<le> burst b"
  using one_le_u32 [of "rate_per_sec b"] one_le_u32 [of "burst b"] by (auto simp: validate_bucket_def)

text \<open>The buckets that a registry hands out.\<close>

definition registry_bucket :: "'l LimiterRegistry \<Rightarrow> BucketConfig \<Rightarrow> bool" where
  "registry_bucket reg b \<longleftrightarrow>
     b \<in> set_option (lr_default_per_key reg) \<union> set_option (lr_anonymous reg)
       \<union> ran (lr_per_key_overrides reg) \<union> ran (lr_per_route reg) \<union> ran (lr_per_upstream reg)
       \<union> set_option (lr_per_ip reg)"

definition limit_buckets :: "RateLimitConfig \<Rightarrow> BucketConfig set" where
  "limit_buckets rl = set_option (rl_per_key_default rl) \<union> set_option (rl_per_key_anonymous rl)
     \<union> snd ` set (rl_per_key_overrides rl) \<union> snd ` set (rl_per_route rl) \<union> snd ` set (rl_per_upstream rl)
     \<union> (if pi_enabled (rl_per_ip rl)
        then {\<lparr>rate_per_sec = pi_rate_per_sec (rl_per_ip rl), burst = pi_burst (rl_per_ip rl)\<rparr>} else {})"

lemma validated_entries:
  assumes "validate_rate_limit cfg = Inr ()" "rl_enabled (gc_rate_limit cfg)"
  shows "\<forall>k \<in> fst ` set (rl_per_upstream (gc_rate_limit cfg)). gc_upstreams cfg k \<noteq> None"
    and "\<forall>k \<in> fst ` set (rl_per_key_overrides (gc_rate_limit cfg)). check_sha256_key k = None"
proof -
  from assms have "\<forall>x \<in> {first_error (check_route_key cfg) (map fst (rl_per_route (gc_rate_limit cfg))),
         first_error (\<lambda>k. if gc_upstreams cfg k = None then Some (NoSuchUpstream k) else None)
           (map fst (rl_per_upstream (gc_rate_limit cfg))),
         first_error check_sha256_key (map fst (rl_per_key_overrides (gc_rate_limit cfg)))}. x = None"
    unfolding validate_rate_limit_def Let_def by (simp split: option.splits if_splits)
  then show "\<forall>k \<in> fst ` set (rl_per_upstream (gc_rate_limit cfg)). gc_upstreams cfg k \<noteq> None"
    and "\<forall>k \<in> fst ` set (rl_per_key_overrides (gc_rate_limit cfg)). check_sha256_key k = None"
    by (simp_all add: first_error_none split: if_splits)
qed

lemma validated_buckets:
  assumes "validate_rate_limit cfg = Inr ()" "rl_enabled (gc_rate_limit cfg)"
  shows "\<forall>b \<in> limit_buckets (gc_rate_limit cfg). 1 \<le> rate_per_sec b \<and> 1 \<le> burst b"
proof -
  let ?rl = "gc_rate_limit cfg"
  from assms have all: "\<forall>x \<in> {(case rl_per_key_default ?rl of None \<Rightarrow> None | Some b \<Rightarrow> validate_bucket ''rate_limit.per_key.default'' b),
         (case rl_per_key_anonymous ?rl of None \<Rightarrow> None | Some b \<Rightarrow> validate_bucket ''rate_limit.per_key.anonymous'' b),
         first_error (\<lambda>(k, b). validate_bucket k b) (rl_per_key_overrides ?rl),
         first_error (\<lambda>(k, b). validate_bucket k b) (rl_per_route ?rl),
         first_error (\<lambda>(k, b). validate_bucket k b) (rl_per_upstream ?rl),
         (if \<not> pi_enabled (rl_per_ip ?rl) then None
          else if pi_rate_per_sec (rl_per_ip ?rl) = 0 then Some (ZeroRate ''rate_limit.per_ip'')
          else if pi_burst (rl_per_ip ?rl) = 0 then Some (ZeroBurst ''rate_limit.per_ip'')
          else None)}. x = None"
    unfolding validate_rate_limit_def Let_def by (simp split: option.splits if_splits)
  have 1: "\<forall>b \<in> snd ` set xs. 1 \<le> rate_per_sec b \<and> 1 \<le> burst b"
    if "first_error (\<lambda>(k, b). validate_bucket k b) xs = None" for xs
    using that by (auto simp: first_error_none validate_bucket_none)
  have 2: "\<forall>b \<in> set_option x. 1 \<le> rate_per_sec b \<and> 1 \<le> burst b"
    if "(case x of None \<Rightarrow> None | Some b \<Rightarrow> validate_bucket ctx b) = None" for x ctx
    using that by (cases x) (simp_all add: validate_bucket_none)
  from all have "\<forall>b \<in> (if pi_enabled (rl_per_ip ?rl)
      then {\<lparr>rate_per_sec = pi_rate_per_sec (rl_per_ip ?rl), burst = pi_burst (rl_per_ip ?rl)\<rparr>} else {}).
      1 \<le> rate_per_sec b \<and> 1 \<le> burst b"
    by (auto simp: one_le_u32 split: if_splits)
  moreover from all have "\<forall>b \<in> set_option (rl_per_key_default ?rl). 1 \<le> rate_per_sec b \<and> 1 \<le> burst b"
    by (intro 2 [where ctx = "''rate_limit.per_key.default''"]) simp
  moreover from all have "\<forall>b \<in> set_option (rl_per_key_anonymous ?rl). 1 \<le> rate_per_sec b \<and> 1 \<le> burst b"
    by (intro 2 [where ctx = "''rate_limit.per_key.anonymous''"]) simp
  moreover from all have "\<forall>b \<in> snd ` set (rl_per_key_overrides ?rl). 1 \<le> rate_per_sec b \<and> 1 \<le> burst b"
      "\<forall>b \<in> snd ` set (rl_per_route ?rl). 1 \<le> rate_per_sec b \<and> 1 \<le> burst b"
      "\<forall>b \<in> snd ` set (rl_per_upstream ?rl). 1 \<le> rate_per_sec b \<and> 1 \<le> burst b"
    by (intro 1; simp)+
  ultimately show ?thesis unfolding limit_buckets_def by blast
qed

lemma only_configured_route_rejects:
  "lr_per_route reg fm = None \<Longrightarrow> fst (check_pre_chain g reg ident fm ip) \<noteq> Inl (PerRoute, secs)"
  by (auto simp: check_pre_chain_def and_then_def run_gate_def Let_def
      split: option.splits prod.splits sum.splits LimitOutcome.splits)

lemma hex_digit_ne_A: "n < 16 \<Longrightarrow> CHR ''A'' \<noteq> hex_digit n"
proof
  assume n: "n < 16" and "CHR ''A'' = hex_digit n"
  then have "(of_char CHR ''A'' :: nat) = of_char (hex_digit n)" by simp
  with n show False by (simp add: hex_digit_def split: if_splits)
qed

text \<open>A validated and enabled rate-limit block yields a registry every bucket of which has a
  positive rate and burst, so that the bucket is created with exactly the configured quota; its
  override keys are \<open>sha256:\<close> followed by 64 hexadecimal digits; and its per-upstream keys name
  configured upstreams.\<close>

theorem validated_limits:
  assumes "validate_rate_limit cfg = Inr ()" "rl_enabled (gc_rate_limit cfg)"
  shows "(\<forall>b. registry_bucket (registry_from_config (gc_rate_limit cfg) :: 'l LimiterRegistry) b \<longrightarrow>
      quota (g :: 'l governor) b = gov_direct g (rate_per_sec b) (burst b))
    \<and> (\<forall>k \<in> dom (lr_per_key_overrides (registry_from_config (gc_rate_limit cfg) :: 'l LimiterRegistry)).
        \<exists>hex. k = ''sha256:'' @ hex \<and> length hex = 64 \<and> list_all is_ascii_hexdigit hex)
    \<and> dom (lr_per_upstream (registry_from_config (gc_rate_limit cfg) :: 'l LimiterRegistry)) \<subseteq> dom (gc_upstreams cfg)"
proof (intro conjI allI ballI impI)
  let ?rl = "gc_rate_limit cfg" and ?reg = "registry_from_config (gc_rate_limit cfg) :: 'l LimiterRegistry"
  note ok = validated_entries [OF assms]
  show "quota g b = gov_direct g (rate_per_sec b) (burst b)" if "registry_bucket ?reg b" for b
  proof -
    from that have "b \<in> limit_buckets ?rl"
      by (auto simp: registry_bucket_def registry_from_config_def limit_buckets_def ran_def
          dest!: map_of_SomeD split: if_splits intro: rev_image_eqI)
    with validated_buckets [OF assms] show ?thesis by (simp add: quota_def max_absorb1)
  qed
  show "\<exists>hex. k = ''sha256:'' @ hex \<and> length hex = 64 \<and> list_all is_ascii_hexdigit hex"
    if "k \<in> dom (lr_per_key_overrides ?reg)" for k
  proof -
    from that have "check_sha256_key k = None" using ok(2) by (auto simp: registry_from_config_def dom_map_of_conv_image_fst)
    then have "k = ''sha256:'' @ drop 7 k \<and> length (drop 7 k) = 64 \<and> list_all is_ascii_hexdigit (drop 7 k)"
      using append_take_drop_id [of 7 k, symmetric]
      by (auto simp: check_sha256_key_def Let_def simp del: append_take_drop_id split: if_splits)
    then show ?thesis by blast
  qed
  show "dom (lr_per_upstream ?reg) \<subseteq> dom (gc_upstreams cfg)"
    using ok(1) by (auto simp: registry_from_config_def dom_map_of_conv_image_fst)
qed

definition demo_limited_config :: "string \<Rightarrow> string \<Rightarrow> GatewayConfig" where
  "demo_limited_config route_key override =
     (demo_gateway [demo_route ''gpt-4o'' ''a'' ''x''])\<lparr>gc_rate_limit := demo_limits\<lparr>
        rl_per_route := [(route_key, \<lparr>rate_per_sec = 1, burst = 1\<rparr>)],
        rl_per_key_overrides := [(override, \<lparr>rate_per_sec = 1, burst = 1\<rparr>)]\<rparr>\<rparr>"

lemma demo_limited_config_valid:
  "check_sha256_key key = None \<Longrightarrow> validate_rate_limit (demo_limited_config ''openai/gpt-4o'' key) = Inr ()"
  by (simp add: validate_rate_limit_def demo_limited_config_def demo_limits_def demo_gateway_def demo_route_def
      check_route_key_def split_once_def validate_bucket_def)

lemma check_sha256_replicate: "is_ascii_hexdigit c \<Longrightarrow> check_sha256_key (''sha256:'' @ replicate 64 c) = None"
  by (simp add: check_sha256_key_def list_all_iff)

theorem validated_limits_witness:
  "quota demo_governor \<lparr>rate_per_sec = 1, burst = 1\<rparr> = gov_direct demo_governor 1 1"
proof -
  let ?cfg = "demo_limited_config ''openai/gpt-4o'' (''sha256:'' @ replicate 64 CHR ''a'')"
  have "validate_rate_limit ?cfg = Inr ()"
    by (rule demo_limited_config_valid, rule check_sha256_replicate) (simp add: is_ascii_hexdigit_def)
  moreover have "rl_enabled (gc_rate_limit ?cfg)" by (simp add: demo_limited_config_def demo_limits_def)
  moreover have "registry_bucket (registry_from_config (gc_rate_limit ?cfg) :: nat LimiterRegistry)
      \<lparr>rate_per_sec = 1, burst = 1\<rparr>"
    by (simp add: registry_bucket_def registry_from_config_def demo_limited_config_def demo_limits_def)
  ultimately show ?thesis using validated_limits [of ?cfg, where g = demo_governor] by auto
qed

text \<open>Two kinds of limits pass validation and never take effect. A per-route limit keyed by an
  alias of a front end, as the route itself may be written, is never consulted, because requests
  are labelled with the canonical front-end name; and an override keyed by a digest in
  upper-case letters never matches, because \<open>hash_key\<close> writes lower-case ones.\<close>

theorem unreachable_limits:
  "validate_rate_limit (demo_limited_config ''openai/gpt-4o'' (''sha256:'' @ replicate 64 CHR ''A'')) = Inr ()
   \<and> (\<forall>(g :: 'l governor) buckets ident fe m ip secs.
        fst (check_pre_chain g ((registry_from_config (gc_rate_limit
          (demo_limited_config ''openai/gpt-4o'' (''sha256:'' @ replicate 64 CHR ''A''))))\<lparr>lr_buckets := buckets\<rparr>)
          ident (route_label fe m) ip) \<noteq> Inl (PerRoute, secs))
   \<and> (\<forall>sha256 key. hash_key sha256 key \<noteq> ''sha256:'' @ replicate 64 CHR ''A'')"
proof (intro conjI allI impI)
  show "validate_rate_limit (demo_limited_config ''openai/gpt-4o'' (''sha256:'' @ replicate 64 CHR ''A'')) = Inr ()"
    by (rule demo_limited_config_valid, rule check_sha256_replicate) (simp add: is_ascii_hexdigit_def)
next
  fix g :: "'l governor" and buckets ident fe m ip secs
  show "fst (check_pre_chain g ((registry_from_config (gc_rate_limit
      (demo_limited_config ''openai/gpt-4o'' (''sha256:'' @ replicate 64 CHR ''A''))))\<lparr>lr_buckets := buckets\<rparr>)
      ident (route_label fe m) ip) \<noteq> Inl (PerRoute, secs)"
    by (rule only_configured_route_rejects, cases fe)
      (simp_all add: registry_from_config_def demo_limited_config_def route_label_def)
next
  fix sha256 key
  show "hash_key sha256 key \<noteq> ''sha256:'' @ replicate 64 CHR ''A''"
  proof
    assume "hash_key sha256 key = ''sha256:'' @ replicate 64 CHR ''A''"
    then have "set (drop 7 (hash_key sha256 key)) = {CHR ''A''}" by simp
    moreover have "CHR ''A'' \<notin> set (drop 7 (hash_key sha256 key))"
    proof -
      have "CHR ''A'' \<noteq> hex_digit (unat b div 16)" for b :: u8
      proof (rule hex_digit_ne_A)
        have "unat b < 2 ^ LENGTH(8)" by (rule unsigned_less)
        then show "unat b div 16 < 16" by simp
      qed
      then show ?thesis by (auto simp: hash_key_def hex_digit_ne_A)
    qed
    ultimately show False by auto
  qed
qed

end
