(* ===== verification/Cost_Filter.thy ===== *)
theory Cost_Filter
  imports Static_Routes
begin

text \<open>
  Cost estimation (\<open>router/src/cost_estimate.rs\<close>), the image-token estimators
  (\<open>router/src/image_estimators\<close>, \<open>gateway/src/image_estimator_selector.rs\<close>) and the chain filter
  (\<open>router/src/cost_filter.rs\<close>). The tokenizer of the \<open>tiktoken-rs\<close> crate is the parameter
  \<open>encode_ordinary\<close>; the latency probe is the function that gives the recent latency of an
  upstream. Dollar amounts are exact reals.
\<close>

section \<open>Image tokens\<close>

datatype ImageDetail = DetailLow | DetailHigh | DetailAuto

datatype ImageSizeHint = KnownSize u32 u32 ImageDetail | UnknownSize

type_synonym image_estimator = "ImageSizeHint \<Rightarrow> u32"

text \<open>\<open>u64::div_ceil\<close>, and \<open>u32::saturating_mul\<close>.\<close>

definition div_ceil :: "'a::len word \<Rightarrow> 'a word \<Rightarrow> 'a word" where
  "div_ceil a b = (if a mod b > 0 then a div b + 1 else a div b)"

definition saturating_mul :: "u32 \<Rightarrow> u32 \<Rightarrow> u32" where
  "saturating_mul a b = (if unat a * unat b < 2 ^ 32 then a * b else 4294967295)"

fun anthropic_tokens_for_image :: image_estimator where
  "anthropic_tokens_for_image UnknownSize = 1600"
| "anthropic_tokens_for_image (KnownSize width height detail) =
     (let pixels = (ucast width :: u64) * (ucast height :: u64) in ucast (div_ceil pixels 750))"

definition high_detail_tokens :: "u32 \<Rightarrow> u32 \<Rightarrow> u32" where
  "high_detail_tokens width height =
     (let tiles_w = div_ceil width 512;
          tiles_h = div_ceil height 512;
          tiles = saturating_mul tiles_w tiles_h
      in saturating_add 85 (saturating_mul 170 tiles))"

fun openai_tokens_for_image :: image_estimator where
  "openai_tokens_for_image UnknownSize = 1105"
| "openai_tokens_for_image (KnownSize width height DetailLow) = 85"
| "openai_tokens_for_image (KnownSize width height DetailHigh) = high_detail_tokens width height"
| "openai_tokens_for_image (KnownSize width height DetailAuto) = high_detail_tokens width height"

definition responses_tokens_for_image :: image_estimator where
  "responses_tokens_for_image hint = openai_tokens_for_image hint"

fun select_image_estimator :: "FrontendKind \<Rightarrow> image_estimator" where
  "select_image_estimator AnthropicMessages = anthropic_tokens_for_image"
| "select_image_estimator OpenAiChat = openai_tokens_for_image"
| "select_image_estimator OpenAiResponses = responses_tokens_for_image"

section \<open>The estimate\<close>

definition canonical_request_text :: "CanonicalRequest \<Rightarrow> string" where
  "canonical_request_text request =
     concat (map (\<lambda>msg. concat (map (\<lambda>block. case block of BText t \<Rightarrow> tb_text t @ [CHR 0x0A] | _ \<Rightarrow> [])
       (msg_content msg))) (req_messages request))"

definition estimate_text_tokens :: "(string \<Rightarrow> u32 list) \<Rightarrow> CanonicalRequest \<Rightarrow> u32" where
  "estimate_text_tokens encode_ordinary request =
     of_nat (length (encode_ordinary (canonical_request_text request)))"

definition is_image :: "ContentBlock \<Rightarrow> bool" where
  "is_image block = (case block of BImage _ \<Rightarrow> True | _ \<Rightarrow> False)"

definition estimate_image_tokens :: "image_estimator \<Rightarrow> CanonicalRequest \<Rightarrow> u32" where
  "estimate_image_tokens est request =
     fold (\<lambda>msg tokens. fold (\<lambda>block tokens.
         if is_image block then saturating_add tokens (est UnknownSize) else tokens) (msg_content msg) tokens)
       (req_messages request) 0"

definition output_token_cap :: "CanonicalRequest \<Rightarrow> u32" where
  "output_token_cap request = (case max_tokens (req_generation request) of Some n \<Rightarrow> n | None \<Rightarrow> 4096)"

definition u32_as_f64 :: "u32 \<Rightarrow> f64" where
  "u32_as_f64 n = real (unat n)"

definition estimate_request_cost :: "(string \<Rightarrow> u32 list) \<Rightarrow> image_estimator \<Rightarrow> CanonicalRequest
    \<Rightarrow> UpstreamCost option \<Rightarrow> f64 option" where
  "estimate_request_cost encode_ordinary est request cost =
     (case cost of
        None \<Rightarrow> None
      | Some c \<Rightarrow>
          (let text_tokens = estimate_text_tokens encode_ordinary request;
               image_tokens = estimate_image_tokens est request;
               input_tokens = saturating_add text_tokens image_tokens;
               output_tokens = output_token_cap request
           in Some ((u32_as_f64 input_tokens * input_per_million_usd c
                     + u32_as_f64 output_tokens * output_per_million_usd c) / 1000000)))"

section \<open>The chain filter\<close>

datatype FilterReason = ReasonTier | ReasonLatency | ReasonCap | ReasonLatencyUnknown

record Skip =
  skip_upstream :: string
  skip_reason :: FilterReason

record FilterOutcome =
  fo_survivors :: "BackendTarget list"
  fo_skipped :: "Skip list"
  fo_notes :: "Skip list"

record filter_env =
  fe_route :: RouteEntry
  fe_config :: GatewayConfig
  fe_request :: CanonicalRequest
  fe_probe :: "string \<Rightarrow> u64 option"
  fe_image_estimator :: image_estimator
  fe_encode_ordinary :: "string \<Rightarrow> u32 list"

definition tier_rejects :: "filter_env \<Rightarrow> UpstreamConfig \<Rightarrow> bool" where
  "tier_rejects env up =
     (case re_min_tier (fe_route env) of Some min_tier \<Rightarrow> upstream_tier up < min_tier | None \<Rightarrow> False)"

definition cap_rejects :: "filter_env \<Rightarrow> UpstreamConfig \<Rightarrow> bool" where
  "cap_rejects env up =
     (case re_max_cost_usd (fe_route env) of
        None \<Rightarrow> False
      | Some cap \<Rightarrow>
          (case estimate_request_cost (fe_encode_ordinary env) (fe_image_estimator env) (fe_request env)
                  (upstream_cost up) of
             None \<Rightarrow> False
           | Some est \<Rightarrow> est > cap))"

text \<open>One iteration of the loop of \<open>filter_chain\<close>; \<open>continue\<close> is an early result.\<close>

definition filter_target :: "filter_env \<Rightarrow> BackendTarget \<Rightarrow> FilterOutcome \<Rightarrow> FilterOutcome" where
  "filter_target env target out =
     (let name = bt_provider target;
          keep = (\<lambda>o'. o'\<lparr>fo_survivors := fo_survivors o' @ [target]\<rparr>);
          skip = (\<lambda>reason o'. o'\<lparr>fo_skipped := fo_skipped o' @ [\<lparr>skip_upstream = name, skip_reason = reason\<rparr>]\<rparr>);
          cap = (\<lambda>up o'. if cap_rejects env up then skip ReasonCap o' else keep o')
      in case gc_upstreams (fe_config env) name of
           None \<Rightarrow> keep out
         | Some up \<Rightarrow>
             (if tier_rejects env up then skip ReasonTier out
              else case upstream_latency_budget up of
                     None \<Rightarrow> cap up out
                   | Some budget \<Rightarrow>
                       (case fe_probe env name of
                          Some measured \<Rightarrow> (if measured > budget then skip ReasonLatency out else cap up out)
                        | None \<Rightarrow> cap up (out\<lparr>fo_notes := fo_notes out @
                            [\<lparr>skip_upstream = name, skip_reason = ReasonLatencyUnknown\<rparr>]\<rparr>))))"

definition filter_chain :: "filter_env \<Rightarrow> BackendTarget list \<Rightarrow> FilterOutcome" where
  "filter_chain env chain =
     fold (filter_target env) chain \<lparr>fo_survivors = [], fo_skipped = [], fo_notes = []\<rparr>"

section \<open>What the filter guarantees\<close>

text \<open>The specification: the first axis that rejects a target, in the order tier, latency, cap.\<close>

definition over_budget :: "filter_env \<Rightarrow> string \<Rightarrow> UpstreamConfig \<Rightarrow> bool" where
  "over_budget env name up \<longleftrightarrow> (\<exists>budget measured. upstream_latency_budget up = Some budget
     \<and> fe_probe env name = Some measured \<and> budget < measured)"

definition reject_reason :: "filter_env \<Rightarrow> BackendTarget \<Rightarrow> FilterReason option" where
  "reject_reason env t =
     (case gc_upstreams (fe_config env) (bt_provider t) of
        None \<Rightarrow> None
      | Some up \<Rightarrow>
          (if tier_rejects env up then Some ReasonTier
           else if over_budget env (bt_provider t) up then Some ReasonLatency
           else if cap_rejects env up then Some ReasonCap
           else None))"

lemma filter_target_spec:
  "fo_survivors (filter_target env t out) = fo_survivors out @ (if reject_reason env t = None then [t] else [])"
  "fo_skipped (filter_target env t out) = fo_skipped out @ (case reject_reason env t of None \<Rightarrow> []
     | Some r \<Rightarrow> [\<lparr>skip_upstream = bt_provider t, skip_reason = r\<rparr>])"
  by (auto simp: filter_target_def reject_reason_def over_budget_def Let_def split: option.splits)

lemma filter_fold_spec:
  "fo_survivors (fold (filter_target env) ts out) = fo_survivors out @ filter (\<lambda>t. reject_reason env t = None) ts"
  "fo_skipped (fold (filter_target env) ts out) = fo_skipped out @ List.map_filter
     (\<lambda>t. map_option (\<lambda>r. \<lparr>skip_upstream = bt_provider t, skip_reason = r\<rparr>) (reject_reason env t)) ts"
  by (induction ts arbitrary: out)
    (simp_all add: filter_target_spec List.map_filter_simps split: option.splits)

lemma length_map_filter_None:
  "length (filter (\<lambda>x. f x = None) xs) + length (List.map_filter f xs) = length xs"
  by (induction xs) (auto simp: List.map_filter_simps split: option.splits)


text \<open>The image tokens saturate instead of wrapping.\<close>

definition image_count :: "CanonicalRequest \<Rightarrow> nat" where
  "image_count request = length (filter is_image (concat (map msg_content (req_messages request))))"

definition count_images :: "u32 \<Rightarrow> ContentBlock list \<Rightarrow> u32 \<Rightarrow> u32" where
  "count_images worst bs tokens = fold (\<lambda>block tokens. if is_image block then saturating_add tokens worst else tokens) bs tokens"

lemma count_images_append: "count_images w (xs @ ys) t = count_images w ys (count_images w xs t)"
  by (simp add: count_images_def)

lemma estimate_image_tokens_concat:
  "estimate_image_tokens est request = count_images (est UnknownSize) (concat (map msg_content (req_messages request))) 0"
proof -
  have "fold (\<lambda>msg. count_images w (msg_content msg)) ms t = count_images w (concat (map msg_content ms)) t"
    for w t and ms :: "Message list"
    by (induction ms arbitrary: t) (simp_all add: count_images_append, simp add: count_images_def)
  then show ?thesis by (simp add: estimate_image_tokens_def count_images_def [abs_def])
qed

lemma unat_count_images:
  "unat (count_images w bs t) = min (unat t + length (filter is_image bs) * unat w) (2 ^ 32 - 1)"
proof (induction bs arbitrary: t)
  case Nil
  have "unat t < 2 ^ LENGTH(32)" by (rule unsigned_less)
  then show ?case by (simp add: count_images_def)
next
  case (Cons b bs)
  then show ?case
    by (cases "is_image b") (simp_all add: count_images_def unat_saturating_add min_def)
qed

definition input_tokens_bound :: "filter_env \<Rightarrow> nat" where
  "input_tokens_bound env =
     length (fe_encode_ordinary env (canonical_request_text (fe_request env)))
     + image_count (fe_request env) * unat (fe_image_estimator env UnknownSize)"

lemma input_tokens_exact:
  assumes "input_tokens_bound env < 2 ^ 32"
  shows "unat (saturating_add (estimate_text_tokens (fe_encode_ordinary env) (fe_request env))
     (estimate_image_tokens (fe_image_estimator env) (fe_request env))) = input_tokens_bound env"
  using assms
  by (simp add: unat_saturating_add estimate_text_tokens_def estimate_image_tokens_concat unat_count_images
      image_count_def input_tokens_bound_def)

text \<open>C31. The cost cap is sound for what the estimate counts: when the counted input fits in 32
  bits, a priced target that survives costs at most the route's cap for every request that uses
  no more input tokens than the text and image blocks of the messages account for and no more
  output tokens than the request allows.\<close>

theorem survivors_within_cap:
  assumes "t \<in> set (fo_survivors (filter_chain env chain))"
    and "gc_upstreams (fe_config env) (bt_provider t) = Some up" "upstream_cost up = Some c"
    and "re_max_cost_usd (fe_route env) = Some cap"
    and "0 \<le> input_per_million_usd c" "0 \<le> output_per_million_usd c"
    and "input_tokens_bound env < 2 ^ 32" "n_in \<le> input_tokens_bound env"
    and "n_out \<le> unat (output_token_cap (fe_request env))"
  shows "(real n_in * input_per_million_usd c + real n_out * output_per_million_usd c) / 1000000 \<le> cap"
proof -
  from assms(1) have "reject_reason env t = None"
    by (simp add: filter_chain_def filter_fold_spec)
  with assms(2) have "\<not> cap_rejects env up" by (auto simp: reject_reason_def split: if_splits)
  moreover have "u32_as_f64 (saturating_add (estimate_text_tokens (fe_encode_ordinary env) (fe_request env))
      (estimate_image_tokens (fe_image_estimator env) (fe_request env))) = real (input_tokens_bound env)"
    unfolding u32_as_f64_def input_tokens_exact [OF assms(7)] ..
  ultimately have "(real (input_tokens_bound env) * input_per_million_usd c
      + real (unat (output_token_cap (fe_request env))) * output_per_million_usd c) / 1000000 \<le> cap"
    using assms(3,4)
    by (simp add: cap_rejects_def estimate_request_cost_def Let_def) (simp add: u32_as_f64_def)
  moreover have "real n_in * input_per_million_usd c \<le> real (input_tokens_bound env) * input_per_million_usd c"
    using assms(5,8) by (intro mult_right_mono) simp_all
  moreover have "real n_out * output_per_million_usd c
      \<le> real (unat (output_token_cap (fe_request env))) * output_per_million_usd c"
    using assms(6) of_nat_mono [OF assms(9), where 'a = real] by (intro mult_right_mono)
  ultimately show ?thesis by (simp add: divide_le_eq)
qed

definition demo_request :: "string \<Rightarrow> CanonicalRequest" where
  "demo_request msg = \<lparr>req_id = ''r'', req_frontend = \<lparr>fi_kind = OpenAiChat, fi_requested_model = ''m''\<rparr>,
     req_model = ''m'', req_system = [], req_messages = [message_user [text_content_block msg]], req_tools = [],
     req_tool_choice = ChoiceAuto,
     req_generation = \<lparr>max_tokens = Some 100, temperature = None, top_p = None, top_k = None,
       presence_penalty = None, frequency_penalty = None, stop_sequences = [], seed = None, reasoning = None\<rparr>,
     req_response_format = None, req_stream = False, req_metadata = \<lparr>user_id = None, agent = None\<rparr>,
     req_inbound_anthropic_headers = [],
     req_resolved_policy = \<lparr>rp_reasoning_effort = None, rp_reasoning_budget_tokens = None,
       rp_supported_efforts = None, rp_supported_endpoints = None, rp_anthropic_headers = []\<rparr>,
     req_extensions = []\<rparr>"

definition demo_priced :: UpstreamConfig where
  "demo_priced = OpenAiCompatible \<lparr>uf_tier = Standard,
     uf_cost = Some \<lparr>input_per_million_usd = 1000000, output_per_million_usd = 0\<rparr>, uf_p95_latency_budget_ms = None\<rparr>"

definition demo_filter_env :: "CanonicalRequest \<Rightarrow> filter_env" where
  "demo_filter_env request = \<lparr>fe_route = (demo_route ''m'' ''a'' ''x'')\<lparr>re_max_cost_usd := Some 3\<rparr>,
     fe_config = (demo_gateway [])\<lparr>gc_upstreams := [''a'' \<mapsto> demo_priced]\<rparr>, fe_request = request,
     fe_probe = (\<lambda>_. None), fe_image_estimator = openai_tokens_for_image,
     fe_encode_ordinary = map (\<lambda>c. of_char c)\<rparr>"

definition demo_target :: "string \<Rightarrow> BackendTarget" where
  "demo_target p = \<lparr>bt_provider = p, bt_model = ''x'', bt_policy = \<lparr>default_reasoning_effort = None,
     default_anthropic_beta = None, reasoning_mapping = []\<rparr>\<rparr>"

lemmas demo_filter_defs = demo_filter_env_def demo_request_def demo_route_def demo_gateway_def demo_priced_def
  demo_target_def message_user_def text_content_block_def

theorem survivors_within_cap_witness:
  "demo_target ''a'' \<in> set (fo_survivors (filter_chain (demo_filter_env (demo_request ''hi'')) [demo_target ''a'']))
   \<and> (real 2 * 1000000 + real 7 * 0) / 1000000 \<le> (3 :: real)"
proof -
  let ?env = "demo_filter_env (demo_request ''hi'')"
  have surv: "demo_target ''a'' \<in> set (fo_survivors (filter_chain ?env [demo_target ''a'']))"
    by (simp add: filter_chain_def filter_target_def Let_def tier_rejects_def cap_rejects_def
        estimate_request_cost_def estimate_text_tokens_def estimate_image_tokens_def canonical_request_text_def
        is_image_def saturating_add_def u32_as_f64_def demo_filter_defs)
  have "input_tokens_bound ?env = 3"
    by (simp add: input_tokens_bound_def canonical_request_text_def image_count_def is_image_def demo_filter_defs)
  with survivors_within_cap [OF surv, of demo_priced "\<lparr>input_per_million_usd = 1000000, output_per_million_usd = 0\<rparr>"
      3 2 7] surv
  show ?thesis by (simp add: demo_filter_defs output_token_cap_def)
qed

text \<open>The estimate is not the upper bound its module promises: it ignores the system prompt and the
  tool definitions, whatever their size. Two more departures from the documented worst cases:
  the OpenAI estimate for an image of unknown size is below the estimate for a known 2048 by
  2048 image, and the Anthropic estimate of a large image wraps around, down to zero tokens.\<close>

theorem estimate_not_upper_bound:
  "estimate_request_cost enc est (r\<lparr>req_system := sys, req_tools := tools\<rparr>) cost = estimate_request_cost enc est r cost
   \<and> openai_tokens_for_image (KnownSize 2048 2048 DetailHigh) = 2805
   \<and> openai_tokens_for_image UnknownSize = 1105
   \<and> anthropic_tokens_for_image (KnownSize 1500 2147483648 d) = 0"
  by (simp add: estimate_request_cost_def estimate_text_tokens_def canonical_request_text_def
      estimate_image_tokens_def output_token_cap_def high_detail_tokens_def div_ceil_def saturating_mul_def
      saturating_add_def Let_def split: option.splits)

end
