(* ===== verification/Retry.thy ===== *)
theory Retry
  imports Config
begin

text \<open>
  Error classification (\<open>router/src/fallback.rs\<close>) and the single-upstream retry loop with its
  exponential backoff (\<open>router/src/retry.rs\<close>).

  The provider is a parameter: \<open>complete n\<close> is the answer to the \<open>n\<close>-th call. The random jitter
  of attempt \<open>n\<close> is the parameter \<open>jitter n\<close>, a number the generator draws from
  \<open>[-jitter_pct/100, jitter_pct/100]\<close>. \<open>f64\<close> is exact real arithmetic; the cast \<open>as u64\<close>
  saturates and \<open>u64\<close> addition wraps. What the loop slept is returned beside its outcome.
\<close>

section \<open>Error classes\<close>

datatype ProviderError =
    UnknownProvider string
  | Upstream nat string
  | Network string
  | PE_Decode string
  | PE_Encode string
  | CapabilityMismatch string

datatype FallbackEligibility = Eligible | Terminal

fun fallback_eligibility :: "ProviderError \<Rightarrow> FallbackEligibility" where
  "fallback_eligibility (Network m) = Eligible"
| "fallback_eligibility (Upstream status body) =
     (if status \<ge> 500 then Eligible else if status = 429 then Eligible else Terminal)"
| "fallback_eligibility (PE_Decode m) = Terminal"
| "fallback_eligibility (PE_Encode m) = Terminal"
| "fallback_eligibility (CapabilityMismatch m) = Terminal"
| "fallback_eligibility (UnknownProvider m) = Terminal"

fun error_tag :: "ProviderError \<Rightarrow> string" where
  "error_tag (Network m) = ''network''"
| "error_tag (Upstream status body) =
     (if status \<ge> 500 then ''upstream_5xx'' else if status = 429 then ''upstream_429''
      else ''upstream_4xx'')"
| "error_tag (PE_Decode m) = ''decode''"
| "error_tag (PE_Encode m) = ''encode''"
| "error_tag (CapabilityMismatch m) = ''capability_mismatch''"
| "error_tag (UnknownProvider m) = ''unknown_provider''"

fun error_class_label :: "ProviderError \<Rightarrow> string" where
  "error_class_label (Network m) = ''network''"
| "error_class_label (Upstream status body) =
     (if status = 429 then ''upstream_429'' else if status \<ge> 500 then ''upstream_5xx''
      else ''upstream_4xx'')"
| "error_class_label (PE_Decode m) = ''decode''"
| "error_class_label (PE_Encode m) = ''encode''"
| "error_class_label (CapabilityMismatch m) = ''capability_mismatch''"
| "error_class_label (UnknownProvider m) = ''unknown_provider''"

definition fallback_eligibility_with_overrides :: "ProviderError \<Rightarrow> string list \<Rightarrow> FallbackEligibility" where
  "fallback_eligibility_with_overrides e retry_on =
     (if list_ex (\<lambda>t. t = error_tag e) retry_on then Eligible else Terminal)"

lemma error_class_label_tag: "error_class_label e = error_tag e"
  by (cases e) auto

text \<open>With the default \<open>retry_on\<close> list of the configuration the override-based classification
  that the retry loop and the chain walk use agrees with the default classifier on every
  error.\<close>

theorem default_overrides_agree:
  "fallback_eligibility_with_overrides e (rc_retry_on retry_config_default) = fallback_eligibility e"
  by (cases e) (simp_all add: fallback_eligibility_with_overrides_def retry_config_default_def)

section \<open>Backoff\<close>

record RetryPolicy =
  max_attempts :: u32
  initial_backoff_ms :: u64
  multiplier :: f64
  jitter_pct :: f64
  total_budget_ms :: u64
  retry_on :: "string list"

definition retry_policy_from :: "RetryConfig \<Rightarrow> RetryPolicy" where
  "retry_policy_from c = \<lparr>max_attempts = rc_max_attempts c, initial_backoff_ms = rc_initial_backoff_ms c,
     multiplier = rc_multiplier c, jitter_pct = rc_jitter_pct c,
     total_budget_ms = rc_total_budget_ms c, retry_on = rc_retry_on c\<rparr>"

text \<open>\<open>f64::round\<close> rounds half away from zero; \<open>as u64\<close> truncates and saturates.\<close>

definition f64_round :: "f64 \<Rightarrow> f64" where
  "f64_round x = (if 0 \<le> x then of_int \<lfloor>x + 1 / 2\<rfloor> else - of_int \<lfloor>- x + 1 / 2\<rfloor>)"

definition f64_as_u64 :: "f64 \<Rightarrow> u64" where
  "f64_as_u64 x = (if x \<le> 0 then 0 else if 2 ^ 64 \<le> x then - 1 else of_nat (nat \<lfloor>x\<rfloor>))"

definition base_ms :: "u32 \<Rightarrow> RetryPolicy \<Rightarrow> f64" where
  "base_ms attempt policy =
     real (unat (initial_backoff_ms policy)) * power_int (multiplier policy) (sint (attempt - 1))"

definition compute_backoff :: "u32 \<Rightarrow> RetryPolicy \<Rightarrow> f64 \<Rightarrow> u64" where
  "compute_backoff attempt policy jitter =
     (let jitter_factor = (if jitter_pct policy = 0 then 1 else 1 + jitter)
      in f64_as_u64 (max (f64_round (base_ms attempt policy * jitter_factor)) 0))"

lemma f64_round_bounds: "x - 1 / 2 \<le> f64_round x \<and> f64_round x \<le> x + 1 / 2"
  by (cases "0 \<le> x") (simp_all add: f64_round_def, linarith+)

lemma unat_f64_as_u64:
  assumes "0 \<le> x" "x < 2 ^ 64" "x = of_int n"
  shows "real (unat (f64_as_u64 x)) = x"
proof -
  have n: "0 \<le> n" "nat n < 2 ^ 64" using assms by auto
  have "unat (of_nat k :: u64) = k" if "k < 2 ^ 64" for k using that by (simp add: unat_of_nat)
  from this [OF n(2)] have "unat (of_nat (nat n) :: u64) = nat n" .
  moreover have "f64_as_u64 x = of_nat (nat n)" using assms n by (auto simp: f64_as_u64_def)
  ultimately have "unat (f64_as_u64 x) = nat n" by (simp only:)
  then have "real (unat (f64_as_u64 x)) = real (nat n)" by (simp only:)
  with assms n show ?thesis by simp
qed

lemma f64_round_int: "\<exists>n. f64_round x = of_int n"
  unfolding f64_round_def by (metis of_int_minus)

text \<open>The backoff of an attempt stays within the jitter band around the exponential base, up to
  the half millisecond of rounding, as long as the base is in the range of \<open>u64\<close>.\<close>

theorem compute_backoff_bounds:
  assumes "\<bar>jitter\<bar> \<le> jitter_pct policy / 100" "jitter_pct policy \<le> 100"
    and "0 \<le> base_ms attempt policy"
    and "base_ms attempt policy * (1 + jitter_pct policy / 100) + 1 / 2 < 2 ^ 64"
  shows "base_ms attempt policy * (1 - jitter_pct policy / 100) - 1 / 2
      \<le> real (unat (compute_backoff attempt policy jitter))
    \<and> real (unat (compute_backoff attempt policy jitter))
      \<le> base_ms attempt policy * (1 + jitter_pct policy / 100) + 1 / 2"
proof -
  define f where "f = (if jitter_pct policy = 0 then 1 else 1 + jitter)"
  let ?x = "base_ms attempt policy * f"
  have f: "1 - jitter_pct policy / 100 \<le> f" "f \<le> 1 + jitter_pct policy / 100" "0 \<le> f"
    using assms(1,2) by (auto simp: f_def)
  have lo: "base_ms attempt policy * (1 - jitter_pct policy / 100) \<le> ?x"
    and hi: "?x \<le> base_ms attempt policy * (1 + jitter_pct policy / 100)" and pos: "0 \<le> ?x"
    using f assms(3) by (auto intro: mult_left_mono)
  have nonneg: "0 \<le> f64_round ?x" using pos by (simp add: f64_round_def)
  obtain n where "f64_round ?x = of_int n" using f64_round_int by blast
  with nonneg f64_round_bounds [of ?x] hi assms(4)
  have "real (unat (f64_as_u64 (f64_round ?x))) = f64_round ?x"
    by (intro unat_f64_as_u64) auto
  then have "real (unat (compute_backoff attempt policy jitter)) = f64_round ?x"
    using nonneg by (simp add: compute_backoff_def f_def [symmetric])
  with f64_round_bounds [of ?x] lo hi show ?thesis by auto
qed

theorem compute_backoff_bounds_witness:
  "75 - 1 / 2 \<le> real (unat (compute_backoff 1 (retry_policy_from retry_config_default) (1 / 5)))
   \<and> real (unat (compute_backoff 1 (retry_policy_from retry_config_default) (1 / 5))) \<le> 125 + 1 / 2"
  using compute_backoff_bounds [of "1 / 5" "retry_policy_from retry_config_default" 1]
  by (simp add: retry_policy_from_def retry_config_default_def base_ms_def)

section \<open>The retry loop\<close>

record 'st RetryOutcome =
  ro_result :: "ProviderError + 'st"
  ro_attempts :: u32

lemma unat_next_attempt: "a < b \<Longrightarrow> unat (a + 1 :: u32) = Suc (unat a)"
proof -
  assume "a < b"
  moreover have "unat b < 2 ^ LENGTH(32)" by (rule unsigned_less)
  ultimately show ?thesis by (simp add: word_less_nat_alt unat_word_ariths)
qed

function retry_loop :: "(u32 \<Rightarrow> ProviderError + 'st) \<Rightarrow> (u32 \<Rightarrow> u64) \<Rightarrow> RetryPolicy \<Rightarrow> u32 \<Rightarrow> u64
    \<Rightarrow> 'st RetryOutcome \<times> u64 list" where
  "retry_loop call backoff policy attempt total_elapsed_ms =
     (case call attempt of
        Inr st \<Rightarrow> (\<lparr>ro_result = Inr st, ro_attempts = attempt\<rparr>, [])
      | Inl e \<Rightarrow>
          (if fallback_eligibility_with_overrides e (retry_on policy) = Terminal
           then (\<lparr>ro_result = Inl e, ro_attempts = attempt\<rparr>, [])
           else if attempt \<ge> max_attempts policy
           then (\<lparr>ro_result = Inl e, ro_attempts = attempt\<rparr>, [])
           else if total_elapsed_ms + backoff attempt > total_budget_ms policy
           then (\<lparr>ro_result = Inl e, ro_attempts = attempt\<rparr>, [])
           else let (out, sleeps) = retry_loop call backoff policy (attempt + 1)
                                      (total_elapsed_ms + backoff attempt)
                in (out, backoff attempt # sleeps)))"
  by pat_completeness auto

termination
  by (relation "measure (\<lambda>(_, _, policy, attempt, _). unat (max_attempts policy) - unat attempt)")
    (auto simp: not_le unat_next_attempt word_less_nat_alt)

declare retry_loop.simps [simp del]

definition retry_with_policy :: "(u32 \<Rightarrow> ProviderError + 'st) \<Rightarrow> RetryPolicy \<Rightarrow> (u32 \<Rightarrow> f64)
    \<Rightarrow> 'st RetryOutcome \<times> u64 list" where
  "retry_with_policy call policy jitter =
     retry_loop call (\<lambda>n. compute_backoff n policy (jitter n)) policy 1 0"

definition retryable :: "RetryPolicy \<Rightarrow> ProviderError + 'st \<Rightarrow> bool" where
  "retryable policy r = (case r of Inr st \<Rightarrow> False
     | Inl e \<Rightarrow> fallback_eligibility_with_overrides e (retry_on policy) = Eligible)"

lemma not_Terminal [simp]: "x \<noteq> Terminal \<longleftrightarrow> x = Eligible"
  by (cases x) auto

text \<open>The shape of a run that starts at attempt \<open>a\<close> with \<open>t\<close> milliseconds already slept.\<close>

definition retry_run_ok :: "(u32 \<Rightarrow> ProviderError + 'st) \<Rightarrow> (u32 \<Rightarrow> u64) \<Rightarrow> RetryPolicy \<Rightarrow> u32 \<Rightarrow> u64
    \<Rightarrow> 'st RetryOutcome \<times> u64 list \<Rightarrow> bool" where
  "retry_run_ok call backoff policy a t out \<longleftrightarrow>
     (let n = ro_attempts (fst out); sleeps = snd out in
      a \<le> n \<and> (n = a \<or> n \<le> max_attempts policy)
      \<and> ro_result (fst out) = call n
      \<and> (\<forall>k. a \<le> k \<and> k < n \<longrightarrow> retryable policy (call k))
      \<and> length sleeps = unat n - unat a
      \<and> (\<forall>i < length sleeps. sleeps ! i = backoff (a + of_nat i))
      \<and> (retryable policy (call n) \<longrightarrow> n < max_attempts policy \<longrightarrow>
           t + sum_list sleeps + backoff n > total_budget_ms policy)
      \<and> (sleeps \<noteq> [] \<longrightarrow> t + sum_list sleeps \<le> total_budget_ms policy))"

lemma retry_loop_ok: "retry_run_ok call backoff policy a t (retry_loop call backoff policy a t)"
proof (induction call backoff policy a t rule: retry_loop.induct)
  case (1 call backoff policy a t)
  show ?case
  proof (cases "retryable policy (call a) \<and> a < max_attempts policy
      \<and> t + backoff a \<le> total_budget_ms policy")
    case False
    then show ?thesis
      by (auto simp: retry_loop.simps [of call backoff policy a t] retry_run_ok_def retryable_def
          Let_def split: sum.splits if_splits)
  next
    case True
    then obtain e where e: "call a = Inl e"
        "fallback_eligibility_with_overrides e (retry_on policy) = Eligible"
      by (auto simp: retryable_def split: sum.splits)
    let ?b = "backoff a"
    obtain out sleeps where rec: "retry_loop call backoff policy (a + 1) (t + ?b) = (out, sleeps)"
      by fastforce
    have IH: "retry_run_ok call backoff policy (a + 1) (t + ?b) (out, sleeps)"
      using 1 [OF e(1)] True e rec by (simp add: not_le not_less)
    have unfold: "retry_loop call backoff policy a t = (out, ?b # sleeps)"
      using True e rec by (simp add: retry_loop.simps [of call backoff policy a t] not_le not_less)
    have Suc: "unat (a + 1) = Suc (unat a)" using True unat_next_attempt by blast
    let ?n = "ro_attempts out"
    from IH Suc have n: "a + 1 \<le> ?n" "?n \<le> max_attempts policy" "ro_result out = call ?n"
        "\<forall>k. a + 1 \<le> k \<and> k < ?n \<longrightarrow> retryable policy (call k)" "length sleeps = unat ?n - unat (a + 1)"
      using True by (auto simp: retry_run_ok_def Let_def word_le_nat_alt word_less_nat_alt)
    have lt: "unat a < unat ?n" using n(1) Suc by (simp add: word_le_nat_alt)
    have "retryable policy (call k)" if "a \<le> k" "k < ?n" for k
    proof (cases "k = a")
      case False
      then have "unat k \<noteq> unat a" by (simp add: word_unat_eq_iff)
      with that(1) Suc have "a + 1 \<le> k" by (simp add: word_le_nat_alt)
      with n(4) that(2) show ?thesis by blast
    qed (use True in simp)
    moreover have "(?b # sleeps) ! i = backoff (a + of_nat i)" if "i < length (?b # sleeps)" for i
      using IH that by (cases i) (auto simp: retry_run_ok_def Let_def add.assoc)
    moreover have "length (?b # sleeps) = unat ?n - unat a" using n(5) Suc lt by simp
    ultimately show ?thesis
      unfolding unfold using IH n lt True
      by (auto simp: retry_run_ok_def Let_def add.assoc word_le_nat_alt word_less_nat_alt)
  qed
qed


lemma u32_not_le_1: "\<not> (2 :: u32) \<le> 1" "\<not> (3 :: u32) \<le> 1"
  by (simp_all add: word_le_nat_alt)

definition demo_call :: "u32 \<Rightarrow> ProviderError + string" where
  "demo_call n = (if n < 2 then Inl (Upstream 503 ''busy'') else Inr ''stream'')"


text \<open>The budget check can be defeated by overflow: when a backoff saturates at the largest
  \<open>u64\<close> after some sleep, the sum wraps below the budget and the loop sleeps that backoff. The
  configuration accepts such a multiplier, as it only requires it to be finite and above one.\<close>

theorem retry_budget_wraps:
  "retry_with_policy (\<lambda>n. if n < 3 then Inl (Network ''reset'') else Inr ''stream'')
     \<lparr>max_attempts = 3, initial_backoff_ms = 100, multiplier = 10 ^ 30, jitter_pct = 0,
      total_budget_ms = 5000, retry_on = [''network'']\<rparr> (\<lambda>_. 0)
   = (\<lparr>ro_result = Inr ''stream'', ro_attempts = 3\<rparr>, [100, 2 ^ 64 - 1])"
  by (simp add: retry_with_policy_def retry_loop.simps fallback_eligibility_with_overrides_def
      compute_backoff_def base_ms_def f64_round_def f64_as_u64_def u32_not_le_1)

end
