(* ===== verification/Admission.thy ===== *)
theory Admission
  imports Rate_Limit Cost_Filter Retry
begin

text \<open>
  The admission gate (\<open>router/src/admission.rs\<close>): rate limits, cost filter, per-upstream limits,
  capability check and breaker holds, composed into one ticket, and the two ways a ticket ends:
  \<open>consume\<close> and \<open>Drop\<close>. The clock is a parameter, \<open>clock i\<close> being the reading when the hold of
  chain element \<open>i\<close> is acquired or released. Metrics and log lines are not modelled.
\<close>

section \<open>Providers and tickets\<close>

record ProviderCapabilities =
  pc_streaming :: bool
  pc_tool_use :: bool
  pc_vision :: bool
  pc_json_mode :: bool
  pc_accepts_xhigh :: bool

text \<open>A provider is code behind a trait object: its capabilities and the answer to its \<open>n\<close>-th call.\<close>

record 'st BackendProvider =
  pv_capabilities :: ProviderCapabilities
  pv_complete :: "BackendTarget \<Rightarrow> CanonicalRequest \<Rightarrow> u32 \<Rightarrow> ProviderError + 'st"

record AdmissionTicket =
  tk_filtered_chain :: "BackendTarget list"
  tk_resolved :: ResolvedRoute
  tk_identity :: AgentIdentity
  tk_breaker_holds :: "BreakerHold option list"
  tk_rate_limit_reservations :: "unit list"
  tk_consumed :: bool

datatype AdmissionError =
    AE_RateLimited RateLimitDimension u32
  | AE_NoEligibleUpstream "Skip list"
  | AE_CapabilityMismatch string
  | AE_AllBreakersOpen "string list"
  | AE_Provider ProviderError

record ('l, 'st) Admission =
  ad_limiter :: "'l LimiterRegistry"
  ad_breaker :: BreakerRegistry
  ad_providers :: "string \<Rightarrow> 'st BackendProvider option"
  ad_probe :: "string \<Rightarrow> u64 option"

definition breaker_allowed :: "AdmissionTicket \<Rightarrow> nat \<Rightarrow> bool" where
  "breaker_allowed ticket i \<longleftrightarrow> i < length (tk_breaker_holds ticket) \<and> tk_breaker_holds ticket ! i \<noteq> None"

text \<open>The loop of \<open>consume\<close>: the selected hold records the outcome, the others are dropped at the
  end of their iteration. Dropping a ticket drops its holds in order.\<close>

definition consume_holds :: "(nat \<Rightarrow> instant) \<Rightarrow> (nat \<times> BreakerHold option) list \<Rightarrow> nat \<Rightarrow> bool
    \<Rightarrow> BreakerRegistry \<Rightarrow> BreakerRegistry" where
  "consume_holds clock holds chain_index succeeded reg =
     fold (\<lambda>(i, hold) reg. case hold of
         None \<Rightarrow> reg
       | Some h \<Rightarrow> (if i = chain_index then hold_consume reg (clock i) h succeeded
                    else hold_drop reg (clock i) h)) holds reg"

definition ticket_consume :: "(nat \<Rightarrow> instant) \<Rightarrow> AdmissionTicket \<Rightarrow> nat \<Rightarrow> bool \<Rightarrow> BreakerRegistry
    \<Rightarrow> AdmissionTicket \<times> BreakerRegistry" where
  "ticket_consume clock ticket chain_index succeeded reg =
     (if tk_consumed ticket then (ticket, reg)
      else (ticket\<lparr>tk_consumed := True, tk_breaker_holds := [], tk_rate_limit_reservations := []\<rparr>,
            consume_holds clock (enumerate 0 (tk_breaker_holds ticket)) chain_index succeeded reg))"

definition ticket_drop :: "(nat \<Rightarrow> instant) \<Rightarrow> AdmissionTicket \<Rightarrow> BreakerRegistry \<Rightarrow> BreakerRegistry" where
  "ticket_drop clock ticket reg =
     fold (\<lambda>(i, hold) reg. case hold of None \<Rightarrow> reg | Some h \<Rightarrow> hold_drop reg (clock i) h)
       (enumerate 0 (tk_breaker_holds ticket)) reg"

section \<open>Admission\<close>

definition request_has_image :: "CanonicalRequest \<Rightarrow> bool" where
  "request_has_image request \<longleftrightarrow>
     list_ex is_image (concat (map msg_content (req_messages request)))"

definition check_capability :: "('l, 'st) Admission \<Rightarrow> CanonicalRequest \<Rightarrow> BackendTarget
    \<Rightarrow> AdmissionError option" where
  "check_capability adm request target =
     (case ad_providers adm (bt_provider target) of
        None \<Rightarrow> Some (AE_Provider (UnknownProvider (bt_provider target)))
      | Some provider \<Rightarrow>
          (if request_has_image request \<and> \<not> pc_vision (pv_capabilities provider)
           then Some (AE_CapabilityMismatch
             ''target provider does not support vision (image blocks present in request)'')
           else None))"

fun check_upstream_limits :: "'l governor \<Rightarrow> BackendTarget list \<Rightarrow> 'l LimiterRegistry
    \<Rightarrow> limit_result \<times> 'l LimiterRegistry" where
  "check_upstream_limits g [] reg = (Inr (), reg)"
| "check_upstream_limits g (t # ts) reg =
     and_then (check_per_upstream g reg (bt_provider t)) (check_upstream_limits g ts)"

definition acquire_holds :: "(nat \<Rightarrow> instant) \<Rightarrow> BreakerPolicy \<Rightarrow> BackendTarget list \<Rightarrow> BreakerRegistry
    \<Rightarrow> BreakerHold option list \<times> BreakerRegistry" where
  "acquire_holds clock policy chain reg =
     map_state (\<lambda>(i, t) reg. try_hold reg (clock i) (bt_provider t) (bt_model t) policy)
       (enumerate 0 chain) reg"

definition admit :: "'l governor \<Rightarrow> (string \<Rightarrow> u32 list) \<Rightarrow> (nat \<Rightarrow> instant) \<Rightarrow> ('l, 'st) Admission
    \<Rightarrow> ResolvedRoute \<Rightarrow> RouteEntry \<Rightarrow> GatewayConfig \<Rightarrow> CanonicalRequest \<Rightarrow> AgentIdentity \<Rightarrow> string
    \<Rightarrow> image_estimator \<Rightarrow> (AdmissionError + AdmissionTicket) \<times> ('l, 'st) Admission" where
  "admit g encode_ordinary clock adm resolved route_entry config request identity client_ip est =
     (case check_pre_chain g (ad_limiter adm) identity (rr_route_label resolved) client_ip of
        (Inl (d, secs), lim1) \<Rightarrow> (Inl (AE_RateLimited d secs), adm\<lparr>ad_limiter := lim1\<rparr>)
      | (Inr _, lim1) \<Rightarrow>
          (let out = filter_chain \<lparr>fe_route = route_entry, fe_config = config, fe_request = request,
                 fe_probe = ad_probe adm, fe_image_estimator = est, fe_encode_ordinary = encode_ordinary\<rparr>
                 (rr_chain resolved);
               chain = fo_survivors out
           in if chain = [] then (Inl (AE_NoEligibleUpstream (fo_skipped out)), adm\<lparr>ad_limiter := lim1\<rparr>)
              else case check_upstream_limits g chain lim1 of
                (Inl (d, secs), lim2) \<Rightarrow> (Inl (AE_RateLimited d secs), adm\<lparr>ad_limiter := lim2\<rparr>)
              | (Inr _, lim2) \<Rightarrow>
                  (case first_error (check_capability adm request) chain of
                     Some e \<Rightarrow> (Inl e, adm\<lparr>ad_limiter := lim2\<rparr>)
                   | None \<Rightarrow>
                       (let (holds, breakers) = acquire_holds clock (breaker_policy_from (rr_breaker resolved))
                              chain (ad_breaker adm);
                            adm' = adm\<lparr>ad_limiter := lim2, ad_breaker := breakers\<rparr>
                        in if list_all (\<lambda>h. h = None) holds
                           then (Inl (AE_AllBreakersOpen (map bt_provider chain)), adm')
                           else (Inr \<lparr>tk_filtered_chain = chain, tk_resolved = resolved, tk_identity = identity,
                                  tk_breaker_holds = holds,
                                  tk_rate_limit_reservations = replicate (Suc (length chain)) (),
                                  tk_consumed = False\<rparr>, adm')))))"

section \<open>What a ticket holds\<close>

definition hold_key :: "BreakerHold \<Rightarrow> BreakerKey" where
  "hold_key h = (bh_provider h, bh_model h)"

definition granted_keys :: "AdmissionTicket \<Rightarrow> BreakerKey set" where
  "granted_keys ticket = {hold_key h |h. Some h \<in> set (tk_breaker_holds ticket)}"

text \<open>A hold that a ticket carries: for its own chain element, with the route's policy, unused.\<close>

definition hold_for :: "BreakerPolicy \<Rightarrow> BackendTarget \<Rightarrow> BreakerHold option \<Rightarrow> bool" where
  "hold_for policy t hold \<longleftrightarrow> (case hold of None \<Rightarrow> True
     | Some h \<Rightarrow> h = \<lparr>bh_provider = bt_provider t, bh_model = bt_model t, bh_policy = policy, bh_consumed = False\<rparr>)"

definition ticket_ok :: "AdmissionTicket \<Rightarrow> bool" where
  "ticket_ok ticket \<longleftrightarrow> \<not> tk_consumed ticket
     \<and> list_all2 (hold_for (breaker_policy_from (rr_breaker (tk_resolved ticket))))
         (tk_filtered_chain ticket) (tk_breaker_holds ticket)
     \<and> (\<exists>i. breaker_allowed ticket i)"

lemma try_hold_hold_for:
  "hold_for pol t (fst (try_hold reg now (bt_provider t) (bt_model t) pol))"
  by (auto simp: hold_for_def try_hold_def split: prod.splits BreakerDecision.splits)

lemma acquire_holds_for: "list_all2 (hold_for pol) chain (fst (acquire_holds clock pol chain reg))"
proof -
  have "list_all2 (\<lambda>(i, t). hold_for pol t) (enumerate 0 chain)
      (fst (acquire_holds clock pol chain reg))"
    unfolding acquire_holds_def by (rule map_state_all2) (auto simp: try_hold_hold_for)
  then show ?thesis by (auto simp: list_all2_conv_all_nth nth_enumerate_eq)
qed

text \<open>Holds as acquisitions and releases of the probe gate.\<close>

lemma acquire_holds_gate:
  "map_state (\<lambda>(c, k). hold_acquire c k)
     (map (\<lambda>(i, t). ((clock i, pol), (bt_provider t, bt_model t))) (enumerate 0 chain)) reg
   = (map (\<lambda>h. h \<noteq> None) (fst (acquire_holds clock pol chain reg)), snd (acquire_holds clock pol chain reg))"
  unfolding acquire_holds_def
  by (rule map_state_map) (simp add: hold_acquire_def case_prod_unfold Let_def)

lemma acquire_holds_wf: "registry_wf reg \<Longrightarrow> registry_wf (snd (acquire_holds clock pol chain reg))"
  using holds.acquire_all_wf [of reg "map (\<lambda>(i, t). ((clock i, pol), (bt_provider t, bt_model t))) (enumerate 0 chain)"]
  by (simp add: acquire_holds_gate)

lemma acquire_holds_busy:
  assumes "probe_busy (snd (acquire_holds clock pol chain reg)) k"
  shows "probe_busy reg k \<or> (\<exists>h. Some h \<in> set (fst (acquire_holds clock pol chain reg)) \<and> hold_key h = k)"
proof -
  let ?cks = "map (\<lambda>(i, t). ((clock i, pol), (bt_provider t, bt_model t))) (enumerate 0 chain)"
  let ?hs = "fst (acquire_holds clock pol chain reg)"
  have keys: "map snd ?cks = map (\<lambda>t. (bt_provider t, bt_model t)) chain"
    by (rule nth_equalityI) (simp_all add: nth_enumerate_eq)
  from assms have "probe_busy reg k \<or> (k, True) \<in> set (zip (map snd ?cks) (map (\<lambda>h. h \<noteq> None) ?hs))"
    using holds.acquire_all_busy [of ?cks reg k] by (simp add: acquire_holds_gate)
  moreover have "\<exists>h. Some h \<in> set ?hs \<and> hold_key h = k"
    if "(k, True) \<in> set (zip (map snd ?cks) (map (\<lambda>h. h \<noteq> None) ?hs))"
  proof -
    from that obtain n where n: "n < length chain" "n < length ?hs" "k = (bt_provider (chain ! n), bt_model (chain ! n))"
        "?hs ! n \<noteq> None"
      unfolding keys by (auto simp: in_set_conv_nth)
    from n(4) obtain h where h: "?hs ! n = Some h" by blast
    have "hold_for pol (chain ! n) (?hs ! n)"
      using acquire_holds_for [of pol chain clock reg] n(1) by (simp add: list_all2_conv_all_nth)
    with n h show ?thesis using nth_mem [OF n(2)] by (auto simp: hold_for_def hold_key_def)
  qed
  ultimately show ?thesis by blast
qed

definition ticket_releases :: "(nat \<Rightarrow> instant) \<Rightarrow> (nat \<times> BreakerHold option) list \<Rightarrow> nat \<Rightarrow> bool
    \<Rightarrow> ((instant \<times> BreakerPolicy) \<times> BreakerKey \<times> bool) list" where
  "ticket_releases clock holds idx ok = List.map_filter (\<lambda>(i, hold).
     map_option (\<lambda>h. ((clock i, bh_policy h), hold_key h, i = idx \<and> ok)) hold) holds"

lemma consume_holds_gate:
  assumes "\<And>i h. (i, Some h) \<in> set holds \<Longrightarrow> \<not> bh_consumed h"
  shows "consume_holds clock holds idx ok reg
    = fold (\<lambda>(c, k, ok) r. hold_release c k ok r) (ticket_releases clock holds idx ok) reg"
  using assms
proof (induction holds arbitrary: reg)
  case (Cons a holds)
  obtain i hold where a: "a = (i, hold)" by (cases a)
  have eq: "(case hold of None \<Rightarrow> reg | Some h \<Rightarrow> if i = idx then hold_consume reg (clock i) h ok
        else hold_drop reg (clock i) h)
      = (case hold of None \<Rightarrow> reg | Some h \<Rightarrow> hold_release (clock i, bh_policy h) (hold_key h) (i = idx \<and> ok) reg)"
    using Cons.prems [of i]
    by (auto simp: a hold_release_def hold_key_def hold_consume_record hold_drop_record split: option.splits)
  have IH: "consume_holds clock holds idx ok r
      = fold (\<lambda>(c, k, ok) r. hold_release c k ok r) (ticket_releases clock holds idx ok) r" for r
    by (rule Cons.IH) (use Cons.prems in auto)
  show ?case
    using eq IH [unfolded consume_holds_def ticket_releases_def]
    by (cases hold) (simp_all add: a consume_holds_def ticket_releases_def List.map_filter_simps)
qed (simp add: consume_holds_def ticket_releases_def List.map_filter_simps)

lemma ticket_drop_consume_holds:
  "ticket_drop clock ticket reg
   = consume_holds clock (enumerate 0 (tk_breaker_holds ticket)) (length (tk_breaker_holds ticket)) ok reg"
  unfolding ticket_drop_def consume_holds_def
  by (rule fold_cong) (auto simp: in_set_enumerate_eq split: option.splits)

lemma ticket_releases_keys:
  "(fst \<circ> snd) ` set (ticket_releases clock (enumerate 0 (tk_breaker_holds ticket)) idx ok) = granted_keys ticket"
proof -
  have "k \<in> (fst \<circ> snd) ` set (ticket_releases clock hs idx ok) \<longleftrightarrow> (\<exists>h. (\<exists>i. (i, Some h) \<in> set hs) \<and> k = hold_key h)"
    for k hs
  proof (induction hs)
    case (Cons a hs)
    then show ?case
      by (cases a; cases "snd a") (auto simp: ticket_releases_def List.map_filter_simps)
  qed (simp add: ticket_releases_def List.map_filter_simps)
  note keys = this
  have ex: "(\<exists>i. (i, Some h) \<in> set (enumerate 0 hs)) \<longleftrightarrow> Some h \<in> set hs" for h and hs :: "BreakerHold option list"
    by (auto simp: in_set_enumerate_eq) (metis in_set_conv_nth)+
  show ?thesis
    by (rule set_eqI) (simp only: keys ex granted_keys_def mem_Collect_eq, blast)
qed

lemma ticket_ok_unused:
  "ticket_ok ticket \<Longrightarrow> (i, Some h) \<in> set (enumerate 0 (tk_breaker_holds ticket)) \<Longrightarrow> \<not> bh_consumed h"
  by (auto simp: ticket_ok_def list_all2_conv_all_nth in_set_enumerate_eq hold_for_def)

lemma release_ticket_busy:
  assumes "ticket_ok ticket" "registry_wf reg"
  shows "probe_busy (consume_holds clock (enumerate 0 (tk_breaker_holds ticket)) idx ok reg) k
     \<longleftrightarrow> probe_busy reg k \<and> k \<notin> granted_keys ticket"
  using consume_holds_gate [OF ticket_ok_unused [OF assms(1)], where clock = clock and idx = idx and ok = ok and reg = reg]
    holds.release_all_busy [OF assms(2)] ticket_releases_keys by simp

text \<open>The end of a ticket, by \<open>consume\<close> or by \<open>Drop\<close>, frees exactly the probes it holds.\<close>

definition freed :: "AdmissionTicket \<Rightarrow> BreakerRegistry \<Rightarrow> BreakerRegistry \<Rightarrow> bool" where
  "freed ticket reg reg' \<longleftrightarrow> registry_wf reg' \<and> (\<forall>k. probe_busy reg' k \<longleftrightarrow> probe_busy reg k \<and> k \<notin> granted_keys ticket)"

lemma release_ticket_freed:
  assumes "ticket_ok ticket" "registry_wf reg"
  shows "freed ticket reg (consume_holds clock (enumerate 0 (tk_breaker_holds ticket)) idx ok reg)"
proof -
  have "registry_wf (consume_holds clock (enumerate 0 (tk_breaker_holds ticket)) idx ok reg)"
    by (subst consume_holds_gate) (use assms in \<open>auto dest: ticket_ok_unused intro: holds.release_all_wf\<close>)
  then show ?thesis using release_ticket_busy [OF assms] by (simp add: freed_def)
qed

lemma ticket_ok_freed:
  assumes "ticket_ok ticket" "registry_wf reg"
  shows "freed ticket reg (snd (ticket_consume clock ticket i ok reg))" "freed ticket reg (ticket_drop clock ticket reg)"
  using release_ticket_freed [OF assms] assms(1)
  by (simp_all add: ticket_consume_def ticket_ok_def ticket_drop_consume_holds [where ok = False])

section \<open>What admission guarantees\<close>

abbreviation admission_env :: "('l, 'st) Admission \<Rightarrow> (string \<Rightarrow> u32 list) \<Rightarrow> RouteEntry \<Rightarrow> GatewayConfig
    \<Rightarrow> CanonicalRequest \<Rightarrow> image_estimator \<Rightarrow> filter_env" where
  "admission_env adm enc entry config request est \<equiv>
     \<lparr>fe_route = entry, fe_config = config, fe_request = request, fe_probe = ad_probe adm,
      fe_image_estimator = est, fe_encode_ordinary = enc\<rparr>"

lemma admit_granted:
  assumes "admit g enc clock adm resolved entry config request ident ip est = (Inr ticket, adm')"
  obtains "tk_filtered_chain ticket = fo_survivors (filter_chain (admission_env adm enc entry config request est) (rr_chain resolved))"
    "tk_filtered_chain ticket \<noteq> []" "first_error (check_capability adm request) (tk_filtered_chain ticket) = None"
    "tk_resolved ticket = resolved" "tk_identity ticket = ident" "\<not> tk_consumed ticket"
    "acquire_holds clock (breaker_policy_from (rr_breaker resolved)) (tk_filtered_chain ticket) (ad_breaker adm)
       = (tk_breaker_holds ticket, ad_breaker adm')"
    "\<not> list_all (\<lambda>h. h = None) (tk_breaker_holds ticket)"
  using assms unfolding admit_def
  by (auto simp: Let_def split: prod.splits sum.splits option.splits if_splits)

lemma admit_refused:
  assumes "admit g enc clock adm resolved entry config request ident ip est = (Inl e, adm')"
  shows "ad_breaker adm' = ad_breaker adm \<or>
    (\<exists>chain holds. e = AE_AllBreakersOpen (map bt_provider chain) \<and> list_all (\<lambda>h. h = None) holds
      \<and> acquire_holds clock (breaker_policy_from (rr_breaker resolved)) chain (ad_breaker adm) = (holds, ad_breaker adm'))"
  using assms unfolding admit_def
  by (auto simp: Let_def split: prod.splits sum.splits option.splits if_splits)

lemma admit_ticket_ok:
  assumes "admit g enc clock adm resolved entry config request ident ip est = (Inr ticket, adm')"
  shows "ticket_ok ticket"
proof -
  from assms show ?thesis
  proof (rule admit_granted)
    assume *: "\<not> tk_consumed ticket" "tk_resolved ticket = resolved"
      "acquire_holds clock (breaker_policy_from (rr_breaker resolved)) (tk_filtered_chain ticket) (ad_breaker adm)
         = (tk_breaker_holds ticket, ad_breaker adm')"
      "\<not> list_all (\<lambda>h. h = None) (tk_breaker_holds ticket)"
    from *(4) obtain i where "i < length (tk_breaker_holds ticket)" "tk_breaker_holds ticket ! i \<noteq> None"
      by (auto simp: list_all_length)
    with * acquire_holds_for [of "breaker_policy_from (rr_breaker resolved)" "tk_filtered_chain ticket" clock "ad_breaker adm"]
    show ?thesis by (auto simp: ticket_ok_def breaker_allowed_def)
  qed
qed

text \<open>An admitted request carries a sound ticket: its chain is the non-empty list of the route's
  targets that pass the cost filter, in order; every target on it has a registered provider that
  supports the request's images; every hold on it is the unused hold of its own target under the
  route's breaker policy; and at least one target may be called.\<close>

theorem admit_sound:
  assumes "admit g enc clock adm resolved entry config request ident ip est = (Inr ticket, adm')"
  shows "tk_filtered_chain ticket = filter
      (\<lambda>t. reject_reason (admission_env adm enc entry config request est) t = None) (rr_chain resolved)
    \<and> tk_filtered_chain ticket \<noteq> [] \<and> tk_resolved ticket = resolved \<and> tk_identity ticket = ident
    \<and> (\<forall>t \<in> set (tk_filtered_chain ticket). \<exists>p. ad_providers adm (bt_provider t) = Some p
         \<and> (request_has_image request \<longrightarrow> pc_vision (pv_capabilities p)))
    \<and> list_all2 (hold_for (breaker_policy_from (rr_breaker resolved))) (tk_filtered_chain ticket) (tk_breaker_holds ticket)
    \<and> (\<exists>i < length (tk_filtered_chain ticket). breaker_allowed ticket i)"
proof -
  have ok: "ticket_ok ticket" by (rule admit_ticket_ok [OF assms])
  from assms show ?thesis
  proof (rule admit_granted)
    assume *: "tk_filtered_chain ticket = fo_survivors (filter_chain (admission_env adm enc entry config request est) (rr_chain resolved))"
      "tk_filtered_chain ticket \<noteq> []" "first_error (check_capability adm request) (tk_filtered_chain ticket) = None"
      "tk_resolved ticket = resolved" "tk_identity ticket = ident"
    have "\<forall>t \<in> set (tk_filtered_chain ticket). \<exists>p. ad_providers adm (bt_provider t) = Some p
         \<and> (request_has_image request \<longrightarrow> pc_vision (pv_capabilities p))"
      using *(3) by (fastforce simp: first_error_none check_capability_def split: option.splits if_splits)
    moreover have "\<exists>i < length (tk_filtered_chain ticket). breaker_allowed ticket i"
      using ok list_all2_lengthD by (fastforce simp: ticket_ok_def breaker_allowed_def)
    moreover have "tk_filtered_chain ticket = filter
      (\<lambda>t. reject_reason (admission_env adm enc entry config request est) t = None) (rr_chain resolved)"
      using *(1) by (simp add: filter_chain_def filter_fold_spec)
    ultimately show ?thesis using * ok by (simp add: ticket_ok_def)
  qed
qed

lemma admit_probes:
  assumes "registry_wf (ad_breaker adm)"
    and "admit g enc clock adm resolved entry config request ident ip est = (r, adm')"
  shows "registry_wf (ad_breaker adm')"
    and "probe_busy (ad_breaker adm') k \<Longrightarrow>
      probe_busy (ad_breaker adm) k \<or> (\<exists>ticket. r = Inr ticket \<and> k \<in> granted_keys ticket)"
proof -
  let ?pol = "breaker_policy_from (rr_breaker resolved)"
  consider (same) "ad_breaker adm' = ad_breaker adm"
    | (acq) chain holds where "acquire_holds clock ?pol chain (ad_breaker adm) = (holds, ad_breaker adm')"
        "\<forall>h. Some h \<in> set holds \<longrightarrow> (\<exists>ticket. r = Inr ticket \<and> hold_key h \<in> granted_keys ticket)"
  proof (cases r)
    case (Inl e)
    from admit_refused [OF assms(2) [unfolded Inl]] show ?thesis
      using that by (auto simp: list_all_iff)
  next
    case (Inr ticket)
    from assms(2) [unfolded Inr] show ?thesis
      by (rule admit_granted) (use Inr that(2) in \<open>auto simp: granted_keys_def\<close>)
  qed
  note cases = this
  show "registry_wf (ad_breaker adm')"
    using cases by cases (use assms(1) acquire_holds_wf in \<open>auto dest!: arg_cong [where f = snd]\<close>, metis acquire_holds_wf snd_conv)
  show "probe_busy (ad_breaker adm) k \<or> (\<exists>ticket. r = Inr ticket \<and> k \<in> granted_keys ticket)"
    if "probe_busy (ad_breaker adm') k"
    using cases
  proof cases
    case acq
    with acquire_holds_busy [of clock ?pol chain "ad_breaker adm" k] that show ?thesis by auto
  qed (use that in auto)
qed

text \<open>C12. No request leaks a breaker probe. A refused request leaves no probe in flight that was not
  there before. Between the admission of a request and the end of its ticket the breakers may
  change in any way (\<open>reg\<close>); when the ticket is consumed, with whatever outcome, or dropped, the
  probes of exactly its own targets are released and no other one is touched.\<close>

theorem no_request_leaks_probe:
  assumes "registry_wf (ad_breaker adm)"
    and "admit g enc clock adm resolved entry config request ident ip est = (r, adm')"
  shows "registry_wf (ad_breaker adm')
    \<and> (\<forall>e k. r = Inl e \<longrightarrow> probe_busy (ad_breaker adm') k \<longrightarrow> probe_busy (ad_breaker adm) k)
    \<and> (\<forall>ticket k. r = Inr ticket \<longrightarrow> probe_busy (ad_breaker adm') k \<longrightarrow>
         probe_busy (ad_breaker adm) k \<or> k \<in> granted_keys ticket)
    \<and> (\<forall>ticket reg k i ok. r = Inr ticket \<longrightarrow> registry_wf reg \<longrightarrow>
         probe_busy (snd (ticket_consume clock' ticket i ok reg)) k = (probe_busy reg k \<and> k \<notin> granted_keys ticket)
         \<and> probe_busy (ticket_drop clock' ticket reg) k = (probe_busy reg k \<and> k \<notin> granted_keys ticket))"
  using admit_probes [OF assms] ticket_ok_freed [of _ _ clock'] admit_ticket_ok assms(2) by (fastforce simp: freed_def)

definition demo_provider :: "string BackendProvider" where
  "demo_provider = \<lparr>pv_capabilities = \<lparr>pc_streaming = True, pc_tool_use = True, pc_vision = False,
     pc_json_mode = True, pc_accepts_xhigh = False\<rparr>, pv_complete = (\<lambda>_ _ _. Inr ''stream'')\<rparr>"

definition demo_admission :: "BreakerRegistry \<Rightarrow> (nat, string) Admission" where
  "demo_admission breakers = \<lparr>ad_limiter = registry_disabled, ad_breaker = breakers,
     ad_providers = (\<lambda>_. Some demo_provider), ad_probe = (\<lambda>_. None)\<rparr>"

definition demo_resolved :: "string list \<Rightarrow> ResolvedRoute" where
  "demo_resolved names = \<lparr>rr_chain = map demo_target names, rr_retry = retry_config_default,
     rr_breaker = breaker_config_default, rr_route_label = ''openai_chat/m''\<rparr>"

definition demo_admit :: "string list \<Rightarrow> BreakerRegistry
    \<Rightarrow> (AdmissionError + AdmissionTicket) \<times> (nat, string) Admission" where
  "demo_admit names breakers = admit demo_governor (\<lambda>_. []) (\<lambda>_. 5) (demo_admission breakers) (demo_resolved names)
     (demo_route ''m'' ''a'' ''x'') (demo_gateway []) (demo_request ''hi'') Anonymous ''ip'' openai_tokens_for_image"

lemma demo_admit_eq:
  assumes "names \<noteq> []" "set names \<subseteq> {''a'', ''b''}"
    and "acquire_holds (\<lambda>_. 5) (breaker_policy_from breaker_config_default) (map demo_target names) reg = (holds, reg')"
  shows "demo_admit names reg = (if list_all (\<lambda>h. h = None) holds then Inl (AE_AllBreakersOpen names)
      else Inr \<lparr>tk_filtered_chain = map demo_target names, tk_resolved = demo_resolved names, tk_identity = Anonymous,
        tk_breaker_holds = holds, tk_rate_limit_reservations = replicate (Suc (length names)) (),
        tk_consumed = False\<rparr>, demo_admission reg')"
proof -
  let ?env = "admission_env (demo_admission reg) (\<lambda>_. []) (demo_route ''m'' ''a'' ''x'') (demo_gateway [])
      (demo_request ''hi'') openai_tokens_for_image"
  have lim: "check_upstream_limits demo_governor ts registry_disabled = (Inr (), registry_disabled)" for ts
    by (induction ts) (simp_all add: and_then_def check_per_upstream_def registry_disabled_def)
  have "reject_reason ?env t = None" for t
    by (auto simp: reject_reason_def tier_rejects_def cap_rejects_def over_budget_def demo_route_def demo_gateway_def
        demo_upstream_def split: if_splits)
  then have surv: "fo_survivors (filter_chain ?env ts) = ts" for ts
    by (simp add: filter_chain_def filter_fold_spec)
  have cap: "first_error (check_capability (demo_admission reg) (demo_request ''hi'')) ts = None" for ts
    by (simp add: first_error_none check_capability_def demo_admission_def demo_request_def request_has_image_def
        is_image_def message_user_def text_content_block_def)
  have pre: "check_pre_chain demo_governor registry_disabled Anonymous l ip = (Inr (), registry_disabled)" for l ip
    by (simp add: check_pre_chain_def registry_disabled_def)
  have names: "map bt_provider (map demo_target names) = names"
    by (induction names) (simp_all add: demo_target_def)
  show ?thesis
    using assms(1,3) surv cap pre lim names
    by (simp add: demo_admit_def admit_def demo_resolved_def demo_admission_def Let_def)
qed

lemma acquire_holds_closed:
  assumes "\<And>t. t \<in> set chain \<Longrightarrow> \<exists>st. reg (bt_provider t, bt_model t) = Some st \<and> open_since st = None"
  shows "acquire_holds clock pol chain reg = (map (\<lambda>t. Some \<lparr>bh_provider = bt_provider t, bh_model = bt_model t,
     bh_policy = pol, bh_consumed = False\<rparr>) chain, reg)"
proof -
  have "map_state (\<lambda>(i, t) reg. try_hold reg (clock i) (bt_provider t) (bt_model t) pol) (enumerate n chain) reg
      = (map (\<lambda>t. Some \<lparr>bh_provider = bt_provider t, bh_model = bt_model t, bh_policy = pol, bh_consumed = False\<rparr>) chain, reg)"
    for n
    using assms
  proof (induction chain arbitrary: n)
    case (Cons t ts)
    from Cons.prems obtain st where st: "reg (bt_provider t, bt_model t) = Some st" "open_since st = None" by auto
    then have "reg((bt_provider t, bt_model t) \<mapsto> st) = reg" by (metis fun_upd_triv)
    with st have "try_hold reg (clock n) (bt_provider t) (bt_model t) pol
        = (Some \<lparr>bh_provider = bt_provider t, bh_model = bt_model t, bh_policy = pol, bh_consumed = False\<rparr>, reg)"
      by (simp add: try_hold_def registry_decision_def registry_get_or_create_def breaker_decision_def)
    with Cons show ?case by simp
  qed simp
  then show ?thesis by (simp add: acquire_holds_def)
qed

definition demo_breakers :: "nat \<Rightarrow> instant option \<Rightarrow> BreakerRegistry" where
  "demo_breakers n b_open =
     [(''a'', ''x'') \<mapsto> (new_breaker ''a'' ''x'')\<lparr>samples := replicate n (5, True)\<rparr>,
      (''b'', ''x'') \<mapsto> (new_breaker ''b'' ''x'')\<lparr>samples := replicate n (5, False), open_since := b_open\<rparr>]"

definition demo_ticket :: "string list \<Rightarrow> AdmissionTicket" where
  "demo_ticket names = \<lparr>tk_filtered_chain = map demo_target names, tk_resolved = demo_resolved names,
     tk_identity = Anonymous, tk_breaker_holds = map (\<lambda>n. Some \<lparr>bh_provider = n, bh_model = ''x'',
       bh_policy = breaker_policy_from breaker_config_default, bh_consumed = False\<rparr>) names,
     tk_rate_limit_reservations = replicate (Suc (length names)) (), tk_consumed = False\<rparr>"

lemma demo_admit_two:
  "demo_admit [''a'', ''b''] (demo_breakers n None) = (Inr (demo_ticket [''a'', ''b'']), demo_admission (demo_breakers n None))"
proof -
  have "acquire_holds (\<lambda>_. 5) (breaker_policy_from breaker_config_default) (map demo_target [''a'', ''b'']) (demo_breakers n None)
      = (tk_breaker_holds (demo_ticket [''a'', ''b'']), demo_breakers n None)"
    by (subst acquire_holds_closed) (auto simp: demo_breakers_def demo_target_def new_breaker_def demo_ticket_def)
  from demo_admit_eq [OF _ _ this] show ?thesis by (simp add: demo_ticket_def)
qed

theorem admit_sound_witness:
  "\<exists>ticket. fst (demo_admit [''a'', ''b''] (demo_breakers 0 None)) = Inr ticket
     \<and> map bt_provider (tk_filtered_chain ticket) = [''a'', ''b'']
     \<and> (\<exists>i < length (tk_filtered_chain ticket). breaker_allowed ticket i)"
proof -
  have "\<exists>i < length (tk_filtered_chain (demo_ticket [''a'', ''b''])). breaker_allowed (demo_ticket [''a'', ''b'']) i"
    using admit_sound [OF demo_admit_two [of 0, unfolded demo_admit_def]] by blast
  moreover have "map bt_provider (tk_filtered_chain (demo_ticket [''a'', ''b''])) = [''a'', ''b'']"
    by (simp add: demo_ticket_def demo_target_def)
  ultimately show ?thesis using demo_admit_two [of 0] by auto
qed

theorem no_request_leaks_probe_witness:
  "registry_wf (demo_breakers 0 None)
   \<and> \<not> probe_busy (ticket_drop (\<lambda>_. 9) (demo_ticket [''a'', ''b'']) (demo_breakers 0 None)) (''b'', ''x'')"
proof -
  have wf: "registry_wf (demo_breakers 0 None)"
    by (simp add: registry_wf_def demo_breakers_def new_breaker_def)
  then have wf': "registry_wf (ad_breaker (demo_admission (demo_breakers 0 None)))" by (simp add: demo_admission_def)
  have "\<not> probe_busy (demo_breakers 0 None) (''b'', ''x'')"
    by (simp add: probe_busy_def demo_breakers_def new_breaker_def)
  with no_request_leaks_probe [OF wf' demo_admit_two [of 0, unfolded demo_admit_def]] wf
  show ?thesis by blast
qed

text \<open>One request that is admitted and then answered by the first upstream of its chain.\<close>

definition serve_by_primary :: "(nat, string) Admission \<Rightarrow> (nat, string) Admission" where
  "serve_by_primary adm =
     (case demo_admit [''a'', ''b''] (ad_breaker adm) of
        (Inr ticket, adm') \<Rightarrow> adm'\<lparr>ad_breaker := snd (ticket_consume (\<lambda>_. 5) ticket 0 True (ad_breaker adm'))\<rparr>
      | (Inl e, adm') \<Rightarrow> adm')"

lemma demo_policy:
  "bp_window (breaker_policy_from breaker_config_default) = 60000000000"
  "bp_min_requests (breaker_policy_from breaker_config_default) = 20"
  "bp_failure_threshold_pct (breaker_policy_from breaker_config_default) = 50"
  by (simp_all add: breaker_policy_from_def breaker_config_default_def nanos_of_secs_def)

lemma demo_record:
  assumes "n < 20"
  shows "fst (breaker_record ((new_breaker u ''x'')\<lparr>samples := replicate n (5, ok)\<rparr>) ok 5 (breaker_policy_from breaker_config_default))
    = (new_breaker u ''x'')\<lparr>samples := replicate (Suc n) (5, ok), open_since := (if ok \<or> n < 19 then None else Some 5)\<rparr>"
proof -
  have app: "replicate n (5, ok) @ [(5 :: nat, ok)] = replicate (Suc n) (5, ok)"
    by (simp add: replicate_append_same)
  have slide: "slide (replicate n (5, ok)) ok 5 (breaker_policy_from breaker_config_default) = replicate (Suc n) (5, ok)"
    using app by (simp add: slide_def demo_policy)
  have tot: "(of_nat (Suc n) :: u32) < 20 \<longleftrightarrow> n < 19"
    using assms by (simp add: word_less_nat_alt unat_of_nat del: of_nat_Suc)
  have fc: "failure_count (replicate (Suc n) (5, ok)) = (if ok then 0 else Suc n)"
    by (simp add: failure_count_def)
  consider "n < 19" | "n = 19" using assms by linarith
  then show ?thesis
  proof cases
    case 1
    with tot show ?thesis
      by (simp add: breaker_record_def slide new_breaker_def demo_policy Let_def del: of_nat_Suc replicate_Suc)
  next
    case 2
    have "Suc 19 = 20" by simp
    note s = slide [unfolded 2 this] and f = fc [unfolded 2 this]
    show ?thesis
      unfolding 2 using s f by (cases ok) (simp_all add: breaker_record_def new_breaker_def demo_policy Let_def)
  qed
qed

lemma serve_by_primary_step:
  assumes "n < 20"
  shows "serve_by_primary (demo_admission (demo_breakers n None))
    = demo_admission (demo_breakers (Suc n) (if n < 19 then None else Some 5))"
proof -
  have "snd (ticket_consume (\<lambda>_. 5) (demo_ticket [''a'', ''b'']) 0 True (demo_breakers n None))
      = demo_breakers (Suc n) (if n < 19 then None else Some 5)"
    using demo_record [OF assms, where u = "''a''" and ok = True] demo_record [OF assms, where u = "''b''" and ok = False]
    by (simp add: ticket_consume_def demo_ticket_def consume_holds_def hold_consume_record hold_drop_record
        registry_record_at demo_breakers_def new_breaker_def fun_upd_twist)
  moreover have "ad_breaker (demo_admission r) = r" "(demo_admission r)\<lparr>ad_breaker := r'\<rparr> = demo_admission r'" for r r'
    by (simp_all add: demo_admission_def)
  ultimately show ?thesis by (simp add: serve_by_primary_def demo_admit_two)
qed

text \<open>Success on the primary upstream disables the fallback: under the default breaker settings,
  twenty requests that the first upstream of a two-element chain answers open the breaker of the
  second one, which was never called, and a request that needs the second is refused.\<close>

theorem idle_fallback_trips:
  "open_since (the (ad_breaker ((serve_by_primary ^^ 20) (demo_admission (demo_breakers 0 None))) (''b'', ''x''))) = Some 5
   \<and> fst (demo_admit [''b''] (ad_breaker ((serve_by_primary ^^ 20) (demo_admission (demo_breakers 0 None)))))
     = Inl (AE_AllBreakersOpen [''b''])"
proof -
  have run: "n \<le> 19 \<Longrightarrow> (serve_by_primary ^^ n) (demo_admission (demo_breakers 0 None)) = demo_admission (demo_breakers n None)" for n
    by (induction n) (simp_all add: serve_by_primary_step)
  have "(serve_by_primary ^^ 20) (demo_admission (demo_breakers 0 None))
      = serve_by_primary ((serve_by_primary ^^ 19) (demo_admission (demo_breakers 0 None)))"
    by (simp flip: funpow.simps(2) [unfolded comp_def, THEN fun_cong])
  then have final: "(serve_by_primary ^^ 20) (demo_admission (demo_breakers 0 None)) = demo_admission (demo_breakers 20 (Some 5))"
    using run [of 19] serve_by_primary_step [of 19] by simp
  have "acquire_holds (\<lambda>_. 5) (breaker_policy_from breaker_config_default) (map demo_target [''b'']) (demo_breakers 20 (Some 5))
      = ([None], demo_breakers 20 (Some 5))"
    by (simp add: acquire_holds_def try_hold_def registry_decision_def registry_get_or_create_def breaker_decision_def
        demo_target_def demo_breakers_def breaker_policy_from_def breaker_config_default_def nanos_of_secs_def)
  from demo_admit_eq [OF _ _ this] show ?thesis
    unfolding final by (simp add: demo_admission_def demo_breakers_def)
qed

end
