(* ===== verification/Emitter.thy ===== *)
theory Emitter
  imports Core_Model
begin

text \<open>
  Two shapes that the stream parsers and the stream encoders share.

  An \<^emph>\<open>emitter\<close> is a piece of stateful code that pushes results onto an output vector: a
  function from the state to the new state and the pushed values. \<open>emit_block\<close> is a sequence
  of statements, \<open>emit_for\<close> a loop over a vector, \<open>emit_when\<close> a guarded statement.

  The \<^emph>\<open>polling machine\<close> is the hand-written \<open>Stream::poll_next\<close> of the repository: an output
  queue that is drained first, a source that is polled when the queue is empty, and a
  finaliser that runs once when the source ends.
\<close>

section \<open>Emitters\<close>

type_synonym ('s, 'e) emitter = "'s \<Rightarrow> 's \<times> 'e list"

definition emit_skip :: "('s, 'e) emitter" where
  "emit_skip s = (s, [])"

definition emit :: "('s \<Rightarrow> 'e list) \<Rightarrow> ('s, 'e) emitter" where
  "emit f s = (s, f s)"

definition modify :: "('s \<Rightarrow> 's) \<Rightarrow> ('s, 'e) emitter" where
  "modify f s = (f s, [])"

text \<open>A state change together with a push; the pushed values are computed before the change.\<close>

definition emit_update :: "('s \<Rightarrow> 's) \<Rightarrow> ('s \<Rightarrow> 'e list) \<Rightarrow> ('s, 'e) emitter" where
  "emit_update upd f s = (upd s, f s)"

definition emit_then :: "('s, 'e) emitter \<Rightarrow> ('s, 'e) emitter \<Rightarrow> ('s, 'e) emitter" where
  "emit_then f g s = (let (s1, e1) = f s; (s2, e2) = g s1 in (s2, e1 @ e2))"

definition emit_when :: "('s \<Rightarrow> bool) \<Rightarrow> ('s, 'e) emitter \<Rightarrow> ('s, 'e) emitter" where
  "emit_when c f s = (if c s then f s else (s, []))"

fun emit_block :: "('s, 'e) emitter list \<Rightarrow> ('s, 'e) emitter" where
  "emit_block [] = emit_skip"
| "emit_block (f # fs) = emit_then f (emit_block fs)"

fun emit_for :: "'x list \<Rightarrow> ('x \<Rightarrow> ('s, 'e) emitter) \<Rightarrow> ('s, 'e) emitter" where
  "emit_for [] body = emit_skip"
| "emit_for (x # xs) body = emit_then (body x) (emit_for xs body)"

text \<open>\<open>if let Some(x) = o { body(x) }\<close>\<close>

fun emit_some :: "'x option \<Rightarrow> ('x \<Rightarrow> ('s, 'e) emitter) \<Rightarrow> ('s, 'e) emitter" where
  "emit_some None body = emit_skip"
| "emit_some (Some x) body = body x"

lemma emit_some_case: "emit_some o' body s = (case o' of None \<Rightarrow> (s, []) | Some x \<Rightarrow> body x s)"
  by (cases o') (simp_all add: emit_skip_def)

lemmas emitter_defs = emit_skip_def emit_def modify_def emit_update_def emit_then_def emit_when_def

text \<open>
  The content an event carries, and \<open>carries f p\<close>: from every state, what \<open>f\<close> pushes carries
  exactly the content \<open>p\<close>.
\<close>

datatype payload = PText string | PReasoning string | PCall u32 ToolCallId string | PArgs u32 string

fun event_payload :: "StreamEvent \<Rightarrow> payload list" where
  "event_payload (TextDelta i t) = [PText t]"
| "event_payload (ReasoningDelta i t) = [PReasoning t]"
| "event_payload (ToolCallStart i cid name) = [PCall i cid name]"
| "event_payload (ToolCallArgumentsDelta i frag) = [PArgs i frag]"
| "event_payload _ = []"

definition payload_of :: "StreamEvent list \<Rightarrow> payload list" where
  "payload_of es = concat (map event_payload es)"

lemma payload_of_simps [simp]:
  "payload_of [] = []" "payload_of (e # es) = event_payload e @ payload_of es"
  "payload_of (es @ fs) = payload_of es @ payload_of fs"
  by (simp_all add: payload_of_def)

definition carries :: "('s, StreamEvent) emitter \<Rightarrow> payload list \<Rightarrow> bool" where
  "carries f p \<longleftrightarrow> (\<forall>s. payload_of (snd (f s)) = p)"

lemma carries_skip: "carries emit_skip []"
  by (simp add: carries_def emit_skip_def)

lemma carries_emit: "(\<And>s. payload_of (e s) = p) \<Longrightarrow> carries (emit e) p"
  by (simp add: carries_def emit_def)

lemma carries_modify: "carries (modify f) []"
  by (simp add: carries_def modify_def)

lemma carries_update: "(\<And>s. payload_of (e s) = p) \<Longrightarrow> carries (emit_update f e) p"
  by (simp add: carries_def emit_update_def)

lemma carries_then: "carries f p \<Longrightarrow> carries g q \<Longrightarrow> carries (emit_then f g) (p @ q)"
  by (simp add: carries_def emit_then_def Let_def case_prod_unfold)

lemma carries_then_eq: "carries f p \<Longrightarrow> carries g q \<Longrightarrow> r = p @ q \<Longrightarrow> carries (emit_then f g) r"
  by (simp add: carries_then)

lemma carries_when: "carries f [] \<Longrightarrow> carries (emit_when c f) []"
  by (simp add: carries_def emit_when_def)

lemma carries_for:
  "(\<And>x. x \<in> set xs \<Longrightarrow> carries (body x) (p x)) \<Longrightarrow> carries (emit_for xs body) (concat (map p xs))"
  by (induction xs) (auto intro: carries_skip carries_then)

lemma carries_some:
  "(\<And>x. o' = Some x \<Longrightarrow> carries (body x) (p x)) \<Longrightarrow>
     carries (emit_some o' body) (case o' of None \<Rightarrow> [] | Some x \<Rightarrow> p x)"
  by (cases o') (auto intro: carries_skip)

text \<open>\<open>emits_only P f\<close>: from every state, everything \<open>f\<close> pushes satisfies \<open>P\<close>.\<close>

definition emits_only :: "('e \<Rightarrow> bool) \<Rightarrow> ('s, 'e) emitter \<Rightarrow> bool" where
  "emits_only P f \<longleftrightarrow> (\<forall>s. list_all P (snd (f s)))"

lemma emits_only_intros:
  "emits_only P emit_skip"
  "emits_only P (modify f)"
  "(\<And>s. list_all P (e s)) \<Longrightarrow> emits_only P (emit e)"
  "(\<And>s. list_all P (e s)) \<Longrightarrow> emits_only P (emit_update f e)"
  "emits_only P g \<Longrightarrow> emits_only P h \<Longrightarrow> emits_only P (emit_then g h)"
  "emits_only P g \<Longrightarrow> emits_only P (emit_when c g)"
  "(\<And>x. o' = Some x \<Longrightarrow> emits_only P (body x)) \<Longrightarrow> emits_only P (emit_some o' body)"
  by (auto simp: emits_only_def emitter_defs emit_some_case Let_def case_prod_unfold split: option.split)

lemma emits_only_for: "(\<And>x. x \<in> set xs \<Longrightarrow> emits_only P (body x)) \<Longrightarrow> emits_only P (emit_for xs body)"
  by (induction xs) (auto intro: emits_only_intros)

section \<open>Running a step function over a list of inputs\<close>

fun run_steps :: "('s \<Rightarrow> 'i \<Rightarrow> 's \<times> 'o list) \<Rightarrow> 's \<Rightarrow> 'i list \<Rightarrow> 's \<times> 'o list" where
  "run_steps step s [] = (s, [])"
| "run_steps step s (i # is) =
     (let (s1, o1) = step s i; (s2, o2) = run_steps step s1 is in (s2, o1 @ o2))"

lemma run_steps_append:
  "run_steps step s (is @ js) =
     (let (s1, o1) = run_steps step s is; (s2, o2) = run_steps step s1 js in (s2, o1 @ o2))"
  by (induction "is" arbitrary: s) (simp_all add: Let_def case_prod_unfold)

lemma run_steps_trans:
  "run_steps step s is = (s1, o1) \<Longrightarrow> run_steps step s1 js = (s2, o2) \<Longrightarrow> run_steps step s (is @ js) = (s2, o1 @ o2)"
  by (simp add: run_steps_append)

definition run_to_end :: "('s \<Rightarrow> 'i \<Rightarrow> 's \<times> 'o list) \<Rightarrow> ('s \<Rightarrow> 's \<times> 'o list) \<Rightarrow> 's \<Rightarrow> 'i list
    \<Rightarrow> 'o list" where
  "run_to_end step fin s is =
     (let (s', out) = run_steps step s is in out @ snd (fin s'))"

lemma run_to_end_Nil [simp]: "run_to_end step fin s [] = snd (fin s)"
  by (simp add: run_to_end_def)

lemma run_to_end_Cons [simp]:
  "run_to_end step fin s (i # is) = snd (step s i) @ run_to_end step fin (fst (step s i)) is"
  by (simp add: run_to_end_def Let_def case_prod_unfold)

text \<open>The events among the items of a stream (the others are transport or decode errors).\<close>

fun ok_events :: "stream_item list \<Rightarrow> StreamEvent list" where
  "ok_events [] = []"
| "ok_events (Inr e # items) = e # ok_events items"
| "ok_events (Inl err # items) = ok_events items"

lemma ok_events_append [simp]: "ok_events (xs @ ys) = ok_events xs @ ok_events ys"
  by (induction xs rule: ok_events.induct) simp_all

lemma ok_events_map_Inr [simp]: "ok_events (map Inr es) = es"
  by (induction es) simp_all

lemma ok_events_run_steps:
  "ok_events (snd (run_steps step s is)) = snd (run_steps (\<lambda>s i. apsnd ok_events (step s i)) s is)"
  by (induction "is" arbitrary: s) (simp_all add: Let_def case_prod_unfold)

lemma ok_events_run_to_end:
  "ok_events (run_to_end step fin s is) =
     run_to_end (\<lambda>s i. apsnd ok_events (step s i)) (\<lambda>s. apsnd ok_events (fin s)) s is"
  by (induction "is" arbitrary: s) simp_all

section \<open>The polling machine\<close>

text \<open>What the \<open>eventsource_stream\<close> crate yields: the data of an event, or a transport error's text.\<close>

datatype sse_input = SseEvent string | SseTransportError string

text \<open>
  What the source answers when it is polled: an item or \<open>Poll::Pending\<close>. A source is the
  list of its answers; once the list is exhausted it answers \<open>Poll::Ready(None)\<close>.
\<close>

datatype 'i source_poll = SrcItem 'i | SrcPending

datatype 'o poll = Pending | ReadyNone | ReadySome 'o

record ('s, 'i, 'o) poll_machine =
  pm_source :: "'i source_poll list"
  pm_state :: 's
  pm_pending :: "'o list"
  pm_finalized :: bool

definition poll_init :: "'i source_poll list \<Rightarrow> 's \<Rightarrow> ('s, 'i, 'o) poll_machine" where
  "poll_init src s = \<lparr>pm_source = src, pm_state = s, pm_pending = [], pm_finalized = False\<rparr>"

fun src_items :: "'i source_poll list \<Rightarrow> 'i list" where
  "src_items [] = []"
| "src_items (SrcItem i # src) = i # src_items src"
| "src_items (SrcPending # src) = src_items src"

function (sequential) poll_loop ::
  "('s \<Rightarrow> 'i \<Rightarrow> 's \<times> 'o list) \<Rightarrow> ('s \<Rightarrow> 's \<times> 'o list) \<Rightarrow> ('s, 'i, 'o) poll_machine
     \<Rightarrow> 'o poll \<times> ('s, 'i, 'o) poll_machine" where
  "poll_loop step fin m =
     (case pm_pending m of
        x # xs \<Rightarrow> (ReadySome x, m\<lparr>pm_pending := xs\<rparr>)
      | [] \<Rightarrow>
          (case pm_source m of
             SrcItem i # src \<Rightarrow>
               (let (s', out) = step (pm_state m) i
                in poll_loop step fin (m\<lparr>pm_source := src, pm_state := s', pm_pending := out\<rparr>))
           | SrcPending # src \<Rightarrow> (Pending, m\<lparr>pm_source := src\<rparr>)
           | [] \<Rightarrow>
               (if \<not> pm_finalized m
                then let (s', out) = fin (pm_state m)
                     in poll_loop step fin
                          (m\<lparr>pm_finalized := True, pm_state := s', pm_pending := out\<rparr>)
                else (ReadyNone, m))))"
  by pat_completeness auto
termination
  by (relation "measures [\<lambda>(_, _, m). length (pm_source m), \<lambda>(_, _, m). if pm_finalized m then 0 else 1]")
    auto

declare poll_loop.simps [simp del]

definition poll_rank :: "(('s, 'i, 'o) poll_machine \<Rightarrow> nat) list" where
  "poll_rank = [\<lambda>m. length (pm_source m), \<lambda>m. of_bool (\<not> pm_finalized m),
     \<lambda>m. length (pm_pending m)]"

lemma poll_loop_progress:
  "poll_loop step fin m = (r, m') \<Longrightarrow> r \<noteq> ReadyNone \<Longrightarrow> (m', m) \<in> measures poll_rank"
proof (induction step fin m rule: poll_loop.induct)
  case (1 step fin m)
  show ?case
  proof (cases "pm_pending m")
    case Nil
    show ?thesis
    proof (cases "pm_source m")
      case src_Nil: Nil
      obtain s' out where "fin (pm_state m) = (s', out)" by fastforce
      with 1 Nil src_Nil show ?thesis
        by (cases "pm_finalized m"; cases "pm_finalized m'")
          (auto simp: poll_loop.simps [of step fin m] poll_rank_def)
    next
      case (Cons a src)
      show ?thesis
      proof (cases a)
        case (SrcItem i)
        obtain s' out where "step (pm_state m) i = (s', out)" by fastforce
        with 1 Nil Cons SrcItem
        have "(m', m\<lparr>pm_source := src, pm_state := s', pm_pending := out\<rparr>) \<in> measures poll_rank"
          by (auto simp: poll_loop.simps [of step fin m] simp del: in_measures)
        with Cons show ?thesis by (auto simp: poll_rank_def)
      next
        case SrcPending
        with 1 Nil Cons show ?thesis by (auto simp: poll_loop.simps [of step fin m] poll_rank_def)
      qed
    qed
  next
    case (Cons x xs)
    with 1 show ?thesis by (auto simp: poll_loop.simps [of step fin m] poll_rank_def)
  qed
qed

text \<open>The consumer that polls until the stream ends, collecting what it is given.\<close>

function poll_drain ::
  "('s \<Rightarrow> 'i \<Rightarrow> 's \<times> 'o list) \<Rightarrow> ('s \<Rightarrow> 's \<times> 'o list) \<Rightarrow> ('s, 'i, 'o) poll_machine
     \<Rightarrow> 'o list" where
  "poll_drain step fin m =
     (case poll_loop step fin m of
        (ReadySome x, m') \<Rightarrow> x # poll_drain step fin m'
      | (Pending, m') \<Rightarrow> poll_drain step fin m'
      | (ReadyNone, m') \<Rightarrow> [])"
  by pat_completeness auto
termination
  by (relation "inv_image (measures poll_rank) (\<lambda>(_, _, m). m)")
    (auto simp del: in_measures dest: poll_loop_progress [OF sym])

declare poll_drain.simps [simp del]

text \<open>What the machine still owes its consumer.\<close>

definition owed :: "('s \<Rightarrow> 'i \<Rightarrow> 's \<times> 'o list) \<Rightarrow> ('s \<Rightarrow> 's \<times> 'o list)
    \<Rightarrow> ('s, 'i, 'o) poll_machine \<Rightarrow> 'o list" where
  "owed step fin m = pm_pending m @
     (if pm_finalized m then snd (run_steps step (pm_state m) (src_items (pm_source m)))
      else run_to_end step fin (pm_state m) (src_items (pm_source m)))"

lemma poll_loop_owed:
  "poll_loop step fin m = (r, m') \<Longrightarrow>
     owed step fin m = (case r of ReadySome x \<Rightarrow> x # owed step fin m' | _ \<Rightarrow> owed step fin m')
     \<and> (r = ReadyNone \<longrightarrow> owed step fin m' = [] \<and> poll_loop step fin m' = (ReadyNone, m'))"
proof (induction step fin m rule: poll_loop.induct)
  case (1 step fin m)
  show ?case
  proof (cases "pm_pending m")
    case Nil
    show ?thesis
    proof (cases "pm_source m")
      case src_Nil: Nil
      obtain s' out where "fin (pm_state m) = (s', out)" by fastforce
      with 1 Nil src_Nil show ?thesis
        by (cases "pm_finalized m"; cases "m = m'")
          (auto simp: poll_loop.simps [of step fin m] poll_loop.simps [of step fin m'] owed_def)
    next
      case (Cons a src)
      show ?thesis
      proof (cases a)
        case (SrcItem i)
        obtain s' out where "step (pm_state m) i = (s', out)" by fastforce
        with 1 Nil Cons SrcItem show ?thesis
          by (auto simp: poll_loop.simps [of step fin m] owed_def case_prod_unfold)
      next
        case SrcPending
        with 1 Nil Cons show ?thesis by (auto simp: poll_loop.simps [of step fin m] owed_def)
      qed
    qed
  next
    case (Cons x xs)
    with 1 show ?thesis by (auto simp: poll_loop.simps [of step fin m] owed_def)
  qed
qed

lemma poll_drain_owed: "poll_drain step fin m = owed step fin m"
proof (induction step fin m rule: poll_drain.induct)
  case (1 step fin m)
  obtain r m' where "poll_loop step fin m = (r, m')" by fastforce
  with 1 poll_loop_owed [OF this] show ?case
    by (auto simp: poll_drain.simps [of step fin m] split: poll.splits)
qed

lemma poll_drain_init:
  "poll_drain step fin (poll_init src s) = run_to_end step fin s (src_items src)"
  by (simp add: poll_drain_owed owed_def poll_init_def)

end
