(* ===== verification/Resilient_Caller.thy ===== *)
theory Resilient_Caller
  imports Admission Emitter
begin

text \<open>
  The walk over an admitted chain (\<open>router/src/resilient_caller.rs\<close>): a retry loop per element, fallback
  on eligible errors, and the stream wrapper that settles the ticket on the first event.

  Parameters: the providers (trait objects), the jitter of every attempt, the elapsed times that
  are reported, and \<open>display\<close>, the derived \<open>Display\<close> of a provider error. An \<open>expect\<close> that would panic
  is \<open>None\<close>. The wrapper \<open>complete_inner_summary\<close> only logs and is the identity on results.
\<close>

section \<open>The chain walk\<close>

record TriedUpstream =
  tu_provider :: string
  tu_model :: string
  tu_attempts :: u32
  tu_last_error_tag :: string
  tu_last_error_msg :: string
  tu_elapsed_ms :: u64

datatype ResilienceError =
    NoUpstreamSucceeded "TriedUpstream list" ProviderError
  | TerminalError ProviderError "TriedUpstream list"
  | RE_AllBreakersOpen "string list"
  | RE_RateLimited RateLimitDimension u32
  | RE_NoEligibleUpstream "Skip list"

record 'st ResilientCaller =
  rc_providers :: "string \<Rightarrow> 'st BackendProvider option"
  rc_jitter :: "nat \<Rightarrow> u32 \<Rightarrow> f64"
  rc_elapsed_ms :: "nat \<Rightarrow> u64"
  rc_display :: "ProviderError \<Rightarrow> string"

definition call_element :: "'st ResilientCaller \<Rightarrow> CanonicalRequest \<Rightarrow> RetryPolicy \<Rightarrow> 'st BackendProvider
    \<Rightarrow> nat \<Rightarrow> BackendTarget \<Rightarrow> 'st RetryOutcome" where
  "call_element rc req policy provider i target =
     fst (retry_with_policy (pv_complete provider target req) policy (rc_jitter rc i))"

definition tried_upstream :: "'st ResilientCaller \<Rightarrow> nat \<Rightarrow> BackendTarget \<Rightarrow> u32 \<Rightarrow> ProviderError
    \<Rightarrow> TriedUpstream" where
  "tried_upstream rc i target attempts e = \<lparr>tu_provider = bt_provider target, tu_model = bt_model target,
     tu_attempts = attempts, tu_last_error_tag = error_tag e, tu_last_error_msg = rc_display rc e,
     tu_elapsed_ms = rc_elapsed_ms rc i\<rparr>"

text \<open>The \<open>for\<close> loop with its accumulators, and what follows it when the chain is exhausted.\<close>

fun chain_walk :: "'st ResilientCaller \<Rightarrow> AdmissionTicket \<Rightarrow> CanonicalRequest \<Rightarrow> RetryPolicy
    \<Rightarrow> (nat \<times> BackendTarget) list \<Rightarrow> TriedUpstream list \<Rightarrow> ProviderError option \<Rightarrow> string list
    \<Rightarrow> (ResilienceError + 'st \<times> nat) option" where
  "chain_walk rc ticket req policy [] tried last_error skipped =
     (if tried \<noteq> [] then map_option (\<lambda>e. Inl (NoUpstreamSucceeded tried e)) last_error
      else if skipped \<noteq> [] then Some (Inl (RE_AllBreakersOpen skipped))
      else Some (Inl (TerminalError (Network ''empty chain'') [])))"
| "chain_walk rc ticket req policy ((i, target) # rest) tried last_error skipped =
     (if \<not> breaker_allowed ticket i
      then chain_walk rc ticket req policy rest tried last_error (skipped @ [bt_provider target])
      else case rc_providers rc (bt_provider target) of
        None \<Rightarrow> Some (Inl (TerminalError (UnknownProvider (bt_provider target)) tried))
      | Some provider \<Rightarrow>
          (let outcome = call_element rc req policy provider i target in
           case ro_result outcome of
             Inr st \<Rightarrow> Some (Inr (st, i))
           | Inl e \<Rightarrow>
               (let tried' = tried @ [tried_upstream rc i target (ro_attempts outcome) e] in
                if fallback_eligibility_with_overrides e (retry_on policy) = Terminal
                then Some (Inl (TerminalError e tried'))
                else chain_walk rc ticket req policy rest tried' (Some e) skipped)))"

definition complete_inner :: "'st ResilientCaller \<Rightarrow> AdmissionTicket \<Rightarrow> CanonicalRequest
    \<Rightarrow> (ResilienceError + 'st \<times> nat) option" where
  "complete_inner rc ticket req =
     chain_walk rc ticket req (retry_policy_from (rr_retry (tk_resolved ticket)))
       (enumerate 0 (tk_filtered_chain ticket)) [] None []"

text \<open>On success the ticket moves into the returned stream; on every error path it is dropped.\<close>

record 'st ConsumeOnFirstEventStream =
  cs_inner :: 'st
  cs_ticket :: "AdmissionTicket option"
  cs_chain_index :: nat

definition complete_call :: "(nat \<Rightarrow> instant) \<Rightarrow> 'st ResilientCaller \<Rightarrow> AdmissionTicket \<Rightarrow> CanonicalRequest
    \<Rightarrow> BreakerRegistry \<Rightarrow> ((ResilienceError + 'st ConsumeOnFirstEventStream) \<times> BreakerRegistry) option" where
  "complete_call clock rc ticket req reg =
     (case complete_inner rc ticket req of
        None \<Rightarrow> None
      | Some (Inl e) \<Rightarrow> Some (Inl e, ticket_drop clock ticket reg)
      | Some (Inr (st, i)) \<Rightarrow>
          Some (Inr \<lparr>cs_inner = st, cs_ticket = Some ticket, cs_chain_index = i\<rparr>, reg))"

section \<open>The stream wrapper\<close>

definition first_event_succeeded :: "(StreamError + StreamEvent) poll \<Rightarrow> bool option" where
  "first_event_succeeded p =
     (case p of
        ReadySome (Inr (ErrorEvent _)) \<Rightarrow> Some False
      | ReadySome (Inr _) \<Rightarrow> Some True
      | ReadySome (Inl _) \<Rightarrow> Some False
      | _ \<Rightarrow> None)"

text \<open>One \<open>poll_next\<close>, given what the inner stream answered.\<close>

definition cs_poll_next :: "(nat \<Rightarrow> instant) \<Rightarrow> (StreamError + StreamEvent) poll
    \<Rightarrow> 'st ConsumeOnFirstEventStream \<times> BreakerRegistry \<Rightarrow> 'st ConsumeOnFirstEventStream \<times> BreakerRegistry" where
  "cs_poll_next clock inner_poll sr =
     (case (first_event_succeeded inner_poll, cs_ticket (fst sr)) of
        (Some succeeded, Some ticket) \<Rightarrow>
          (let (ticket', reg) = ticket_consume clock ticket (cs_chain_index (fst sr)) succeeded (snd sr)
           in ((fst sr)\<lparr>cs_ticket := None\<rparr>, ticket_drop clock ticket' reg))
      | _ \<Rightarrow> sr)"

definition cs_drop :: "(nat \<Rightarrow> instant) \<Rightarrow> 'st ConsumeOnFirstEventStream \<times> BreakerRegistry \<Rightarrow> BreakerRegistry" where
  "cs_drop clock sr = (case cs_ticket (fst sr) of None \<Rightarrow> snd sr | Some ticket \<Rightarrow> ticket_drop clock ticket (snd sr))"

section \<open>The walk against its specification\<close>

definition element_outcome :: "'st ResilientCaller \<Rightarrow> CanonicalRequest \<Rightarrow> RetryPolicy \<Rightarrow> nat \<times> BackendTarget
    \<Rightarrow> 'st RetryOutcome option" where
  "element_outcome rc req policy it =
     map_option (\<lambda>p. call_element rc req policy p (fst it) (snd it)) (rc_providers rc (bt_provider (snd it)))"

definition element_error :: "'st ResilientCaller \<Rightarrow> CanonicalRequest \<Rightarrow> RetryPolicy \<Rightarrow> nat \<times> BackendTarget
    \<Rightarrow> ProviderError option" where
  "element_error rc req policy it =
     Option.bind (element_outcome rc req policy it) (\<lambda>out. case ro_result out of Inl e \<Rightarrow> Some e | Inr st \<Rightarrow> None)"

text \<open>The elements that the walk moves past, and the entry it records for an element.\<close>

definition falls_back :: "'st ResilientCaller \<Rightarrow> CanonicalRequest \<Rightarrow> RetryPolicy \<Rightarrow> nat \<times> BackendTarget \<Rightarrow> bool" where
  "falls_back rc req policy it \<longleftrightarrow> (\<exists>e. element_error rc req policy it = Some e
     \<and> fallback_eligibility_with_overrides e (retry_on policy) = Eligible)"

definition tried_entry :: "'st ResilientCaller \<Rightarrow> CanonicalRequest \<Rightarrow> RetryPolicy \<Rightarrow> nat \<times> BackendTarget
    \<Rightarrow> TriedUpstream" where
  "tried_entry rc req policy it =
     tried_upstream rc (fst it) (snd it) (ro_attempts (the (element_outcome rc req policy it)))
       (the (element_error rc req policy it))"

definition walk_spec :: "'st ResilientCaller \<Rightarrow> AdmissionTicket \<Rightarrow> CanonicalRequest \<Rightarrow> RetryPolicy
    \<Rightarrow> TriedUpstream list \<Rightarrow> (nat \<times> BackendTarget) list \<Rightarrow> ResilienceError + 'st \<times> nat" where
  "walk_spec rc ticket req policy tried els =
     (let allowed = filter (\<lambda>it. breaker_allowed ticket (fst it)) els;
          entry = tried_entry rc req policy;
          passed = tried @ map entry (takeWhile (falls_back rc req policy) allowed)
      in case dropWhile (falls_back rc req policy) allowed of
           [] \<Rightarrow> Inl (NoUpstreamSucceeded passed (the (element_error rc req policy (last allowed))))
         | it # _ \<Rightarrow>
             (case element_outcome rc req policy it of
                None \<Rightarrow> Inl (TerminalError (UnknownProvider (bt_provider (snd it))) passed)
              | Some out \<Rightarrow>
                  (case ro_result out of
                     Inr st \<Rightarrow> Inr (st, fst it)
                   | Inl e \<Rightarrow> Inl (TerminalError e (passed @ [entry it])))))"

lemma chain_walk_skips:
  "filter (\<lambda>it. breaker_allowed ticket (fst it)) els = [] \<Longrightarrow>
     chain_walk rc ticket req policy els tried le skipped
     = chain_walk rc ticket req policy [] tried le (skipped @ map (bt_provider \<circ> snd) els)"
  by (induction els arbitrary: skipped) (auto split: if_splits simp del: chain_walk.simps(1))

lemma chain_walk_eq:
  "filter (\<lambda>it. breaker_allowed ticket (fst it)) els \<noteq> [] \<Longrightarrow>
     chain_walk rc ticket req policy els tried le skipped = Some (walk_spec rc ticket req policy tried els)"
proof (induction els arbitrary: tried le skipped)
  case (Cons it els)
  obtain i t where it: "it = (i, t)" by (cases it)
  note facts = element_outcome_def element_error_def falls_back_def tried_entry_def
  show ?case
  proof (cases "breaker_allowed ticket i \<and> falls_back rc req policy it")
    case False
    then show ?thesis
      using Cons by (auto simp: it walk_spec_def facts Let_def split: option.splits sum.splits)
  next
    case True
    then obtain out e where out: "element_outcome rc req policy it = Some out" "ro_result out = Inl e"
        "fallback_eligibility_with_overrides e (retry_on policy) = Eligible"
      by (cases "element_outcome rc req policy it"; cases "ro_result (the (element_outcome rc req policy it))")
        (auto simp: falls_back_def element_error_def)
    then obtain p where p: "rc_providers rc (bt_provider t) = Some p" "call_element rc req policy p i t = out"
      by (auto simp: it element_outcome_def)
    let ?tried = "tried @ [tried_upstream rc i t (ro_attempts out) e]"
    have entry: "tried_entry rc req policy it = tried_upstream rc i t (ro_attempts out) e"
        "element_error rc req policy it = Some e"
      using p out(2) by (simp_all add: it facts)
    have step: "chain_walk rc ticket req policy (it # els) tried le skipped
        = chain_walk rc ticket req policy els ?tried (Some e) skipped"
      using True p out by (simp add: it Let_def)
    show ?thesis
    proof (cases "filter (\<lambda>it. breaker_allowed ticket (fst it)) els = []")
      case allowed: True
      from chain_walk_skips [OF allowed, of rc req policy ?tried "Some e" skipped]
      have "chain_walk rc ticket req policy els ?tried (Some e) skipped = Some (Inl (NoUpstreamSucceeded ?tried e))"
        by auto
      with step allowed True entry show ?thesis by (simp add: walk_spec_def it)
    next
      case False
      from Cons.IH [OF this] step have "chain_walk rc ticket req policy (it # els) tried le skipped
          = Some (walk_spec rc ticket req policy ?tried els)" by simp
      also have "walk_spec rc ticket req policy ?tried els = walk_spec rc ticket req policy tried (it # els)"
      proof -
        have "filter (\<lambda>it. breaker_allowed ticket (fst it)) (it # els) = it # filter (\<lambda>it. breaker_allowed ticket (fst it)) els"
          using True by (simp add: it)
        with True False entry(1) show ?thesis
          by (simp only: walk_spec_def Let_def dropWhile.simps takeWhile.simps if_True list.map
              last_ConsR [OF False] append_assoc append.simps)
      qed
      finally show ?thesis .
    qed
  qed
qed simp

lemma ticket_ok_allowed:
  assumes "ticket_ok ticket"
  shows "filter (\<lambda>it. breaker_allowed ticket (fst it)) (enumerate 0 (tk_filtered_chain ticket)) \<noteq> []"
proof -
  from assms obtain i where i: "breaker_allowed ticket i" "length (tk_breaker_holds ticket) = length (tk_filtered_chain ticket)"
    by (auto simp: ticket_ok_def dest: list_all2_lengthD)
  then have "(i, tk_filtered_chain ticket ! i) \<in> set (enumerate 0 (tk_filtered_chain ticket))"
    by (auto simp: breaker_allowed_def in_set_enumerate_eq)
  with i show ?thesis by (force simp: filter_empty_conv)
qed

text \<open>C11. The chain walk is the intended one. For every ticket that admission issued the walk returns (its
  \<open>expect\<close> never panics), and its result is that of the reference definition: elements whose
  breaker refused are skipped, elements that fail with an eligible error are passed and recorded
  in order, and the first other element decides: success, a terminal error or an unregistered
  provider. When all elements are passed the error carries all of them and the last error. The
  outcomes \<open>AllBreakersOpen\<close> and \<open>empty chain\<close> cannot occur.\<close>

theorem complete_inner_walk:
  assumes "admit g enc clock adm resolved entry config request ident ip est = (Inr ticket, adm')"
  shows "complete_inner rc ticket req = Some (walk_spec rc ticket req (retry_policy_from (rr_retry resolved)) []
      (enumerate 0 (tk_filtered_chain ticket)))
    \<and> (\<forall>names. complete_inner rc ticket req \<noteq> Some (Inl (RE_AllBreakersOpen names)))"
proof -
  have res: "tk_resolved ticket = resolved" by (rule admit_granted [OF assms])
  from admit_ticket_ok [OF assms]
  have eq: "complete_inner rc ticket req = Some (walk_spec rc ticket req (retry_policy_from (rr_retry resolved)) []
      (enumerate 0 (tk_filtered_chain ticket)))"
    unfolding complete_inner_def res by (intro chain_walk_eq ticket_ok_allowed)
  show ?thesis unfolding eq by (auto simp: walk_spec_def Let_def split: list.splits option.splits sum.splits)
qed

text \<open>The primary of the demonstration chain is down; its fallback answers.\<close>

definition demo_caller :: "string ResilientCaller" where
  "demo_caller = \<lparr>rc_providers = (\<lambda>n. Some (if n = ''a''
       then demo_provider\<lparr>pv_complete := (\<lambda>_ _ _. Inl (Network ''reset''))\<rparr> else demo_provider)),
     rc_jitter = (\<lambda>_ _. 0), rc_elapsed_ms = (\<lambda>_. 0), rc_display = error_tag\<rparr>"

lemma demo_call_down:
  "retry_with_policy (\<lambda>_. Inl (Network ''reset'')) (retry_policy_from retry_config_default) (\<lambda>_. 0)
     = (\<lparr>ro_result = Inl (Network ''reset''), ro_attempts = 2\<rparr>, [100])"
  by (simp add: retry_with_policy_def retry_loop.simps retry_policy_from_def
      retry_config_default_def fallback_eligibility_with_overrides_def compute_backoff_def base_ms_def
      f64_round_def f64_as_u64_def u32_not_le_1)

lemma demo_call_up:
  "retry_with_policy (\<lambda>_. Inr st) policy jitter = (\<lparr>ro_result = Inr st, ro_attempts = 1\<rparr>, [])"
  by (simp add: retry_with_policy_def retry_loop.simps)

theorem complete_inner_walk_witness:
  "complete_inner demo_caller (demo_ticket [''a'', ''b'']) (demo_request ''hi'') = Some (Inr (''stream'', 1))"
proof -
  have "complete_inner demo_caller (demo_ticket [''a'', ''b'']) (demo_request ''hi'')
      = Some (walk_spec demo_caller (demo_ticket [''a'', ''b'']) (demo_request ''hi'')
          (retry_policy_from (rr_retry (demo_resolved [''a'', ''b'']))) []
          (enumerate 0 (tk_filtered_chain (demo_ticket [''a'', ''b'']))))"
    using complete_inner_walk [OF demo_admit_two [of 0, unfolded demo_admit_def]] by blast
  also have "\<dots> = Some (Inr (''stream'', 1))"
    by (simp add: walk_spec_def demo_ticket_def breaker_allowed_def falls_back_def element_error_def element_outcome_def
        call_element_def demo_caller_def demo_provider_def demo_target_def demo_resolved_def demo_call_down demo_call_up
        fallback_eligibility_with_overrides_def retry_policy_from_def [of retry_config_default, THEN arg_cong, of retry_on]
        retry_config_default_def [THEN arg_cong, of rc_retry_on])
  finally show ?thesis .
qed

section \<open>Settling the ticket\<close>

lemma ticket_drop_consumed: "ticket_drop clock (fst (ticket_consume clock ticket i ok reg)) reg'
    = (if tk_consumed ticket then ticket_drop clock ticket reg' else reg')"
  by (simp add: ticket_consume_def ticket_drop_def)

lemma cs_poll_next_eq:
  assumes "\<And>ticket. cs_ticket s = Some ticket \<Longrightarrow> \<not> tk_consumed ticket"
  shows "cs_poll_next clock p (s, reg) =
    (case (first_event_succeeded p, cs_ticket s) of
       (Some ok, Some ticket) \<Rightarrow> (s\<lparr>cs_ticket := None\<rparr>, snd (ticket_consume clock ticket (cs_chain_index s) ok reg))
     | _ \<Rightarrow> (s, reg))"
  using assms ticket_drop_consumed
  by (auto simp: cs_poll_next_def case_prod_unfold Let_def split: option.splits)

text \<open>The first answer of the inner stream that decides the outcome.\<close>

fun first_verdict :: "stream_item poll list \<Rightarrow> bool option" where
  "first_verdict [] = None"
| "first_verdict (p # ps) = (case first_event_succeeded p of Some ok \<Rightarrow> Some ok | None \<Rightarrow> first_verdict ps)"

lemma settled_run: "cs_ticket s = None \<Longrightarrow> fold (cs_poll_next clock) ps (s, reg) = (s, reg)"
  by (induction ps) (simp_all add: cs_poll_next_def split: option.splits)

lemma cs_settled:
  assumes "cs_ticket s = Some ticket" "\<not> tk_consumed ticket"
  shows "cs_drop clock (fold (cs_poll_next clock) ps (s, reg)) =
    (case first_verdict ps of
       Some ok \<Rightarrow> snd (ticket_consume clock ticket (cs_chain_index s) ok reg)
     | None \<Rightarrow> ticket_drop clock ticket reg)"
proof (induction ps)
  case (Cons p ps)
  show ?case
  proof (cases "first_event_succeeded p")
    case (Some ok)
    then have "fold (cs_poll_next clock) (p # ps) (s, reg)
        = (s\<lparr>cs_ticket := None\<rparr>, snd (ticket_consume clock ticket (cs_chain_index s) ok reg))"
      using assms cs_poll_next_eq [of s clock p reg] by (simp add: settled_run)
    with Some show ?thesis by (simp add: cs_drop_def)
  qed (use Cons in \<open>simp add: cs_poll_next_def\<close>)
qed (simp add: cs_drop_def assms(1))

lemma complete_call_served:
  assumes "complete_call clock rc ticket req reg = Some (Inr s, reg1)"
  shows "cs_ticket s = Some ticket" "reg1 = reg" "complete_inner rc ticket req = Some (Inr (cs_inner s, cs_chain_index s))"
  using assms by (auto simp: complete_call_def split: option.splits sum.splits)

lemma complete_inner_allowed:
  assumes "complete_inner rc ticket req = Some (Inr (st, i))"
  shows "breaker_allowed ticket i"
proof -
  have "chain_walk rc ticket req pol els tried le sk = Some (Inr (st, i)) \<Longrightarrow> breaker_allowed ticket i"
    for pol els tried le sk
    by (induction rc ticket req pol els tried le sk rule: chain_walk.induct)
      (auto simp: Let_def split: if_splits option.splits sum.splits)
  with assms show ?thesis unfolding complete_inner_def by blast
qed

text \<open>A served request is settled exactly once. However the consumer polls the returned stream and
  whenever it drops it, the breakers see one settlement of the ticket: the outcome of the first
  event the upstream produced (a failure when that event is an error), and when it produced none
  before the drop, the loss of the whole ticket.\<close>

theorem stream_settles_once:
  assumes "complete_call clock rc ticket req reg = Some (Inr s, reg1)" "\<not> tk_consumed ticket"
  shows "cs_drop clock (fold (cs_poll_next clock) ps (s, reg2)) =
    (case first_verdict ps of
       Some ok \<Rightarrow> snd (ticket_consume clock ticket (cs_chain_index s) ok reg2)
     | None \<Rightarrow> ticket_drop clock ticket reg2)
    \<and> breaker_allowed ticket (cs_chain_index s) \<and> reg1 = reg"
  using complete_call_served(2) [OF assms(1)] complete_inner_allowed [OF complete_call_served(3) [OF assms(1)]]
    cs_settled [OF complete_call_served(1) [OF assms(1)] assms(2)] by simp

lemma demo_complete_call:
  "complete_call (\<lambda>_. 9) demo_caller (demo_ticket [''b'']) (demo_request ''hi'') reg
     = Some (Inr \<lparr>cs_inner = ''stream'', cs_ticket = Some (demo_ticket [''b'']), cs_chain_index = 0\<rparr>, reg)"
  by (simp add: complete_call_def complete_inner_def demo_ticket_def breaker_allowed_def call_element_def demo_caller_def
      demo_provider_def demo_target_def demo_call_up)

theorem stream_settles_once_witness:
  "cs_drop (\<lambda>_. 9) (fold (cs_poll_next (\<lambda>_. 9)) [Pending, ReadySome (Inr (MessageStart Assistant)), ReadyNone]
     (\<lparr>cs_inner = ''stream'', cs_ticket = Some (demo_ticket [''b'']), cs_chain_index = 0\<rparr>, Map.empty))
   = snd (ticket_consume (\<lambda>_. 9) (demo_ticket [''b'']) 0 True Map.empty)"
  using stream_settles_once [OF demo_complete_call [of Map.empty], of
      "[Pending, ReadySome (Inr (MessageStart Assistant)), ReadyNone]" Map.empty]
  by (simp add: demo_ticket_def first_event_succeeded_def)

text \<open>A release of one key among releases of other keys.\<close>

lemma release_fold_at:
  assumes "distinct (map (fst \<circ> snd) rels)" "(c, k, ok) \<in> set rels"
  shows "fold (\<lambda>(c, k, ok) r. hold_release c k ok r) rels reg k
    = Some (fst (breaker_record (case reg k of Some st \<Rightarrow> st | None \<Rightarrow> new_breaker (fst k) (snd k)) ok (fst c) (snd c)))"
  using assms
proof (induction rels arbitrary: reg)
  case (Cons a rels)
  have at: "hold_release c' k' ok' r = r(k' \<mapsto> fst (breaker_record
      (case r k' of Some st \<Rightarrow> st | None \<Rightarrow> new_breaker (fst k') (snd k')) ok' (fst c') (snd c')))" for c' k' ok' r
    by (simp add: hold_release_def hold_consume_record registry_record_at)
  have other: "k \<notin> (fst \<circ> snd) ` set rs \<Longrightarrow> fold (\<lambda>(c, k, ok) r. hold_release c k ok r) rs r k = r k" for rs r
    by (induction rs arbitrary: r) (auto simp: at)
  show ?case
  proof (cases "a = (c, k, ok)")
    case True
    with Cons.prems have "k \<notin> (fst \<circ> snd) ` set rels" by auto
    with True other [of rels "hold_release c k ok reg"] at [of c k ok reg] show ?thesis by simp
  next
    case False
    with Cons.prems have "(c, k, ok) \<in> set rels" "(fst \<circ> snd) a \<noteq> k" by (auto simp: image_iff)
    moreover obtain c' k' ok' where "a = (c', k', ok')" by (cases a)
    moreover from this have "hold_release c' k' ok' reg k = reg k" using \<open>(fst \<circ> snd) a \<noteq> k\<close> by (simp add: at)
    ultimately show ?thesis using Cons.IH [of "hold_release c' k' ok' reg"] Cons.prems by simp
  qed
qed simp

text \<open>A failed request is charged to every upstream of its chain: whatever the error, a client error
  of the first upstream included, each hold of the ticket is recorded as a failure of its
  upstream, also where that upstream was never called.\<close>

theorem failed_request_charges_all:
  assumes "admit g enc clock adm resolved entry config request ident ip est = (Inr ticket, adm')"
    and "complete_call clock' rc ticket req reg = Some (Inl e, reg')"
    and "distinct (map (\<lambda>t. (bt_provider t, bt_model t)) (tk_filtered_chain ticket))"
    and "breaker_allowed ticket i"
  shows "let t = tk_filtered_chain ticket ! i; k = (bt_provider t, bt_model t) in
    reg' k = Some (fst (breaker_record (case reg k of Some st \<Rightarrow> st | None \<Rightarrow> new_breaker (fst k) (snd k)) False (clock' i)
      (breaker_policy_from (rr_breaker resolved))))"
proof -
  let ?holds = "tk_breaker_holds ticket" and ?chain = "tk_filtered_chain ticket"
  let ?rels = "ticket_releases clock' (enumerate 0 ?holds) (length ?holds) False"
  have ok: "ticket_ok ticket" by (rule admit_ticket_ok [OF assms(1)])
  have res: "tk_resolved ticket = resolved" by (rule admit_granted [OF assms(1)])
  have all: "list_all2 (hold_for (breaker_policy_from (rr_breaker resolved))) ?chain ?holds"
    using ok res by (simp add: ticket_ok_def)
  have reg': "reg' = fold (\<lambda>(c, k, ok) r. hold_release c k ok r) ?rels reg"
    using assms(2) consume_holds_gate [OF ticket_ok_unused [OF ok], where clock = clock' and idx = "length ?holds" and ok = False and reg = reg]
    by (auto simp: complete_call_def ticket_drop_consume_holds [where ok = False] split: option.splits sum.splits)
  have keys: "map (fst \<circ> snd) (ticket_releases clock' (enumerate n hs) idx b)
      = map snd (filter (\<lambda>(h, k). h \<noteq> None) (zip hs (map (\<lambda>t. (bt_provider t, bt_model t)) ts)))"
    if "list_all2 (hold_for pol) ts hs" for n hs ts pol idx b
    using that
  proof (induction arbitrary: n rule: list_all2_induct)
    case (Cons t ts h hs)
    then show ?case
      by (cases h) (simp_all add: ticket_releases_def List.map_filter_simps hold_for_def hold_key_def)
  qed (simp add: ticket_releases_def List.map_filter_simps)
  have "distinct (map snd (filter P (zip xs ys)))" if "distinct ys" for P and xs :: "'x list" and ys :: "'y list"
    using that by (induction xs ys rule: list_induct2') (auto dest: set_zip_rightD)
  then have dist: "distinct (map (fst \<circ> snd) ?rels)" unfolding keys [OF all] using assms(3) by blast
  from assms(4) all have i: "i < length ?chain" "i < length ?holds" and h: "?holds ! i = Some \<lparr>bh_provider = bt_provider (?chain ! i),
      bh_model = bt_model (?chain ! i), bh_policy = breaker_policy_from (rr_breaker resolved), bh_consumed = False\<rparr>"
    by (auto simp: breaker_allowed_def list_all2_conv_all_nth hold_for_def)
  have mem: "(i, Some h) \<in> set hs \<Longrightarrow> ((clock' i, bh_policy h), hold_key h, i = idx \<and> b) \<in> set (ticket_releases clock' hs idx b)"
    for h hs idx b
    by (induction hs) (auto simp: ticket_releases_def List.map_filter_simps split: option.splits)
  have "((clock' i, breaker_policy_from (rr_breaker resolved)), (bt_provider (?chain ! i), bt_model (?chain ! i)), False) \<in> set ?rels"
    using mem [of "the (?holds ! i)" "enumerate 0 ?holds" "length ?holds" False] i h
    by (simp add: in_set_enumerate_eq hold_key_def)
  from release_fold_at [OF dist this, of reg] show ?thesis by (simp add: reg' Let_def)
qed

definition demo_caller_400 :: "string ResilientCaller" where
  "demo_caller_400 = demo_caller\<lparr>rc_providers := (\<lambda>n. Some (if n = ''a''
     then demo_provider\<lparr>pv_complete := (\<lambda>_ _ _. Inl (Upstream 400 ''bad request''))\<rparr> else demo_provider))\<rparr>"

lemma demo_call_400:
  "retry_with_policy (\<lambda>_. Inl (Upstream 400 m)) (retry_policy_from retry_config_default) jitter
     = (\<lparr>ro_result = Inl (Upstream 400 m), ro_attempts = 1\<rparr>, [])"
  by (simp add: retry_with_policy_def retry_loop.simps retry_policy_from_def retry_config_default_def
      fallback_eligibility_with_overrides_def)

theorem failed_request_charges_all_witness:
  "\<exists>e reg'. complete_call (\<lambda>_. 9) demo_caller_400 (demo_ticket [''a'', ''b'']) (demo_request ''hi'') (demo_breakers 0 None)
       = Some (Inl e, reg')
     \<and> reg' (''b'', ''x'') = Some (fst (breaker_record (new_breaker ''b'' ''x'') False 9
         (breaker_policy_from breaker_config_default)))"
proof -
  have "\<exists>e. complete_inner demo_caller_400 (demo_ticket [''a'', ''b'']) (demo_request ''hi'') = Some (Inl e)"
    by (simp add: complete_inner_def demo_ticket_def breaker_allowed_def call_element_def demo_caller_400_def demo_caller_def
        demo_provider_def demo_target_def demo_resolved_def demo_call_400 fallback_eligibility_with_overrides_def
        retry_policy_from_def [of retry_config_default, THEN arg_cong, of retry_on]
        retry_config_default_def [THEN arg_cong, of rc_retry_on])
  then obtain e reg' where run: "complete_call (\<lambda>_. 9) demo_caller_400 (demo_ticket [''a'', ''b'']) (demo_request ''hi'')
      (demo_breakers 0 None) = Some (Inl e, reg')"
    by (auto simp: complete_call_def)
  have dist: "distinct (map (\<lambda>t. (bt_provider t, bt_model t)) (tk_filtered_chain (demo_ticket [''a'', ''b''])))"
    and allowed: "breaker_allowed (demo_ticket [''a'', ''b'']) 1"
    by (simp_all add: demo_ticket_def demo_target_def breaker_allowed_def)
  have "reg' (''b'', ''x'') = Some (fst (breaker_record (new_breaker ''b'' ''x'') False 9 (breaker_policy_from breaker_config_default)))"
    using failed_request_charges_all [OF demo_admit_two [of 0, unfolded demo_admit_def] run dist allowed]
    by (simp add: demo_ticket_def demo_target_def demo_breakers_def new_breaker_def demo_resolved_def)
  with run show ?thesis by blast
qed

end
