(* ===== verification/Handler_Error.thy ===== *)
theory Handler_Error
  imports Plugins Resilient_Caller
begin

text \<open>
  The errors a request can end with and the HTTP responses they become: \<open>HandlerError\<close> with its derived \<open>Display\<close>,
  the two envelope builders and \<open>IntoResponse\<close> of \<open>gateway/src/handlers/mod.rs\<close>, the bridges from the errors
  of the admission gate, the resilient caller and the plugins, and the status hints of \<open>gateway/src/pipeline.rs\<close>.

  A response is its status, its header entries and its JSON body; \<open>axum::Json\<close> sets the content type.
  An \<open>unreachable!\<close> is \<open>None\<close>. \<open>StatusCode::from_u16\<close> accepts the codes from 100 to 999.
\<close>

section \<open>Errors and their \<open>Display\<close>\<close>

datatype FrontendError = InvalidBody string | Unsupported string | FE_Encode string | FE_Decode string

datatype HandlerError =
    HE_Route RouteError
  | HE_Provider ProviderError
  | HE_Frontend FrontendError
  | HE_CapabilityMismatch FrontendKind string
  | HE_NoUpstreamSucceeded FrontendKind ProviderError nat
  | HE_TerminalUpstream FrontendKind ProviderError
  | HE_AllBreakersOpen FrontendKind nat
  | HE_RateLimited FrontendKind RateLimitDimension u32
  | HE_NoEligibleUpstream FrontendKind "Skip list"
  | HE_Unauthorized FrontendKind
  | HE_PluginFailed FrontendKind string string bool

fun debug_frontend_kind :: "FrontendKind \<Rightarrow> string" where
  "debug_frontend_kind AnthropicMessages = ''AnthropicMessages''"
| "debug_frontend_kind OpenAiChat = ''OpenAiChat''"
| "debug_frontend_kind OpenAiResponses = ''OpenAiResponses''"

fun debug_dimension :: "RateLimitDimension \<Rightarrow> string" where
  "debug_dimension PerKey = ''PerKey''"
| "debug_dimension PerRoute = ''PerRoute''"
| "debug_dimension PerUpstream = ''PerUpstream''"
| "debug_dimension PerIp = ''PerIp''"

fun display_route_error :: "RouteError \<Rightarrow> string" where
  "display_route_error (NoRoute fe model) = ''no route for frontend='' @ debug_frontend_kind fe @ '' model='' @ model"

fun display_provider_error :: "ProviderError \<Rightarrow> string" where
  "display_provider_error (UnknownProvider m) = ''unknown provider: '' @ m"
| "display_provider_error (Upstream status body) = ''upstream error (status='' @ show_nat status @ ''): '' @ body"
| "display_provider_error (Network m) = ''network error: '' @ m"
| "display_provider_error (PE_Decode m) = ''decode error: '' @ m"
| "display_provider_error (PE_Encode m) = ''encode error: '' @ m"
| "display_provider_error (CapabilityMismatch m) = ''capability mismatch: '' @ m"

fun display_frontend_error :: "FrontendError \<Rightarrow> string" where
  "display_frontend_error (InvalidBody m) = ''invalid request body: '' @ m"
| "display_frontend_error (Unsupported m) = ''unsupported feature: '' @ m"
| "display_frontend_error (FE_Encode m) = ''encoding failure: '' @ m"
| "display_frontend_error (FE_Decode m) = ''decoding failure: '' @ m"

fun display_handler_error :: "HandlerError \<Rightarrow> string" where
  "display_handler_error (HE_Route e) = ''route error: '' @ display_route_error e"
| "display_handler_error (HE_Provider e) = ''provider error: '' @ display_provider_error e"
| "display_handler_error (HE_Frontend e) = ''frontend error: '' @ display_frontend_error e"
| "display_handler_error (HE_CapabilityMismatch kind message) = ''capability mismatch: '' @ message"
| "display_handler_error (HE_NoUpstreamSucceeded kind last_error tried_count) =
     ''no upstream succeeded after trying '' @ show_nat tried_count @ '' options: '' @ display_provider_error last_error"
| "display_handler_error (HE_TerminalUpstream kind e) = ''terminal upstream error: '' @ display_provider_error e"
| "display_handler_error (HE_AllBreakersOpen kind tried_count) =
     ''all '' @ show_nat tried_count @ '' upstreams temporarily unavailable (circuit breakers open)''"
| "display_handler_error (HE_RateLimited kind dimension secs) =
     debug_dimension dimension @ '' rate limit exceeded; retry after '' @ show_nat (unat secs) @ ''s''"
| "display_handler_error (HE_NoEligibleUpstream kind filtered) =
     ''no eligible upstream after cost filter ('' @ show_nat (length filtered) @ '' candidates rejected)''"
| "display_handler_error (HE_Unauthorized kind) = ''authentication required''"
| "display_handler_error (HE_PluginFailed kind plugin hook aborted) =
     ''plugin `'' @ plugin @ ''` failed on hook `'' @ hook @ ''` (aborted='' @ show_bool aborted @ '')''"

section \<open>Where the errors come from\<close>

fun from_resilience_error :: "ResilienceError \<Rightarrow> FrontendKind \<Rightarrow> HandlerError" where
  "from_resilience_error (NoUpstreamSucceeded tried last_error) kind = HE_NoUpstreamSucceeded kind last_error (length tried)"
| "from_resilience_error (TerminalError e tried) kind = HE_TerminalUpstream kind e"
| "from_resilience_error (RE_AllBreakersOpen tried) kind = HE_AllBreakersOpen kind (length tried)"
| "from_resilience_error (RE_RateLimited dimension secs) kind = HE_RateLimited kind dimension secs"
| "from_resilience_error (RE_NoEligibleUpstream filtered) kind = HE_NoEligibleUpstream kind filtered"

fun handler_error_from_admission :: "AdmissionError \<Rightarrow> FrontendKind \<Rightarrow> HandlerError" where
  "handler_error_from_admission (AE_RateLimited dimension secs) kind = HE_RateLimited kind dimension secs"
| "handler_error_from_admission (AE_NoEligibleUpstream filtered) kind = HE_NoEligibleUpstream kind filtered"
| "handler_error_from_admission (AE_CapabilityMismatch message) kind = HE_CapabilityMismatch kind message"
| "handler_error_from_admission (AE_AllBreakersOpen tried) kind = HE_AllBreakersOpen kind (length tried)"
| "handler_error_from_admission (AE_Provider e) kind = HE_Provider e"

fun handler_error_from_plugin_error :: "PluginError \<Rightarrow> FrontendKind \<Rightarrow> HandlerError" where
  "handler_error_from_plugin_error (PE_Aborted plugin reason) kind = HE_PluginFailed kind plugin ''aborted'' True"
| "handler_error_from_plugin_error (PE_Timeout plugin hook ms) kind = HE_PluginFailed kind plugin hook False"
| "handler_error_from_plugin_error (PE_Failed plugin hook message) kind = HE_PluginFailed kind plugin hook False"
| "handler_error_from_plugin_error (PE_ProtectedFieldMutated plugin hook field) kind = HE_PluginFailed kind plugin hook False"

section \<open>Responses\<close>

record HttpResponse =
  hr_status :: nat
  hr_headers :: "(string \<times> string) list"
  hr_body :: json

definition json_response :: "nat \<Rightarrow> json \<Rightarrow> HttpResponse" where
  "json_response status body = \<lparr>hr_status = status, hr_headers = [(''content-type'', ''application/json'')], hr_body = body\<rparr>"

definition with_header :: "string \<Rightarrow> string \<Rightarrow> HttpResponse \<Rightarrow> HttpResponse" where
  "with_header name value r = r\<lparr>hr_headers := AList.update name value (hr_headers r)\<rparr>"

fun reason_as_str :: "FilterReason \<Rightarrow> string" where
  "reason_as_str ReasonTier = ''tier''"
| "reason_as_str ReasonLatency = ''latency''"
| "reason_as_str ReasonCap = ''cap''"
| "reason_as_str ReasonLatencyUnknown = ''latency_unknown''"

definition filtered_array :: "Skip list \<Rightarrow> json" where
  "filtered_array filtered = JArray (map (\<lambda>s. JObject [(''upstream'', JString (skip_upstream s)),
     (''reason'', JString (reason_as_str (skip_reason s)))]) filtered)"

text \<open>The \<open>{"message", "type", "code"}\<close> object of OpenAI and the \<open>{"type", "message"}\<close> object of Anthropic.\<close>

definition openai_error :: "string \<Rightarrow> string \<Rightarrow> string \<Rightarrow> string \<times> json" where
  "openai_error message type' code = (''error'', JObject [(''message'', JString message), (''type'', JString type'), (''code'', JString code)])"

definition anthropic_error :: "string \<Rightarrow> string \<Rightarrow> (string \<times> json) list" where
  "anthropic_error type' message =
     [(''type'', JString ''error''), (''error'', JObject [(''type'', JString type'), (''message'', JString message)])]"

fun openai_dimension :: "RateLimitDimension \<Rightarrow> string \<times> string" where
  "openai_dimension PerKey = (''rate_limited_per_key'', ''Per-API-key'')"
| "openai_dimension PerRoute = (''rate_limited_per_route'', ''Route'')"
| "openai_dimension PerUpstream = (''rate_limited_per_upstream'', ''Upstream'')"
| "openai_dimension PerIp = (''rate_limited_per_ip'', ''Per-IP'')"

definition openai_envelope_body :: "HandlerError \<Rightarrow> json option" where
  "openai_envelope_body e =
     (case e of
        HE_NoUpstreamSucceeded kind last_error tried_count \<Rightarrow>
          Some (JObject [openai_error (''All '' @ show_nat tried_count @ '' upstreams failed: '' @ display_provider_error last_error)
            ''service_unavailable_error'' ''no_upstream_available''])
      | HE_AllBreakersOpen kind tried_count \<Rightarrow>
          Some (JObject [openai_error (''All '' @ show_nat tried_count @ '' upstreams temporarily unavailable (circuit breakers open)'')
            ''service_unavailable_error'' ''all_breakers_open''])
      | HE_NoEligibleUpstream kind filtered \<Rightarrow>
          Some (JObject [openai_error (''No eligible upstream after cost filter ('' @ show_nat (length filtered)
              @ '' candidates rejected)'') ''service_unavailable_error'' ''no_eligible_upstream'',
            (''filtered'', filtered_array filtered)])
      | HE_RateLimited kind dimension secs \<Rightarrow>
          Some (JObject [openai_error (snd (openai_dimension dimension) @ '' rate limit exceeded; retry after ''
              @ show_nat (unat secs) @ ''s'') ''rate_limit_error'' (fst (openai_dimension dimension))])
      | _ \<Rightarrow> None)"

definition anthropic_envelope_body :: "HandlerError \<Rightarrow> json option" where
  "anthropic_envelope_body e =
     (case e of
        HE_NoUpstreamSucceeded kind last_error tried_count \<Rightarrow>
          Some (JObject (anthropic_error ''overloaded_error'' (display_handler_error e)))
      | HE_AllBreakersOpen kind tried_count \<Rightarrow> Some (JObject (anthropic_error ''overloaded_error'' (display_handler_error e)))
      | HE_NoEligibleUpstream kind filtered \<Rightarrow>
          Some (JObject (anthropic_error ''overloaded_error'' (display_handler_error e) @ [(''filtered'', filtered_array filtered)]))
      | HE_RateLimited kind dimension secs \<Rightarrow> Some (JObject (anthropic_error ''rate_limit_error'' (display_handler_error e)))
      | _ \<Rightarrow> None)"

definition status_from_u16 :: "nat \<Rightarrow> nat option" where
  "status_from_u16 n = (if 100 \<le> n \<and> n < 1000 then Some n else None)"

definition dialect_body :: "FrontendKind \<Rightarrow> 'a \<Rightarrow> 'a \<Rightarrow> 'a" where
  "dialect_body kind anthropic openai =
     (case kind of AnthropicMessages \<Rightarrow> anthropic | OpenAiChat \<Rightarrow> openai | OpenAiResponses \<Rightarrow> openai)"

text \<open>The flat status lookup at the end of \<open>into_response\<close>.\<close>

fun flat_status :: "HandlerError \<Rightarrow> nat option" where
  "flat_status (HE_Route (NoRoute fe model)) = Some 404"
| "flat_status (HE_Provider (Upstream status body)) = Some (unwrap_or (status_from_u16 status) 502)"
| "flat_status (HE_Provider (UnknownProvider m)) = Some 502"
| "flat_status (HE_Provider (Network m)) = Some 502"
| "flat_status (HE_Provider (CapabilityMismatch m)) = Some 400"
| "flat_status (HE_Frontend (InvalidBody m)) = Some 400"
| "flat_status (HE_Frontend (Unsupported m)) = Some 422"
| "flat_status (HE_TerminalUpstream kind (Upstream status body)) = Some (unwrap_or (status_from_u16 status) 502)"
| "flat_status (HE_TerminalUpstream kind e) = Some 502"
| "flat_status (HE_CapabilityMismatch kind message) = None"
| "flat_status (HE_Unauthorized kind) = None"
| "flat_status (HE_NoUpstreamSucceeded kind e n) = None"
| "flat_status (HE_AllBreakersOpen kind n) = None"
| "flat_status (HE_NoEligibleUpstream kind filtered) = None"
| "flat_status (HE_RateLimited kind dimension secs) = None"
| "flat_status _ = Some 500"

text \<open>The four resilience variants.\<close>

definition resilience_response :: "HandlerError \<Rightarrow> FrontendKind \<Rightarrow> HttpResponse option" where
  "resilience_response e kind =
     (case (case e of
              HE_NoUpstreamSucceeded k le n \<Rightarrow> Some 503
            | HE_AllBreakersOpen k n \<Rightarrow> Some 503
            | HE_NoEligibleUpstream k filtered \<Rightarrow> Some 503
            | HE_RateLimited k d secs \<Rightarrow> Some 429
            | _ \<Rightarrow> None) of
        None \<Rightarrow> None
      | Some status \<Rightarrow>
          map_option (\<lambda>body. case e of
              HE_RateLimited k d secs \<Rightarrow> with_header ''retry-after'' (show_nat (unat secs)) (json_response status body)
            | _ \<Rightarrow> json_response status body)
            (dialect_body kind (anthropic_envelope_body e) (openai_envelope_body e)))"

definition into_response :: "HandlerError \<Rightarrow> HttpResponse option" where
  "into_response e =
     (case e of
        HE_CapabilityMismatch kind message \<Rightarrow>
          Some (json_response 400 (dialect_body kind
            (JObject (anthropic_error ''invalid_request_error'' message))
            (JObject [openai_error message ''invalid_request_error'' ''capability_mismatch''])))
      | HE_Unauthorized kind \<Rightarrow>
          Some (with_header ''www-authenticate'' ''Bearer realm=\"agent-shim\"'' (json_response 401 (dialect_body kind
            (JObject (anthropic_error ''authentication_error'' ''Authentication required.''))
            (JObject [openai_error ''Authentication required.'' ''authentication_error'' ''unauthorized'']))))
      | HE_PluginFailed kind plugin hook aborted \<Rightarrow>
          Some (json_response (if aborted then 400 else 502) (dialect_body kind
            (JObject (anthropic_error (if aborted then ''invalid_request_error'' else ''api_error'') (display_handler_error e)))
            (JObject [openai_error (display_handler_error e) (if aborted then ''invalid_request_error'' else ''api_error'')
              (if aborted then ''plugin_aborted'' else ''plugin_failed'')])))
      | HE_NoUpstreamSucceeded kind last_error tried_count \<Rightarrow> resilience_response e kind
      | HE_AllBreakersOpen kind tried_count \<Rightarrow> resilience_response e kind
      | HE_NoEligibleUpstream kind filtered \<Rightarrow> resilience_response e kind
      | HE_RateLimited kind dimension secs \<Rightarrow> resilience_response e kind
      | _ \<Rightarrow> map_option (\<lambda>status. json_response status
               (JObject [(''error'', JObject [(''message'', JString (display_handler_error e))])])) (flat_status e))"

section \<open>Status hints\<close>

definition status_class_for :: "nat \<Rightarrow> string" where
  "status_class_for status =
     (if 200 \<le> status \<and> status \<le> 299 then ''2xx''
      else if 300 \<le> status \<and> status \<le> 399 then ''3xx''
      else if 400 \<le> status \<and> status \<le> 499 then ''4xx''
      else if 500 \<le> status \<and> status \<le> 599 then ''5xx''
      else ''other'')"

fun handler_error_status_hint :: "HandlerError \<Rightarrow> nat" where
  "handler_error_status_hint (HE_Route (NoRoute fe model)) = 404"
| "handler_error_status_hint (HE_Unauthorized kind) = 401"
| "handler_error_status_hint (HE_CapabilityMismatch kind message) = 400"
| "handler_error_status_hint (HE_Frontend (InvalidBody m)) = 400"
| "handler_error_status_hint (HE_Frontend (Unsupported m)) = 422"
| "handler_error_status_hint (HE_Frontend e) = 400"
| "handler_error_status_hint (HE_Provider (Upstream status body)) = status"
| "handler_error_status_hint (HE_Provider e) = 502"
| "handler_error_status_hint (HE_NoUpstreamSucceeded kind e n) = 503"
| "handler_error_status_hint (HE_AllBreakersOpen kind n) = 503"
| "handler_error_status_hint (HE_NoEligibleUpstream kind filtered) = 503"
| "handler_error_status_hint (HE_RateLimited kind dimension secs) = 429"
| "handler_error_status_hint (HE_TerminalUpstream kind (Upstream status body)) = status"
| "handler_error_status_hint (HE_TerminalUpstream kind e) = 502"
| "handler_error_status_hint (HE_PluginFailed kind plugin hook aborted) = (if aborted then 400 else 502)"

section \<open>What a client sees\<close>

text \<open>The upstream status an error passes through; the errors shaped for the client's dialect; and those whose hint is wrong.\<close>

definition upstream_status :: "HandlerError \<Rightarrow> nat option" where
  "upstream_status e = (case e of HE_Provider (Upstream s b) \<Rightarrow> Some s | HE_TerminalUpstream k (Upstream s b) \<Rightarrow> Some s | _ \<Rightarrow> None)"

definition error_dialect :: "HandlerError \<Rightarrow> FrontendKind option" where
  "error_dialect e =
     (case e of
        HE_CapabilityMismatch kind m \<Rightarrow> Some kind
      | HE_NoUpstreamSucceeded kind le n \<Rightarrow> Some kind
      | HE_AllBreakersOpen kind n \<Rightarrow> Some kind
      | HE_RateLimited kind d secs \<Rightarrow> Some kind
      | HE_NoEligibleUpstream kind filtered \<Rightarrow> Some kind
      | HE_Unauthorized kind \<Rightarrow> Some kind
      | HE_PluginFailed kind p h a \<Rightarrow> Some kind
      | _ \<Rightarrow> None)"

definition misjudged :: "HandlerError \<Rightarrow> bool" where
  "misjudged e \<longleftrightarrow>
     (case e of
        HE_Provider (PE_Decode m) \<Rightarrow> True
      | HE_Provider (PE_Encode m) \<Rightarrow> True
      | HE_Provider (CapabilityMismatch m) \<Rightarrow> True
      | HE_Frontend (FE_Encode m) \<Rightarrow> True
      | HE_Frontend (FE_Decode m) \<Rightarrow> True
      | _ \<Rightarrow> (case upstream_status e of None \<Rightarrow> False | Some s \<Rightarrow> (s < 100 \<or> s \<ge> 1000) \<and> s \<noteq> 502))"

definition error_field :: "HttpResponse \<Rightarrow> string \<Rightarrow> string option" where
  "error_field r k = Option.bind (jget (hr_body r) ''error'') (\<lambda>v. get_str v k)"

lemmas response_simps = into_response_def resilience_response_def anthropic_envelope_body_def openai_envelope_body_def
  json_response_def with_header_def dialect_body_def anthropic_error_def openai_error_def error_field_def get_str_def
  error_dialect_def upstream_status_def misjudged_def status_from_u16_def unwrap_or_def


end
