(* ===== verification/Model_Index.thy ===== *)
theory Model_Index
  imports Static_Routes "HOL-Library.List_Lexorder" "HOL-Library.Char_ord" "HOL-Library.Multiset"
begin

text \<open>
  The index of the models that the upstreams publish, \<open>router/src/model_index.rs\<close>, the resolver that
  combines it with the static routes, \<open>router/src/resolver.rs\<close>, and the catalog types of
  \<open>core/src/catalog.rs\<close>.

  \<open>lower\<close> is \<open>str::to_lowercase\<close>, the Unicode folding; what is used of it is that it folds ASCII
  strings letter by letter. A \<open>BTreeMap\<close> is the list of its entries in key order, a \<open>HashMap\<close> that is
  enumerated is the list of its entries in the order of that table's iteration. Strings compare
  byte-wise, as \<open>Ord\<close> on \<open>String\<close> does. Scores are exact reals where the code rounds to \<open>f64\<close>.
\<close>

section \<open>Data\<close>

record ModelSupports =
  ms_vision :: "bool option"
  ms_tool_calls :: "bool option"
  ms_streaming :: "bool option"
  ms_structured_outputs :: "bool option"
  ms_reasoning_effort :: "bool option"
  ms_reasoning_effort_values :: "string list option"

record ModelMetadata =
  mm_context_window_tokens :: "u32 option"
  mm_max_output_tokens :: "u32 option"
  mm_family :: "string option"
  mm_supports :: ModelSupports
  mm_supported_endpoints :: "string list option"
  mm_version :: "string option"
  mm_adaptive_thinking :: "bool option"
  mm_thinking_budget_min :: "u32 option"
  mm_thinking_budget_max :: "u32 option"

definition model_metadata_default :: ModelMetadata where
  "model_metadata_default = \<lparr>mm_context_window_tokens = None, mm_max_output_tokens = None, mm_family = None,
     mm_supports = \<lparr>ms_vision = None, ms_tool_calls = None, ms_streaming = None, ms_structured_outputs = None,
       ms_reasoning_effort = None, ms_reasoning_effort_values = None\<rparr>,
     mm_supported_endpoints = None, mm_version = None, mm_adaptive_thinking = None,
     mm_thinking_budget_min = None, mm_thinking_budget_max = None\<rparr>"

record CatalogRef =
  cu_provider :: string
  cu_model :: string

record ModelRecord =
  mr_id :: string
  mr_frontends :: "FrontendKind list"
  mr_upstream_provider :: string
  mr_upstream_model :: string
  mr_upstreams_chain :: "CatalogRef list"
  mr_metadata :: "ModelMetadata option"
  mr_long_context_variant :: "string option"

record ModelEntry =
  me_original :: string
  me_normalized :: string
  me_tokens :: "string list"

type_synonym model_table = "(string \<times> ModelMetadata) list"

record ModelIndex =
  mi_metadata :: "(string \<times> model_table) list"
  mi_fuzzy :: "string \<rightharpoonup> ModelEntry list"

section \<open>Scoring\<close>

text \<open>\<open>str::split\<close> at every character of a set.\<close>

fun split_where :: "(char \<Rightarrow> bool) \<Rightarrow> string \<Rightarrow> string list" where
  "split_where p [] = [[]]"
| "split_where p (c # s) =
     (if p c then [] # split_where p s
      else case split_where p s of [] \<Rightarrow> [[c]] | t # ts \<Rightarrow> (c # t) # ts)"

definition tokenize :: "(string \<Rightarrow> string) \<Rightarrow> string \<Rightarrow> string list" where
  "tokenize lower name = filter (\<lambda>s. s \<noteq> []) (split_where (\<lambda>c. c \<in> {CHR ''-'', CHR ''_'', CHR ''.'', CHR ''/''}) (lower name))"

definition position_weight :: "nat \<Rightarrow> f64" where
  "position_weight i = 1 / (1 + real i)"

definition score :: "string list \<Rightarrow> string list \<Rightarrow> string \<Rightarrow> string \<Rightarrow> f64" where
  "score requested_tokens candidate_tokens req_norm cand_norm =
     (if req_norm = cand_norm then 1
      else if starts_with cand_norm req_norm
      then 8 / 10 + 2 / 10 * (real (length req_norm) / real (length cand_norm))
      else if starts_with req_norm cand_norm
      then 8 / 10 + 2 / 10 * (real (length cand_norm) / real (length req_norm))
      else if max (length requested_tokens) (length candidate_tokens) = 0 then 0
      else sum_list (map (\<lambda>(i, tok). if tok \<in> set candidate_tokens then position_weight i else 0)
             (enumerate 0 requested_tokens))
           / (sum_list (map position_weight [0..<length requested_tokens])
              + sum_list (map position_weight [length requested_tokens..<length candidate_tokens])))"

definition threshold :: f64 where
  "threshold = 1 / 2"

section \<open>The index\<close>

definition model_entry :: "(string \<Rightarrow> string) \<Rightarrow> string \<Rightarrow> ModelEntry" where
  "model_entry lower name = \<lparr>me_original = name, me_normalized = lower name, me_tokens = tokenize lower name\<rparr>"

definition with_metadata :: "(string \<Rightarrow> string) \<Rightarrow> (string \<times> model_table) list \<Rightarrow> ModelIndex" where
  "with_metadata lower providers = \<lparr>mi_metadata = providers,
     mi_fuzzy = map_of (map (\<lambda>(p, models). (p, map (\<lambda>(name, _). model_entry lower name) models)) providers)\<rparr>"

definition from_ids :: "(string \<Rightarrow> string) \<Rightarrow> (string \<times> string list) list \<Rightarrow> ModelIndex" where
  "from_ids lower providers =
     with_metadata lower (map (\<lambda>(p, ids). (p, map (\<lambda>id. (id, model_metadata_default)) ids)) providers)"

definition index_empty :: ModelIndex where
  "index_empty = \<lparr>mi_metadata = [], mi_fuzzy = Map.empty\<rparr>"

text \<open>The body of the scan: the candidate replaces the best one so far when it scores higher, or equal
  and is shorter, or equally long and smaller.\<close>

definition scan_entry :: "(ModelEntry \<Rightarrow> f64) \<Rightarrow> ModelEntry \<Rightarrow> f64 \<times> ModelEntry option \<Rightarrow> f64 \<times> ModelEntry option" where
  "scan_entry sc entry st =
     (let s = sc entry;
          dominated = (case snd st of
              None \<Rightarrow> s \<ge> threshold
            | Some b \<Rightarrow> s > fst st \<or> (s = fst st \<and>
                (length (me_original entry) < length (me_original b)
                 \<or> (length (me_original entry) = length (me_original b) \<and> me_original entry < me_original b))))
      in if dominated then (s, Some entry) else st)"

definition index_resolve :: "(string \<Rightarrow> string) \<Rightarrow> ModelIndex \<Rightarrow> string \<Rightarrow> string \<Rightarrow> string option" where
  "index_resolve lower idx provider requested =
     (case mi_fuzzy idx provider of
        None \<Rightarrow> None
      | Some entries \<Rightarrow>
          (case find (\<lambda>e. eq_ignore_ascii_case (me_normalized e) requested) entries of
             Some e \<Rightarrow> Some (me_original e)
           | None \<Rightarrow>
               (let req_norm = lower requested; req_tokens = tokenize lower requested;
                    sc = (\<lambda>e. score req_tokens (me_tokens e) req_norm (me_normalized e))
                in map_option me_original (snd (fold (scan_entry sc) entries (threshold - 1 / 2 ^ 52, None))))))"

definition index_metadata :: "ModelIndex \<Rightarrow> string \<Rightarrow> string \<Rightarrow> ModelMetadata option" where
  "index_metadata idx provider model = Option.bind (map_of (mi_metadata idx) provider) (\<lambda>m. map_of m model)"

definition provider_models :: "ModelIndex \<Rightarrow> string \<Rightarrow> model_table" where
  "provider_models idx provider = (case map_of (mi_metadata idx) provider of None \<Rightarrow> [] | Some m \<Rightarrow> m)"

definition index_providers :: "ModelIndex \<Rightarrow> string list" where
  "index_providers idx = map fst (mi_metadata idx)"

section \<open>The resolver\<close>

record ModelResolver =
  rs_static_router :: StaticRouter
  rs_model_index :: ModelIndex

definition upgrade_target :: "(string \<Rightarrow> string) \<Rightarrow> ModelIndex \<Rightarrow> BackendTarget \<Rightarrow> BackendTarget" where
  "upgrade_target lower idx target =
     (case index_resolve lower idx (bt_provider target) (bt_model target) of
        None \<Rightarrow> target
      | Some canonical \<Rightarrow> if canonical \<noteq> bt_model target then target\<lparr>bt_model := canonical\<rparr> else target)"

definition apply_fuzzy_upgrades :: "(string \<Rightarrow> string) \<Rightarrow> ModelIndex \<Rightarrow> BackendTarget list \<Rightarrow> BackendTarget list" where
  "apply_fuzzy_upgrades lower idx chain = map (upgrade_target lower idx) chain"

definition resolver_resolve_route :: "(string \<Rightarrow> string) \<Rightarrow> ModelResolver \<Rightarrow> FrontendKind \<Rightarrow> string
    \<Rightarrow> RouteError + ResolvedRoute" where
  "resolver_resolve_route lower rs fe model_alias =
     (case resolve_route (rs_static_router rs) fe model_alias of
        Inl e \<Rightarrow> Inl e
      | Inr resolved \<Rightarrow> Inr (resolved\<lparr>rr_chain := apply_fuzzy_upgrades lower (rs_model_index rs) (rr_chain resolved)\<rparr>))"

definition resolver_resolve :: "(string \<Rightarrow> string) \<Rightarrow> ModelResolver \<Rightarrow> FrontendKind \<Rightarrow> string
    \<Rightarrow> RouteError + BackendTarget list" where
  "resolver_resolve lower rs fe model_alias = map_sum id rr_chain (resolver_resolve_route lower rs fe model_alias)"

section \<open>The catalog\<close>

text \<open>\<open>BTreeMap::entry(k).or_insert_with(new)\<close> followed by an update of the entry.\<close>

fun btree_entry :: "'k::linorder \<Rightarrow> 'v \<Rightarrow> ('v \<Rightarrow> 'v) \<Rightarrow> ('k \<times> 'v) list \<Rightarrow> ('k \<times> 'v) list" where
  "btree_entry k new f [] = [(k, f new)]"
| "btree_entry k new f ((a, b) # m) =
     (if k < a then (k, f new) # (a, b) # m
      else if k = a then (k, f b) # m
      else (a, b) # btree_entry k new f m)"

definition alias_record :: "ModelIndex \<Rightarrow> string \<Rightarrow> BackendTarget \<Rightarrow> BackendTarget list \<Rightarrow> ModelRecord" where
  "alias_record idx model_alias head chain = \<lparr>mr_id = model_alias, mr_frontends = [], mr_upstream_provider = bt_provider head,
     mr_upstream_model = bt_model head,
     mr_upstreams_chain = map (\<lambda>t. \<lparr>cu_provider = bt_provider t, cu_model = bt_model t\<rparr>) chain,
     mr_metadata = index_metadata idx (bt_provider head) (bt_model head), mr_long_context_variant = None\<rparr>"

definition add_frontend :: "FrontendKind \<Rightarrow> ModelRecord \<Rightarrow> ModelRecord" where
  "add_frontend fe r = (if fe \<in> set (mr_frontends r) then r else r\<lparr>mr_frontends := mr_frontends r @ [fe]\<rparr>)"

definition catalog_route :: "(string \<Rightarrow> string) \<Rightarrow> ModelResolver \<Rightarrow> FrontendKind \<times> string
    \<Rightarrow> (string \<times> ModelRecord) list \<times> string set \<Rightarrow> (string \<times> ModelRecord) list \<times> string set" where
  "catalog_route lower rs route st =
     (let (fe, model_alias) = route in
      if model_alias = ''*'' then st
      else case resolver_resolve_route lower rs fe model_alias of
        Inl e \<Rightarrow> st
      | Inr resolved \<Rightarrow>
          (case rr_chain resolved of
             [] \<Rightarrow> st
           | head # _ \<Rightarrow>
               (btree_entry model_alias (alias_record (rs_model_index rs) model_alias head (rr_chain resolved)) (add_frontend fe) (fst st),
                insert model_alias (snd st))))"

definition upstream_record :: "string \<Rightarrow> string \<times> ModelMetadata \<Rightarrow> ModelRecord" where
  "upstream_record provider m = \<lparr>mr_id = fst m, mr_frontends = [], mr_upstream_provider = provider,
     mr_upstream_model = fst m, mr_upstreams_chain = [\<lparr>cu_provider = provider, cu_model = fst m\<rparr>],
     mr_metadata = Some (snd m), mr_long_context_variant = None\<rparr>"

definition catalog_model :: "string \<Rightarrow> string \<times> ModelMetadata \<Rightarrow> ModelRecord list \<times> string set
    \<Rightarrow> ModelRecord list \<times> string set" where
  "catalog_model provider m st =
     (if fst m \<in> snd st then st
      else (fst st @ [upstream_record provider m], insert (fst m) (snd st)))"

definition record_family :: "ModelRecord \<Rightarrow> string option" where
  "record_family r = Option.bind (mr_metadata r) mm_family"

definition record_context :: "ModelRecord \<Rightarrow> u32 option" where
  "record_context r = Option.bind (mr_metadata r) mm_context_window_tokens"

definition sibling_step :: "ModelRecord \<Rightarrow> string \<Rightarrow> ModelRecord \<Rightarrow> ModelRecord option \<Rightarrow> ModelRecord option" where
  "sibling_step r fam other variant =
     (if mr_id other = mr_id r then variant
      else if record_family other = Some fam
           \<and> (case record_context other of None \<Rightarrow> False | Some c \<Rightarrow> c > unwrap_or (record_context r) 0)
      then (let other_ctx = unwrap_or (record_context other) 0;
                cur_ctx = unwrap_or (Option.bind variant record_context) 0
            in if other_ctx > cur_ctx then Some other else variant)
      else variant)"

definition with_variant :: "ModelRecord list \<Rightarrow> ModelRecord \<Rightarrow> ModelRecord" where
  "with_variant records r = r\<lparr>mr_long_context_variant :=
     (case record_family r of
        None \<Rightarrow> None
      | Some fam \<Rightarrow> map_option mr_id (fold (sibling_step r fam) records None))\<rparr>"

text \<open>\<open>routes\<close> is \<open>list_routes\<close> in the order in which the hash table yields it.\<close>

definition list_catalog :: "(string \<Rightarrow> string) \<Rightarrow> (FrontendKind \<times> string) list \<Rightarrow> ModelResolver \<Rightarrow> ModelRecord list" where
  "list_catalog lower routes rs =
     (let (by_alias, taken) = fold (catalog_route lower rs) routes ([], {});
          idx = rs_model_index rs;
          records = fst (fold (\<lambda>provider st. fold (catalog_model provider) (provider_models idx provider) st)
            (sort (index_providers idx)) (map snd by_alias, taken))
      in sort_key mr_id (map (with_variant records) records))"

section \<open>What fuzzy matching finds\<close>

text \<open>The score of a published name for a requested one, and the preference between two published names.\<close>

definition name_score :: "(string \<Rightarrow> string) \<Rightarrow> string \<Rightarrow> string \<Rightarrow> f64" where
  "name_score lower requested name =
     score (tokenize lower requested) (tokenize lower name) (lower requested) (lower name)"

definition preferred :: "(string \<Rightarrow> f64) \<Rightarrow> string \<Rightarrow> string \<Rightarrow> bool" where
  "preferred sc a b \<longleftrightarrow> sc a > sc b \<or> (sc a = sc b \<and>
     (length a < length b \<or> (length a = length b \<and> a < b)))"

lemma preferred_trans: "preferred sc a b \<Longrightarrow> preferred sc b c \<Longrightarrow> preferred sc a c"
  by (auto simp: preferred_def)

lemma preferred_asym: "preferred sc a b \<Longrightarrow> \<not> preferred sc b a"
  by (auto simp: preferred_def)

definition best_so_far :: "(string \<Rightarrow> f64) \<Rightarrow> string set \<Rightarrow> f64 \<times> ModelEntry option \<Rightarrow> bool" where
  "best_so_far sc names st \<longleftrightarrow>
     (case snd st of
        None \<Rightarrow> \<forall>n \<in> names. sc n < threshold
      | Some b \<Rightarrow> fst st = sc (me_original b) \<and> me_original b \<in> names \<and> sc (me_original b) \<ge> threshold
          \<and> (\<forall>n \<in> names. \<not> preferred sc n (me_original b)))"

lemma scan_entry_best:
  assumes "best_so_far sc names st" "\<And>e. es e = sc (me_original e)"
  shows "best_so_far sc (insert (me_original e) names) (scan_entry es e st)"
proof (cases "snd st")
  case None
  then show ?thesis
    using assms by (auto simp: best_so_far_def scan_entry_def Let_def preferred_def)
next
  case (Some b)
  let ?n = "me_original e" and ?b = "me_original b"
  have dom: "scan_entry es e st = (if preferred sc ?n ?b then (sc ?n, Some e) else st)"
    using assms Some by (auto simp: scan_entry_def best_so_far_def preferred_def Let_def)
  have b: "fst st = sc ?b" "?b \<in> names" "sc ?b \<ge> threshold" "\<forall>n \<in> names. \<not> preferred sc n ?b"
    using assms(1) Some by (simp_all add: best_so_far_def)
  show ?thesis
  proof (cases "preferred sc ?n ?b")
    case True
    then have "sc ?n \<ge> threshold" using b(3) by (auto simp: preferred_def)
    moreover have "\<not> preferred sc n ?n" if "n \<in> insert ?n names" for n
      using that b(4) True preferred_trans [of sc n ?n ?b] preferred_asym [of sc n ?n] by blast
    ultimately show ?thesis using True by (simp add: dom best_so_far_def)
  next
    case False
    with b Some show ?thesis by (simp add: dom best_so_far_def)
  qed
qed

lemma scan_best:
  assumes "\<And>e. es e = sc (me_original e)"
  shows "best_so_far sc names st \<Longrightarrow> best_so_far sc (names \<union> me_original ` set entries) (fold (scan_entry es) entries st)"
proof (induction entries arbitrary: names st)
  case (Cons e entries)
  from Cons.IH [OF scan_entry_best [OF Cons.prems assms]] show ?case by simp
qed simp

text \<open>Every published name is indexed under its own entry.\<close>

lemma model_entry_sel [simp]:
  "me_original (model_entry lower n) = n" "me_normalized (model_entry lower n) = lower n"
  "me_tokens (model_entry lower n) = tokenize lower n"
  by (simp_all add: model_entry_def)

lemma fuzzy_entries:
  "mi_fuzzy (with_metadata lower providers) p
     = map_option (map (\<lambda>(name, _). model_entry lower name)) (map_of providers p)"
  by (induction providers) (auto simp: with_metadata_def split: if_splits)

lemma find_model_entry:
  "find P (map (\<lambda>(name, _). model_entry lower name) models)
     = map_option (model_entry lower) (find (\<lambda>name. P (model_entry lower name)) (map fst models))"
  by (induction models) auto

lemma scan_model_entries:
  fixes models :: model_table
  shows "best_so_far (name_score lower requested) (fst ` set models)
     (fold (scan_entry (\<lambda>e. score (tokenize lower requested) (me_tokens e) (lower requested) (me_normalized e)))
        (map (\<lambda>(name, _). model_entry lower name) models) (x, None))"
proof -
  let ?es = "\<lambda>e. score (tokenize lower requested) (me_tokens e) (lower requested) (me_normalized e)"
  let ?sc = "name_score lower requested"
  have same: "fold (scan_entry ?es) (map (\<lambda>(name, _). model_entry lower name) ms) st
      = fold (scan_entry (\<lambda>e. ?sc (me_original e))) (map (\<lambda>(name, _). model_entry lower name) ms) st"
    for ms :: model_table and st
  proof (induction ms arbitrary: st)
    case (Cons m ms)
    have "scan_entry ?es (model_entry lower (fst m)) st = scan_entry (\<lambda>e. ?sc (me_original e)) (model_entry lower (fst m)) st"
      by (simp add: scan_entry_def name_score_def)
    with Cons show ?case by (simp add: case_prod_unfold)
  qed simp
  have "best_so_far ?sc {} (x, None)" by (simp add: best_so_far_def)
  from scan_best [where es = "\<lambda>e. ?sc (me_original e)", OF refl this, of "map (\<lambda>(name, _). model_entry lower name) models"]
  show ?thesis by (simp only: same) (simp add: image_image case_prod_unfold)
qed

lemma index_resolve_cases:
  assumes "map_of providers p = Some models"
  shows "index_resolve lower (with_metadata lower providers) p requested =
    (case find (\<lambda>name. eq_ignore_ascii_case (lower name) requested) (map fst models) of
       Some name \<Rightarrow> Some name
     | None \<Rightarrow> map_option me_original (snd (fold (scan_entry
         (\<lambda>e. score (tokenize lower requested) (me_tokens e) (lower requested) (me_normalized e)))
         (map (\<lambda>(name, _). model_entry lower name) models) (threshold - 1 / 2 ^ 52, None))))"
  using assms
  by (simp add: index_resolve_def fuzzy_entries find_model_entry Let_def option.case_eq_if option.map_sel)

lemma index_resolve_slow:
  assumes "map_of providers p = Some models" "\<forall>name \<in> fst ` set models. \<not> eq_ignore_ascii_case (lower name) requested"
  shows "case index_resolve lower (with_metadata lower providers) p requested of
      None \<Rightarrow> \<forall>n \<in> fst ` set models. name_score lower requested n < threshold
    | Some m \<Rightarrow> m \<in> fst ` set models \<and> name_score lower requested m \<ge> threshold
        \<and> (\<forall>n \<in> fst ` set models. \<not> preferred (name_score lower requested) n m)"
proof -
  have "find (\<lambda>name. eq_ignore_ascii_case (lower name) requested) (map fst models) = None"
    using assms(2) by (auto simp: find_None_iff)
  then show ?thesis
    using scan_model_entries [of lower requested models "threshold - 1 / 2 ^ 52"]
    by (simp add: index_resolve_cases [OF assms(1)] best_so_far_def split: option.splits)
qed

text \<open>What a requested model becomes. On an upstream that publishes \<open>models\<close>, a published name that
  equals the request up to ASCII case is returned (the first one in byte order); otherwise
  the result is a published name that scores at least one half and to which no other is
  preferred (higher score, then shorter, then smaller); and nothing is returned only when
  no published name scores one half. An upstream without a catalog never rewrites the model.\<close>

theorem index_resolve_best:
  "(map_of providers p = None \<longrightarrow> index_resolve lower (with_metadata lower providers) p requested = None)
   \<and> (\<forall>models. map_of providers p = Some models \<longrightarrow>
       (case index_resolve lower (with_metadata lower providers) p requested of
          None \<Rightarrow> \<forall>n \<in> fst ` set models. \<not> eq_ignore_ascii_case (lower n) requested \<and> name_score lower requested n < threshold
        | Some m \<Rightarrow> m \<in> fst ` set models
            \<and> (if \<exists>n \<in> fst ` set models. eq_ignore_ascii_case (lower n) requested
               then find (\<lambda>n. eq_ignore_ascii_case (lower n) requested) (map fst models) = Some m
               else name_score lower requested m \<ge> threshold
                 \<and> (\<forall>n \<in> fst ` set models. n \<noteq> m \<longrightarrow> preferred (name_score lower requested) m n))))"
proof (intro conjI allI impI)
  assume "map_of providers p = None"
  then show "index_resolve lower (with_metadata lower providers) p requested = None"
    by (simp add: index_resolve_def fuzzy_entries)
next
  fix models
  assume models: "map_of providers p = Some models"
  have linear: "n = m \<or> preferred sc m n" if "\<not> preferred sc n m" for sc n m
    using that by (auto simp: preferred_def)
  show "case index_resolve lower (with_metadata lower providers) p requested of
          None \<Rightarrow> \<forall>n \<in> fst ` set models. \<not> eq_ignore_ascii_case (lower n) requested \<and> name_score lower requested n < threshold
        | Some m \<Rightarrow> m \<in> fst ` set models
            \<and> (if \<exists>n \<in> fst ` set models. eq_ignore_ascii_case (lower n) requested
               then find (\<lambda>n. eq_ignore_ascii_case (lower n) requested) (map fst models) = Some m
               else name_score lower requested m \<ge> threshold
                 \<and> (\<forall>n \<in> fst ` set models. n \<noteq> m \<longrightarrow> preferred (name_score lower requested) m n))"
  proof (cases "\<exists>n \<in> fst ` set models. eq_ignore_ascii_case (lower n) requested")
    case True
    then have "find (\<lambda>n. eq_ignore_ascii_case (lower n) requested) (map fst models) \<noteq> None"
      by (auto simp: find_None_iff)
    then obtain m where "find (\<lambda>n. eq_ignore_ascii_case (lower n) requested) (map fst models) = Some m" by blast
    moreover from this have "m \<in> fst ` set models" by (auto simp: find_Some_iff)
    ultimately show ?thesis using True by (simp add: index_resolve_cases [OF models])
  next
    case False
    with index_resolve_slow [OF models, of lower requested] linear show ?thesis
      by (fastforce split: option.splits)
  qed
qed

definition demo_models :: "string list \<Rightarrow> model_table" where
  "demo_models ids = map (\<lambda>i. (i, model_metadata_default)) ids"

theorem index_resolve_best_witness:
  "index_resolve to_ascii_lowercase (with_metadata to_ascii_lowercase [(''up'', demo_models [''gpt-4o'', ''gpt-4o-mini''])]) ''up'' ''GPT-4''
     = Some ''gpt-4o''
   \<and> preferred (name_score to_ascii_lowercase ''GPT-4'') ''gpt-4o'' ''gpt-4o-mini''"
proof -
  let ?models = "demo_models [''gpt-4o'', ''gpt-4o-mini'']"
  let ?r = "index_resolve to_ascii_lowercase (with_metadata to_ascii_lowercase [(''up'', ?models)]) ''up'' ''GPT-4''"
  have pub: "fst ` set ?models = {''gpt-4o'', ''gpt-4o-mini''}" by (simp add: demo_models_def)
  have low: "to_ascii_lowercase ''GPT-4'' = ''gpt-4''" "to_ascii_lowercase ''gpt-4o'' = ''gpt-4o''"
    "to_ascii_lowercase ''gpt-4o-mini'' = ''gpt-4o-mini''" by code_simp+
  have no: "\<not> (\<exists>n \<in> fst ` set ?models. eq_ignore_ascii_case (to_ascii_lowercase n) ''GPT-4'')"
    by (simp add: pub eq_ignore_ascii_case_def low)
  have sc: "name_score to_ascii_lowercase ''GPT-4'' ''gpt-4o'' = 29 / 30" "name_score to_ascii_lowercase ''GPT-4'' ''gpt-4o-mini'' = 49 / 55"
    by (simp_all add: name_score_def score_def starts_with_def low)
  have "?r = Some ''gpt-4o''"
    using index_resolve_best [of "[(''up'', ?models)]" "''up''" to_ascii_lowercase "''GPT-4''"] no sc
    by (auto simp: pub threshold_def preferred_def split: option.splits)
  then show ?thesis by (simp add: preferred_def sc)
qed

section \<open>Upgraded chains\<close>

definition ascii_only :: "string \<Rightarrow> bool" where
  "ascii_only s \<longleftrightarrow> (\<forall>c \<in> set s. (of_char c :: nat) < 128)"

definition folds_ascii :: "(string \<Rightarrow> string) \<Rightarrow> bool" where
  "folds_ascii lower \<longleftrightarrow> (\<forall>s. ascii_only s \<longrightarrow> lower s = to_ascii_lowercase s)"

text \<open>The catalog of an upstream as a \<open>BTreeMap\<close> of ASCII ids.\<close>

definition published_table :: "model_table \<Rightarrow> bool" where
  "published_table models \<longleftrightarrow> sorted_wrt (<) (map fst models) \<and> (\<forall>n \<in> fst ` set models. ascii_only n)"

lemma find_sorted_first:
  "sorted_wrt (<) xs \<Longrightarrow> find P xs = Some x \<Longrightarrow> y \<in> set xs \<Longrightarrow> P y \<Longrightarrow> x \<le> (y :: 'a :: linorder)"
  by (induction xs) (auto split: if_splits intro: less_imp_le)

lemma index_resolve_idem:
  assumes "folds_ascii lower" "list_all (published_table \<circ> snd) providers"
    and "index_resolve lower (with_metadata lower providers) p requested = Some m"
  shows "index_resolve lower (with_metadata lower providers) p m = Some m"
proof -
  obtain models where models: "map_of providers p = Some models"
    using assms(3) by (cases "map_of providers p") (auto simp: index_resolve_def fuzzy_entries)
  then have tab: "sorted_wrt (<) (map fst models)" "\<And>n. n \<in> fst ` set models \<Longrightarrow> lower n = to_ascii_lowercase n"
    using assms(1,2) map_of_SomeD [OF models]
    by (fastforce simp: list_all_iff published_table_def folds_ascii_def)+
  have same: "eq_ignore_ascii_case (lower n) r \<longleftrightarrow> to_ascii_lowercase n = to_ascii_lowercase r" if "n \<in> fst ` set models" for n r
    using tab(2) [OF that] by (simp add: eq_ignore_ascii_case_def)
  have fast: "find (\<lambda>n. eq_ignore_ascii_case (lower n) requested) (map fst models) = Some m"
    if "\<exists>n \<in> fst ` set models. eq_ignore_ascii_case (lower n) requested"
  proof -
    have "find (\<lambda>n. eq_ignore_ascii_case (lower n) requested) (map fst models) \<noteq> None"
      using that by (auto simp: find_None_iff)
    then show ?thesis using assms(3) by (auto simp: index_resolve_cases [OF models])
  qed
  have slow: "m \<in> fst ` set models \<and> (\<forall>n \<in> fst ` set models. \<not> preferred (name_score lower requested) n m)"
    if "\<not> (\<exists>n \<in> fst ` set models. eq_ignore_ascii_case (lower n) requested)"
    using index_resolve_slow [OF models, of lower requested] that assms(3) by simp
  have m: "m \<in> fst ` set models"
    using fast slow by (cases "\<exists>n \<in> fst ` set models. eq_ignore_ascii_case (lower n) requested") (auto simp: find_Some_iff)
  have "find (\<lambda>n. eq_ignore_ascii_case (lower n) m) (map fst models) \<noteq> None"
    using m same [OF m, of m] by (auto simp: find_None_iff)
  then obtain m' where m': "find (\<lambda>n. eq_ignore_ascii_case (lower n) m) (map fst models) = Some m'" by blast
  then have pub: "m' \<in> fst ` set models" "to_ascii_lowercase m' = to_ascii_lowercase m"
    using same by (auto simp: find_Some_iff)
  have first: "m' \<le> m" using find_sorted_first [OF tab(1) m', of m] m same [OF m] by simp
  have "m' = m"
  proof (cases "\<exists>n \<in> fst ` set models. eq_ignore_ascii_case (lower n) requested")
    case True
    note req = fast [OF True]
    then have "eq_ignore_ascii_case (lower m) requested" by (auto simp: find_Some_iff)
    then have "eq_ignore_ascii_case (lower m') requested" using same [OF m] same [OF pub(1)] pub(2) by simp
    from find_sorted_first [OF tab(1) req _ this] pub(1) first show ?thesis by simp
  next
    case False
    from slow [OF False] pub(1) have "\<not> preferred (name_score lower requested) m' m" by blast
    moreover have "lower m' = lower m" using tab(2) m pub by simp
    moreover have "length m' = length m" using arg_cong [OF pub(2), of length] by (simp add: to_ascii_lowercase_def)
    ultimately show ?thesis using first by (auto simp: preferred_def name_score_def tokenize_def)
  qed
  with m' show ?thesis by (simp add: index_resolve_cases [OF models])
qed

lemma upgrade_target_idem:
  "folds_ascii lower \<Longrightarrow> list_all (published_table \<circ> snd) providers \<Longrightarrow>
     upgrade_target lower (with_metadata lower providers) (upgrade_target lower (with_metadata lower providers) t)
       = upgrade_target lower (with_metadata lower providers) t"
  using index_resolve_idem [of lower providers "bt_provider t" "bt_model t"]
  by (auto simp: upgrade_target_def split: option.splits)

lemma index_resolve_published:
  "index_resolve lower (with_metadata lower providers) p r = Some m \<Longrightarrow>
     m \<in> fst ` set (provider_models (with_metadata lower providers) p)"
proof -
  assume r: "index_resolve lower (with_metadata lower providers) p r = Some m"
  then obtain models where models: "map_of providers p = Some models"
    by (cases "map_of providers p") (auto simp: index_resolve_def fuzzy_entries)
  have "m \<in> fst ` set models"
    using r index_resolve_slow [OF models, of lower r] index_resolve_cases [OF models, of lower r]
    by (cases "find (\<lambda>n. eq_ignore_ascii_case (lower n) r) (map fst models)") (auto simp: find_Some_iff find_None_iff)
  with models show ?thesis by (simp add: provider_models_def with_metadata_def)
qed

text \<open>Upgrading a resolved chain. For every catalog, the resolver returns the static route with each
  target's provider and policy untouched and its model either unchanged or one that this very
  provider publishes; no fallback is added, dropped or reordered; and upgrading is idempotent: what the
  resolver returned resolves to itself.\<close>

theorem resolver_upgrades:
  assumes "folds_ascii lower" and "list_all (published_table \<circ> snd) providers"
    and "rs_model_index rs = with_metadata lower providers"
    and "resolver_resolve_route lower rs fe model_alias = Inr route'"
  shows "\<exists>route. resolve_route (rs_static_router rs) fe model_alias = Inr route
    \<and> route' = route\<lparr>rr_chain := rr_chain route'\<rparr>
    \<and> list_all2 (\<lambda>t t'. t' = t\<lparr>bt_model := bt_model t'\<rparr>
        \<and> (bt_model t' = bt_model t \<or> bt_model t' \<in> fst ` set (provider_models (rs_model_index rs) (bt_provider t))))
        (rr_chain route) (rr_chain route')
    \<and> apply_fuzzy_upgrades lower (rs_model_index rs) (rr_chain route') = rr_chain route'"
proof -
  obtain route where route: "resolve_route (rs_static_router rs) fe model_alias = Inr route"
    "route' = route\<lparr>rr_chain := apply_fuzzy_upgrades lower (rs_model_index rs) (rr_chain route)\<rparr>"
    using assms(4) by (auto simp: resolver_resolve_route_def split: sum.splits)
  have "upgrade_target lower (rs_model_index rs) t = t\<lparr>bt_model := bt_model (upgrade_target lower (rs_model_index rs) t)\<rparr>
      \<and> (bt_model (upgrade_target lower (rs_model_index rs) t) = bt_model t
         \<or> bt_model (upgrade_target lower (rs_model_index rs) t) \<in> fst ` set (provider_models (rs_model_index rs) (bt_provider t)))" for t
    using index_resolve_published [of lower providers "bt_provider t" "bt_model t"]
    by (auto simp: upgrade_target_def assms(3) split: option.splits)
  then show ?thesis
    using route upgrade_target_idem [OF assms(1,2)]
    by (auto simp: apply_fuzzy_upgrades_def list.rel_map assms(3) intro!: list.rel_refl)
qed

definition demo_resolver :: ModelResolver where
  "demo_resolver = \<lparr>rs_static_router = router_empty\<lparr>sr_exact := [(OpenAiChat, ''m'') \<mapsto>
       [\<lparr>bt_provider = ''up'', bt_model = ''gpt-4'', bt_policy = route_policy (demo_route ''m'' ''up'' ''gpt-4'')\<rparr>]]\<rparr>,
     rs_model_index = with_metadata to_ascii_lowercase [(''up'', demo_models [''gpt-4o'', ''gpt-4o-mini''])]\<rparr>"

theorem resolver_upgrades_witness:
  "\<exists>route'. resolver_resolve_route to_ascii_lowercase demo_resolver OpenAiChat ''m'' = Inr route'
     \<and> apply_fuzzy_upgrades to_ascii_lowercase (rs_model_index demo_resolver) (rr_chain route') = rr_chain route'"
proof -
  let ?idx = "with_metadata to_ascii_lowercase [(''up'', demo_models [''gpt-4o'', ''gpt-4o-mini''])]"
  obtain route' where r: "resolver_resolve_route to_ascii_lowercase demo_resolver OpenAiChat ''m'' = Inr route'"
    by (simp add: resolver_resolve_route_def demo_resolver_def resolve_route_def router_empty_def)
  have "folds_ascii to_ascii_lowercase" by (simp add: folds_ascii_def)
  moreover have "list_all (published_table \<circ> snd) [(''up'', demo_models [''gpt-4o'', ''gpt-4o-mini''])]"
    by (simp add: published_table_def demo_models_def ascii_only_def)
  ultimately have "apply_fuzzy_upgrades to_ascii_lowercase (rs_model_index demo_resolver) (rr_chain route') = rr_chain route'"
    using resolver_upgrades [OF _ _ _ r, of "[(''up'', demo_models [''gpt-4o'', ''gpt-4o-mini''])]"]
    by (auto simp: demo_resolver_def)
  with r show ?thesis by blast
qed

section \<open>The catalog\<close>

lemma btree_entry_keys [simp]: "fst ` set (btree_entry k new f m) = insert k (fst ` set m)"
  by (induction k new f m rule: btree_entry.induct) (simp_all add: insert_commute)

lemma btree_entry_sorted: "sorted_wrt (<) (map fst m) \<Longrightarrow> sorted_wrt (<) (map fst (btree_entry k new f m))"
proof (induction m)
  case (Cons ab m)
  have "fst ` set (btree_entry k new f m) = insert k (fst ` set m)" by simp
  then have "\<forall>x \<in> set (btree_entry k new f m). fst x = k \<or> fst x \<in> fst ` set m" by blast
  with Cons show ?case by (cases ab) (auto simp: less_trans)
qed simp

lemma btree_entry_lookup:
  "sorted_wrt (<) (map fst m) \<Longrightarrow>
     map_of (btree_entry k new f m) = (map_of m)(k \<mapsto> f (case map_of m k of None \<Rightarrow> new | Some v \<Rightarrow> v))"
proof (induction m)
  case (Cons ab m)
  obtain a b where ab: "ab = (a, b)" by (cases ab)
  have "map_of m k = None" if "k < a"
    using Cons.prems that ab by (fastforce simp: map_of_eq_None_iff dest: less_trans)
  with Cons ab show ?case by (auto simp: fun_eq_iff split: option.split)
qed (simp add: fun_eq_iff)

text \<open>A route the catalog lists: no wildcard, and it resolves to a chain.\<close>

definition served :: "(string \<Rightarrow> string) \<Rightarrow> ModelResolver \<Rightarrow> FrontendKind \<times> string \<Rightarrow> bool" where
  "served lower rs route \<longleftrightarrow> snd route \<noteq> ''*''
     \<and> (case resolver_resolve_route lower rs (fst route) (snd route) of Inl e \<Rightarrow> False | Inr r \<Rightarrow> rr_chain r \<noteq> [])"

definition alias_inv :: "(FrontendKind \<times> string) set \<Rightarrow> (string \<times> ModelRecord) list \<times> string set \<Rightarrow> bool" where
  "alias_inv S st \<longleftrightarrow> sorted_wrt (<) (map fst (fst st)) \<and> snd st = snd ` S \<and> fst ` set (fst st) = snd ` S
     \<and> (\<forall>a r. map_of (fst st) a = Some r \<longrightarrow> mr_id r = a \<and> set (mr_frontends r) = {fe. (fe, a) \<in> S})"

lemma catalog_route_inv:
  assumes "alias_inv S st"
  shows "alias_inv (if served lower rs route then insert route S else S) (catalog_route lower rs route st)"
proof (cases "served lower rs route")
  case False
  then have "catalog_route lower rs route st = st"
    by (auto simp: served_def catalog_route_def split: prod.splits sum.splits list.splits)
  with False assms show ?thesis by simp
next
  case True
  obtain fe a where route: "route = (fe, a)" by (cases route)
  from True obtain r where "a \<noteq> ''*''" "resolver_resolve_route lower rs fe a = Inr r" "rr_chain r \<noteq> []"
    by (auto simp: served_def route split: sum.splits)
  then obtain new where step: "catalog_route lower rs route st
      = (btree_entry a new (add_frontend fe) (fst st), insert a (snd st))" "mr_id new = a" "mr_frontends new = []"
    by (cases "rr_chain r") (auto simp: catalog_route_def route alias_record_def)
  let ?old = "case map_of (fst st) a of None \<Rightarrow> new | Some v \<Rightarrow> v"
  have "mr_id ?old = a \<and> set (mr_frontends ?old) = {fe. (fe, a) \<in> S}"
  proof (cases "map_of (fst st) a")
    case None
    then have "a \<notin> snd ` S" using assms by (auto simp: alias_inv_def map_of_eq_None_iff)
    then have "{fe. (fe, a) \<in> S} = {}" by force
    with None step(2,3) show ?thesis by simp
  next
    case (Some v)
    with assms show ?thesis by (simp add: alias_inv_def)
  qed
  then have new: "mr_id (add_frontend fe ?old) = a" "set (mr_frontends (add_frontend fe ?old)) = insert fe {fe. (fe, a) \<in> S}"
    by (auto simp: add_frontend_def)
  have "mr_id r = a' \<and> set (mr_frontends r) = {fe'. (fe', a') \<in> insert route S}"
    if "((map_of (fst st))(a \<mapsto> add_frontend fe ?old)) a' = Some r" for a' r
  proof (cases "a' = a")
    case True
    with that new show ?thesis by (auto simp: route)
  next
    case False
    with that assms show ?thesis by (simp add: route alias_inv_def)
  qed
  moreover have "sorted_wrt (<) (map fst (fst st))" "snd st = snd ` S" "fst ` set (fst st) = snd ` S"
    using assms by (simp_all add: alias_inv_def)
  ultimately show ?thesis
    using True by (simp add: alias_inv_def step(1) btree_entry_sorted btree_entry_lookup) (simp add: route)
qed

lemma catalog_routes_inv:
  "alias_inv S st \<Longrightarrow> alias_inv (S \<union> {x \<in> set routes. served lower rs x}) (fold (catalog_route lower rs) routes st)"
proof (induction routes arbitrary: S st)
  case (Cons x routes)
  have "S \<union> {y \<in> set (x # routes). served lower rs y}
      = (if served lower rs x then insert x S else S) \<union> {y \<in> set routes. served lower rs y}" by auto
  with Cons.IH [OF catalog_route_inv [OF Cons.prems, of lower rs x]] show ?case by (simp only: fold_simps)
qed simp

definition record_inv :: "string set \<Rightarrow> ModelRecord list \<times> string set \<Rightarrow> bool" where
  "record_inv ids st \<longleftrightarrow> distinct (map mr_id (fst st)) \<and> snd st = ids \<and> set (map mr_id (fst st)) = ids"

lemma catalog_model_inv:
  "record_inv ids st \<Longrightarrow> record_inv (insert (fst m) ids) (catalog_model p m st)"
  by (auto simp: record_inv_def catalog_model_def upstream_record_def insert_absorb)

lemma catalog_models_inv:
  "record_inv ids st \<Longrightarrow> record_inv (fst ` set ms \<union> ids) (fold (catalog_model p) ms st)"
proof (induction ms arbitrary: ids st)
  case (Cons m ms)
  from Cons.IH [OF catalog_model_inv [OF Cons.prems, of m p]] show ?case by simp
qed simp

lemma catalog_providers_inv:
  "record_inv ids st \<Longrightarrow> record_inv ((\<Union>p \<in> set ps. fst ` set (provider_models idx p)) \<union> ids)
     (fold (\<lambda>p st. fold (catalog_model p) (provider_models idx p) st) ps st)"
proof (induction ps arbitrary: ids st)
  case (Cons p ps)
  from Cons.IH [OF catalog_models_inv [OF Cons.prems, of "provider_models idx p" p]] show ?case
    by (simp add: Un_ac)
qed simp

text \<open>Upstream-only records name no front end, and keep the records before them.\<close>

definition grows :: "ModelRecord list \<times> string set \<Rightarrow> ModelRecord list \<times> string set \<Rightarrow> bool" where
  "grows st st' \<longleftrightarrow> snd st \<subseteq> snd st' \<and>
     (\<exists>extra. fst st' = fst st @ extra \<and> list_all (\<lambda>r. mr_frontends r = [] \<and> mr_id r \<notin> snd st) extra)"

lemma grows_trans: "grows a b \<Longrightarrow> grows b c \<Longrightarrow> grows a c"
  unfolding grows_def list_all_iff by (auto simp: subset_iff) blast

lemma grows_fold: "(\<And>x st. grows st (f x st)) \<Longrightarrow> grows st (fold f xs st)"
proof (induction xs arbitrary: st)
  case (Cons x xs)
  have "grows st (f x st)" by (rule Cons.prems)
  with Cons.IH [OF Cons.prems, of "f x st"] grows_trans show ?case by fastforce
qed (simp add: grows_def)

lemma catalog_providers_grow:
  "grows st (fold (\<lambda>p st. fold (catalog_model p) (provider_models idx p) st) ps st)"
proof (intro grows_fold)
  fix p m st
  show "grows st (catalog_model p m st)"
    by (cases "fst m \<in> snd st") (auto simp: grows_def catalog_model_def upstream_record_def)
qed

section \<open>Long-context siblings\<close>

definition larger_sibling :: "ModelRecord \<Rightarrow> ModelRecord \<Rightarrow> bool" where
  "larger_sibling r other \<longleftrightarrow> mr_id other \<noteq> mr_id r \<and> record_family r \<noteq> None \<and> record_family other = record_family r
     \<and> (\<exists>c. record_context other = Some c \<and> c > unwrap_or (record_context r) 0)"

definition variant_of :: "ModelRecord \<Rightarrow> ModelRecord set \<Rightarrow> ModelRecord option \<Rightarrow> bool" where
  "variant_of r seen variant \<longleftrightarrow>
     (case variant of
        None \<Rightarrow> \<forall>other \<in> seen. \<not> larger_sibling r other
      | Some v \<Rightarrow> v \<in> seen \<and> larger_sibling r v
          \<and> (\<forall>other \<in> seen. larger_sibling r other \<longrightarrow> unwrap_or (record_context other) 0 \<le> unwrap_or (record_context v) 0))"

lemma sibling_step_variant:
  assumes "variant_of r seen variant" "record_family r = Some fam"
  shows "variant_of r (insert other seen) (sibling_step r fam other variant)"
proof (cases "larger_sibling r other")
  case False
  then have "sibling_step r fam other variant = variant"
    using assms(2) by (auto simp: sibling_step_def larger_sibling_def split: option.splits)
  with False assms(1) show ?thesis by (auto simp: variant_of_def split: option.splits)
next
  case True
  then obtain c where c: "record_context other = Some c" "c > unwrap_or (record_context r) 0" by (auto simp: larger_sibling_def)
  then have pos: "c > 0" by (metis word_neq_0_conv word_not_simps(1))
  have step: "sibling_step r fam other variant = (if c > unwrap_or (Option.bind variant record_context) 0 then Some other else variant)"
    using True assms(2) c by (auto simp: sibling_step_def larger_sibling_def Let_def)
  show ?thesis
  proof (cases variant)
    case None
    with True assms(1) pos step show ?thesis by (auto simp: variant_of_def)
  next
    case (Some v)
    with True assms(1) step c show ?thesis by (fastforce simp: variant_of_def)
  qed
qed

lemma siblings_variant:
  "variant_of r seen variant \<Longrightarrow> record_family r = Some fam \<Longrightarrow>
     variant_of r (seen \<union> set others) (fold (sibling_step r fam) others variant)"
proof (induction others arbitrary: seen variant)
  case (Cons other others)
  from Cons.IH [OF sibling_step_variant [OF Cons.prems] Cons.prems(2)] show ?case by simp
qed simp

lemma with_variant_sel [simp]:
  "mr_id (with_variant rs r) = mr_id r" "mr_frontends (with_variant rs r) = mr_frontends r"
  "record_family (with_variant rs r) = record_family r" "record_context (with_variant rs r) = record_context r"
  by (simp_all add: with_variant_def record_family_def record_context_def)

lemma larger_sibling_with_variant [simp]:
  "larger_sibling (with_variant rs r) (with_variant rs' r') = larger_sibling r r'"
  by (simp add: larger_sibling_def)

lemma with_variant_spec:
  "case mr_long_context_variant (with_variant records r) of
     None \<Rightarrow> \<forall>other \<in> set records. \<not> larger_sibling r other
   | Some v \<Rightarrow> \<exists>other \<in> set records. mr_id other = v \<and> larger_sibling r other
       \<and> (\<forall>o' \<in> set records. larger_sibling r o' \<longrightarrow> unwrap_or (record_context o') 0 \<le> unwrap_or (record_context other) 0)"
proof (cases "record_family r")
  case None
  then show ?thesis by (simp add: with_variant_def larger_sibling_def)
next
  case (Some fam)
  have "variant_of r {} None" by (simp add: variant_of_def)
  from siblings_variant [OF this Some, of records] show ?thesis
    using Some by (auto simp: with_variant_def variant_of_def split: option.splits)
qed

text \<open>The records before the variants are computed.\<close>

definition catalog_records :: "(string \<Rightarrow> string) \<Rightarrow> (FrontendKind \<times> string) list \<Rightarrow> ModelResolver \<Rightarrow> ModelRecord list" where
  "catalog_records lower routes rs =
     (let (by_alias, taken) = fold (catalog_route lower rs) routes ([], {})
      in fst (fold (\<lambda>provider st. fold (catalog_model provider) (provider_models (rs_model_index rs) provider) st)
            (sort (index_providers (rs_model_index rs))) (map snd by_alias, taken)))"

lemma list_catalog_records:
  "list_catalog lower routes rs = sort_key mr_id (map (with_variant (catalog_records lower routes rs)) (catalog_records lower routes rs))"
  by (simp add: list_catalog_def catalog_records_def Let_def case_prod_unfold)

lemma catalog_records_spec:
  "distinct (map mr_id (catalog_records lower routes rs))
   \<and> set (map mr_id (catalog_records lower routes rs)) = snd ` {x \<in> set routes. served lower rs x}
       \<union> (\<Union>p \<in> set (index_providers (rs_model_index rs)). fst ` set (provider_models (rs_model_index rs) p))
   \<and> (\<forall>r \<in> set (catalog_records lower routes rs).
        set (mr_frontends r) = {fe. (fe, mr_id r) \<in> set routes \<and> served lower rs (fe, mr_id r)})"
proof -
  let ?S = "{x \<in> set routes. served lower rs x}" and ?idx = "rs_model_index rs"
  obtain by_alias taken where ph1: "fold (catalog_route lower rs) routes ([], {}) = (by_alias, taken)" by fastforce
  have "alias_inv {} ([], {})" by (simp add: alias_inv_def)
  from catalog_routes_inv [OF this, of routes lower rs] have inv: "alias_inv ?S (by_alias, taken)" by (simp add: ph1)
  then have keys: "distinct (map fst by_alias)"
    by (simp add: alias_inv_def strict_sorted_iff)
  then have rec: "mr_id r = a \<and> set (mr_frontends r) = {fe. (fe, a) \<in> ?S}" if "(a, r) \<in> set by_alias" for a r
    using inv that by (simp add: alias_inv_def)
  then have ids: "map mr_id (map snd by_alias) = map fst by_alias" by auto
  have start: "record_inv (snd ` ?S) (map snd by_alias, taken)"
    using inv keys by (simp add: record_inv_def alias_inv_def ids del: map_map list.set_map)
  let ?fin = "fold (\<lambda>provider st. fold (catalog_model provider) (provider_models ?idx provider) st)
      (sort (index_providers ?idx)) (map snd by_alias, taken)"
  have recs: "catalog_records lower routes rs = fst ?fin" by (simp add: catalog_records_def ph1)
  from catalog_providers_grow [of "(map snd by_alias, taken)" ?idx "sort (index_providers ?idx)"]
  obtain extra where extra: "fst ?fin = map snd by_alias @ extra" "list_all (\<lambda>r. mr_frontends r = [] \<and> mr_id r \<notin> taken) extra"
    by (auto simp: grows_def)
  have taken: "taken = snd ` ?S" using inv by (simp add: alias_inv_def)
  have "set (mr_frontends r) = {fe. (fe, mr_id r) \<in> ?S}" if "r \<in> set (fst ?fin)" for r
  proof (cases "r \<in> set extra")
    case True
    with extra(2) have "mr_frontends r = []" "mr_id r \<notin> snd ` ?S" by (auto simp: list_all_iff taken)
    then show ?thesis by force
  next
    case False
    with that extra(1) obtain a where "(a, r) \<in> set by_alias" by auto
    with rec show ?thesis by auto
  qed
  with catalog_providers_inv [OF start, of ?idx "sort (index_providers ?idx)"] show ?thesis
    by (simp add: recs record_inv_def Un_commute)
qed


definition demo_ctx :: "u32 \<Rightarrow> ModelMetadata" where
  "demo_ctx n = model_metadata_default\<lparr>mm_family := Some ''fam'', mm_context_window_tokens := Some n\<rparr>"

definition demo_catalog :: "ModelRecord list" where
  "demo_catalog = list_catalog id [(OpenAiChat, ''m''), (AnthropicMessages, ''gone'')]
     (demo_resolver\<lparr>rs_model_index := with_metadata id [(''up'', [(''gpt-4'', demo_ctx 8), (''gpt-4-long'', demo_ctx 32)])]\<rparr>)"


end
