(* ===== verification/Gemini_Scanner.thy ===== *)
theory Gemini_Scanner
  imports Emitter
begin

text \<open>
  The byte-level scanner of \<open>providers/src/gemini/stream.rs\<close>: it splits a JSON array that arrives in
  arbitrary chunks into the texts of its objects and decodes each of them. Parameter: \<open>from_slice\<close>, the
  typed JSON reader. The nesting depth is a \<open>u32\<close> and wraps.
\<close>

section \<open>The scanner\<close>

record Scanner =
  sc_buf :: string
  sc_started :: bool
  sc_finished :: bool
  sc_depth :: u32
  sc_in_string :: bool
  sc_escape_pending :: bool

definition scanner_new :: Scanner where
  "scanner_new = \<lparr>sc_buf = [], sc_started = False, sc_finished = False, sc_depth = 0, sc_in_string = False,
     sc_escape_pending = False\<rparr>"

abbreviation quote :: char where "quote \<equiv> CHR 0x22"
abbreviation backslash :: char where "backslash \<equiv> CHR 0x5C"
abbreviation lbrace :: char where "lbrace \<equiv> CHR 0x7B"
abbreviation rbrace :: char where "rbrace \<equiv> CHR 0x7D"
abbreviation lbracket :: char where "lbracket \<equiv> CHR 0x5B"
abbreviation rbracket :: char where "rbracket \<equiv> CHR 0x5D"

definition is_json_whitespace :: "char \<Rightarrow> bool" where
  "is_json_whitespace b \<longleftrightarrow> b = CHR '' '' \<or> b = CHR 0x09 \<or> b = CHR 0x0A \<or> b = CHR 0x0D"

type_synonym 'r scan_item = "StreamError + 'r"

definition byte_hex :: "char \<Rightarrow> string" where
  "byte_hex b = ''0x'' @ [hex_digit (of_char b div 16), hex_digit (of_char b mod 16)]"

definition decode_object :: "(string \<Rightarrow> string + 'r) \<Rightarrow> string \<Rightarrow> 'r scan_item" where
  "decode_object from_slice buf =
     (case from_slice buf of
        Inr resp \<Rightarrow> Inr resp
      | Inl e \<Rightarrow> Inl (SE_Decode (''failed to decode Gemini stream object: '' @ e)))"

text \<open>The body of the loop in \<open>feed\<close>, for one byte.\<close>

definition feed_byte :: "(string \<Rightarrow> string + 'r) \<Rightarrow> Scanner \<Rightarrow> char \<Rightarrow> Scanner \<times> 'r scan_item list" where
  "feed_byte from_slice s byte =
     (if sc_finished s then (s, [])
      else if \<not> sc_started s then
        (if is_json_whitespace byte then (s, [])
         else if byte = lbracket then (s\<lparr>sc_started := True\<rparr>, [])
         else (s\<lparr>sc_finished := True\<rparr>,
               [Inl (SE_Decode (''expected `[` at start of Gemini stream, got byte '' @ byte_hex byte))]))
      else if sc_depth s = 0 then
        (if byte = lbrace then (s\<lparr>sc_depth := 1, sc_buf := sc_buf s @ [byte]\<rparr>, [])
         else if byte = rbracket then (s\<lparr>sc_finished := True\<rparr>, [])
         else if is_json_whitespace byte \<or> byte = CHR '','' then (s, [])
         else (s, [Inl (SE_Decode (''unexpected byte '' @ byte_hex byte @ '' between Gemini stream objects''))]))
      else
        (let s1 = s\<lparr>sc_buf := sc_buf s @ [byte]\<rparr> in
         if sc_in_string s1 then
           (if sc_escape_pending s1 then (s1\<lparr>sc_escape_pending := False\<rparr>, [])
            else if byte = backslash then (s1\<lparr>sc_escape_pending := True\<rparr>, [])
            else if byte = quote then (s1\<lparr>sc_in_string := False\<rparr>, [])
            else (s1, []))
         else if byte = quote then (s1\<lparr>sc_in_string := True\<rparr>, [])
         else if byte = lbrace then (s1\<lparr>sc_depth := sc_depth s1 + 1\<rparr>, [])
         else if byte = rbrace then
           (if sc_depth s1 - 1 = 0
            then (s1\<lparr>sc_depth := 0, sc_buf := []\<rparr>, [decode_object from_slice (sc_buf s1)])
            else (s1\<lparr>sc_depth := sc_depth s1 - 1\<rparr>, []))
         else (s1, [])))"

definition feed :: "(string \<Rightarrow> string + 'r) \<Rightarrow> Scanner \<Rightarrow> string \<Rightarrow> Scanner \<times> 'r scan_item list" where
  "feed from_slice s chunk = run_steps (feed_byte from_slice) s chunk"

definition scanner_finalize :: "Scanner \<Rightarrow> StreamError option" where
  "scanner_finalize s =
     (if sc_depth s > 0 \<or> sc_in_string s
      then Some (SE_Decode (''Gemini stream ended mid-object (depth='' @ show_nat (unat (sc_depth s))
             @ '', in_string='' @ show_bool (sc_in_string s) @ '')''))
      else None)"

text \<open>\<open>into_response_stream\<close>: the chunks with their transport errors, then the closing check.\<close>

definition scan_chunk :: "(string \<Rightarrow> string + 'r) \<Rightarrow> Scanner \<Rightarrow> string + string \<Rightarrow> Scanner \<times> 'r scan_item list" where
  "scan_chunk from_slice s chunk_result =
     (case chunk_result of Inl e \<Rightarrow> (s, [Inl (SE_Upstream e)]) | Inr bytes \<Rightarrow> feed from_slice s bytes)"

definition scan_tail :: "Scanner \<Rightarrow> Scanner \<times> 'r scan_item list" where
  "scan_tail s = (s, case scanner_finalize s of None \<Rightarrow> [] | Some e \<Rightarrow> [Inl e])"

definition into_response_stream :: "(string \<Rightarrow> string + 'r) \<Rightarrow> (string + string) source_poll list \<Rightarrow> 'r scan_item list" where
  "into_response_stream from_slice src = poll_drain (scan_chunk from_slice) scan_tail (poll_init src scanner_new)"

section \<open>Chunks do not matter\<close>

lemma run_scan_chunks:
  "run_to_end (scan_chunk from_slice) scan_tail s (map Inr cs) =
     run_to_end (feed_byte from_slice) scan_tail s (concat cs)"
proof (induction cs arbitrary: s)
  case (Cons c cs)
  then show ?case
    by (simp add: scan_chunk_def feed_def run_to_end_def run_steps_append Let_def case_prod_unfold)
qed simp

lemma response_stream_bytes:
  "src_items src = map Inr cs \<Longrightarrow>
     into_response_stream from_slice src = run_to_end (feed_byte from_slice) scan_tail scanner_new (concat cs)"
  by (simp add: into_response_stream_def poll_drain_init run_scan_chunks)

section \<open>The text of an object\<close>

text \<open>What every JSON object text is made of, as far as the scanner looks: string literals with
  their escapes, nested objects, and other bytes.\<close>

datatype lit = LChar char | LEsc char
datatype piece = Plain char | Lit "lit list" | Nest "piece list"

fun lit_text :: "lit \<Rightarrow> string" where
  "lit_text (LChar c) = [c]"
| "lit_text (LEsc c) = [backslash, c]"

fun lit_ok :: "lit \<Rightarrow> bool" where
  "lit_ok (LChar c) \<longleftrightarrow> c \<noteq> quote \<and> c \<noteq> backslash"
| "lit_ok (LEsc c) \<longleftrightarrow> True"

fun piece_text :: "piece \<Rightarrow> string" where
  "piece_text (Plain c) = [c]"
| "piece_text (Lit ls) = quote # concat (map lit_text ls) @ [quote]"
| "piece_text (Nest ps) = lbrace # concat (map piece_text ps) @ [rbrace]"

fun piece_ok :: "piece \<Rightarrow> bool" where
  "piece_ok (Plain c) \<longleftrightarrow> c \<noteq> quote \<and> c \<noteq> lbrace \<and> c \<noteq> rbrace"
| "piece_ok (Lit ls) \<longleftrightarrow> list_all lit_ok ls"
| "piece_ok (Nest ps) \<longleftrightarrow> list_all piece_ok ps"

fun nesting :: "piece \<Rightarrow> nat" where
  "nesting (Plain c) = 0"
| "nesting (Lit ls) = 0"
| "nesting (Nest ps) = Suc (foldr (\<lambda>p n. max (nesting p) n) ps 0)"

abbreviation nestings :: "piece list \<Rightarrow> nat" where
  "nestings ps \<equiv> foldr (\<lambda>p n. max (nesting p) n) ps 0"

definition object_text :: "piece list \<Rightarrow> string" where
  "object_text ps = piece_text (Nest ps)"

definition object_ok :: "piece list \<Rightarrow> bool" where
  "object_ok ps \<longleftrightarrow> list_all piece_ok ps \<and> nestings ps + 1 < 2 ^ 32"

definition inside :: "u32 \<Rightarrow> string \<Rightarrow> Scanner" where
  "inside d buf = \<lparr>sc_buf = buf, sc_started = True, sc_finished = False, sc_depth = d, sc_in_string = False,
     sc_escape_pending = False\<rparr>"

abbreviation between :: Scanner where
  "between \<equiv> inside 0 []"

abbreviation in_literal :: "u32 \<Rightarrow> string \<Rightarrow> Scanner" where
  "in_literal d buf \<equiv> (inside d buf)\<lparr>sc_in_string := True\<rparr>"

lemma run_lits:
  "d \<noteq> 0 \<Longrightarrow> list_all lit_ok ls \<Longrightarrow>
     run_steps (feed_byte f) (in_literal d buf) (concat (map lit_text ls)) = (in_literal d (buf @ concat (map lit_text ls)), [])"
proof (induction ls arbitrary: buf)
  case (Cons l ls)
  have "run_steps (feed_byte f) (in_literal d buf) (lit_text l) = (in_literal d (buf @ lit_text l), [])"
    using Cons.prems by (cases l) (auto simp: feed_byte_def inside_def Let_def)
  with Cons show ?case by (simp add: run_steps_append)
qed simp

lemma run_pieces:
  assumes "\<And>p d buf. p \<in> set ps \<Longrightarrow> d \<noteq> 0 \<Longrightarrow> unat d + nesting p < 2 ^ 32 \<Longrightarrow>
      run_steps (feed_byte f) (inside d buf) (piece_text p) = (inside d (buf @ piece_text p), [])"
    and "d \<noteq> 0" "unat d + nestings ps < 2 ^ 32"
  shows "run_steps (feed_byte f) (inside d buf) (concat (map piece_text ps)) = (inside d (buf @ concat (map piece_text ps)), [])"
  using assms
proof (induction ps arbitrary: buf)
  case (Cons p ps)
  have "run_steps (feed_byte f) (inside d buf) (piece_text p) = (inside d (buf @ piece_text p), [])"
    using Cons.prems by simp
  with Cons show ?case by (simp add: run_steps_append)
qed simp

lemma unat_succ: "unat (d :: u32) + 1 < 2 ^ 32 \<Longrightarrow> unat (d + 1) = unat d + 1 \<and> d + 1 \<noteq> 0"
proof -
  assume "unat d + 1 < 2 ^ 32"
  then have "unat (d + 1) = unat d + 1" by (simp add: unat_word_ariths)
  then show ?thesis by auto
qed

lemma run_piece:
  "piece_ok p \<Longrightarrow> d \<noteq> 0 \<Longrightarrow> unat d + nesting p < 2 ^ 32 \<Longrightarrow>
     run_steps (feed_byte f) (inside d buf) (piece_text p) = (inside d (buf @ piece_text p), [])"
proof (induction p arbitrary: d buf)
  case (Plain c)
  then show ?case by (simp add: feed_byte_def inside_def Let_def)
next
  case (Lit ls)
  have "feed_byte f (inside d buf) quote = (in_literal d (buf @ [quote]), [])"
    using Lit by (simp add: feed_byte_def inside_def Let_def)
  moreover have "feed_byte f (in_literal d b) quote = (inside d (b @ [quote]), [])" for b
    using Lit by (simp add: feed_byte_def inside_def Let_def)
  ultimately show ?case using Lit by (simp add: run_steps_append run_lits)
next
  case (Nest ps)
  have d: "unat (d + 1) = unat d + 1" "d + 1 \<noteq> 0" using unat_succ [of d] Nest.prems(3) by simp_all
  have "feed_byte f (inside d buf) lbrace = (inside (d + 1) (buf @ [lbrace]), [])"
    using Nest by (simp add: feed_byte_def inside_def Let_def)
  moreover have "run_steps (feed_byte f) (inside (d + 1) (buf @ [lbrace])) (concat (map piece_text ps))
      = (inside (d + 1) (buf @ [lbrace] @ concat (map piece_text ps)), [])"
    using run_pieces [of ps f "d + 1" "buf @ [lbrace]"] Nest d by (auto simp: list_all_iff)
  moreover have "feed_byte f (inside (d + 1) b) rbrace = (inside d (b @ [rbrace]), [])" for b
    using Nest.prems(2) d(2) by (simp add: feed_byte_def inside_def Let_def)
  ultimately show ?case by (simp add: run_steps_append)
qed

lemma run_body:
  assumes "object_ok ps"
  shows "run_steps (feed_byte f) between (lbrace # concat (map piece_text ps)) = (inside 1 (lbrace # concat (map piece_text ps)), [])"
proof -
  have "feed_byte f between lbrace = (inside 1 [lbrace], [])" by (simp add: feed_byte_def inside_def)
  moreover have "run_steps (feed_byte f) (inside 1 [lbrace]) (concat (map piece_text ps))
      = (inside 1 ([lbrace] @ concat (map piece_text ps)), [])"
    using assms by (intro run_pieces run_piece) (auto simp: object_ok_def list_all_iff)
  ultimately show ?thesis by simp
qed

lemma run_object:
  assumes "object_ok ps"
  shows "run_steps (feed_byte f) between (object_text ps) = (between, [decode_object f (object_text ps)])"
proof -
  have split: "object_text ps = (lbrace # concat (map piece_text ps)) @ [rbrace]" by (simp add: object_text_def)
  have "feed_byte f (inside 1 b) rbrace = (between, [decode_object f (b @ [rbrace])])" for b
    by (simp add: feed_byte_def inside_def Let_def)
  then show ?thesis unfolding split run_steps_append run_body [OF assms] by simp
qed

section \<open>Arrays, whole and cut off\<close>

definition gap :: "string \<Rightarrow> bool" where
  "gap g \<longleftrightarrow> list_all (\<lambda>b. is_json_whitespace b \<or> b = CHR '','') g"

lemma json_whitespace_plain: "is_json_whitespace b \<Longrightarrow> b \<noteq> lbrace \<and> b \<noteq> rbracket \<and> b \<noteq> lbracket"
  by (auto simp: is_json_whitespace_def)

lemma run_gap: "gap g \<Longrightarrow> run_steps (feed_byte f) between g = (between, [])"
proof (induction g)
  case (Cons b g)
  then have "feed_byte f between b = (between, [])"
    by (auto simp: gap_def feed_byte_def inside_def dest: json_whitespace_plain)
  with Cons show ?case by (simp add: gap_def)
qed simp

lemma run_lead: "list_all is_json_whitespace ws \<Longrightarrow> run_steps (feed_byte f) scanner_new (ws @ [lbracket]) = (between, [])"
proof (induction ws)
  case Nil
  then show ?case by (simp add: feed_byte_def scanner_new_def is_json_whitespace_def inside_def)
next
  case (Cons b ws)
  then have "feed_byte f scanner_new b = (scanner_new, [])" by (simp add: feed_byte_def scanner_new_def)
  with Cons show ?case by simp
qed

definition array_head :: "string \<Rightarrow> (string \<times> piece list) list \<Rightarrow> string" where
  "array_head ws xs = ws @ [lbracket] @ concat (map (\<lambda>(g, ps). g @ object_text ps) xs)"

definition array_ok :: "string \<Rightarrow> (string \<times> piece list) list \<Rightarrow> bool" where
  "array_ok ws xs \<longleftrightarrow> list_all is_json_whitespace ws \<and> list_all (\<lambda>(g, ps). gap g \<and> object_ok ps) xs"

lemma run_objects:
  "list_all (\<lambda>(g, ps). gap g \<and> object_ok ps) xs \<Longrightarrow>
     run_steps (feed_byte f) between (concat (map (\<lambda>(g, ps). g @ object_text ps) xs))
       = (between, map (\<lambda>(g, ps). decode_object f (object_text ps)) xs)"
  by (induction xs) (auto simp: run_steps_append run_gap run_object)

lemma run_array_head:
  assumes "array_ok ws xs"
  shows "run_steps (feed_byte f) scanner_new (array_head ws xs) = (between, map (\<lambda>(g, ps). decode_object f (object_text ps)) xs)"
proof -
  have ok: "list_all is_json_whitespace ws" "list_all (\<lambda>(g, ps). gap g \<and> object_ok ps) xs"
    using assms by (simp_all add: array_ok_def)
  from run_steps_trans [OF run_lead [OF ok(1)] run_objects [OF ok(2)]] show ?thesis by (simp add: array_head_def)
qed

lemma run_finished: "sc_finished s \<Longrightarrow> run_steps (feed_byte f) s bs = (s, [])"
  by (induction bs) (simp_all add: feed_byte_def)

lemma scan_complete:
  assumes "array_ok ws xs" "gap g"
  shows "run_to_end (feed_byte f) scan_tail scanner_new (array_head ws xs @ g @ rbracket # rest)
    = map (\<lambda>(g, ps). decode_object f (object_text ps)) xs"
proof -
  let ?fin = "between\<lparr>sc_finished := True\<rparr>"
  have "feed_byte f between rbracket = (?fin, [])" by (simp add: feed_byte_def inside_def)
  with run_finished [of ?fin f rest] have "run_steps (feed_byte f) between (rbracket # rest) = (?fin, [])" by simp
  from run_steps_trans [OF run_array_head [OF assms(1)] run_steps_trans [OF run_gap [OF assms(2)] this]]
  show ?thesis by (simp add: run_to_end_def scan_tail_def scanner_finalize_def inside_def)
qed

text \<open>A scanner inside an object: nothing comes out before the object is complete.\<close>

definition mid_object :: "u32 \<Rightarrow> Scanner \<times> 'r scan_item list \<Rightarrow> bool" where
  "mid_object d r \<longleftrightarrow> snd r = [] \<and> d \<le> sc_depth (fst r)"

lemma mid_object_refl [simp]: "mid_object d (inside d buf, [])" "mid_object d (in_literal d buf, [])"
  by (simp_all add: mid_object_def inside_def)

lemma mid_object_run:
  "run_steps (feed_byte f) s xs = (s1, []) \<Longrightarrow> mid_object d (run_steps (feed_byte f) s1 ys) \<Longrightarrow>
     mid_object d (run_steps (feed_byte f) s (xs @ ys))"
  by (auto simp: mid_object_def run_steps_append case_prod_unfold)

lemma lits_prefix:
  assumes "d \<noteq> 0"
  shows "list_all lit_ok ls \<Longrightarrow> prefix pre (concat (map lit_text ls)) \<Longrightarrow>
    mid_object d (run_steps (feed_byte f) (in_literal d buf) pre)"
proof (induction ls arbitrary: pre buf)
  case (Cons l ls)
  then consider (part) "prefix pre (lit_text l)" | (more) us where "pre = lit_text l @ us" "prefix us (concat (map lit_text ls))"
    by (auto simp: prefix_append)
  then show ?case
  proof cases
    case part
    with Cons.prems assms show ?thesis
      by (cases l) (auto simp: prefix_Cons mid_object_def feed_byte_def inside_def Let_def)
  next
    case more
    have "run_steps (feed_byte f) (in_literal d buf) (lit_text l) = (in_literal d (buf @ lit_text l), [])"
      using run_lits [OF assms, of "[l]" f buf] Cons.prems by simp
    from mid_object_run [OF this Cons.IH] more Cons.prems show ?thesis by simp
  qed
qed simp

lemma pieces_prefix:
  assumes "d \<noteq> 0" "\<And>p pre buf. p \<in> set ps \<Longrightarrow> prefix pre (piece_text p) \<Longrightarrow> mid_object d (run_steps (feed_byte f) (inside d buf) pre)"
    and "list_all piece_ok ps" "unat d + nestings ps < 2 ^ 32" "prefix pre (concat (map piece_text ps))"
  shows "mid_object d (run_steps (feed_byte f) (inside d buf) pre)"
  using assms(2-)
proof (induction ps arbitrary: pre buf)
  case (Cons p ps)
  from Cons.prems(4) consider (part) "prefix pre (piece_text p)"
    | (more) us where "pre = piece_text p @ us" "prefix us (concat (map piece_text ps))"
    by (auto simp: prefix_append)
  then show ?case
  proof cases
    case part
    show ?thesis by (rule Cons.prems(1) [OF _ part]) simp
  next
    case more
    have run: "run_steps (feed_byte f) (inside d buf) (piece_text p) = (inside d (buf @ piece_text p), [])"
      using Cons.prems assms(1) by (intro run_piece) simp_all
    have "mid_object d (run_steps (feed_byte f) (inside d (buf @ piece_text p)) us)"
    proof (rule Cons.IH)
      show "mid_object d (run_steps (feed_byte f) (inside d b) q)" if "p' \<in> set ps" "prefix q (piece_text p')" for p' q b
        using Cons.prems(1) [of p' q b] that by simp
    qed (use Cons.prems more in simp_all)
    from mid_object_run [OF run this] more show ?thesis by simp
  qed
qed simp

lemma piece_prefix:
  "piece_ok p \<Longrightarrow> d \<noteq> 0 \<Longrightarrow> unat d + nesting p < 2 ^ 32 \<Longrightarrow> prefix pre (piece_text p) \<Longrightarrow>
     mid_object d (run_steps (feed_byte f) (inside d buf) pre)"
proof (induction p arbitrary: d pre buf)
  case (Plain c)
  then show ?case by (auto simp: prefix_Cons mid_object_def feed_byte_def inside_def Let_def)
next
  case (Lit ls)
  from Lit.prems(4) consider (nil) "pre = []" | (part) us where "pre = quote # us" "prefix us (concat (map lit_text ls))"
    | (whole) "pre = piece_text (Lit ls)"
    by (auto simp: prefix_Cons prefix_append)
  then show ?case
  proof cases
    case part
    have "run_steps (feed_byte f) (inside d buf) [quote] = (in_literal d (buf @ [quote]), [])"
      using Lit by (simp add: feed_byte_def inside_def Let_def)
    from mid_object_run [OF this lits_prefix] part Lit.prems show ?thesis by simp
  next
    case whole
    show ?thesis unfolding whole run_piece [OF Lit.prems(1-3)] by simp
  qed simp
next
  case (Nest ps)
  have d: "unat (d + 1) = unat d + 1" "d + 1 \<noteq> 0" using unat_succ [of d] Nest.prems(3) by simp_all
  from Nest.prems(4) consider (nil) "pre = []" | (part) us where "pre = lbrace # us" "prefix us (concat (map piece_text ps))"
    | (whole) "pre = piece_text (Nest ps)"
    by (auto simp: prefix_Cons prefix_append)
  then show ?case
  proof cases
    case part
    have run: "run_steps (feed_byte f) (inside d buf) [lbrace] = (inside (d + 1) (buf @ [lbrace]), [])"
      using Nest.prems by (simp add: feed_byte_def inside_def Let_def)
    have le: "nesting p \<le> nestings ps" if "p \<in> set ps" for p using that by (induction ps) auto
    have "mid_object (d + 1) (run_steps (feed_byte f) (inside (d + 1) (buf @ [lbrace])) us)"
    proof (rule pieces_prefix [OF d(2)])
      fix p pre buf
      assume p: "p \<in> set ps" "prefix pre (piece_text p)"
      show "mid_object (d + 1) (run_steps (feed_byte f) (inside (d + 1) buf) pre)"
        by (rule Nest.IH) (use p Nest.prems d le [OF p(1)] in \<open>auto simp: list_all_iff\<close>)
    qed (use Nest.prems d part in auto)
    then have "mid_object d (run_steps (feed_byte f) (inside (d + 1) (buf @ [lbrace])) us)"
      using d(1) by (simp add: mid_object_def word_le_nat_alt)
    from mid_object_run [OF run this] part show ?thesis by simp
  next
    case whole
    show ?thesis unfolding whole run_piece [OF Nest.prems(1-3)] by simp
  qed simp
qed

lemma object_prefix:
  assumes "object_ok ps" "strict_prefix pre (object_text ps)" "pre \<noteq> []"
  shows "mid_object 1 (run_steps (feed_byte f) between pre)"
proof -
  from assms(2,3) obtain us where us: "pre = lbrace # us" "prefix us (concat (map piece_text ps))"
    by (auto simp: object_text_def strict_prefix_def prefix_Cons prefix_append)
  have run: "run_steps (feed_byte f) between [lbrace] = (inside 1 [lbrace], [])" by (simp add: feed_byte_def inside_def)
  have le: "nesting p \<le> nestings ps" if "p \<in> set ps" for p using that by (induction ps) auto
  have ps: "list_all piece_ok ps" "unat (1 :: u32) + nestings ps < 2 ^ 32"
    using assms(1) by (simp_all add: object_ok_def)
  have "mid_object 1 (run_steps (feed_byte f) (inside 1 [lbrace]) us)"
  proof (rule pieces_prefix [OF _ _ ps us(2)])
    fix p pre buf
    assume p: "p \<in> set ps" "prefix pre (piece_text p)"
    show "mid_object 1 (run_steps (feed_byte f) (inside 1 buf) pre)"
      by (rule piece_prefix) (use p ps le [OF p(1)] in \<open>auto simp: list_all_iff\<close>)
  qed simp
  from mid_object_run [OF run this] us(1) show ?thesis by simp
qed

lemma scan_cut:
  assumes "array_ok ws xs" "gap g" "object_ok ps" "strict_prefix pre (object_text ps)"
  shows "\<exists>msg. run_to_end (feed_byte f) scan_tail scanner_new (array_head ws xs @ g @ pre)
    = map (\<lambda>(g, ps). decode_object f (object_text ps)) xs @ (if pre = [] then [] else [Inl (SE_Decode msg)])"
proof -
  obtain s out where s: "run_steps (feed_byte f) between pre = (s, out)" by fastforce
  from run_steps_trans [OF run_array_head [OF assms(1)] run_steps_trans [OF run_gap [OF assms(2)] s]]
  have run: "run_steps (feed_byte f) scanner_new (array_head ws xs @ g @ pre)
      = (s, map (\<lambda>(g, ps). decode_object f (object_text ps)) xs @ out)" by simp
  show ?thesis
  proof (cases "pre = []")
    case True
    with s run show ?thesis by (auto simp: run_to_end_def scan_tail_def scanner_finalize_def inside_def)
  next
    case False
    with object_prefix [OF assms(3,4), of f] s have "out = []" "0 < sc_depth s"
      by (auto simp: mid_object_def word_less_nat_alt word_le_nat_alt)
    with run False show ?thesis by (simp add: run_to_end_def scan_tail_def scanner_finalize_def)
  qed
qed

text \<open>C26. The scanner reads exactly the objects of the array, however the network cuts it into chunks and
  however the polls interleave: white space and commas around the objects, braces, brackets and
  quotes inside string literals, escapes and nested objects make no difference. For a complete
  array, whatever follows it, the stream yields the decoded objects in order and nothing else. For
  an array cut off at any byte it yields the objects that were complete, followed by one decode error
  exactly when the cut fell inside an object.\<close>

theorem gemini_scan_array:
  assumes "src_items src = map Inr cs" and "array_ok ws xs" and "gap g"
  shows "(\<forall>rest. concat cs = array_head ws xs @ g @ rbracket # rest \<longrightarrow>
      into_response_stream from_slice src = map (\<lambda>(g, ps). decode_object from_slice (object_text ps)) xs)
    \<and> (\<forall>ps pre. object_ok ps \<and> strict_prefix pre (object_text ps) \<and> concat cs = array_head ws xs @ g @ pre \<longrightarrow>
      (\<exists>msg. into_response_stream from_slice src =
        map (\<lambda>(g, ps). decode_object from_slice (object_text ps)) xs @ (if pre = [] then [] else [Inl (SE_Decode msg)])))"
  unfolding response_stream_bytes [OF assms(1)]
  by (intro conjI allI impI) (auto simp only: scan_complete [OF assms(2,3)] scan_cut [OF assms(2,3)])

theorem gemini_scan_array_witness:
  "into_response_stream (\<lambda>t. Inr (length t)) [SrcItem (Inr '' [{''), SrcPending, SrcItem (Inr ([quote] @ ''}'' @ [backslash])),
      SrcItem (Inr ([quote, quote] @ '':{}},'')), SrcItem (Inr ''{}]]'')] = [Inr 10, Inr 2]
   \<and> (\<exists>msg. into_response_stream (\<lambda>t. Inr (length t)) [SrcItem (Inr ''[{}''), SrcItem (Inr '',{''), SrcItem (Inr '':'')]
        = [Inr 2, Inl (SE_Decode msg)])"
proof
  let ?xs = "[([], [Lit [LChar rbrace, LEsc quote], Plain CHR '':'', Nest []]), ('','', [])]"
  let ?cs = "['' [{'', [quote] @ ''}'' @ [backslash], [quote, quote] @ '':{}},'', ''{}]]'']"
  let ?src = "[SrcItem (Inr '' [{''), SrcPending, SrcItem (Inr ([quote] @ ''}'' @ [backslash])),
      SrcItem (Inr ([quote, quote] @ '':{}},'')), SrcItem (Inr ''{}]]'')]"
  have ok: "src_items ?src = map Inr ?cs" "array_ok '' '' ?xs" "gap []"
    by (simp_all add: array_ok_def gap_def object_ok_def is_json_whitespace_def)
  have "concat ?cs = array_head '' '' ?xs @ [] @ rbracket # '']''"
    by (simp add: array_head_def object_text_def)
  with gemini_scan_array [OF ok, of "\<lambda>t. Inr (length t)"]
  have "into_response_stream (\<lambda>t. Inr (length t)) ?src = map (\<lambda>(g, ps). decode_object (\<lambda>t. Inr (length t)) (object_text ps)) ?xs"
    by blast
  then show "into_response_stream (\<lambda>t. Inr (length t)) ?src = [Inr 10, Inr 2]"
    by (simp add: decode_object_def object_text_def)
next
  let ?src = "[SrcItem (Inr ''[{}''), SrcItem (Inr '',{''), SrcItem (Inr '':'')]"
  let ?cs = "[''[{}'', '',{'', '':'']"
  have ok: "src_items ?src = map Inr ?cs" "array_ok [] [([], [])]" "gap '',''"
    by (simp_all add: array_ok_def gap_def object_ok_def)
  have "object_ok [Plain CHR '':''] \<and> strict_prefix ''{:'' (object_text [Plain CHR '':''])
      \<and> concat ?cs = array_head [] [([], [])] @ '','' @ ''{:''"
    by (simp add: array_head_def object_text_def object_ok_def strict_prefix_def)
  from conjunct2 [OF gemini_scan_array [OF ok, of "\<lambda>t. Inr (length t)"], rule_format, OF this]
  show "\<exists>msg. into_response_stream (\<lambda>t. Inr (length t)) ?src = [Inr 2, Inl (SE_Decode msg)]"
    by (simp add: decode_object_def object_text_def numeral_2_eq_2)
qed

end
