(* ===== verification/Lifecycle.thy ===== *)
theory Lifecycle
  imports Emitter
begin

text \<open>
  The canonical lifecycle contract: the validator of \<open>protocol-tests/src/lifecycle.rs\<close> that
  every \<open>CanonicalStream\<close> must satisfy, as an executable function, and the interface through
  which the stream parsers are proved to satisfy it. A panic of the validator is the value
  \<open>Inl (i, rule)\<close>: the index of the offending event and the violated rule.
\<close>

section \<open>The validator\<close>

datatype lifecycle_rule =
  Rule1a | Rule1b | Rule1c | Rule1d | Rule2 | Rule3 | Rule4 | Rule5 | Rule6 | Rule7 | Rule8

record StrictRules =
  require_message_start_before_blocks :: bool
  require_single_start :: bool
  require_response_stop_last :: bool

definition strict_default :: StrictRules where
  "strict_default = \<lparr>require_message_start_before_blocks = True, require_single_start = True,
     require_response_stop_last = True\<rparr>"

record ValidatorState =
  seen_response_start :: bool
  seen_message_start :: bool
  seen_message_stop :: bool
  seen_response_stop :: bool
  open_blocks :: "(u32 \<times> ContentBlockKind) list"
  tool_stopped :: "u32 set"
  closed_indices :: "u32 set"
  terminated_by_error :: bool

definition validator_init :: ValidatorState where
  "validator_init = \<lparr>seen_response_start = False, seen_message_start = False,
     seen_message_stop = False, seen_response_stop = False, open_blocks = [],
     tool_stopped = {}, closed_indices = {}, terminated_by_error = False\<rparr>"

type_synonym vresult = "lifecycle_rule + ValidatorState"

definition check_post_message_stop :: "ValidatorState \<Rightarrow> vresult \<Rightarrow> vresult" where
  "check_post_message_stop st k = (if seen_message_stop st then Inl Rule3 else k)"

definition check_post_response_stop :: "StrictRules \<Rightarrow> ValidatorState \<Rightarrow> vresult \<Rightarrow> vresult" where
  "check_post_response_stop strict st k =
     (if require_response_stop_last strict \<and> seen_response_stop st then Inl Rule8 else k)"

definition check_delta_kind :: "ValidatorState \<Rightarrow> u32 \<Rightarrow> ContentBlockKind \<Rightarrow> vresult \<Rightarrow> vresult" where
  "check_delta_kind st index expected k =
     (case map_of (open_blocks st) index of
        Some kind \<Rightarrow> (if kind = expected then k else Inl Rule5)
      | None \<Rightarrow> Inl Rule5)"

text \<open>The body of the validator's loop for one event.\<close>

fun validator_step :: "StrictRules \<Rightarrow> ValidatorState \<Rightarrow> StreamEvent \<Rightarrow> vresult" where
  "validator_step strict st (ErrorEvent msg) = Inr (st\<lparr>terminated_by_error := True\<rparr>)"
| "validator_step strict st (ResponseStart rid model t) =
     (if seen_response_start st \<and> require_single_start strict then Inl Rule7
      else Inr (st\<lparr>seen_response_start := True\<rparr>))"
| "validator_step strict st (MessageStart role) =
     check_post_message_stop st (check_post_response_stop strict st
       (if seen_message_start st \<and> require_single_start strict then Inl Rule7
        else Inr (st\<lparr>seen_message_start := True\<rparr>)))"
| "validator_step strict st (ContentBlockStart index kind) =
     check_post_message_stop st (check_post_response_stop strict st
       (if require_message_start_before_blocks strict \<and> \<not> seen_message_start st then Inl Rule6
        else if map_of (open_blocks st) index \<noteq> None then Inl Rule1a
        else if index \<in> closed_indices st then Inl Rule1b
        else Inr (st\<lparr>open_blocks := AList.update index kind (open_blocks st)\<rparr>)))"
| "validator_step strict st (ContentBlockStop index) =
     check_post_message_stop st (check_post_response_stop strict st
       (case map_of (open_blocks st) index of
          None \<Rightarrow> Inl Rule1c
        | Some kind \<Rightarrow>
            (if kind = KToolCall \<and> index \<notin> tool_stopped st then Inl Rule4
             else Inr (st\<lparr>open_blocks := AList.delete index (open_blocks st),
                         tool_stopped := (if kind = KToolCall then tool_stopped st - {index}
                                          else tool_stopped st),
                         closed_indices := insert index (closed_indices st)\<rparr>))))"
| "validator_step strict st (TextDelta index txt) =
     check_post_message_stop st (check_post_response_stop strict st
       (check_delta_kind st index KText (Inr st)))"
| "validator_step strict st (ReasoningDelta index txt) =
     check_post_message_stop st (check_post_response_stop strict st
       (check_delta_kind st index KReasoning (Inr st)))"
| "validator_step strict st (ToolCallStart index cid name) =
     check_post_message_stop st (check_post_response_stop strict st
       (check_delta_kind st index KToolCall (Inr st)))"
| "validator_step strict st (ToolCallArgumentsDelta index frag) =
     check_post_message_stop st (check_post_response_stop strict st
       (check_delta_kind st index KToolCall (Inr st)))"
| "validator_step strict st (ToolCallStop index) =
     check_post_message_stop st (check_post_response_stop strict st
       (check_delta_kind st index KToolCall
          (Inr (st\<lparr>tool_stopped := insert index (tool_stopped st)\<rparr>))))"
| "validator_step strict st (MessageStop reason sseq) =
     check_post_response_stop strict st
       (if seen_message_stop st \<and> require_single_start strict then Inl Rule7
        else Inr (st\<lparr>seen_message_stop := True\<rparr>))"
| "validator_step strict st (ResponseStop usage) =
     (if \<not> seen_message_stop st then Inl Rule2
      else if seen_response_stop st \<and> require_single_start strict then Inl Rule7
      else Inr (st\<lparr>seen_response_stop := True\<rparr>))"
| "validator_step strict st (UsageDelta usage) = check_post_response_stop strict st (Inr st)"
| "validator_step strict st (RawEvent ev) = check_post_response_stop strict st (Inr st)"

text \<open>
  The loop. After an \<open>Error\<close> event the next event makes the function return; when the
  \<open>Error\<close> is the last event the loop ends and the final check of rule 1d still runs.
\<close>

fun lifecycle_loop :: "StrictRules \<Rightarrow> nat \<Rightarrow> ValidatorState \<Rightarrow> StreamEvent list
    \<Rightarrow> nat \<times> lifecycle_rule + unit" where
  "lifecycle_loop strict i st [] = (if open_blocks st \<noteq> [] then Inl (i, Rule1d) else Inr ())"
| "lifecycle_loop strict i st (e # es) =
     (if terminated_by_error st then Inr ()
      else case validator_step strict st e of
        Inl r \<Rightarrow> Inl (i, r)
      | Inr st' \<Rightarrow> lifecycle_loop strict (Suc i) st' es)"

definition assert_canonical_lifecycle_strict :: "StreamEvent list \<Rightarrow> StrictRules
    \<Rightarrow> nat \<times> lifecycle_rule + unit" where
  "assert_canonical_lifecycle_strict es strict = lifecycle_loop strict 0 validator_init es"

definition assert_canonical_lifecycle :: "StreamEvent list \<Rightarrow> nat \<times> lifecycle_rule + unit" where
  "assert_canonical_lifecycle es = assert_canonical_lifecycle_strict es strict_default"

section \<open>Running the validator over parts of a stream\<close>

text \<open>
  \<open>vrun\<close> is the loop without the final check, so that it composes over concatenation. Once
  an error has terminated validation and a further event arrives the verdict is settled; the
  run then forgets the open blocks.
\<close>

fun vrun :: "ValidatorState \<Rightarrow> StreamEvent list \<Rightarrow> ValidatorState option" where
  "vrun st [] = Some st"
| "vrun st (e # es) =
     (if terminated_by_error st then vrun (st\<lparr>open_blocks := []\<rparr>) es
      else case validator_step strict_default st e of
        Inl r \<Rightarrow> None
      | Inr st' \<Rightarrow> vrun st' es)"

definition validates :: "ValidatorState \<Rightarrow> StreamEvent list \<Rightarrow> bool" where
  "validates st es \<longleftrightarrow> (\<exists>st'. vrun st es = Some st' \<and> open_blocks st' = [])"

lemma vrun_append: "vrun st (es @ fs) = Option.bind (vrun st es) (\<lambda>st'. vrun st' fs)"
  by (induction st es rule: vrun.induct) (auto split: sum.splits)

lemma vrun_appendI: "vrun st es = Some st' \<Longrightarrow> vrun st' fs = Some st'' \<Longrightarrow> vrun st (es @ fs) = Some st''"
  by (simp add: vrun_append)

lemma validates_append: "vrun st es = Some st' \<Longrightarrow> validates st' fs \<Longrightarrow> validates st (es @ fs)"
  by (auto simp: validates_def vrun_append)

lemma vrun_terminated:
  "terminated_by_error st \<Longrightarrow>
     vrun st es = Some (if es = [] then st else st\<lparr>open_blocks := []\<rparr>)"
  by (induction es arbitrary: st) auto

lemma validates_lifecycle_loop:
  "validates st es \<Longrightarrow> lifecycle_loop strict_default i st es = Inr ()"
proof (induction es arbitrary: st i)
  case Nil
  then show ?case by (simp add: validates_def)
next
  case (Cons e es)
  then show ?case by (auto simp: validates_def split: if_splits sum.splits)
qed

lemma validates_assert:
  "validates validator_init es \<Longrightarrow> assert_canonical_lifecycle es = Inr ()"
  by (simp add: assert_canonical_lifecycle_def assert_canonical_lifecycle_strict_def
      validates_lifecycle_loop)

lemma lifecycle_loop_vrun:
  "vrun st es = Some st' \<Longrightarrow> \<not> terminated_by_error st' \<Longrightarrow>
     lifecycle_loop strict_default i st es = lifecycle_loop strict_default (i + length es) st' []"
proof (induction es arbitrary: st i)
  case (Cons e es)
  have "\<not> terminated_by_error st"
    using Cons.prems vrun_terminated [of st "e # es"] by auto
  with Cons show ?case by (auto split: sum.splits)
qed simp

lemma assert_of_vrun:
  "vrun validator_init es = Some v \<Longrightarrow> \<not> terminated_by_error v \<Longrightarrow>
     assert_canonical_lifecycle es = (if open_blocks v = [] then Inr () else Inl (length es, Rule1d))"
  using lifecycle_loop_vrun [of validator_init es v 0]
  by (simp add: assert_canonical_lifecycle_def assert_canonical_lifecycle_strict_def)

lemmas validator_checks = check_post_message_stop_def check_post_response_stop_def
  check_delta_kind_def strict_default_def

section \<open>What an accepted stream looks like\<close>

fun block_starts :: "StreamEvent list \<Rightarrow> u32 list" where
  "block_starts [] = []"
| "block_starts (ContentBlockStart i k # es) = i # block_starts es"
| "block_starts (_ # es) = block_starts es"

fun block_stops :: "StreamEvent list \<Rightarrow> u32 list" where
  "block_stops [] = []"
| "block_stops (ContentBlockStop i # es) = i # block_stops es"
| "block_stops (_ # es) = block_stops es"

text \<open>The block an event belongs to, and the kind that block must have.\<close>

fun belongs_to :: "StreamEvent \<Rightarrow> (u32 \<times> ContentBlockKind) option" where
  "belongs_to (TextDelta i t) = Some (i, KText)"
| "belongs_to (ReasoningDelta i t) = Some (i, KReasoning)"
| "belongs_to (ToolCallStart i c n) = Some (i, KToolCall)"
| "belongs_to (ToolCallArgumentsDelta i f) = Some (i, KToolCall)"
| "belongs_to (ToolCallStop i) = Some (i, KToolCall)"
| "belongs_to _ = None"

definition error_free :: "StreamEvent list \<Rightarrow> bool" where
  "error_free es \<longleftrightarrow> (\<forall>e \<in> set es. case e of ErrorEvent m \<Rightarrow> False | _ \<Rightarrow> True)"

lemma block_starts_append [simp]: "block_starts (es @ fs) = block_starts es @ block_starts fs"
  by (induction es rule: block_starts.induct) simp_all

lemma block_stops_append [simp]: "block_stops (es @ fs) = block_stops es @ block_stops fs"
  by (induction es rule: block_stops.induct) simp_all

lemma in_block_starts: "i \<in> set (block_starts es) \<longleftrightarrow> (\<exists>k. ContentBlockStart i k \<in> set es)"
  by (induction es rule: block_starts.induct) auto

lemma in_block_stops: "i \<in> set (block_stops es) \<longleftrightarrow> ContentBlockStop i \<in> set es"
  by (induction es rule: block_stops.induct) auto

definition accepted_prefix :: "StreamEvent list \<Rightarrow> ValidatorState \<Rightarrow> bool" where
  "accepted_prefix pre v \<longleftrightarrow> \<not> terminated_by_error v
     \<and> (\<forall>i k. map_of (open_blocks v) i = Some k \<longleftrightarrow>
            ContentBlockStart i k \<in> set pre \<and> ContentBlockStop i \<notin> set pre)
     \<and> closed_indices v = {i. ContentBlockStop i \<in> set pre}
     \<and> tool_stopped v \<subseteq> {i. ToolCallStop i \<in> set pre}
     \<and> (seen_message_stop v \<longleftrightarrow> (\<exists>r q. MessageStop r q \<in> set pre))
     \<and> distinct (block_starts pre) \<and> distinct (block_stops pre)
     \<and> set (block_stops pre) \<subseteq> set (block_starts pre)"

lemma accepted_prefix_step:
  assumes "accepted_prefix pre v" "validator_step strict_default v e = Inr v'" "error_free [e]"
  shows "accepted_prefix (pre @ [e]) v'"
  using assms
  by (cases e)
    (auto simp: accepted_prefix_def validator_checks error_free_def in_block_starts in_block_stops
      split: if_splits option.splits)

lemma accepted_loop:
  "lifecycle_loop strict_default i v (a @ b) = Inr () \<Longrightarrow> error_free a \<Longrightarrow> accepted_prefix pre v \<Longrightarrow>
     \<exists>v' j. accepted_prefix (pre @ a) v' \<and> lifecycle_loop strict_default j v' b = Inr ()"
proof (induction a arbitrary: i v pre)
  case (Cons e a)
  have "\<not> terminated_by_error v" "error_free [e]" "error_free a"
    using Cons.prems by (auto simp: accepted_prefix_def error_free_def)
  with Cons.prems obtain v1 where "validator_step strict_default v e = Inr v1"
      "lifecycle_loop strict_default (Suc i) v1 (a @ b) = Inr ()"
    by (auto split: sum.splits)
  with Cons.IH [of "Suc i" v1 "pre @ [e]"] Cons.prems(3) \<open>error_free [e]\<close> \<open>error_free a\<close>
  show ?case by (auto dest: accepted_prefix_step)
qed auto

lemma accepted_event:
  assumes "accepted_prefix pre v" "lifecycle_loop strict_default j v (e # post) = Inr ()"
  shows "(\<forall>i k. belongs_to e = Some (i, k) \<longrightarrow> ContentBlockStart i k \<in> set pre \<and> ContentBlockStop i \<notin> set pre)
    \<and> (\<forall>i. e = ContentBlockStop i \<and> ContentBlockStart i KToolCall \<in> set pre \<longrightarrow> ToolCallStop i \<in> set pre)
    \<and> (\<forall>u. e = ResponseStop u \<longrightarrow> (\<exists>r q. MessageStop r q \<in> set pre))"
proof -
  have tool: "map_of (open_blocks v) i = Some KToolCall"
    if "ContentBlockStart i KToolCall \<in> set pre" "ContentBlockStop i \<notin> set pre" for i
    using assms(1) that unfolding accepted_prefix_def by blast
  show ?thesis
  proof (cases e)
    case (ContentBlockStop i)
    have "\<not> terminated_by_error v" using assms(1) by (simp add: accepted_prefix_def)
    with assms(2) ContentBlockStop obtain kind where kind: "map_of (open_blocks v) i = Some kind"
        "kind = KToolCall \<longrightarrow> i \<in> tool_stopped v"
      by (auto simp: validator_checks split: if_splits option.splits)
    then have "ContentBlockStop i \<notin> set pre" "i \<in> tool_stopped v \<longrightarrow> ToolCallStop i \<in> set pre"
      using assms(1) unfolding accepted_prefix_def by blast+
    with ContentBlockStop kind tool [of i] show ?thesis by auto
  qed (use assms in \<open>auto simp: accepted_prefix_def validator_checks
      split: if_splits option.splits sum.splits\<close>)
qed

lemma accepted_after_stop:
  assumes "accepted_prefix pre v" "lifecycle_loop strict_default j v (e # post) = Inr ()" "MessageStop r q \<in> set pre"
  shows "event_payload e = [] \<and> (\<forall>r q. e \<noteq> MessageStop r q)"
proof -
  have "seen_message_stop v" "\<not> terminated_by_error v"
    using assms(1,3) by (auto simp: accepted_prefix_def)
  with assms(2) show ?thesis by (cases e) (auto simp: validator_checks split: if_splits)
qed

text \<open>Nothing happens to a block after its stop.\<close>

definition settled :: "StreamEvent list \<Rightarrow> bool" where
  "settled es \<longleftrightarrow> (\<forall>pre e post i. es = pre @ e # post \<and> (e = ContentBlockStop i \<or> (\<exists>k. belongs_to e = Some (i, k))) \<longrightarrow>
     ContentBlockStop i \<notin> set pre)"

lemma canonical_settled:
  assumes "assert_canonical_lifecycle es = Inr ()" "error_free es"
  shows "settled es"
  unfolding settled_def
proof (intro allI impI)
  fix pre e post i
  assume e: "es = pre @ e # post \<and> (e = ContentBlockStop i \<or> (\<exists>k. belongs_to e = Some (i, k)))"
  have ok: "lifecycle_loop strict_default 0 validator_init es = Inr ()"
    using assms(1) by (simp add: assert_canonical_lifecycle_def assert_canonical_lifecycle_strict_def)
  have init: "accepted_prefix [] validator_init" by (simp add: accepted_prefix_def validator_init_def)
  have "error_free pre" using assms(2) e by (simp add: error_free_def)
  then obtain v j where v: "accepted_prefix pre v" "lifecycle_loop strict_default j v (e # post) = Inr ()"
    using accepted_loop [of 0 validator_init pre "e # post" "[]"] ok init e by (auto simp del: lifecycle_loop.simps)
  show "ContentBlockStop i \<notin> set pre"
  proof (cases "e = ContentBlockStop i")
    case True
    have "\<not> terminated_by_error v" using v(1) by (simp add: accepted_prefix_def)
    with v(2) True have "map_of (open_blocks v) i \<noteq> None" by (auto simp: validator_checks split: if_splits option.splits)
    with v(1) show ?thesis unfolding accepted_prefix_def by blast
  next
    case False
    with accepted_event [OF v] e show ?thesis by blast
  qed
qed

lemma settled_snoc:
  "settled (es @ [e]) \<Longrightarrow> settled es \<and> (\<forall>i. e = ContentBlockStop i \<or> (\<exists>k. belongs_to e = Some (i, k)) \<longrightarrow> ContentBlockStop i \<notin> set es)"
  unfolding settled_def by (metis append.assoc append_Cons)

text \<open>C22. What the validator guarantees. In every stream it accepts that carries no error event,
  each block index is started at most once and stopped exactly as often as it was started;
  every delta lies after the start and before the stop of a block of its own kind; a
  tool-call block is stopped only after its tool call; and the response stops after the
  message has stopped.\<close>

theorem lifecycle_well_bracketed:
  assumes "assert_canonical_lifecycle es = Inr ()" "error_free es"
  shows "distinct (block_starts es) \<and> distinct (block_stops es)
     \<and> set (block_stops es) = set (block_starts es)
     \<and> (\<forall>pre e post. es = pre @ e # post \<longrightarrow>
          (\<forall>i k. belongs_to e = Some (i, k) \<longrightarrow> ContentBlockStart i k \<in> set pre \<and> ContentBlockStop i \<notin> set pre)
          \<and> (\<forall>i. e = ContentBlockStop i \<and> ContentBlockStart i KToolCall \<in> set pre \<longrightarrow> ToolCallStop i \<in> set pre)
          \<and> (\<forall>u. e = ResponseStop u \<longrightarrow> (\<exists>r q. MessageStop r q \<in> set pre)))"
proof -
  have ok: "lifecycle_loop strict_default 0 validator_init es = Inr ()"
    using assms(1) by (simp add: assert_canonical_lifecycle_def assert_canonical_lifecycle_strict_def)
  have init: "accepted_prefix [] validator_init" by (simp add: accepted_prefix_def validator_init_def)
  obtain v j where v: "accepted_prefix es v" "lifecycle_loop strict_default j v [] = Inr ()"
    using accepted_loop [of 0 validator_init es "[]" "[]"] ok assms(2) init by auto
  then have "open_blocks v = []" by (simp split: if_splits)
  then have "set (block_starts es) \<subseteq> set (block_stops es)"
    using v(1) by (auto simp: accepted_prefix_def in_block_starts in_block_stops)
  moreover have "belongs_to e = Some (i, k) \<longrightarrow> ContentBlockStart i k \<in> set pre \<and> ContentBlockStop i \<notin> set pre"
      "e = ContentBlockStop i \<and> ContentBlockStart i KToolCall \<in> set pre \<longrightarrow> ToolCallStop i \<in> set pre"
      "e = ResponseStop u \<longrightarrow> (\<exists>r q. MessageStop r q \<in> set pre)"
    if split: "es = pre @ e # post" for pre e post i k u
  proof -
    have "error_free pre" using assms(2) split by (simp add: error_free_def)
    then obtain v j where "accepted_prefix pre v" "lifecycle_loop strict_default j v (e # post) = Inr ()"
      using accepted_loop [of 0 validator_init pre "e # post" "[]"] ok [unfolded split] init
      by (auto simp del: lifecycle_loop.simps)
    from accepted_event [OF this] show
      "belongs_to e = Some (i, k) \<longrightarrow> ContentBlockStart i k \<in> set pre \<and> ContentBlockStop i \<notin> set pre"
      "e = ContentBlockStop i \<and> ContentBlockStart i KToolCall \<in> set pre \<longrightarrow> ToolCallStop i \<in> set pre"
      "e = ResponseStop u \<longrightarrow> (\<exists>r q. MessageStop r q \<in> set pre)" by blast+
  qed
  ultimately show ?thesis using v(1) by (auto simp: accepted_prefix_def)
qed

theorem lifecycle_well_bracketed_witness:
  "assert_canonical_lifecycle [ResponseStart ''r'' ''m'' 0, MessageStart Assistant,
     ContentBlockStart 4 KText, TextDelta 4 ''x'', ContentBlockStop 4, MessageStop EndTurn None,
     ResponseStop None] = Inr ()
   \<and> set (block_stops [ResponseStart ''r'' ''m'' 0, MessageStart Assistant,
     ContentBlockStart 4 KText, TextDelta 4 ''x'', ContentBlockStop 4, MessageStop EndTurn None,
     ResponseStop None]) = set (block_starts [ResponseStart ''r'' ''m'' 0, MessageStart Assistant,
     ContentBlockStart 4 KText, TextDelta 4 ''x'', ContentBlockStop 4, MessageStop EndTurn None,
     ResponseStop None])"
  using lifecycle_well_bracketed [of "[ResponseStart ''r'' ''m'' 0, MessageStart Assistant,
     ContentBlockStart 4 KText, TextDelta 4 ''x'', ContentBlockStop 4, MessageStop EndTurn None,
     ResponseStop None]"]
  by (simp add: assert_canonical_lifecycle_def assert_canonical_lifecycle_strict_def validator_init_def
      validator_checks error_free_def)

text \<open>An \<open>Error\<close> event makes every later event acceptable, but not the end of the stream: when
  blocks are open at an \<open>Error\<close> that is the last event, the validator reports rule 1d.\<close>

theorem error_last_is_checked:
  "assert_canonical_lifecycle [ResponseStart rid model t, MessageStart role, ContentBlockStart i k,
     ErrorEvent msg] = Inl (4, Rule1d)
   \<and> assert_canonical_lifecycle ([ResponseStart rid model t, MessageStart role, ContentBlockStart i k,
     ErrorEvent msg] @ e # es) = Inr ()"
  by (simp add: assert_canonical_lifecycle_def assert_canonical_lifecycle_strict_def validator_init_def
      validator_checks)

section \<open>Emitters that the validator follows\<close>

text \<open>
  \<open>simulates R R' f\<close>: from states related by \<open>R\<close> the validator accepts whatever \<open>f\<close> pushes and
  ends in states related by \<open>R'\<close>.
\<close>

definition simulates :: "('s \<Rightarrow> ValidatorState \<Rightarrow> bool) \<Rightarrow> ('s \<Rightarrow> ValidatorState \<Rightarrow> bool)
    \<Rightarrow> ('s, StreamEvent) emitter \<Rightarrow> bool" where
  "simulates R R' f \<longleftrightarrow>
     (\<forall>s v. R s v \<longrightarrow> (\<exists>v'. vrun v (snd (f s)) = Some v' \<and> R' (fst (f s)) v'))"

lemma simulatesI:
  "(\<And>s v. R s v \<Longrightarrow> \<exists>v'. vrun v (snd (f s)) = Some v' \<and> R' (fst (f s)) v') \<Longrightarrow> simulates R R' f"
  by (simp add: simulates_def)

lemma simulatesD:
  "simulates R R' f \<Longrightarrow> R s v \<Longrightarrow> \<exists>v'. vrun v (snd (f s)) = Some v' \<and> R' (fst (f s)) v'"
  by (simp add: simulates_def)

lemma simulates_skip: "simulates R R emit_skip"
  by (simp add: simulates_def emit_skip_def)

lemma simulates_then: "simulates R R1 f \<Longrightarrow> simulates R1 R2 g \<Longrightarrow> simulates R R2 (emit_then f g)"
  by (fastforce simp: simulates_def emit_then_def Let_def case_prod_unfold intro: vrun_appendI)

lemma simulates_block_Nil: "simulates R R (emit_block [])"
  by (simp add: simulates_skip)

lemma simulates_block_Cons:
  "simulates R R1 f \<Longrightarrow> simulates R1 R2 (emit_block fs) \<Longrightarrow> simulates R R2 (emit_block (f # fs))"
  by (simp add: simulates_then)

lemma simulates_when:
  "simulates (\<lambda>s v. R s v \<and> c s) R' f \<Longrightarrow> (\<And>s v. R s v \<Longrightarrow> \<not> c s \<Longrightarrow> R' s v)
     \<Longrightarrow> simulates R R' (emit_when c f)"
  by (simp add: simulates_def emit_when_def)

lemma simulates_for: "(\<And>x. x \<in> set xs \<Longrightarrow> simulates R R (body x)) \<Longrightarrow> simulates R R (emit_for xs body)"
  by (induction xs) (auto intro: simulates_skip simulates_then)

lemma simulates_some:
  "(o' = None \<Longrightarrow> R = R') \<Longrightarrow> (\<And>x. o' = Some x \<Longrightarrow> simulates R R' (body x))
     \<Longrightarrow> simulates R R' (emit_some o' body)"
  by (cases o') (auto intro: simulates_skip)

lemma simulates_conseq:
  "simulates R R' f \<Longrightarrow> (\<And>s v. Q s v \<Longrightarrow> R s v) \<Longrightarrow> (\<And>s v. R' s v \<Longrightarrow> Q' s v) \<Longrightarrow> simulates Q Q' f"
  unfolding simulates_def by blast

text \<open>Closing a set of open tool-call blocks, in any order.\<close>

definition same_flags :: "ValidatorState \<Rightarrow> ValidatorState \<Rightarrow> bool" where
  "same_flags v v' \<longleftrightarrow> seen_response_start v' = seen_response_start v
     \<and> seen_message_start v' = seen_message_start v \<and> seen_message_stop v' = seen_message_stop v
     \<and> seen_response_stop v' = seen_response_stop v
     \<and> terminated_by_error v' = terminated_by_error v"

definition tool_stops :: "u32 list \<Rightarrow> StreamEvent list" where
  "tool_stops xs = concat (map (\<lambda>idx. [ToolCallStop idx, ContentBlockStop idx]) xs)"

lemma payload_of_tool_stops [simp]: "payload_of (tool_stops xs) = []"
  by (induction xs) (simp_all add: tool_stops_def)

lemma vrun_tool_stops:
  assumes "\<not> seen_message_stop v" "\<not> seen_response_stop v" "\<not> terminated_by_error v"
    and "distinct xs" "\<forall>i \<in> set xs. map_of (open_blocks v) i = Some KToolCall"
  shows "\<exists>v'. vrun v (tool_stops xs) = Some v' \<and> same_flags v v'
     \<and> map_of (open_blocks v') = (map_of (open_blocks v)) |` (- set xs)
     \<and> closed_indices v' = closed_indices v \<union> set xs"
  using assms
proof (induction xs arbitrary: v)
  case Nil
  then show ?case by (simp add: tool_stops_def same_flags_def)
next
  case (Cons x xs)
  let ?v = "v\<lparr>open_blocks := AList.delete x (open_blocks v),
      tool_stopped := insert x (tool_stopped v) - {x}, closed_indices := insert x (closed_indices v)\<rparr>"
  obtain v' where v': "vrun ?v (tool_stops xs) = Some v'" "same_flags ?v v'"
      "map_of (open_blocks v') = (map_of (open_blocks ?v)) |` (- set xs)"
      "closed_indices v' = closed_indices ?v \<union> set xs"
  proof -
    have "\<forall>i \<in> set xs. map_of (open_blocks ?v) i = Some KToolCall" using Cons.prems by auto
    with Cons.IH [of ?v] Cons.prems(1-4) show ?thesis by (fastforce intro: that)
  qed
  have "vrun v (tool_stops (x # xs)) = Some v'"
    using v'(1) Cons.prems by (simp add: tool_stops_def validator_checks)
  moreover have "map_of (open_blocks v') = (map_of (open_blocks v)) |` (- set (x # xs))"
    using v'(3) by (auto simp: restrict_map_def fun_eq_iff)
  ultimately show ?case using v'(2,4) by (auto simp: same_flags_def)
qed

text \<open>\<open>quiet\<close>: code that pushes nothing leaves the observed part of its state alone.\<close>

definition quiet :: "('s \<Rightarrow> 'a) \<Rightarrow> ('s, 'e) emitter \<Rightarrow> bool" where
  "quiet obs f \<longleftrightarrow> (\<forall>s. snd (f s) = [] \<longrightarrow> obs (fst (f s)) = obs s)"

lemma quiet_skip [simp]: "quiet obs emit_skip"
  by (simp add: quiet_def emit_skip_def)

lemma quiet_emit [simp]: "quiet obs (emit f)"
  by (simp add: quiet_def emit_def)

lemma quiet_modify: "(\<And>s. obs (f s) = obs s) \<Longrightarrow> quiet obs (modify f)"
  by (simp add: quiet_def modify_def)

lemma quiet_update: "(\<And>s. e s = [] \<Longrightarrow> obs (f s) = obs s) \<Longrightarrow> quiet obs (emit_update f e)"
  by (simp add: quiet_def emit_update_def)

lemma quiet_then: "quiet obs f \<Longrightarrow> quiet obs g \<Longrightarrow> quiet obs (emit_then f g)"
  by (auto simp: quiet_def emit_then_def Let_def case_prod_unfold)

lemma quiet_block: "(\<And>f. f \<in> set fs \<Longrightarrow> quiet obs f) \<Longrightarrow> quiet obs (emit_block fs)"
  by (induction fs) (auto intro: quiet_then)

lemma quiet_for: "(\<And>x. quiet obs (body x)) \<Longrightarrow> quiet obs (emit_for xs body)"
  by (induction xs) (auto intro: quiet_then)

lemma quiet_some: "(\<And>x. quiet obs (body x)) \<Longrightarrow> quiet obs (emit_some o' body)"
  by (cases o') auto

lemma quiet_when: "quiet obs f \<Longrightarrow> quiet obs (emit_when c f)"
  by (simp add: quiet_def emit_when_def)

lemma vrun_quiet_terminated:
  "terminated_by_error v \<Longrightarrow> quiet obs f \<Longrightarrow>
     \<exists>v'. vrun v (snd (f s)) = Some v' \<and> terminated_by_error v'
        \<and> (open_blocks v' = [] \<or> open_blocks v' = open_blocks v \<and> obs (fst (f s)) = obs s)"
  by (auto simp: vrun_terminated quiet_def)

text \<open>The envelope of a message in progress, and the two events that open and close it.\<close>

definition open_envelope :: "ValidatorState \<Rightarrow> bool" where
  "open_envelope v \<longleftrightarrow> seen_response_start v \<and> seen_message_start v \<and> \<not> seen_message_stop v
     \<and> \<not> seen_response_stop v \<and> \<not> terminated_by_error v"

definition envelope_opened :: ValidatorState where
  "envelope_opened = validator_init\<lparr>seen_response_start := True, seen_message_start := True\<rparr>"

lemma vrun_open_envelope [simp]:
  "vrun validator_init [ResponseStart rid model t, MessageStart role] = Some envelope_opened"
  by (simp add: envelope_opened_def validator_init_def validator_checks)

lemma validates_close_envelope:
  "open_envelope v \<Longrightarrow> open_blocks v = [] \<Longrightarrow> validates v [MessageStop r sq, ResponseStop u]"
  by (simp add: validates_def open_envelope_def validator_checks)

lemma envelope_assert:
  "validates envelope_opened es \<Longrightarrow>
     assert_canonical_lifecycle (ResponseStart rid model t # MessageStart role # es) = Inr ()"
  using validates_append [OF vrun_open_envelope] by (simp add: validates_assert)

text \<open>Every index used so far lies below \<open>n\<close>.\<close>

definition used_below :: "ValidatorState \<Rightarrow> u32 \<Rightarrow> bool" where
  "used_below v n \<longleftrightarrow> (\<forall>i. map_of (open_blocks v) i \<noteq> None \<or> i \<in> closed_indices v \<longrightarrow> unat i < unat n)"

lemma used_below_fresh:
  "used_below v n \<Longrightarrow> n \<notin> closed_indices v \<and> map_of (open_blocks v) n = None"
  unfolding used_below_def by (metis less_irrefl not_None_eq)

lemma used_below_Suc: "used_below v n \<Longrightarrow> Suc (unat n) < 2 ^ 32 \<Longrightarrow> used_below v (n + 1)"
  by (auto simp: used_below_def unat_Suc_u32 less_Suc_eq)

lemmas quiet_intros = quiet_skip quiet_emit quiet_modify quiet_update quiet_then quiet_for quiet_some
  quiet_when

section \<open>The interface of a stream producer\<close>

text \<open>
  A producer reads inputs with \<open>step\<close>. Its upstream is described by a
  contract automaton: \<open>accept c i\<close> is the contract state after input \<open>i\<close>, or \<open>None\<close> when the
  upstream breaks its protocol. \<open>R\<close> relates the contract, the producer and the validator. The
  laws say that it starts related and that one admissible input keeps the relation; the
  consequence is that the validator follows it over every admissible input.
\<close>

fun accepts :: "('c \<Rightarrow> 'i \<Rightarrow> 'c option) \<Rightarrow> 'c \<Rightarrow> 'i list \<Rightarrow> bool" where
  "accepts acc c [] = True"
| "accepts acc c (i # is) = (case acc c i of None \<Rightarrow> False | Some c' \<Rightarrow> accepts acc c' is)"

fun accept_all :: "('x \<Rightarrow> 'c \<Rightarrow> 'c option) \<Rightarrow> 'x list \<Rightarrow> 'c \<Rightarrow> 'c option" where
  "accept_all f [] c = Some c"
| "accept_all f (x # xs) c = Option.bind (f x c) (accept_all f xs)"

lemma simulates_accept_all:
  assumes "\<And>x c c'. f x c = Some c' \<Longrightarrow> simulates (R c) (R c') (body x)"
  shows "accept_all f xs c = Some c' \<Longrightarrow> simulates (R c) (R c') (emit_for xs body)"
proof (induction xs arbitrary: c)
  case (Cons x xs)
  then obtain c1 where c1: "f x c = Some c1" "accept_all f xs c1 = Some c'"
    by (auto simp: bind_eq_Some_conv)
  show ?case
    using simulates_then [OF assms [OF c1(1)] Cons.IH [OF c1(2)]] by simp
qed (simp add: simulates_skip)

fun contract_run :: "('c \<Rightarrow> 'i \<Rightarrow> 'c option) \<Rightarrow> 'c \<Rightarrow> 'i list \<Rightarrow> 'c option" where
  "contract_run acc c [] = Some c"
| "contract_run acc c (i # is) = Option.bind (acc c i) (\<lambda>c'. contract_run acc c' is)"

lemma accepts_run: "accepts acc c is \<longleftrightarrow> contract_run acc c is \<noteq> None"
  by (induction "is" arbitrary: c) (auto split: option.split)

locale lifecycle_follower =
  fixes step :: "'s \<Rightarrow> 'i \<Rightarrow> 's \<times> StreamEvent list"
    and start :: 's
    and acc :: "'c \<Rightarrow> 'i \<Rightarrow> 'c option"
    and contract0 :: 'c
    and R :: "'c \<Rightarrow> 's \<Rightarrow> ValidatorState \<Rightarrow> bool"
    and v0 :: ValidatorState
  assumes start_related: "R contract0 start v0"
    and step_related: "acc c i = Some c' \<Longrightarrow> simulates (R c) (R c') (\<lambda>s. step s i)"
begin

lemma run_follows:
  "contract_run acc c is = Some c' \<Longrightarrow> R c s v \<Longrightarrow>
     \<exists>v'. vrun v (snd (run_steps step s is)) = Some v' \<and> R c' (fst (run_steps step s is)) v'"
proof (induction "is" arbitrary: c s v)
  case (Cons i "is")
  then obtain c1 where c1: "acc c i = Some c1" "contract_run acc c1 is = Some c'"
    by (auto simp: bind_eq_Some_conv)
  with Cons.prems obtain v1 where v1: "vrun v (snd (step s i)) = Some v1" "R c1 (fst (step s i)) v1"
    using simulatesD [OF step_related] by blast
  from Cons.IH [OF c1(2) v1(2)] v1(1) show ?case
    by (auto simp: Let_def case_prod_unfold intro: vrun_appendI)
qed simp

lemma follows:
  "contract_run acc contract0 is = Some c' \<Longrightarrow>
     \<exists>v'. vrun v0 (snd (run_steps step start is)) = Some v' \<and> R c' (fst (run_steps step start is)) v'"
  using run_follows start_related by blast

end

text \<open>A producer that closes what it left open: whatever the contract state, its stream is canonical.\<close>

locale lifecycle_producer = lifecycle_follower step start acc contract0 R v0
  for step :: "'s \<Rightarrow> 'i \<Rightarrow> 's \<times> StreamEvent list"
    and start :: 's
    and acc :: "'c \<Rightarrow> 'i \<Rightarrow> 'c option"
    and contract0 :: 'c
    and R :: "'c \<Rightarrow> 's \<Rightarrow> ValidatorState \<Rightarrow> bool"
    and v0 :: ValidatorState +
  fixes fin :: "'s \<Rightarrow> 's \<times> StreamEvent list"
  assumes fin_closes: "R c s v \<Longrightarrow> validates v (snd (fin s))"
begin

lemma produces_canonical:
  assumes "accepts acc contract0 is"
  shows "validates v0 (run_to_end step fin start is)"
proof -
  from assms obtain c' where "contract_run acc contract0 is = Some c'" by (auto simp: accepts_run)
  from follows [OF this] obtain v' where v': "vrun v0 (snd (run_steps step start is)) = Some v'"
    "R c' (fst (run_steps step start is)) v'" by blast
  from validates_append [OF v'(1) fin_closes [OF v'(2)]]
  show ?thesis by (simp add: run_to_end_def Let_def case_prod_unfold)
qed

end

end
