(* ===== verification/Serde.thy ===== *)
theory Serde
  imports Json
begin

text \<open>
  How \<open>serde\<close>'s derived \<open>Deserialize\<close> reads a struct or an internally tagged enum from a JSON object:
  a required field must be present and of its type, \<open>#[serde(default)]\<close> only excuses an absent field,
  an \<open>Option\<close> is \<open>None\<close> when it is absent or null, unknown fields are ignored, and an integer must fit
  its width. \<open>None\<close> is a deserialization error. (\<open>serde\<close> also reads a struct from a JSON array of its
  fields, a form none of the wire formats uses; it is an error here.)
\<close>

definition de_u32 :: "json \<Rightarrow> u32 option" where
  "de_u32 v = Option.bind (as_u64 v) (\<lambda>n. if n < 4294967296 then Some (as_u32 n) else None)"

fun as_bool :: "json \<Rightarrow> bool option" where
  "as_bool (JBool b) = Some b"
| "as_bool _ = None"

text \<open>\<open>i64\<close>: a positive number must stay below \<open>2^63\<close>; a negative one is stored as such.\<close>

fun de_i64 :: "json \<Rightarrow> int option" where
  "de_i64 (JPosInt n) = (if uint n < 2 ^ 63 then Some (uint n) else None)"
| "de_i64 (JNegInt n) = Some n"
| "de_i64 _ = None"

definition de_array :: "(json \<Rightarrow> 'a option) \<Rightarrow> json \<Rightarrow> 'a list option" where
  "de_array f v = Option.bind (as_array v) (\<lambda>xs. those (map f xs))"

definition de_object :: "json \<Rightarrow> json option" where
  "de_object v = (case v of JObject kvs \<Rightarrow> Some v | _ \<Rightarrow> None)"

definition de_field :: "json \<Rightarrow> string \<Rightarrow> (json \<Rightarrow> 'a option) \<Rightarrow> 'a option" where
  "de_field v k f = Option.bind (jget v k) f"

definition de_default :: "json \<Rightarrow> string \<Rightarrow> 'a \<Rightarrow> (json \<Rightarrow> 'a option) \<Rightarrow> 'a option" where
  "de_default v k d f = (case jget v k of None \<Rightarrow> Some d | Some x \<Rightarrow> f x)"

definition de_option :: "json \<Rightarrow> string \<Rightarrow> (json \<Rightarrow> 'a option) \<Rightarrow> 'a option option" where
  "de_option v k f =
     (case jget v k of None \<Rightarrow> Some None | Some x \<Rightarrow> (if is_null x then Some None else map_option Some (f x)))"

text \<open>\<open>#[serde(skip_serializing_if = "Option::is_none")]\<close>, and integers, on the writing side.\<close>

definition opt_member :: "string \<Rightarrow> ('a \<Rightarrow> json) \<Rightarrow> 'a option \<Rightarrow> (string \<times> json) list" where
  "opt_member k f o' = (case o' of None \<Rightarrow> [] | Some x \<Rightarrow> [(k, f x)])"

definition json_u32 :: "u32 \<Rightarrow> json" where
  "json_u32 n = JPosInt (ucast n)"

lemma opt_member_simps [simp]: "opt_member k f None = []" "opt_member k f (Some x) = [(k, f x)]"
  by (simp_all add: opt_member_def)

lemma as_u32_ucast [simp]: "as_u32 (ucast (n :: u32)) = n"
  by (simp add: as_u32_def unsigned_ucast_eq take_bit_word_eq_self)

lemma is_null_json_u32 [simp]: "\<not> is_null (json_u32 n)"
  by (simp add: json_u32_def)

lemma de_u32_json [simp]: "de_u32 (json_u32 n) = Some n"
proof -
  have "unat n < 2 ^ 32" using unsigned_less [of n, where ?'a = nat] by simp
  moreover from this have "take_bit 64 (unat n) = unat n" by (intro take_bit_nat_eq_self) simp
  ultimately have "(ucast n :: u64) < 4294967296" by (simp add: word_less_nat_alt unsigned_ucast_eq)
  then show ?thesis by (simp add: de_u32_def json_u32_def)
qed

lemma map_filter_append [simp]: "List.map_filter f (xs @ ys) = List.map_filter f xs @ List.map_filter f ys"
  by (simp add: List.map_filter_def)

lemmas de_defs = de_object_def de_field_def de_default_def de_option_def

end
