(* ===== verification/Gemini.thy ===== *)
theory Gemini
  imports Gemini_Scanner Lifecycle Serde
begin

text \<open>
  The Gemini provider's response side: the response types of \<open>providers/src/gemini/wire.rs\<close>, the stream
  parser and the unary parser of \<open>response.rs\<close>, and the adapter of \<open>mod.rs\<close> that turns a unary response
  into a stream. Parameters: the JSON reader with the text of its shape errors, the JSON writer
  \<open>to_string\<close>, the base64 decoder, the clock, the generated response id, and the generated tool-call
  ids (\<open>mint i\<close> for the block with index \<open>i\<close>). An \<open>i64\<close> is an integer; \<open>as u32\<close> keeps its low bits.
\<close>

section \<open>Response wire types\<close>

record InlineData =
  id_mime_type :: string
  id_data :: string

record FileData =
  fd_mime_type :: string
  fd_file_uri :: string

record FunctionCall =
  fc_name :: string
  fc_args :: "json option"
  fc_id :: "string option"

record FunctionResponse =
  fr_name :: string
  fr_response :: json
  fr_id :: "string option"

record Part =
  pt_text :: "string option"
  pt_thought :: "bool option"
  pt_inline_data :: "InlineData option"
  pt_file_data :: "FileData option"
  pt_function_call :: "FunctionCall option"
  pt_function_response :: "FunctionResponse option"

record Content =
  cn_role :: string
  cn_parts :: "Part list"

record WireSafetyRating =
  ws_category :: string
  ws_probability :: string
  ws_blocked :: "bool option"

record Candidate =
  cd_content :: Content
  cd_finish_reason :: "string option"
  cd_safety_ratings :: "WireSafetyRating list"
  cd_index :: "int option"
  cd_citation_metadata :: "json option"

record PromptFeedback =
  pf_block_reason :: "string option"
  pf_safety_ratings :: "WireSafetyRating list"

record UsageMetadata =
  um_prompt_token_count :: "int option"
  um_candidates_token_count :: "int option"
  um_total_token_count :: "int option"
  um_thoughts_token_count :: "int option"

record GenerateContentResponse =
  gr_candidates :: "Candidate list"
  gr_prompt_feedback :: "PromptFeedback option"
  gr_usage_metadata :: "UsageMetadata option"

definition de_inline_data :: "json \<Rightarrow> InlineData option" where
  "de_inline_data v = Option.bind (de_field v ''mimeType'' as_str) (\<lambda>m.
     Option.bind (de_field v ''data'' as_str) (\<lambda>d. Some \<lparr>id_mime_type = m, id_data = d\<rparr>))"

definition de_file_data :: "json \<Rightarrow> FileData option" where
  "de_file_data v = Option.bind (de_field v ''mimeType'' as_str) (\<lambda>m.
     Option.bind (de_field v ''fileUri'' as_str) (\<lambda>u. Some \<lparr>fd_mime_type = m, fd_file_uri = u\<rparr>))"

definition de_function_call :: "json \<Rightarrow> FunctionCall option" where
  "de_function_call v = Option.bind (de_field v ''name'' as_str) (\<lambda>n.
     Option.bind (de_option v ''args'' Some) (\<lambda>a.
     Option.bind (de_option v ''id'' as_str) (\<lambda>i. Some \<lparr>fc_name = n, fc_args = a, fc_id = i\<rparr>)))"

definition de_function_response :: "json \<Rightarrow> FunctionResponse option" where
  "de_function_response v = Option.bind (de_field v ''name'' as_str) (\<lambda>n.
     Option.bind (de_field v ''response'' Some) (\<lambda>r.
     Option.bind (de_option v ''id'' as_str) (\<lambda>i. Some \<lparr>fr_name = n, fr_response = r, fr_id = i\<rparr>)))"

definition de_part :: "json \<Rightarrow> Part option" where
  "de_part v = Option.bind (de_object v) (\<lambda>_.
     Option.bind (de_option v ''text'' as_str) (\<lambda>t.
     Option.bind (de_option v ''thought'' as_bool) (\<lambda>th.
     Option.bind (de_option v ''inlineData'' de_inline_data) (\<lambda>i.
     Option.bind (de_option v ''fileData'' de_file_data) (\<lambda>f.
     Option.bind (de_option v ''functionCall'' de_function_call) (\<lambda>c.
     Option.bind (de_option v ''functionResponse'' de_function_response) (\<lambda>r.
       Some \<lparr>pt_text = t, pt_thought = th, pt_inline_data = i, pt_file_data = f, pt_function_call = c,
             pt_function_response = r\<rparr>)))))))"

definition de_content :: "json \<Rightarrow> Content option" where
  "de_content v = Option.bind (de_field v ''role'' as_str) (\<lambda>r.
     Option.bind (de_field v ''parts'' (de_array de_part)) (\<lambda>ps. Some \<lparr>cn_role = r, cn_parts = ps\<rparr>))"

definition de_safety_rating :: "json \<Rightarrow> WireSafetyRating option" where
  "de_safety_rating v = Option.bind (de_field v ''category'' as_str) (\<lambda>c.
     Option.bind (de_field v ''probability'' as_str) (\<lambda>p.
     Option.bind (de_option v ''blocked'' as_bool) (\<lambda>b.
       Some \<lparr>ws_category = c, ws_probability = p, ws_blocked = b\<rparr>)))"

definition de_candidate :: "json \<Rightarrow> Candidate option" where
  "de_candidate v = Option.bind (de_field v ''content'' de_content) (\<lambda>c.
     Option.bind (de_option v ''finishReason'' as_str) (\<lambda>f.
     Option.bind (de_default v ''safetyRatings'' [] (de_array de_safety_rating)) (\<lambda>s.
     Option.bind (de_option v ''index'' de_i64) (\<lambda>i.
     Option.bind (de_option v ''citationMetadata'' Some) (\<lambda>m.
       Some \<lparr>cd_content = c, cd_finish_reason = f, cd_safety_ratings = s, cd_index = i,
             cd_citation_metadata = m\<rparr>)))))"

definition de_prompt_feedback :: "json \<Rightarrow> PromptFeedback option" where
  "de_prompt_feedback v = Option.bind (de_object v) (\<lambda>_.
     Option.bind (de_option v ''blockReason'' as_str) (\<lambda>b.
     Option.bind (de_default v ''safetyRatings'' [] (de_array de_safety_rating)) (\<lambda>s.
       Some \<lparr>pf_block_reason = b, pf_safety_ratings = s\<rparr>)))"

definition de_usage_metadata :: "json \<Rightarrow> UsageMetadata option" where
  "de_usage_metadata v = Option.bind (de_object v) (\<lambda>_.
     Option.bind (de_option v ''promptTokenCount'' de_i64) (\<lambda>p.
     Option.bind (de_option v ''candidatesTokenCount'' de_i64) (\<lambda>c.
     Option.bind (de_option v ''totalTokenCount'' de_i64) (\<lambda>t.
     Option.bind (de_option v ''thoughtsTokenCount'' de_i64) (\<lambda>th.
       Some \<lparr>um_prompt_token_count = p, um_candidates_token_count = c, um_total_token_count = t,
             um_thoughts_token_count = th\<rparr>)))))"

definition de_response :: "json \<Rightarrow> GenerateContentResponse option" where
  "de_response v = Option.bind (de_object v) (\<lambda>_.
     Option.bind (de_default v ''candidates'' [] (de_array de_candidate)) (\<lambda>c.
     Option.bind (de_option v ''promptFeedback'' de_prompt_feedback) (\<lambda>p.
     Option.bind (de_option v ''usageMetadata'' de_usage_metadata) (\<lambda>u.
       Some \<lparr>gr_candidates = c, gr_prompt_feedback = p, gr_usage_metadata = u\<rparr>))))"

definition read_response :: "(string \<Rightarrow> string + json) \<Rightarrow> (json \<Rightarrow> string) \<Rightarrow> string \<Rightarrow> string + GenerateContentResponse" where
  "read_response from_slice shape_error data =
     (case from_slice data of
        Inl e \<Rightarrow> Inl e
      | Inr v \<Rightarrow> (case de_response v of None \<Rightarrow> Inl (shape_error v) | Some r \<Rightarrow> Inr r))"

section \<open>Shared helpers\<close>

definition map_finish_reason :: "string option \<Rightarrow> bool \<Rightarrow> StopReason" where
  "map_finish_reason reason has_tool_call =
     (if has_tool_call then ToolUse
      else case reason of
        None \<Rightarrow> EndTurn
      | Some r \<Rightarrow> (if r = ''STOP'' then EndTurn
                   else if r = ''MAX_TOKENS'' then MaxTokens
                   else if r = ''SAFETY'' then ContentFilter
                   else if r = ''RECITATION'' then ContentFilter
                   else OtherStop r))"

definition count_as_u32 :: "int \<Rightarrow> u32" where
  "count_as_u32 n = of_int (max n 0)"

definition usage_metadata_to_usage :: "UsageMetadata \<Rightarrow> Usage" where
  "usage_metadata_to_usage meta = usage_default\<lparr>
     input_tokens := map_option count_as_u32 (um_prompt_token_count meta),
     output_tokens := map_option count_as_u32 (um_candidates_token_count meta),
     reasoning_tokens := map_option count_as_u32 (um_thoughts_token_count meta)\<rparr>"

definition wire_to_canonical_safety_ratings :: "WireSafetyRating list \<Rightarrow> SafetyRating list" where
  "wire_to_canonical_safety_ratings rs = map (\<lambda>r. \<lparr>sr_category = safety_category_of_string (ws_category r),
     sr_probability = safety_level_of_string (ws_probability r)\<rparr>) rs"

section \<open>The stream parser\<close>

datatype OpenBlock = OpenText u32 | OpenReasoning u32

record GmStreamState =
  gm_started :: bool
  gm_stopped :: bool
  gm_next_block_index :: u32
  gm_open_block :: "OpenBlock option"
  gm_has_tool_call :: bool
  gm_last_usage :: "UsageMetadata option"
  gm_last_safety_ratings :: "SafetyRating list option"

definition gm_state_new :: GmStreamState where
  "gm_state_new = \<lparr>gm_started = False, gm_stopped = False, gm_next_block_index = 0, gm_open_block = None,
     gm_has_tool_call = False, gm_last_usage = None, gm_last_safety_ratings = None\<rparr>"

type_synonym gm_emitter = "(GmStreamState, StreamEvent) emitter"

fun open_block_index :: "OpenBlock \<Rightarrow> u32" where
  "open_block_index (OpenText i) = i"
| "open_block_index (OpenReasoning i) = i"

definition close_open_block :: gm_emitter where
  "close_open_block = emit_update (gm_open_block_update (\<lambda>_. None))
     (\<lambda>s. case gm_open_block s of None \<Rightarrow> [] | Some b \<Rightarrow> [ContentBlockStop (open_block_index b)])"

text \<open>\<open>alloc_index\<close>: the block gets the current index and the counter moves on.\<close>

definition open_text_block :: gm_emitter where
  "open_text_block = emit_update
     (\<lambda>s. s\<lparr>gm_open_block := Some (OpenText (gm_next_block_index s)), gm_next_block_index := gm_next_block_index s + 1\<rparr>)
     (\<lambda>s. [ContentBlockStart (gm_next_block_index s) KText])"

definition open_reasoning_block :: gm_emitter where
  "open_reasoning_block = emit_update
     (\<lambda>s. s\<lparr>gm_open_block := Some (OpenReasoning (gm_next_block_index s)), gm_next_block_index := gm_next_block_index s + 1\<rparr>)
     (\<lambda>s. [ContentBlockStart (gm_next_block_index s) KReasoning])"

definition ensure_text_block :: gm_emitter where
  "ensure_text_block s =
     (case gm_open_block s of
        Some (OpenText i) \<Rightarrow> (s, [])
      | Some (OpenReasoning i) \<Rightarrow> emit_block [close_open_block, open_text_block] s
      | None \<Rightarrow> open_text_block s)"

definition ensure_reasoning_block :: gm_emitter where
  "ensure_reasoning_block s =
     (case gm_open_block s of
        Some (OpenReasoning i) \<Rightarrow> (s, [])
      | Some (OpenText i) \<Rightarrow> emit_block [close_open_block, open_reasoning_block] s
      | None \<Rightarrow> open_reasoning_block s)"

definition emit_tool_call :: "(json \<Rightarrow> string) \<Rightarrow> (u32 \<Rightarrow> ToolCallId) \<Rightarrow> FunctionCall \<Rightarrow> gm_emitter" where
  "emit_tool_call to_string mint fc = emit_update
     (\<lambda>s. s\<lparr>gm_has_tool_call := True, gm_next_block_index := gm_next_block_index s + 1\<rparr>)
     (\<lambda>s. let index = gm_next_block_index s in
        [ContentBlockStart index KToolCall,
         ToolCallStart index (unwrap_or (fc_id fc) (mint index)) (fc_name fc),
         ToolCallArgumentsDelta index (case fc_args fc of Some v \<Rightarrow> to_string v | None \<Rightarrow> ''{}''),
         ToolCallStop index,
         ContentBlockStop index])"

definition handle_part :: "(json \<Rightarrow> string) \<Rightarrow> (u32 \<Rightarrow> ToolCallId) \<Rightarrow> Part \<Rightarrow> gm_emitter" where
  "handle_part to_string mint part =
     (case pt_function_call part of
        Some fc \<Rightarrow> emit_block [close_open_block, emit_tool_call to_string mint fc]
      | None \<Rightarrow>
          (case pt_text part of
             None \<Rightarrow> emit_skip
           | Some t \<Rightarrow>
               (if pt_thought part = Some True
                then emit_block [ensure_reasoning_block,
                  emit (\<lambda>s. case gm_open_block s of Some (OpenReasoning i) \<Rightarrow> [ReasoningDelta i t] | _ \<Rightarrow> [])]
                else emit_block [ensure_text_block,
                  emit (\<lambda>s. case gm_open_block s of Some (OpenText i) \<Rightarrow> [TextDelta i t] | _ \<Rightarrow> [])])))"

definition gm_final_usage :: "GmStreamState \<Rightarrow> Usage option" where
  "gm_final_usage s =
     (case (map_option usage_metadata_to_usage (gm_last_usage s), gm_last_safety_ratings s) of
        (Some u, Some r) \<Rightarrow> Some (u\<lparr>safety_ratings := Some r\<rparr>)
      | (Some u, None) \<Rightarrow> Some u
      | (None, Some r) \<Rightarrow> Some (usage_default\<lparr>safety_ratings := Some r\<rparr>)
      | (None, None) \<Rightarrow> None)"

text \<open>The closing events; \<open>take_final_usage\<close> empties what it reports.\<close>

definition gm_close :: "(GmStreamState \<Rightarrow> StopReason) \<Rightarrow> gm_emitter" where
  "gm_close reason = emit_block
     [close_open_block,
      emit (\<lambda>s. [MessageStop (reason s) None]),
      emit_update (\<lambda>s. s\<lparr>gm_last_usage := None, gm_last_safety_ratings := None, gm_stopped := True\<rparr>)
        (\<lambda>s. [ResponseStop (gm_final_usage s)])]"

definition gm_start :: "ResponseId \<Rightarrow> string \<Rightarrow> u64 \<Rightarrow> gm_emitter" where
  "gm_start rid model now = emit_when (\<lambda>s. \<not> gm_started s)
     (emit_update (gm_started_update (\<lambda>_. True)) (\<lambda>_. [ResponseStart rid model now, MessageStart Assistant]))"

definition handle_candidate :: "(json \<Rightarrow> string) \<Rightarrow> (u32 \<Rightarrow> ToolCallId) \<Rightarrow> Candidate \<Rightarrow> gm_emitter" where
  "handle_candidate to_string mint candidate = emit_block
     [modify (\<lambda>s. if cd_safety_ratings candidate \<noteq> []
        then s\<lparr>gm_last_safety_ratings := Some (wire_to_canonical_safety_ratings (cd_safety_ratings candidate))\<rparr> else s),
      emit_for (cn_parts (cd_content candidate)) (handle_part to_string mint),
      emit_some (cd_finish_reason candidate)
        (\<lambda>reason. gm_close (\<lambda>s. map_finish_reason (Some reason) (gm_has_tool_call s)))]"

definition gm_handle :: "(json \<Rightarrow> string) \<Rightarrow> (u32 \<Rightarrow> ToolCallId) \<Rightarrow> ResponseId \<Rightarrow> string \<Rightarrow> u64
    \<Rightarrow> GenerateContentResponse \<Rightarrow> gm_emitter" where
  "gm_handle to_string mint rid model now resp = emit_when (\<lambda>s. \<not> gm_stopped s) (emit_block
     [gm_start rid model now,
      modify (\<lambda>s. case gr_usage_metadata resp of None \<Rightarrow> s | Some u \<Rightarrow> s\<lparr>gm_last_usage := Some u\<rparr>),
      (case gr_candidates resp of [] \<Rightarrow> emit_skip | c # _ \<Rightarrow> handle_candidate to_string mint c)])"

definition gm_finalize :: gm_emitter where
  "gm_finalize = emit_when (\<lambda>s. gm_started s \<and> \<not> gm_stopped s)
     (gm_close (\<lambda>s. if gm_has_tool_call s then ToolUse else EndTurn))"

definition gm_handle_input :: "(json \<Rightarrow> string) \<Rightarrow> (u32 \<Rightarrow> ToolCallId) \<Rightarrow> ResponseId \<Rightarrow> string \<Rightarrow> u64
    \<Rightarrow> GmStreamState \<Rightarrow> GenerateContentResponse scan_item \<Rightarrow> GmStreamState \<times> stream_item list" where
  "gm_handle_input to_string mint rid model now s i =
     (case i of
        Inr resp \<Rightarrow> (let (s', evts) = gm_handle to_string mint rid model now resp s in (s', map Inr evts))
      | Inl e \<Rightarrow> (s, [Inl e]))"

definition gm_finalize_items :: "(GmStreamState, stream_item) emitter" where
  "gm_finalize_items s = (let (s', evts) = gm_finalize s in (s', map Inr evts))"

definition parse_streaming :: "(json \<Rightarrow> string) \<Rightarrow> (u32 \<Rightarrow> ToolCallId) \<Rightarrow> ResponseId \<Rightarrow> string \<Rightarrow> u64
    \<Rightarrow> GenerateContentResponse scan_item source_poll list \<Rightarrow> stream_item list" where
  "parse_streaming to_string mint rid model now src =
     poll_drain (gm_handle_input to_string mint rid model now) gm_finalize_items (poll_init src gm_state_new)"

section \<open>The unary parser\<close>

text \<open>The loop of \<open>candidate_to_blocks\<close>: the blocks so far, the text and the reasoning being coalesced, and
  whether a tool call was seen.\<close>

record block_acc =
  ba_blocks :: "ContentBlock list"
  ba_text :: "string option"
  ba_reasoning :: "string option"
  ba_has_tool_call :: bool

definition flush_text :: "block_acc \<Rightarrow> block_acc" where
  "flush_text a = (case ba_text a of None \<Rightarrow> a
     | Some t \<Rightarrow> a\<lparr>ba_text := None, ba_blocks := ba_blocks a @ [BText \<lparr>tb_text = t, tb_extensions = []\<rparr>]\<rparr>)"

definition flush_reasoning :: "block_acc \<Rightarrow> block_acc" where
  "flush_reasoning a = (case ba_reasoning a of None \<Rightarrow> a
     | Some t \<Rightarrow> a\<lparr>ba_reasoning := None, ba_blocks := ba_blocks a @ [BReasoning \<lparr>tb_text = t, tb_extensions = []\<rparr>]\<rparr>)"

definition push_block :: "ContentBlock \<Rightarrow> block_acc \<Rightarrow> block_acc" where
  "push_block b a = a\<lparr>ba_blocks := ba_blocks a @ [b]\<rparr>"

definition unary_part :: "(string \<Rightarrow> string option) \<Rightarrow> (nat \<Rightarrow> ToolCallId) \<Rightarrow> Part \<Rightarrow> block_acc \<Rightarrow> block_acc" where
  "unary_part b64 mint part a =
     (case pt_function_call part of
        Some fc \<Rightarrow>
          (let a1 = flush_reasoning (flush_text a)
           in push_block (BToolCall \<lparr>tc_id = unwrap_or (fc_id fc) (mint (length (ba_blocks a1))), tc_name = fc_name fc,
                tc_arguments = Complete (unwrap_or (fc_args fc) (JObject [])), tc_extensions = []\<rparr>)
                (a1\<lparr>ba_has_tool_call := True\<rparr>))
      | None \<Rightarrow>
          (case pt_text part of
             Some t \<Rightarrow>
               (if pt_thought part = Some True
                then let a1 = flush_text a in a1\<lparr>ba_reasoning := Some (unwrap_or (ba_reasoning a1) [] @ t)\<rparr>
                else let a1 = flush_reasoning a in a1\<lparr>ba_text := Some (unwrap_or (ba_text a1) [] @ t)\<rparr>)
           | None \<Rightarrow>
               (case pt_inline_data part of
                  Some inl \<Rightarrow>
                    (let a1 = flush_reasoning (flush_text a)
                     in case b64 (id_data inl) of
                          Some decoded \<Rightarrow> push_block (BImage \<lparr>mb_source = Base64 (id_mime_type inl) decoded, mb_extensions = []\<rparr>) a1
                        | None \<Rightarrow> a1)
                | None \<Rightarrow>
                    (case pt_file_data part of
                       Some f \<Rightarrow> push_block (BImage \<lparr>mb_source = Url (fd_file_uri f), mb_extensions = []\<rparr>)
                                  (flush_reasoning (flush_text a))
                     | None \<Rightarrow> a))))"

definition block_acc_new :: block_acc where
  "block_acc_new = \<lparr>ba_blocks = [], ba_text = None, ba_reasoning = None, ba_has_tool_call = False\<rparr>"

definition candidate_to_blocks :: "(string \<Rightarrow> string option) \<Rightarrow> (nat \<Rightarrow> ToolCallId) \<Rightarrow> Candidate
    \<Rightarrow> ContentBlock list \<times> bool \<times> string option \<times> WireSafetyRating list \<times> json option" where
  "candidate_to_blocks b64 mint candidate =
     (let a = flush_reasoning (flush_text (fold (unary_part b64 mint) (cn_parts (cd_content candidate)) block_acc_new))
      in (ba_blocks a, ba_has_tool_call a, cd_finish_reason candidate, cd_safety_ratings candidate,
          cd_citation_metadata candidate))"

definition wire_rating_json :: "WireSafetyRating \<Rightarrow> json" where
  "wire_rating_json r = JObject [(''category'', JString (ws_category r)), (''probability'', JString (ws_probability r)),
     (''blocked'', case ws_blocked r of None \<Rightarrow> JNull | Some b \<Rightarrow> JBool b)]"

fun write_extension :: "ContentBlock \<Rightarrow> string \<Rightarrow> json \<Rightarrow> ContentBlock" where
  "write_extension (BText b) k v = BText (b\<lparr>tb_extensions := AList.update k v (tb_extensions b)\<rparr>)"
| "write_extension (BImage b) k v = BImage (b\<lparr>mb_extensions := AList.update k v (mb_extensions b)\<rparr>)"
| "write_extension (BAudio b) k v = BAudio (b\<lparr>mb_extensions := AList.update k v (mb_extensions b)\<rparr>)"
| "write_extension (BFile b) k v = BFile (b\<lparr>mb_extensions := AList.update k v (mb_extensions b)\<rparr>)"
| "write_extension (BToolCall b) k v = BToolCall (b\<lparr>tc_extensions := AList.update k v (tc_extensions b)\<rparr>)"
| "write_extension (BToolResult b) k v = BToolResult (b\<lparr>tr_extensions := AList.update k v (tr_extensions b)\<rparr>)"
| "write_extension (BReasoning b) k v = BReasoning (b\<lparr>tb_extensions := AList.update k v (tb_extensions b)\<rparr>)"
| "write_extension (BRedactedReasoning b) k v = BRedactedReasoning (b\<lparr>rr_extensions := AList.update k v (rr_extensions b)\<rparr>)"
| "write_extension (BUnsupported b) k v = BUnsupported b"

definition attach_extensions :: "ContentBlock list \<Rightarrow> WireSafetyRating list \<Rightarrow> json option \<Rightarrow> ContentBlock list" where
  "attach_extensions blocks ratings citations =
     (case blocks of
        [] \<Rightarrow> []
      | b # bs \<Rightarrow>
          (let b1 = (if ratings \<noteq> [] then write_extension b ''gemini.safety_ratings'' (JArray (map wire_rating_json ratings)) else b);
               b2 = (case citations of None \<Rightarrow> b1 | Some c \<Rightarrow> write_extension b1 ''gemini.citation_metadata'' c)
           in b2 # bs))"

definition unary_usage :: "UsageMetadata option \<Rightarrow> SafetyRating list \<Rightarrow> Usage option" where
  "unary_usage meta ratings =
     (case map_option usage_metadata_to_usage meta of
        Some u \<Rightarrow> Some (if ratings \<noteq> [] then u\<lparr>safety_ratings := Some ratings\<rparr> else u)
      | None \<Rightarrow> (if ratings \<noteq> [] then Some (usage_default\<lparr>safety_ratings := Some ratings\<rparr>) else None))"

definition gm_parse_unary :: "(string \<Rightarrow> string option) \<Rightarrow> (nat \<Rightarrow> ToolCallId) \<Rightarrow> ResponseId
    \<Rightarrow> GenerateContentResponse \<Rightarrow> string \<Rightarrow> CanonicalResponse" where
  "gm_parse_unary b64 mint rid resp model =
     (let (blocks, has_tool_call, finish, ratings, citations) =
            (case gr_candidates resp of c # _ \<Rightarrow> candidate_to_blocks b64 mint c | [] \<Rightarrow> ([], False, None, [], None))
      in \<lparr>cr_id = rid, cr_model = model, cr_content = attach_extensions blocks ratings citations,
          cr_stop_reason = map_finish_reason finish has_tool_call, cr_stop_sequence = None,
          cr_usage = unary_usage (gr_usage_metadata resp) (wire_to_canonical_safety_ratings ratings)\<rparr>)"

section \<open>A complete response as a stream\<close>

fun block_events :: "(json \<Rightarrow> string) \<Rightarrow> u32 \<Rightarrow> ContentBlock \<Rightarrow> StreamEvent list" where
  "block_events to_string index (BText t) =
     [ContentBlockStart index KText] @ (if tb_text t = [] then [] else [TextDelta index (tb_text t)]) @ [ContentBlockStop index]"
| "block_events to_string index (BReasoning r) =
     [ContentBlockStart index KReasoning] @ (if tb_text r = [] then [] else [ReasoningDelta index (tb_text r)])
     @ [ContentBlockStop index]"
| "block_events to_string index (BToolCall tc) =
     [ContentBlockStart index KToolCall, ToolCallStart index (tc_id tc) (tc_name tc),
      ToolCallArgumentsDelta index (case tc_arguments tc of Complete v \<Rightarrow> to_string v | Streaming d \<Rightarrow> d),
      ToolCallStop index, ContentBlockStop index]"
| "block_events to_string index _ = []"

fun content_events :: "(json \<Rightarrow> string) \<Rightarrow> nat \<Rightarrow> ContentBlock list \<Rightarrow> StreamEvent list" where
  "content_events to_string idx [] = []"
| "content_events to_string idx (b # bs) = block_events to_string (of_nat idx) b @ content_events to_string (Suc idx) bs"

definition canonical_response_to_events :: "(json \<Rightarrow> string) \<Rightarrow> ResponseId \<Rightarrow> u64 \<Rightarrow> CanonicalResponse \<Rightarrow> StreamEvent list" where
  "canonical_response_to_events to_string rid now resp =
     [ResponseStart rid (cr_model resp) now, MessageStart Assistant]
     @ content_events to_string 0 (cr_content resp)
     @ [MessageStop (cr_stop_reason resp) (cr_stop_sequence resp), ResponseStop (cr_usage resp)]"

definition unary_bytes_to_canonical_stream :: "(string \<Rightarrow> string + json) \<Rightarrow> (json \<Rightarrow> string) \<Rightarrow> (json \<Rightarrow> string)
    \<Rightarrow> (string \<Rightarrow> string option) \<Rightarrow> (nat \<Rightarrow> ToolCallId) \<Rightarrow> ResponseId \<Rightarrow> ResponseId \<Rightarrow> u64 \<Rightarrow> string \<Rightarrow> string
    \<Rightarrow> stream_item list" where
  "unary_bytes_to_canonical_stream from_slice shape_error to_string b64 mint rid rid' now body model =
     (case read_response from_slice shape_error body of
        Inl e \<Rightarrow> [Inl (SE_Decode (''failed to decode Gemini unary response: '' @ e))]
      | Inr resp \<Rightarrow> map Inr (canonical_response_to_events to_string rid' now (gm_parse_unary b64 mint rid resp model)))"

section \<open>The stream parser follows the validator\<close>

definition gm_open :: "GmStreamState \<Rightarrow> (u32 \<times> ContentBlockKind) list" where
  "gm_open s = (case gm_open_block s of None \<Rightarrow> [] | Some (OpenText i) \<Rightarrow> [(i, KText)] | Some (OpenReasoning i) \<Rightarrow> [(i, KReasoning)])"

definition gm_live :: "nat \<Rightarrow> GmStreamState \<Rightarrow> ValidatorState \<Rightarrow> bool" where
  "gm_live n s v \<longleftrightarrow> \<not> terminated_by_error v
     \<and> seen_response_start v = gm_started s \<and> seen_message_start v = gm_started s
     \<and> seen_message_stop v = gm_stopped s \<and> seen_response_stop v = gm_stopped s
     \<and> open_blocks v = gm_open s \<and> used_below v (gm_next_block_index s)
     \<and> unat (gm_next_block_index s) \<le> n
     \<and> (gm_stopped s \<or> \<not> gm_started s \<longrightarrow> gm_open_block s = None)"

definition gm_ready :: "nat \<Rightarrow> GmStreamState \<Rightarrow> ValidatorState \<Rightarrow> bool" where
  "gm_ready n s v \<longleftrightarrow> gm_live n s v \<and> gm_started s \<and> \<not> gm_stopped s"

lemmas gm_rel_defs = gm_ready_def gm_live_def gm_open_def

lemma gm_ready_mono: "gm_ready n s v \<Longrightarrow> n \<le> m \<Longrightarrow> gm_ready m s v"
  by (simp add: gm_rel_defs)

lemma close_block_follows:
  "simulates (gm_ready n) (\<lambda>s v. gm_ready n s v \<and> gm_open_block s = None) close_open_block"
  by (rule simulatesI)
    (auto simp: close_open_block_def gm_rel_defs emitter_defs validator_checks used_below_def
      split: option.splits OpenBlock.splits if_splits)

lemma open_blocks_follow:
  assumes n: "Suc n < 2 ^ 32"
  shows "simulates (\<lambda>s v. gm_ready n s v \<and> gm_open_block s = None) (gm_ready (Suc n)) open_text_block"
    and "simulates (\<lambda>s v. gm_ready n s v \<and> gm_open_block s = None) (gm_ready (Suc n)) open_reasoning_block"
    and "simulates (\<lambda>s v. gm_ready n s v \<and> gm_open_block s = None) (gm_ready (Suc n)) (emit_tool_call to_string mint fc)"
proof -
  have fresh: "gm_next_block_index s \<notin> closed_indices v \<and> unat (gm_next_block_index s + 1) = Suc (unat (gm_next_block_index s))
      \<and> open_envelope v \<and> open_blocks v = []"
    if "gm_ready n s v \<and> gm_open_block s = None" for s v
  proof -
    have "Suc (unat (gm_next_block_index s)) < 2 ^ 32" using that n by (auto simp: gm_rel_defs)
    then show ?thesis
      using that used_below_fresh [of v "gm_next_block_index s"] unat_Suc_u32 [of "gm_next_block_index s"]
      by (auto simp: gm_rel_defs open_envelope_def)
  qed
  show "simulates (\<lambda>s v. gm_ready n s v \<and> gm_open_block s = None) (gm_ready (Suc n)) open_text_block"
    by (rule simulatesI, frule fresh)
      (auto simp: open_text_block_def gm_rel_defs emitter_defs validator_checks used_below_def open_envelope_def less_Suc_eq
        split: if_splits)
  show "simulates (\<lambda>s v. gm_ready n s v \<and> gm_open_block s = None) (gm_ready (Suc n)) open_reasoning_block"
    by (rule simulatesI, frule fresh)
      (auto simp: open_reasoning_block_def gm_rel_defs emitter_defs validator_checks used_below_def open_envelope_def less_Suc_eq
        split: if_splits)
  show "simulates (\<lambda>s v. gm_ready n s v \<and> gm_open_block s = None) (gm_ready (Suc n)) (emit_tool_call to_string mint fc)"
    by (rule simulatesI, frule fresh)
      (auto simp: emit_tool_call_def gm_rel_defs emitter_defs validator_checks used_below_def open_envelope_def less_Suc_eq Let_def
        split: if_splits)
qed

lemma ensure_blocks_follow:
  assumes n: "Suc n < 2 ^ 32"
  shows "simulates (gm_ready n) (gm_ready (Suc n)) ensure_text_block"
    and "simulates (gm_ready n) (gm_ready (Suc n)) ensure_reasoning_block"
proof -
  note close_then = simulates_block_Cons [OF close_block_follows simulates_block_Cons [OF _ simulates_block_Nil]]
  show "simulates (gm_ready n) (gm_ready (Suc n)) ensure_text_block"
  proof (rule simulatesI)
    fix s v
    assume R: "gm_ready n s v"
    with simulatesD [OF close_then [OF open_blocks_follow(1) [OF n]] R] simulatesD [OF open_blocks_follow(1) [OF n], of s v]
    show "\<exists>v'. vrun v (snd (ensure_text_block s)) = Some v' \<and> gm_ready (Suc n) (fst (ensure_text_block s)) v'"
      by (auto simp: ensure_text_block_def simp del: emit_block.simps intro: gm_ready_mono split: option.split OpenBlock.split)
  qed
  show "simulates (gm_ready n) (gm_ready (Suc n)) ensure_reasoning_block"
  proof (rule simulatesI)
    fix s v
    assume R: "gm_ready n s v"
    with simulatesD [OF close_then [OF open_blocks_follow(2) [OF n]] R] simulatesD [OF open_blocks_follow(2) [OF n], of s v]
    show "\<exists>v'. vrun v (snd (ensure_reasoning_block s)) = Some v' \<and> gm_ready (Suc n) (fst (ensure_reasoning_block s)) v'"
      by (auto simp: ensure_reasoning_block_def simp del: emit_block.simps intro: gm_ready_mono split: option.split OpenBlock.split)
  qed
qed

lemma delta_emits_follow:
  "simulates (gm_ready n) (gm_ready n) (emit (\<lambda>s. case gm_open_block s of Some (OpenText i) \<Rightarrow> [TextDelta i t] | _ \<Rightarrow> []))"
  "simulates (gm_ready n) (gm_ready n) (emit (\<lambda>s. case gm_open_block s of Some (OpenReasoning i) \<Rightarrow> [ReasoningDelta i t] | _ \<Rightarrow> []))"
  by (rule simulatesI, auto simp: gm_rel_defs emitter_defs validator_checks split: option.splits OpenBlock.splits)+

lemma part_follows:
  assumes n: "Suc n < 2 ^ 32"
  shows "simulates (gm_ready n) (gm_ready (Suc n)) (handle_part to_string mint part)"
proof -
  note two = simulates_block_Cons [OF _ simulates_block_Cons [OF _ simulates_block_Nil]]
  have "simulates (gm_ready n) (gm_ready (Suc n)) emit_skip"
    by (rule simulates_conseq [OF simulates_skip]) (auto intro: gm_ready_mono)
  with two [OF close_block_follows open_blocks_follow(3) [OF n]] two [OF ensure_blocks_follow(1) [OF n] delta_emits_follow(1)]
    two [OF ensure_blocks_follow(2) [OF n] delta_emits_follow(2)]
  show ?thesis by (auto simp: handle_part_def simp del: emit_block.simps split: option.split)
qed

lemma parts_follow:
  "n + length ps < 2 ^ 32 \<Longrightarrow> simulates (gm_ready n) (gm_ready (n + length ps)) (emit_for ps (handle_part to_string mint))"
proof (induction ps arbitrary: n)
  case (Cons p ps)
  from simulates_then [OF part_follows Cons.IH, of n] Cons.prems show ?case by simp
qed (simp add: simulates_skip)

lemma gm_close_follows: "simulates (gm_ready n) (\<lambda>s v. gm_live n s v \<and> open_blocks v = []) (gm_close reason)"
proof -
  have "simulates (\<lambda>s v. gm_ready n s v \<and> gm_open_block s = None) (\<lambda>s v. gm_live n s v \<and> open_blocks v = []) (emit_block
      [emit (\<lambda>s. [MessageStop (reason s) None]),
       emit_update (\<lambda>s. s\<lparr>gm_last_usage := None, gm_last_safety_ratings := None, gm_stopped := True\<rparr>)
         (\<lambda>s. [ResponseStop (gm_final_usage s)])])"
    by (rule simulatesI) (auto simp: gm_rel_defs emitter_defs validator_checks used_below_def)
  from simulates_block_Cons [OF close_block_follows this] show ?thesis unfolding gm_close_def .
qed

definition first_parts :: "GenerateContentResponse \<Rightarrow> Part list" where
  "first_parts resp = (case gr_candidates resp of [] \<Rightarrow> [] | c # _ \<Rightarrow> cn_parts (cd_content c))"

lemma gm_ready_modify: "(\<And>s v. gm_ready n (f s) v = gm_ready n s v) \<Longrightarrow> simulates (gm_ready n) (gm_ready n) (modify f)"
  by (rule simulatesI) (simp add: modify_def)

lemma candidate_follows:
  assumes "n + length (cn_parts (cd_content c)) < 2 ^ 32"
  shows "simulates (gm_ready n) (gm_live (n + length (cn_parts (cd_content c)))) (handle_candidate to_string mint c)"
proof -
  let ?m = "n + length (cn_parts (cd_content c))"
  have fin: "simulates (gm_ready ?m) (gm_live ?m) (emit_some (cd_finish_reason c)
      (\<lambda>reason. gm_close (\<lambda>s. map_finish_reason (Some reason) (gm_has_tool_call s))))"
  proof (cases "cd_finish_reason c")
    case None
    have "simulates (gm_ready ?m) (gm_live ?m) emit_skip"
      by (rule simulates_conseq [OF simulates_skip]) (auto simp: gm_ready_def)
    with None show ?thesis by simp
  next
    case (Some reason)
    have "simulates (gm_ready ?m) (gm_live ?m) (gm_close r)" for r
      by (rule simulates_conseq [OF gm_close_follows]) auto
    with Some show ?thesis by simp
  qed
  show ?thesis
    unfolding handle_candidate_def
    by (rule simulates_block_Cons [OF gm_ready_modify
          simulates_block_Cons [OF parts_follow [OF assms] simulates_block_Cons [OF fin simulates_block_Nil]]])
      (simp add: gm_rel_defs)
qed

lemma gm_start_follows: "simulates (\<lambda>s v. gm_live n s v \<and> \<not> gm_stopped s) (gm_ready n) (gm_start rid model now)"
  by (rule simulatesI) (auto simp: gm_start_def gm_rel_defs emitter_defs validator_checks used_below_def)

lemma gm_handle_follows:
  assumes "n + length (first_parts resp) < 2 ^ 32"
  shows "simulates (gm_live n) (gm_live (n + length (first_parts resp))) (gm_handle to_string mint rid model now resp)"
proof -
  have mono: "gm_live n s v \<Longrightarrow> n \<le> m \<Longrightarrow> gm_live m s v" for m s v by (simp add: gm_live_def)
  have body: "simulates (gm_ready n) (gm_live (n + length (first_parts resp)))
      (case gr_candidates resp of [] \<Rightarrow> emit_skip | c # _ \<Rightarrow> handle_candidate to_string mint c)"
  proof (cases "gr_candidates resp")
    case Nil
    have "simulates (gm_ready n) (gm_live n) emit_skip"
      by (rule simulates_conseq [OF simulates_skip]) (auto simp: gm_ready_def)
    with Nil show ?thesis by (simp add: first_parts_def)
  next
    case (Cons c cs)
    with candidate_follows [of n c to_string mint] assms show ?thesis by (simp add: first_parts_def)
  qed
  have usage: "simulates (gm_ready n) (gm_ready n)
      (modify (\<lambda>s. case gr_usage_metadata resp of None \<Rightarrow> s | Some u \<Rightarrow> s\<lparr>gm_last_usage := Some u\<rparr>))"
    by (rule gm_ready_modify) (simp add: gm_rel_defs split: option.split)
  show ?thesis
    unfolding gm_handle_def
    by (rule simulates_when [OF simulates_block_Cons [OF gm_start_follows
          simulates_block_Cons [OF usage simulates_block_Cons [OF body simulates_block_Nil]]]])
      (auto intro: mono)
qed

section \<open>The parser as a stream producer\<close>

definition gm_step :: "(json \<Rightarrow> string) \<Rightarrow> (u32 \<Rightarrow> ToolCallId) \<Rightarrow> ResponseId \<Rightarrow> string \<Rightarrow> u64
    \<Rightarrow> GmStreamState \<Rightarrow> GenerateContentResponse scan_item \<Rightarrow> GmStreamState \<times> StreamEvent list" where
  "gm_step to_string mint rid model now s i = apsnd ok_events (gm_handle_input to_string mint rid model now s i)"

lemma gm_step_cases:
  "gm_step to_string mint rid model now s (Inl e) = (s, [])"
  "gm_step to_string mint rid model now s (Inr resp) = gm_handle to_string mint rid model now resp s"
  by (simp_all add: gm_step_def gm_handle_input_def Let_def case_prod_unfold)

definition part_count :: "GenerateContentResponse scan_item \<Rightarrow> nat" where
  "part_count i = (case i of Inl e \<Rightarrow> 0 | Inr resp \<Rightarrow> length (first_parts resp))"

definition gm_accept :: "nat \<Rightarrow> GenerateContentResponse scan_item \<Rightarrow> nat option" where
  "gm_accept n i = (if n + part_count i < 2 ^ 32 then Some (n + part_count i) else None)"

lemma gm_finalize_validates: "gm_live n s v \<Longrightarrow> validates v (snd (gm_finalize s))"
proof (cases "gm_started s \<and> \<not> gm_stopped s")
  case True
  assume "gm_live n s v"
  with True have "gm_ready n s v" by (simp add: gm_ready_def)
  from simulatesD [OF gm_close_follows this] True show ?thesis
    by (auto simp: gm_finalize_def emit_when_def validates_def)
next
  case False
  assume "gm_live n s v"
  with False have "open_blocks v = []" by (auto simp: gm_rel_defs)
  with False show ?thesis by (auto simp: gm_finalize_def emit_when_def validates_def)
qed

interpretation gemini: lifecycle_producer "gm_step to_string mint rid model now" gm_state_new gm_accept 0 gm_live
  validator_init gm_finalize for to_string mint rid model now
proof unfold_locales
  show "gm_live 0 gm_state_new validator_init"
    by (simp add: gm_rel_defs gm_state_new_def validator_init_def used_below_def)
next
  fix n i n'
  assume "gm_accept n i = Some n'"
  then have n': "n + part_count i < 2 ^ 32" "n' = n + part_count i" by (simp_all add: gm_accept_def split: if_splits)
  show "simulates (gm_live n) (gm_live n') (\<lambda>s. gm_step to_string mint rid model now s i)"
  proof (cases i)
    case (Inl e)
    with n' show ?thesis by (simp add: gm_step_cases part_count_def simulates_skip [unfolded emit_skip_def [abs_def]])
  next
    case (Inr resp)
    with n' gm_handle_follows [of n resp] show ?thesis by (simp add: gm_step_cases part_count_def)
  qed
qed (rule gm_finalize_validates)

lemma gm_accepts: "n + sum_list (map part_count is) < 2 ^ 32 \<Longrightarrow> accepts gm_accept n is"
  by (induction "is" arbitrary: n) (simp_all add: gm_accept_def add.assoc)

lemma gm_events_eq:
  "ok_events (parse_streaming to_string mint rid model now src) =
     run_to_end (gm_step to_string mint rid model now) gm_finalize gm_state_new (src_items src)"
proof -
  have "(\<lambda>s. apsnd ok_events (gm_finalize_items s)) = gm_finalize"
    by (rule ext) (simp add: gm_finalize_items_def Let_def case_prod_unfold)
  then show ?thesis
    by (simp add: parse_streaming_def poll_drain_init ok_events_run_to_end gm_step_def [abs_def])
qed

section \<open>The content of the stream\<close>

text \<open>Content without block indices and without generated ids.\<close>

fun unindexed :: "payload \<Rightarrow> payload" where
  "unindexed (PText t) = PText t"
| "unindexed (PReasoning t) = PReasoning t"
| "unindexed (PCall i cid name) = PCall 0 [] name"
| "unindexed (PArgs i frag) = PArgs 0 frag"

text \<open>The reference reading of the upstream: the parts of the first candidates up to the first finish reason.\<close>

definition part_payload :: "(json \<Rightarrow> string) \<Rightarrow> Part \<Rightarrow> payload list" where
  "part_payload to_string part =
     (case pt_function_call part of
        Some fc \<Rightarrow> [PCall 0 [] (fc_name fc), PArgs 0 (case fc_args fc of Some v \<Rightarrow> to_string v | None \<Rightarrow> ''{}'')]
      | None \<Rightarrow> (case pt_text part of None \<Rightarrow> []
                  | Some t \<Rightarrow> (if pt_thought part = Some True then [PReasoning t] else [PText t])))"

definition finishes :: "GenerateContentResponse \<Rightarrow> bool" where
  "finishes resp = (case gr_candidates resp of [] \<Rightarrow> False | c # _ \<Rightarrow> cd_finish_reason c \<noteq> None)"

fun gm_content :: "(json \<Rightarrow> string) \<Rightarrow> GenerateContentResponse scan_item list \<Rightarrow> payload list" where
  "gm_content to_string [] = []"
| "gm_content to_string (Inl e # is) = gm_content to_string is"
| "gm_content to_string (Inr resp # is) = concat (map (part_payload to_string) (first_parts resp))
     @ (if finishes resp then [] else gm_content to_string is)"

abbreviation content_of :: "StreamEvent list \<Rightarrow> payload list" where
  "content_of es \<equiv> map unindexed (payload_of es)"

lemma part_content:
  "content_of (snd (handle_part to_string mint part s)) = part_payload to_string part
     \<and> gm_stopped (fst (handle_part to_string mint part s)) = gm_stopped s"
  by (cases "pt_function_call part"; cases "pt_text part"; cases "gm_open_block s"; cases "the (gm_open_block s)")
    (auto simp: handle_part_def part_payload_def ensure_text_block_def ensure_reasoning_block_def open_text_block_def
      open_reasoning_block_def close_open_block_def emit_tool_call_def emitter_defs Let_def)

lemma parts_content:
  "content_of (snd (emit_for ps (handle_part to_string mint) s)) = concat (map (part_payload to_string) ps)
     \<and> gm_stopped (fst (emit_for ps (handle_part to_string mint) s)) = gm_stopped s"
  by (induction ps arbitrary: s) (simp_all add: emitter_defs Let_def case_prod_unfold part_content)

lemma close_content: "payload_of (snd (gm_close r s)) = [] \<and> gm_stopped (fst (gm_close r s))"
  by (simp add: gm_close_def close_open_block_def emitter_defs Let_def case_prod_unfold split: option.split)

lemma candidate_content:
  "content_of (snd (handle_candidate to_string mint c s)) = concat (map (part_payload to_string) (cn_parts (cd_content c)))
     \<and> gm_stopped (fst (handle_candidate to_string mint c s)) = (gm_stopped s \<or> cd_finish_reason c \<noteq> None)"
  by (cases "cd_finish_reason c")
    (simp_all add: handle_candidate_def emitter_defs Let_def case_prod_unfold parts_content close_content)

lemma handle_content_stopped: "gm_stopped s \<Longrightarrow> gm_handle to_string mint rid model now resp s = (s, [])"
  by (simp add: gm_handle_def emit_when_def)

lemma gm_handle_content:
  assumes "\<not> gm_stopped s"
  shows "content_of (snd (gm_handle to_string mint rid model now resp s)) = concat (map (part_payload to_string) (first_parts resp))
     \<and> gm_stopped (fst (gm_handle to_string mint rid model now resp s)) = finishes resp"
  using assms
  by (cases "gr_candidates resp"; cases "gr_usage_metadata resp")
    (auto simp: gm_handle_def gm_start_def first_parts_def finishes_def emitter_defs Let_def case_prod_unfold candidate_content)

lemma gm_stream_content:
  "content_of (run_to_end (gm_step to_string mint rid model now) gm_finalize s is)
     = (if gm_stopped s then [] else gm_content to_string is)"
proof (induction "is" arbitrary: s)
  case Nil
  then show ?case by (simp add: gm_finalize_def emit_when_def close_content)
next
  case (Cons i "is")
  then show ?case
    by (cases i; cases "gm_stopped s") (auto simp: gm_step_cases handle_content_stopped gm_handle_content)
qed

text \<open>C7. Whatever the Gemini upstream sends, in whatever order, broken off anywhere, with transport and
  decode errors anywhere and at every poll schedule, the stream the parser yields satisfies the
  canonical lifecycle, as long as fewer than \<open>2^32\<close> parts arrive (block indices are \<open>u32\<close>); and its
  text, reasoning, tool calls and arguments are exactly those of the first candidates' parts, in
  order, up to the first finish reason.\<close>

theorem gemini_stream_canonical:
  assumes "sum_list (map part_count (src_items src)) < 2 ^ 32"
  shows "assert_canonical_lifecycle (ok_events (parse_streaming to_string mint rid model now src)) = Inr ()
    \<and> map unindexed (payload_of (ok_events (parse_streaming to_string mint rid model now src))) = gm_content to_string (src_items src)"
proof
  show "assert_canonical_lifecycle (ok_events (parse_streaming to_string mint rid model now src)) = Inr ()"
    unfolding gm_events_eq
    by (intro validates_assert gemini.produces_canonical gm_accepts) (use assms in simp)
qed (simp add: gm_events_eq gm_stream_content gm_state_new_def)

definition demo_part :: "string \<Rightarrow> bool \<Rightarrow> Part" where
  "demo_part t th = \<lparr>pt_text = Some t, pt_thought = Some th, pt_inline_data = None, pt_file_data = None,
     pt_function_call = None, pt_function_response = None\<rparr>"

definition demo_response :: "Part list \<Rightarrow> string option \<Rightarrow> GenerateContentResponse" where
  "demo_response ps fin = \<lparr>gr_candidates = [\<lparr>cd_content = \<lparr>cn_role = ''model'', cn_parts = ps\<rparr>, cd_finish_reason = fin,
     cd_safety_ratings = [], cd_index = None, cd_citation_metadata = None\<rparr>], gr_prompt_feedback = None, gr_usage_metadata = None\<rparr>"

theorem gemini_stream_canonical_witness:
  "map unindexed (payload_of (ok_events (parse_streaming (\<lambda>_. ''{}'') (\<lambda>_. ''id'') ''r'' ''m'' 0
      [SrcItem (Inr (demo_response [demo_part ''hm'' True, demo_part ''hi'' False] None)), SrcPending,
       SrcItem (Inl (SE_Upstream ''reset'')), SrcItem (Inr (demo_response [demo_part ''!'' False] (Some ''STOP''))),
       SrcItem (Inr (demo_response [demo_part ''late'' False] None))])))
   = [PReasoning ''hm'', PText ''hi'', PText ''!'']"
  using gemini_stream_canonical [of "[SrcItem (Inr (demo_response [demo_part ''hm'' True, demo_part ''hi'' False] None)), SrcPending,
       SrcItem (Inl (SE_Upstream ''reset'')), SrcItem (Inr (demo_response [demo_part ''!'' False] (Some ''STOP''))),
       SrcItem (Inr (demo_response [demo_part ''late'' False] None))]" "\<lambda>_. ''{}''" "\<lambda>_. ''id''" "''r''" "''m''" 0]
  by (simp add: part_count_def first_parts_def demo_response_def demo_part_def part_payload_def finishes_def)

end
