(* ===== verification/Collect.thy ===== *)
theory Collect
  imports Gemini Retry
begin

text \<open>
  \<open>collect_stream\<close> of \<open>gateway/src/handlers/mod.rs\<close>, which folds a canonical stream into the complete
  response that the unary encoders of the front ends write. Parameters: the JSON reader of tool
  arguments, the \<open>Display\<close> of a stream error and the generated default response id. The three hash
  tables are only looked up, so they are partial functions. A \<open>HandlerError::Provider\<close> is its
  provider error.
\<close>

section \<open>The collector\<close>

record Collector =
  co_id :: ResponseId
  co_model :: string
  co_content :: "ContentBlock list"
  co_stop_reason :: StopReason
  co_stop_sequence :: "string option"
  co_usage :: "Usage option"
  co_tool_names :: "u32 \<rightharpoonup> (ToolCallId \<times> string)"
  co_tool_args :: "u32 \<rightharpoonup> string"
  co_text_buf :: "u32 \<rightharpoonup> string"

definition collector_new :: "ResponseId \<Rightarrow> Collector" where
  "collector_new rid = \<lparr>co_id = rid, co_model = [], co_content = [], co_stop_reason = EndTurn, co_stop_sequence = None,
     co_usage = None, co_tool_names = Map.empty, co_tool_args = Map.empty, co_text_buf = Map.empty\<rparr>"

definition read_args :: "(string \<Rightarrow> string + json) \<Rightarrow> string \<Rightarrow> json" where
  "read_args from_str args_str = (case from_str args_str of Inr v \<Rightarrow> v | Inl e \<Rightarrow> JNull)"

definition tool_block :: "ToolCallId \<Rightarrow> string \<Rightarrow> json \<Rightarrow> ContentBlock" where
  "tool_block cid name v = BToolCall \<lparr>tc_id = cid, tc_name = name, tc_arguments = Complete v, tc_extensions = []\<rparr>"

definition collect_block_stop :: "(string \<Rightarrow> string + json) \<Rightarrow> u32 \<Rightarrow> Collector \<Rightarrow> Collector" where
  "collect_block_stop from_str index st =
     (let st1 = (case co_text_buf st index of
                   None \<Rightarrow> st
                 | Some t \<Rightarrow> st\<lparr>co_text_buf := (co_text_buf st)(index := None),
                                co_content := co_content st @ [text_content_block t]\<rparr>)
      in case co_tool_names st1 index of
           None \<Rightarrow> st1
         | Some (cid, name) \<Rightarrow>
             st1\<lparr>co_tool_names := (co_tool_names st1)(index := None), co_tool_args := (co_tool_args st1)(index := None),
                 co_content := co_content st1 @ [tool_block cid name (read_args from_str (unwrap_or (co_tool_args st1 index) []))]\<rparr>)"

fun collect_event :: "(string \<Rightarrow> string + json) \<Rightarrow> StreamEvent \<Rightarrow> Collector \<Rightarrow> ProviderError + Collector" where
  "collect_event from_str (ResponseStart rid m created) st = Inr (st\<lparr>co_id := rid, co_model := m\<rparr>)"
| "collect_event from_str (TextDelta index t) st =
     Inr (st\<lparr>co_text_buf := (co_text_buf st)(index \<mapsto> unwrap_or (co_text_buf st index) [] @ t)\<rparr>)"
| "collect_event from_str (ContentBlockStop index) st = Inr (collect_block_stop from_str index st)"
| "collect_event from_str (ToolCallStart index cid name) st =
     Inr (st\<lparr>co_tool_names := (co_tool_names st)(index \<mapsto> (cid, name))\<rparr>)"
| "collect_event from_str (ToolCallArgumentsDelta index frag) st =
     Inr (st\<lparr>co_tool_args := (co_tool_args st)(index \<mapsto> unwrap_or (co_tool_args st index) [] @ frag)\<rparr>)"
| "collect_event from_str (MessageStop sr ss) st = Inr (st\<lparr>co_stop_reason := sr, co_stop_sequence := ss\<rparr>)"
| "collect_event from_str (UsageDelta u) st = Inr (st\<lparr>co_usage := Some u\<rparr>)"
| "collect_event from_str (ResponseStop (Some u)) st = Inr (st\<lparr>co_usage := Some u\<rparr>)"
| "collect_event from_str (ErrorEvent message) st = Inl (Upstream 200 message)"
| "collect_event from_str _ st = Inr st"

fun collect_loop :: "(string \<Rightarrow> string + json) \<Rightarrow> (StreamError \<Rightarrow> string) \<Rightarrow> stream_item list \<Rightarrow> Collector
    \<Rightarrow> ProviderError + Collector" where
  "collect_loop from_str display [] st = Inr st"
| "collect_loop from_str display (Inl e # is) st = Inl (PE_Decode (display e))"
| "collect_loop from_str display (Inr ev # is) st =
     (case collect_event from_str ev st of Inl err \<Rightarrow> Inl err | Inr st' \<Rightarrow> collect_loop from_str display is st')"

definition collected :: "Collector \<Rightarrow> CanonicalResponse" where
  "collected st = \<lparr>cr_id = co_id st, cr_model = co_model st, cr_content = co_content st, cr_stop_reason = co_stop_reason st,
     cr_stop_sequence = co_stop_sequence st, cr_usage = co_usage st\<rparr>"

definition collect_stream :: "(string \<Rightarrow> string + json) \<Rightarrow> (StreamError \<Rightarrow> string) \<Rightarrow> ResponseId
    \<Rightarrow> stream_item list \<Rightarrow> ProviderError + CanonicalResponse" where
  "collect_stream from_str display rid items =
     (case collect_loop from_str display items (collector_new rid) of Inl e \<Rightarrow> Inl e | Inr st \<Rightarrow> Inr (collected st))"

section \<open>What a block amounts to\<close>

text \<open>The reference: the text deltas, the announcement and the argument fragments of one block.\<close>

definition texts :: "StreamEvent list \<Rightarrow> u32 \<Rightarrow> string list" where
  "texts es i = concat (map (\<lambda>e. case e of TextDelta j t \<Rightarrow> if j = i then [t] else [] | _ \<Rightarrow> []) es)"

definition frags :: "StreamEvent list \<Rightarrow> u32 \<Rightarrow> string list" where
  "frags es i = concat (map (\<lambda>e. case e of ToolCallArgumentsDelta j f \<Rightarrow> if j = i then [f] else [] | _ \<Rightarrow> []) es)"

definition calls :: "StreamEvent list \<Rightarrow> u32 \<Rightarrow> (ToolCallId \<times> string) list" where
  "calls es i = concat (map (\<lambda>e. case e of ToolCallStart j cid name \<Rightarrow> if j = i then [(cid, name)] else [] | _ \<Rightarrow> []) es)"

definition block_of :: "(string \<Rightarrow> string + json) \<Rightarrow> StreamEvent list \<Rightarrow> u32 \<Rightarrow> ContentBlock list" where
  "block_of from_str es i =
     (if texts es i = [] then [] else [text_content_block (concat (texts es i))])
     @ (if calls es i = [] then []
        else [tool_block (fst (last (calls es i))) (snd (last (calls es i))) (read_args from_str (concat (frags es i)))])"

definition joined :: "string list \<Rightarrow> string option" where
  "joined ts = (if ts = [] then None else Some (concat ts))"

definition collecting :: "(string \<Rightarrow> string + json) \<Rightarrow> StreamEvent list \<Rightarrow> Collector \<Rightarrow> bool" where
  "collecting from_str es st \<longleftrightarrow>
     (\<forall>i. co_text_buf st i = (if ContentBlockStop i \<in> set es then None else joined (texts es i))
        \<and> co_tool_names st i = (if ContentBlockStop i \<in> set es \<or> calls es i = [] then None else Some (last (calls es i)))
        \<and> co_tool_args st i = (if ContentBlockStop i \<in> set es \<and> calls es i \<noteq> [] then None else joined (frags es i)))
     \<and> co_content st = concat (map (block_of from_str es) (block_stops es))"

lemma block_parts_snoc [simp]:
  "texts (es @ [e]) i = texts es i @ (case e of TextDelta j t \<Rightarrow> if j = i then [t] else [] | _ \<Rightarrow> [])"
  "frags (es @ [e]) i = frags es i @ (case e of ToolCallArgumentsDelta j f \<Rightarrow> if j = i then [f] else [] | _ \<Rightarrow> [])"
  "calls (es @ [e]) i = calls es i @ (case e of ToolCallStart j cid name \<Rightarrow> if j = i then [(cid, name)] else [] | _ \<Rightarrow> [])"
  by (simp_all add: texts_def frags_def calls_def)

lemma block_of_other:
  "\<forall>k. belongs_to e \<noteq> Some (i, k) \<Longrightarrow> block_of from_str (es @ [e]) i = block_of from_str es i"
  by (cases e) (auto simp: block_of_def)

lemma blocks_kept:
  assumes "settled (es @ [e])"
  shows "concat (map (block_of from_str (es @ [e])) (block_stops es)) = concat (map (block_of from_str es) (block_stops es))"
proof -
  have "block_of from_str (es @ [e]) i = block_of from_str es i" if "i \<in> set (block_stops es)" for i
    using settled_snoc [OF assms] that by (intro block_of_other) (auto simp: in_block_stops)
  then have "map (block_of from_str (es @ [e])) (block_stops es) = map (block_of from_str es) (block_stops es)" by simp
  from arg_cong [OF this, of concat] show ?thesis .
qed

lemma joined_snoc [simp]: "joined (ts @ [t]) = Some (unwrap_or (joined ts) [] @ t)" "joined [] = None"
  by (auto simp: joined_def)

lemma unwrap_joined [simp]: "unwrap_or (joined ts) [] = concat ts"
  by (simp add: joined_def)

lemma collect_step:
  assumes "collecting from_str es st" "settled (es @ [e])" "error_free [e]"
  shows "\<exists>st'. collect_event from_str e st = Inr st' \<and> collecting from_str (es @ [e]) st'"
proof (cases e)
  case (ContentBlockStop i)
  have fresh: "ContentBlockStop i \<notin> set es" using settled_snoc [OF assms(2)] ContentBlockStop by simp
  have i: "co_text_buf st i = joined (texts es i)" "co_tool_args st i = joined (frags es i)"
    "co_tool_names st i = (if calls es i = [] then None else Some (last (calls es i)))"
    using assms(1) fresh by (simp_all add: collecting_def)
  have "block_of from_str (es @ [e]) i = block_of from_str es i" using ContentBlockStop by (intro block_of_other) simp
  then have "co_content (collect_block_stop from_str i st) = concat (map (block_of from_str (es @ [e])) (block_stops (es @ [e])))"
    using assms(1) i ContentBlockStop blocks_kept [OF assms(2), of from_str]
    by (auto simp: collecting_def collect_block_stop_def block_of_def joined_def Let_def split: if_splits prod.split)
  moreover have "\<forall>j. co_text_buf (collect_block_stop from_str i st) j = (if j = i then None else co_text_buf st j)
      \<and> co_tool_names (collect_block_stop from_str i st) j = (if j = i then None else co_tool_names st j)
      \<and> co_tool_args (collect_block_stop from_str i st) j = (if j = i \<and> calls es i \<noteq> [] then None else co_tool_args st j)"
    using i by (auto simp: collect_block_stop_def joined_def Let_def split: if_splits prod.split)
  ultimately show ?thesis using assms(1) ContentBlockStop i fresh by (auto simp: collecting_def)
next
  case (ErrorEvent m)
  with assms(3) show ?thesis by (simp add: error_free_def)
next
  case (ResponseStop u)
  with assms(1) blocks_kept [OF assms(2), of from_str] show ?thesis
    by (cases u) (auto simp: collecting_def)
qed (use assms(1) blocks_kept [OF assms(2), of from_str] settled_snoc [OF assms(2)] in \<open>auto simp: collecting_def\<close>)

lemma collect_loop_append:
  "collect_loop from_str display (map Inr es @ is) st =
     (case collect_loop from_str display (map Inr es) st of Inl err \<Rightarrow> Inl err | Inr st' \<Rightarrow> collect_loop from_str display is st')"
  by (induction es arbitrary: st) (auto split: sum.split)

lemma collect_run:
  "settled es \<Longrightarrow> error_free es \<Longrightarrow>
     \<exists>st. collect_loop from_str display (map Inr es) (collector_new rid) = Inr st \<and> collecting from_str es st"
proof (induction es rule: rev_induct)
  case Nil
  show ?case by (simp add: collecting_def collector_new_def texts_def frags_def calls_def)
next
  case (snoc e es)
  then obtain st where st: "collect_loop from_str display (map Inr es) (collector_new rid) = Inr st" "collecting from_str es st"
    using settled_snoc by (fastforce simp: error_free_def)
  from collect_step [OF st(2) snoc.prems(1)] snoc.prems(2) obtain st' where
    "collect_event from_str e st = Inr st'" "collecting from_str (es @ [e]) st'" by (auto simp: error_free_def)
  with st(1) show ?case by (simp add: collect_loop_append)
qed

text \<open>C27. The collected response of every canonical stream without an error event: its content is, in the
  order in which the blocks stop, the concatenated text of each text block and each tool call with its
  arguments read from the concatenated fragments (JSON null when they do not parse); nothing is
  lost or duplicated by interleaved blocks, and nothing else appears. Reasoning leaves no trace.\<close>

theorem collect_canonical:
  assumes "assert_canonical_lifecycle es = Inr ()" and "error_free es"
  shows "\<exists>resp. collect_stream from_str display rid (map Inr es) = Inr resp
    \<and> cr_content resp = concat (map (block_of from_str es) (block_stops es))"
  using collect_run [OF canonical_settled [OF assms] assms(2), of from_str display rid]
  by (auto simp: collect_stream_def collecting_def collected_def)

theorem collect_canonical_witness:
  "\<exists>resp. collect_stream (\<lambda>_. Inr (JBool True)) (\<lambda>_. ''e'') ''id''
      (map Inr [ResponseStart ''r'' ''m'' 0, MessageStart Assistant, ContentBlockStart 0 KText, ContentBlockStart 1 KToolCall,
        TextDelta 0 ''a'', ToolCallStart 1 ''c'' ''f'', TextDelta 0 ''b'', ToolCallStop 1, ContentBlockStop 1, ContentBlockStop 0,
        MessageStop ToolUse None, ResponseStop None]) = Inr resp
    \<and> cr_content resp = [tool_block ''c'' ''f'' (JBool True), text_content_block ''ab'']"
  using collect_canonical [of "[ResponseStart ''r'' ''m'' 0, MessageStart Assistant, ContentBlockStart 0 KText, ContentBlockStart 1 KToolCall,
        TextDelta 0 ''a'', ToolCallStart 1 ''c'' ''f'', TextDelta 0 ''b'', ToolCallStop 1, ContentBlockStop 1, ContentBlockStop 0,
        MessageStop ToolUse None, ResponseStop None]" "\<lambda>_. Inr (JBool True)" "\<lambda>_. ''e''" "''id''"]
  by (simp add: assert_canonical_lifecycle_def assert_canonical_lifecycle_strict_def validator_init_def validator_checks
      error_free_def block_of_def texts_def calls_def frags_def read_args_def)

section \<open>Complete Gemini responses\<close>

text \<open>What a unary client gets of a block.\<close>

fun kept_block :: "(string \<Rightarrow> string + json) \<Rightarrow> (json \<Rightarrow> string) \<Rightarrow> ContentBlock \<Rightarrow> ContentBlock list" where
  "kept_block from_str to_string (BText t) = (if tb_text t = [] then [] else [text_content_block (tb_text t)])"
| "kept_block from_str to_string (BToolCall tc) =
     [tool_block (tc_id tc) (tc_name tc) (read_args from_str (case tc_arguments tc of Complete v \<Rightarrow> to_string v | Streaming d \<Rightarrow> d))]"
| "kept_block from_str to_string _ = []"

definition idle :: "Collector \<Rightarrow> bool" where
  "idle st \<longleftrightarrow> co_text_buf st = Map.empty \<and> co_tool_names st = Map.empty \<and> co_tool_args st = Map.empty"

lemma collect_block_events:
  assumes "idle st"
  shows "\<exists>st'. collect_loop from_str display (map Inr (block_events to_string i b)) st = Inr st' \<and> idle st'
    \<and> collected st' = (collected st)\<lparr>cr_content := co_content st @ kept_block from_str to_string b\<rparr>"
  using assms
  by (cases b) (auto simp: idle_def collect_block_stop_def collected_def Let_def)

lemma collect_content_events:
  "idle st \<Longrightarrow> \<exists>st'. collect_loop from_str display (map Inr (content_events to_string n bs)) st = Inr st' \<and> idle st'
    \<and> collected st' = (collected st)\<lparr>cr_content := co_content st @ concat (map (kept_block from_str to_string) bs)\<rparr>"
proof (induction to_string n bs arbitrary: st rule: content_events.induct)
  case (1 to_string n)
  then show ?case by (simp add: collected_def)
next
  case (2 to_string n b bs)
  from collect_block_events [OF 2(2), of from_str display to_string "of_nat n" b] obtain st1
    where st1: "collect_loop from_str display (map Inr (block_events to_string (of_nat n) b)) st = Inr st1" "idle st1"
      "collected st1 = (collected st)\<lparr>cr_content := co_content st @ kept_block from_str to_string b\<rparr>" by blast
  from 2(1) [OF st1(2)] st1 show ?case
    by (auto simp: collect_loop_append collected_def)
qed

text \<open>C28. What a non-streaming client of a Gemini upstream receives: the model, the stop reason, the stop
  sequence and the usage of the response unchanged, its non-empty texts and its tool calls in order, with
  arguments that were written and read back; its reasoning, images and extensions are lost on the
  way through the event stream.\<close>

theorem unary_events_roundtrip:
  "collect_stream from_str display rid0 (map Inr (canonical_response_to_events to_string rid now resp)) =
     Inr \<lparr>cr_id = rid, cr_model = cr_model resp,
       cr_content = concat (map (kept_block from_str to_string) (cr_content resp)),
       cr_stop_reason = cr_stop_reason resp, cr_stop_sequence = cr_stop_sequence resp, cr_usage = cr_usage resp\<rparr>"
proof -
  let ?st = "(collector_new rid0)\<lparr>co_id := rid, co_model := cr_model resp\<rparr>"
  have "idle ?st" by (simp add: idle_def collector_new_def)
  from collect_content_events [OF this, of from_str display to_string 0 "cr_content resp"] obtain st
    where st: "collect_loop from_str display (map Inr (content_events to_string 0 (cr_content resp))) ?st = Inr st"
      "collected st = (collected ?st)\<lparr>cr_content := co_content ?st @ concat (map (kept_block from_str to_string) (cr_content resp))\<rparr>"
    by blast
  then show ?thesis
    by (cases "cr_usage resp")
      (simp_all add: collect_stream_def canonical_response_to_events_def collect_loop_append collected_def collector_new_def)
qed

end
