(* ===== verification/Pipeline.thy ===== *)
theory Pipeline
  imports Handler_Error Model_Index Collect
begin

text \<open>
  The request pipeline, \<open>gateway/src/pipeline.rs\<close>, with \<open>frontend_response_to_axum\<close> of \<open>handlers/mod.rs\<close>: one inbound
  HTTP request from its bytes to its reply, composed of the router, the plugins, the admission gate, the
  resilient caller and the collector in the order the code runs them.

  A panic (\<open>expect\<close>, \<open>unreachable!\<close>) is \<open>None\<close>. The upstream's canonical stream is the list of the items it will
  deliver; a streaming reply is a value that owns the stream and the ticket, and its end is the separate step
  \<open>close_stream\<close>. \<open>GatewayEnv\<close> collects what is not under the model: third-party readers and digests,
  the clock, the context constructor of the plugins, the raw proxy of the providers, the file system. Spans, metrics
  and log lines are not modelled (the formatting of one, \<open>format_effort_log\<close>, is).
\<close>

section \<open>The pipeline's data\<close>

datatype 'b FrontendResponse = FR_Unary string string | FR_Stream string 'b

text \<open>A front end is a trait object: its decoder and its two encoders. A stream of frames is the list of what it yields.\<close>

record FrontendProtocol =
  fp_kind :: FrontendKind
  fp_decode_request :: "string \<Rightarrow> FrontendError + CanonicalRequest"
  fp_encode_unary :: "CanonicalResponse \<Rightarrow> FrontendError + (FrontendError + string) list FrontendResponse"
  fp_encode_stream :: "stream_item list \<Rightarrow> (FrontendError + string) list FrontendResponse"

record PipelineSpec =
  sp_frontend :: FrontendProtocol
  sp_endpoint_label :: string
  sp_capture_anthropic_headers :: bool
  sp_try_proxy_raw :: bool
  sp_log_streaming_usage_on_drop :: bool

text \<open>\<open>as_dump_dir\<close> is the \<open>decode-failures\<close> directory that the logging configuration determines.\<close>

record 'c AppSnapshot =
  as_config :: GatewayConfig
  as_auth_enabled :: bool
  as_auth_required :: bool
  as_configured_key_hashes :: "string set"
  as_plugins :: "'c PluginRegistry"
  as_dump_dir :: string

record AppCore =
  ac_resolver :: ModelResolver
  ac_providers :: "string \<Rightarrow> stream_item list BackendProvider option"
  ac_resilient_caller :: "stream_item list ResilientCaller"

text \<open>What a request changes: the limiter and the breakers, the plugin tasks, the files it dumps.\<close>

record 'l GatewayState =
  gs_admission :: "('l, stream_item list) Admission"
  gs_supervisor :: PluginSupervisor
  gs_dumps :: "(string \<times> string) list"

record ('l, 'c, 'r) GatewayEnv =
  ev_governor :: "'l governor"
  ev_encode_ordinary :: "string \<Rightarrow> u32 list"
  ev_sha256 :: "string \<Rightarrow> u8 list"
  ev_lower :: "string \<Rightarrow> string"
  ev_to_str :: "string \<Rightarrow> string option"
  ev_header_value :: "string \<Rightarrow> bool"
  ev_read_model :: "string \<Rightarrow> string + string"
  ev_from_str :: "string \<Rightarrow> string + json"
  ev_display_stream_error :: "StreamError \<Rightarrow> string"
  ev_display_plugin_error :: "PluginError \<Rightarrow> string"
  ev_proxy_raw :: "string \<Rightarrow> string \<Rightarrow> BackendTarget \<Rightarrow> FrontendKind \<Rightarrow> ProviderError + (string \<times> 'r) option"
  ev_context :: "string \<Rightarrow> FrontendKind \<Rightarrow> string \<Rightarrow> 'c"
  ev_response_id :: ResponseId
  ev_uuid :: string
  ev_write_file :: "string \<Rightarrow> string \<Rightarrow> bool"
  ev_admit_clock :: "nat \<Rightarrow> instant"
  ev_settle_clock :: "nat \<Rightarrow> instant"
  ev_elapsed_ms :: u64

text \<open>A header map is the list of its entries; names are lower case.\<close>

type_synonym header_map = "(string \<times> string) list"

definition header_str :: "('l, 'c, 'r) GatewayEnv \<Rightarrow> header_map \<Rightarrow> string \<Rightarrow> string option" where
  "header_str env headers name = Option.bind (map_of headers name) (ev_to_str env)"

section \<open>Authentication, headers, route entry\<close>

definition check_auth :: "('l, 'c, 'r) GatewayEnv \<Rightarrow> 'c AppSnapshot \<Rightarrow> header_map \<Rightarrow> PipelineSpec
    \<Rightarrow> HandlerError + AgentIdentity" where
  "check_auth env snap headers spec =
     (if \<not> as_auth_enabled snap then Inr Anonymous
      else let authz = header_str env headers ''authorization'';
               xkey = header_str env headers ''x-api-key'';
               extracted = extract_identity_from_headers (ev_sha256 env) authz xkey
           in if as_auth_required snap
              then (case extracted of
                      Anonymous \<Rightarrow> Inl (HE_Unauthorized (fp_kind (sp_frontend spec)))
                    | KeyHash h \<Rightarrow> (if h \<notin> as_configured_key_hashes snap then Inl (HE_Unauthorized (fp_kind (sp_frontend spec)))
                                    else Inr extracted))
              else Inr extracted)"

definition client_ip_of :: "('l, 'c, 'r) GatewayEnv \<Rightarrow> header_map \<Rightarrow> string" where
  "client_ip_of env headers =
     (case header_str env headers ''x-forwarded-for'' of
        None \<Rightarrow> ''unknown''
      | Some s \<Rightarrow> trim (takeWhile (\<lambda>c. c \<noteq> CHR '','') s))"

definition capture_anthropic_headers :: "('l, 'c, 'r) GatewayEnv \<Rightarrow> header_map \<Rightarrow> (string \<times> string) list" where
  "capture_anthropic_headers env headers = List.map_filter (\<lambda>(name, value).
     if \<not> starts_with name ''anthropic-'' then None
     else if name = ''anthropic-api-key'' \<or> name = ''anthropic-auth-token'' then None
     else map_option (\<lambda>v. (name, v)) (ev_to_str env value)) headers"

fun frontend_alt :: "FrontendKind \<Rightarrow> string" where
  "frontend_alt AnthropicMessages = ''anthropic''"
| "frontend_alt OpenAiChat = ''openai''"
| "frontend_alt OpenAiResponses = ''responses''"

definition find_route_entry :: "GatewayConfig \<Rightarrow> FrontendKind \<Rightarrow> string \<Rightarrow> RouteEntry option" where
  "find_route_entry config fe model =
     (let ours = (\<lambda>r. re_frontend r = frontend_kind_str fe \<or> re_frontend r = frontend_alt fe) in
      case find (\<lambda>r. ours r \<and> re_model r = model) (gc_routes config) of
        Some r \<Rightarrow> Some r
      | None \<Rightarrow> find (\<lambda>r. ours r \<and> re_model r = ''*'') (gc_routes config))"

text \<open>The arrow of the log line is the UTF-8 encoding of its character.\<close>

definition arrow :: string where
  "arrow = '' '' @ map char_of [226 :: nat, 134, 146] @ '' ''"

definition format_effort_log :: "string option \<Rightarrow> string option \<Rightarrow> string" where
  "format_effort_log inbound outbound =
     (case (inbound, outbound) of
        (None, None) \<Rightarrow> ''none''
      | (Some i, Some o') \<Rightarrow> (if i = o' then i else i @ arrow @ o')
      | (None, Some o') \<Rightarrow> ''(default)'' @ arrow @ o'
      | (Some i, None) \<Rightarrow> i @ arrow @ ''(dropped)'')"

section \<open>Decoding\<close>

definition extract_model_from_body :: "('l, 'c, 'r) GatewayEnv \<Rightarrow> string \<Rightarrow> HandlerError + string" where
  "extract_model_from_body env body =
     (case ev_read_model env body of
        Inl e \<Rightarrow> Inl (HE_Frontend (InvalidBody (''cannot extract model: '' @ e)))
      | Inr m \<Rightarrow> Inr m)"

fun dump_label :: "FrontendKind \<Rightarrow> string" where
  "dump_label AnthropicMessages = ''anthropic-messages''"
| "dump_label OpenAiChat = ''openai-chat''"
| "dump_label OpenAiResponses = ''openai-responses''"

definition decode_or_dump :: "('l, 'c, 'r) GatewayEnv \<Rightarrow> 'c AppSnapshot \<Rightarrow> FrontendProtocol \<Rightarrow> string \<Rightarrow> 'l GatewayState
    \<Rightarrow> (HandlerError + CanonicalRequest) \<times> 'l GatewayState" where
  "decode_or_dump env snap frontend body st =
     (case fp_decode_request frontend body of
        Inr canonical \<Rightarrow> (Inr canonical, st)
      | Inl original_err \<Rightarrow>
          (let dump_path = as_dump_dir snap @ ''/'' @ dump_label (fp_kind frontend) @ ''-'' @ take 8 (ev_uuid env) @ ''.json''
           in if ev_write_file env dump_path body
              then (Inl (HE_Frontend (InvalidBody (display_frontend_error original_err @ '' (body dumped to '' @ dump_path @ '')''))),
                    st\<lparr>gs_dumps := gs_dumps st @ [(dump_path, body)]\<rparr>)
              else (Inl (HE_Frontend original_err), st)))"

section \<open>The request hooks\<close>

definition run_pre_admission_hook :: "'c AppSnapshot \<Rightarrow> PipelineSpec \<Rightarrow> 'c \<Rightarrow> FrontendKind \<Rightarrow> string \<Rightarrow> CanonicalRequest
    \<Rightarrow> RequestHookKind \<Rightarrow> (HandlerError + CanonicalRequest \<times> bool) \<times> 'c" where
  "run_pre_admission_hook snap spec ctx kind model canonical hook =
     (let has_subscriber = (case hook of
            RH_DecodedRequest \<Rightarrow> has_on_decoded_request_subscriber (as_plugins snap) kind model
          | RH_Resolved target \<Rightarrow> has_on_resolved_subscriber (as_plugins snap) kind model);
          needs_guard = (sp_try_proxy_raw spec \<and> has_subscriber);
          (res, ctx') = (case hook of
            RH_DecodedRequest \<Rightarrow> run_on_decoded_request (as_plugins snap) kind model ctx canonical
          | RH_Resolved target \<Rightarrow> run_on_resolved (as_plugins snap) kind model ctx canonical target)
      in case res of
           Inl e \<Rightarrow> (Inl (handler_error_from_plugin_error e kind), ctx')
         | Inr after \<Rightarrow> (Inr (after, needs_guard \<and> after \<noteq> canonical), ctx'))"

text \<open>The policy snapshot that is written between the two hooks.\<close>

definition resolved_policy_for :: "AppCore \<Rightarrow> BackendTarget \<Rightarrow> CanonicalRequest \<Rightarrow> ResolvedPolicy" where
  "resolved_policy_for core first_target canonical =
     (let meta = index_metadata (rs_model_index (ac_resolver core)) (bt_provider first_target) (bt_model first_target)
      in (resolve_policy (bt_policy first_target) canonical)\<lparr>
           rp_supported_efforts := Option.bind meta (\<lambda>m. ms_reasoning_effort_values (mm_supports m)),
           rp_supported_endpoints := Option.bind meta mm_supported_endpoints\<rparr>)"

text \<open>From the decoded request to the request that is admitted: header capture, H2, policy, H3. The flag
  says whether a plugin changed the request of a passthrough-eligible call.\<close>

definition shape_request :: "('l, 'c, 'r) GatewayEnv \<Rightarrow> AppCore \<Rightarrow> 'c AppSnapshot \<Rightarrow> PipelineSpec \<Rightarrow> header_map \<Rightarrow> string
    \<Rightarrow> BackendTarget \<Rightarrow> CanonicalRequest \<Rightarrow> HandlerError + CanonicalRequest \<times> bool" where
  "shape_request env core snap spec headers model first_target decoded =
     (let kind = fp_kind (sp_frontend spec);
          canonical = (if sp_capture_anthropic_headers spec
            then decoded\<lparr>req_inbound_anthropic_headers := capture_anthropic_headers env headers\<rparr> else decoded);
          ctx = ev_context env (req_id canonical) kind (debug_frontend_kind kind @ ''/'' @ model)
      in case run_pre_admission_hook snap spec ctx kind model canonical RH_DecodedRequest of
           (Inl e, ctx1) \<Rightarrow> Inl e
         | (Inr (canonical1, h2_mutated), ctx1) \<Rightarrow>
             (let canonical2 = canonical1\<lparr>req_resolved_policy := resolved_policy_for core first_target canonical1\<rparr>
              in case run_pre_admission_hook snap spec ctx1 kind model canonical2 (RH_Resolved first_target) of
                   (Inl e, ctx2) \<Rightarrow> Inl e
                 | (Inr (canonical3, h3_mutated), ctx2) \<Rightarrow> Inr (canonical3, h2_mutated \<or> h3_mutated)))"

section \<open>Replies\<close>

text \<open>The passthrough stream: the ticket is settled by the first chunk.\<close>

record 'r ConsumeOnFirstByteStream =
  cb_inner :: 'r
  cb_ticket :: "AdmissionTicket option"
  cb_chain_index :: nat

definition cb_new :: "'r \<Rightarrow> AdmissionTicket \<Rightarrow> nat \<Rightarrow> 'r ConsumeOnFirstByteStream" where
  "cb_new inner ticket chain_index = \<lparr>cb_inner = inner, cb_ticket = Some ticket, cb_chain_index = chain_index\<rparr>"

definition first_byte_succeeded :: "('e + string) poll \<Rightarrow> bool option" where
  "first_byte_succeeded p = (case p of ReadySome (Inr bytes) \<Rightarrow> Some True | ReadySome (Inl e) \<Rightarrow> Some False | _ \<Rightarrow> None)"

definition cb_poll_next :: "(nat \<Rightarrow> instant) \<Rightarrow> ('e + string) poll \<Rightarrow> 'r ConsumeOnFirstByteStream \<times> BreakerRegistry
    \<Rightarrow> 'r ConsumeOnFirstByteStream \<times> BreakerRegistry" where
  "cb_poll_next clock inner_poll sr =
     (case (first_byte_succeeded inner_poll, cb_ticket (fst sr)) of
        (Some succeeded, Some ticket) \<Rightarrow>
          (let (ticket', reg) = ticket_consume clock ticket (cb_chain_index (fst sr)) succeeded (snd sr)
           in ((fst sr)\<lparr>cb_ticket := None\<rparr>, ticket_drop clock ticket' reg))
      | _ \<Rightarrow> sr)"

definition cb_drop :: "(nat \<Rightarrow> instant) \<Rightarrow> 'r ConsumeOnFirstByteStream \<times> BreakerRegistry \<Rightarrow> BreakerRegistry" where
  "cb_drop clock sr = (case cb_ticket (fst sr) of None \<Rightarrow> snd sr | Some ticket \<Rightarrow> ticket_drop clock ticket (snd sr))"

text \<open>The guard of a streaming reply; the usage it captures is read off the events when it is dropped.\<close>

record 'c H7Guard =
  hg_registry :: "'c PluginRegistry"
  hg_route :: "FrontendKind \<times> string"
  hg_ctx :: 'c

datatype ('c, 'r) Reply =
    ReplyUnary string string
  | ReplyBody string "(FrontendError + string) list"
  | ReplyStream string "(FrontendError + string) list" "stream_item list ConsumeOnFirstEventStream" "'c H7Guard"
  | ReplyRaw string "'r ConsumeOnFirstByteStream"

definition content_type_or :: "('l, 'c, 'r) GatewayEnv \<Rightarrow> string \<Rightarrow> string \<Rightarrow> string" where
  "content_type_or env d content_type = (if ev_header_value env content_type then content_type else d)"

definition frontend_response_to_axum :: "('l, 'c, 'r) GatewayEnv \<Rightarrow> (FrontendError + string) list FrontendResponse \<Rightarrow> ('c, 'r) Reply" where
  "frontend_response_to_axum env resp =
     (case resp of
        FR_Unary content_type body \<Rightarrow> ReplyUnary (content_type_or env ''application/json'' content_type) body
      | FR_Stream content_type frames \<Rightarrow> ReplyBody (content_type_or env ''text/event-stream'' content_type) frames)"

text \<open>What \<open>logging_stream\<close> records.\<close>

definition capture_usage :: "stream_item \<Rightarrow> Usage option \<Rightarrow> Usage option" where
  "capture_usage item usage =
     (case item of Inr (UsageDelta u) \<Rightarrow> Some u | Inr (ResponseStop (Some u)) \<Rightarrow> Some u | _ \<Rightarrow> usage)"

definition spawn_all :: "'c PluginEntry list \<Rightarrow> PluginSupervisor \<Rightarrow> PluginSupervisor" where
  "spawn_all entries sv = fold (\<lambda>e. spawn_h7 (pe_name e)) entries sv"

definition h7_summary :: "('l, 'c, 'r) GatewayEnv \<Rightarrow> Usage option \<Rightarrow> ResponseSummary" where
  "h7_summary env usage = \<lparr>su_usage = usage, su_elapsed_ms = ev_elapsed_ms env, su_upstream_status = US_Success\<rparr>"

text \<open>The hooks' part of \<open>wrap_stream\<close> as the entries it iterates over.\<close>

definition stream_hook_entries :: "'c PluginRegistry \<Rightarrow> FrontendKind \<Rightarrow> string \<Rightarrow> 'c PluginEntry list" where
  "stream_hook_entries reg fe model = (case plugin_lookup reg fe model of None \<Rightarrow> [] | Some plan \<Rightarrow> hp_on_stream_event plan)"

text \<open>The unary branch pulls the wrapped stream item by item: each pull polls the upstream, which may settle
  the ticket, passes the item through the plugins and hands the results to the collector, until
  the collector fails or the upstream ends.\<close>

fun collect_polls :: "('l, 'c, 'r) GatewayEnv \<Rightarrow> 'c PluginEntry list \<Rightarrow> 'c \<Rightarrow> stream_item list \<Rightarrow> Collector
    \<Rightarrow> stream_item list ConsumeOnFirstEventStream \<times> BreakerRegistry
    \<Rightarrow> (ProviderError + Collector) \<times> (stream_item list ConsumeOnFirstEventStream \<times> BreakerRegistry)" where
  "collect_polls env entries ctx [] co sr = (Inr co, cs_poll_next (ev_settle_clock env) ReadyNone sr)"
| "collect_polls env entries ctx (item # items) co sr =
     (let sr' = cs_poll_next (ev_settle_clock env) (ReadySome item) sr;
          (out, ctx') = h5_item (ev_display_plugin_error env) entries ctx item
      in case collect_loop (ev_from_str env) (ev_display_stream_error env) out co of
           Inl e \<Rightarrow> (Inl e, sr')
         | Inr co' \<Rightarrow> collect_polls env entries ctx' items co' sr')"

abbreviation set_breakers :: "'l GatewayState \<Rightarrow> BreakerRegistry \<Rightarrow> 'l GatewayState" where
  "set_breakers st reg \<equiv> st\<lparr>gs_admission := (gs_admission st)\<lparr>ad_breaker := reg\<rparr>\<rparr>"

definition run_unary :: "('l, 'c, 'r) GatewayEnv \<Rightarrow> AppCore \<Rightarrow> 'c AppSnapshot \<Rightarrow> PipelineSpec \<Rightarrow> string \<Rightarrow> CanonicalRequest
    \<Rightarrow> AdmissionTicket \<Rightarrow> 'l GatewayState \<Rightarrow> ((HandlerError + ('c, 'r) Reply) \<times> 'l GatewayState) option" where
  "run_unary env core snap spec model canonical ticket st =
     (let kind = fp_kind (sp_frontend spec);
          ctx = ev_context env (req_id canonical) kind (debug_frontend_kind kind @ ''/'' @ model)
      in case complete_call (ev_settle_clock env) (ac_resilient_caller core) ticket canonical (ad_breaker (gs_admission st)) of
           None \<Rightarrow> None
         | Some (Inl e, reg) \<Rightarrow> Some (Inl (from_resilience_error e kind), set_breakers st reg)
         | Some (Inr s, reg) \<Rightarrow>
             (let (res, sr) = collect_polls env (stream_hook_entries (as_plugins snap) kind model) ctx (cs_inner s)
                    (collector_new (ev_response_id env)) (s, reg);
                  st1 = set_breakers st (cs_drop (ev_settle_clock env) sr)
              in case res of
                   Inl e \<Rightarrow> Some (Inl (HE_Provider e), st1)
                 | Inr co \<Rightarrow>
                     (let st2 = st1\<lparr>gs_supervisor := spawn_all (run_on_response_complete (as_plugins snap) kind model) (gs_supervisor st1)\<rparr>
                      in Some (map_sum HE_Frontend (frontend_response_to_axum env)
                           (fp_encode_unary (sp_frontend spec) (collected co)), st2))))"

definition run_stream :: "('l, 'c, 'r) GatewayEnv \<Rightarrow> AppCore \<Rightarrow> 'c AppSnapshot \<Rightarrow> PipelineSpec \<Rightarrow> string \<Rightarrow> CanonicalRequest
    \<Rightarrow> AdmissionTicket \<Rightarrow> 'l GatewayState \<Rightarrow> ((HandlerError + ('c, 'r) Reply) \<times> 'l GatewayState) option" where
  "run_stream env core snap spec model canonical ticket st =
     (let kind = fp_kind (sp_frontend spec);
          ctx = ev_context env (req_id canonical) kind (debug_frontend_kind kind @ ''/'' @ model)
      in case complete_call (ev_settle_clock env) (ac_resilient_caller core) ticket canonical (ad_breaker (gs_admission st)) of
           None \<Rightarrow> None
         | Some (Inl e, reg) \<Rightarrow> Some (Inl (from_resilience_error e kind), set_breakers st reg)
         | Some (Inr s, reg) \<Rightarrow>
             (case fp_encode_stream (sp_frontend spec) (wrap_stream (ev_display_plugin_error env) (as_plugins snap) kind model ctx (cs_inner s)) of
                FR_Unary content_type body \<Rightarrow> None
              | FR_Stream content_type frames \<Rightarrow>
                  Some (Inr (ReplyStream (content_type_or env ''text/event-stream'' content_type) frames s
                    \<lparr>hg_registry = as_plugins snap, hg_route = (kind, model), hg_ctx = ctx\<rparr>), set_breakers st reg)))"

text \<open>The end of a streaming reply, when its body was read to the end or the client went away: the upstream
  answered \<open>polls\<close>, and \<open>passed\<close> are the items that reached the encoder.\<close>

definition close_stream :: "('l, 'c, 'r) GatewayEnv \<Rightarrow> stream_item list ConsumeOnFirstEventStream \<Rightarrow> 'c H7Guard
    \<Rightarrow> stream_item poll list \<Rightarrow> stream_item list \<Rightarrow> 'l GatewayState \<Rightarrow> ResponseSummary \<times> 'l GatewayState" where
  "close_stream env s guard polls passed st =
     (let reg = cs_drop (ev_settle_clock env) (fold (cs_poll_next (ev_settle_clock env)) polls (s, ad_breaker (gs_admission st)))
      in (h7_summary env (fold capture_usage passed None),
          (set_breakers st reg)\<lparr>gs_supervisor := spawn_all (run_on_response_complete (hg_registry guard)
             (fst (hg_route guard)) (snd (hg_route guard))) (gs_supervisor st)\<rparr>))"

definition close_raw :: "('l, 'c, 'r) GatewayEnv \<Rightarrow> 'r ConsumeOnFirstByteStream \<Rightarrow> ('e + string) poll list \<Rightarrow> 'l GatewayState
    \<Rightarrow> 'l GatewayState" where
  "close_raw env s polls st =
     set_breakers st (cb_drop (ev_settle_clock env) (fold (cb_poll_next (ev_settle_clock env)) polls (s, ad_breaker (gs_admission st))))"

section \<open>Dispatch\<close>

text \<open>The raw passthrough attempt: an error, a reply, or the ticket back.\<close>

definition try_passthrough :: "('l, 'c, 'r) GatewayEnv \<Rightarrow> AppCore \<Rightarrow> PipelineSpec \<Rightarrow> string \<Rightarrow> AdmissionTicket
    \<Rightarrow> (HandlerError + ('c, 'r) Reply option) option" where
  "try_passthrough env core spec body ticket =
     (case tk_filtered_chain ticket of
        [] \<Rightarrow> None
      | target # rest \<Rightarrow>
          (case ac_providers core (bt_provider target) of
             None \<Rightarrow> Some (Inl (HE_Provider (UnknownProvider (bt_provider target))))
           | Some provider \<Rightarrow>
               (case ev_proxy_raw env (bt_provider target) body target (fp_kind (sp_frontend spec)) of
                  Inr (Some (content_type, bytes)) \<Rightarrow>
                    Some (Inr (Some (ReplyRaw (content_type_or env ''text/event-stream'' content_type) (cb_new bytes ticket 0))))
                | Inr None \<Rightarrow> Some (Inr None)
                | Inl e \<Rightarrow> Some (Inr None))))"

text \<open>From the admitted ticket to the reply. The early return of an unregistered provider drops the ticket.\<close>

definition serve :: "('l, 'c, 'r) GatewayEnv \<Rightarrow> AppCore \<Rightarrow> 'c AppSnapshot \<Rightarrow> PipelineSpec \<Rightarrow> string \<Rightarrow> string \<Rightarrow> bool
    \<Rightarrow> CanonicalRequest \<Rightarrow> AdmissionTicket \<Rightarrow> 'l GatewayState \<Rightarrow> ((HandlerError + ('c, 'r) Reply) \<times> 'l GatewayState) option" where
  "serve env core snap spec body model blocked canonical ticket st =
     (let walk = (if req_stream canonical then run_stream env core snap spec model canonical ticket st
                  else run_unary env core snap spec model canonical ticket st)
      in if sp_try_proxy_raw spec \<and> \<not> blocked
         then (case try_passthrough env core spec body ticket of
                 None \<Rightarrow> None
               | Some (Inl e) \<Rightarrow> Some (Inl e, set_breakers st (ticket_drop (ev_settle_clock env) ticket (ad_breaker (gs_admission st))))
               | Some (Inr (Some reply)) \<Rightarrow> Some (Inr reply, st)
               | Some (Inr None) \<Rightarrow> walk)
         else walk)"

definition admit_and_serve :: "('l, 'c, 'r) GatewayEnv \<Rightarrow> AppCore \<Rightarrow> 'c AppSnapshot \<Rightarrow> PipelineSpec \<Rightarrow> header_map \<Rightarrow> string \<Rightarrow> string
    \<Rightarrow> AgentIdentity \<Rightarrow> ResolvedRoute \<Rightarrow> CanonicalRequest \<Rightarrow> bool \<Rightarrow> 'l GatewayState
    \<Rightarrow> ((HandlerError + ('c, 'r) Reply) \<times> 'l GatewayState) option" where
  "admit_and_serve env core snap spec headers body model identity resolved canonical blocked st =
     (let kind = fp_kind (sp_frontend spec) in
      case find_route_entry (as_config snap) kind model of
        None \<Rightarrow> Some (Inl (HE_Route (NoRoute kind model)), st)
      | Some route_entry \<Rightarrow>
          (case admit (ev_governor env) (ev_encode_ordinary env) (ev_admit_clock env) (gs_admission st) resolved route_entry
                  (as_config snap) canonical identity (client_ip_of env headers) (select_image_estimator kind) of
             (Inl e, adm) \<Rightarrow> Some (Inl (handler_error_from_admission e kind), st\<lparr>gs_admission := adm\<rparr>)
           | (Inr ticket, adm) \<Rightarrow> serve env core snap spec body model blocked canonical ticket (st\<lparr>gs_admission := adm\<rparr>)))"

text \<open>The model of the request: peeked from the body of a passthrough-eligible request, else decoded with it.\<close>

definition request_model :: "('l, 'c, 'r) GatewayEnv \<Rightarrow> 'c AppSnapshot \<Rightarrow> PipelineSpec \<Rightarrow> string \<Rightarrow> 'l GatewayState
    \<Rightarrow> (HandlerError + string \<times> CanonicalRequest option) \<times> 'l GatewayState" where
  "request_model env snap spec body st =
     (if sp_try_proxy_raw spec then (map_sum id (\<lambda>m. (m, None)) (extract_model_from_body env body), st)
      else case decode_or_dump env snap (sp_frontend spec) body st of
             (Inl e, st1) \<Rightarrow> (Inl e, st1)
           | (Inr canonical, st1) \<Rightarrow> (Inr (req_model canonical, Some canonical), st1))"

definition dispatch_inner :: "('l, 'c, 'r) GatewayEnv \<Rightarrow> AppCore \<Rightarrow> 'c AppSnapshot \<Rightarrow> PipelineSpec \<Rightarrow> header_map \<Rightarrow> string
    \<Rightarrow> 'l GatewayState \<Rightarrow> ((HandlerError + ('c, 'r) Reply) \<times> 'l GatewayState) option" where
  "dispatch_inner env core snap spec headers body st =
     (case request_model env snap spec body st of
        (Inl e, st1) \<Rightarrow> Some (Inl e, st1)
      | (Inr (model, decoded), st1) \<Rightarrow>
          (case check_auth env snap headers spec of
             Inl e \<Rightarrow> Some (Inl e, st1)
           | Inr identity \<Rightarrow>
               (case resolver_resolve_route (ev_lower env) (ac_resolver core) (fp_kind (sp_frontend spec)) model of
                  Inl e \<Rightarrow> Some (Inl (HE_Route e), st1)
                | Inr resolved \<Rightarrow>
                    (case rr_chain resolved of
                       [] \<Rightarrow> None
                     | first_target # rest \<Rightarrow>
                         (case (case decoded of Some c \<Rightarrow> (Inr c, st1)
                                | None \<Rightarrow> decode_or_dump env snap (sp_frontend spec) body st1) of
                            (Inl e, st2) \<Rightarrow> Some (Inl e, st2)
                          | (Inr canonical, st2) \<Rightarrow>
                              (case shape_request env core snap spec headers model first_target canonical of
                                 Inl e \<Rightarrow> Some (Inl e, st2)
                               | Inr (canonical', blocked) \<Rightarrow>
                                   admit_and_serve env core snap spec headers body model identity resolved canonical' blocked st2))))))"

section \<open>Lazy pulls against the composed stream\<close>

lemma h5_stream_no_hooks: "h5_stream display [] ctx items = items"
  by (induction items) (simp_all add: h5_item_def split: sum.split)

lemma wrap_stream_eq: "wrap_stream display reg fe model ctx items = h5_stream display (stream_hook_entries reg fe model) ctx items"
  by (auto simp: wrap_stream_def stream_hook_entries_def h5_stream_no_hooks split: option.split)

lemma collect_loop_app:
  "collect_loop from_str display (xs @ ys) co =
     (case collect_loop from_str display xs co of Inl e \<Rightarrow> Inl e | Inr co' \<Rightarrow> collect_loop from_str display ys co')"
  by (induction from_str display xs co rule: collect_loop.induct) (auto split: sum.split)

lemma collect_polls_result:
  "fst (collect_polls env entries ctx items co sr) =
     collect_loop (ev_from_str env) (ev_display_stream_error env) (h5_stream (ev_display_plugin_error env) entries ctx items) co"
  by (induction items arbitrary: ctx co sr) (auto simp: collect_loop_app Let_def split: prod.split sum.split)

lemma collect_polls_source:
  "\<exists>ps. snd (collect_polls env entries ctx items co sr) = fold (cs_poll_next (ev_settle_clock env)) ps sr"
proof (induction items arbitrary: ctx co sr)
  case Nil
  have "snd (collect_polls env entries ctx [] co sr) = fold (cs_poll_next (ev_settle_clock env)) [ReadyNone] sr" by simp
  then show ?case by blast
next
  case (Cons item items)
  let ?sr = "cs_poll_next (ev_settle_clock env) (ReadySome item) sr"
  obtain out ctx' where h5: "h5_item (ev_display_plugin_error env) entries ctx item = (out, ctx')" by fastforce
  show ?case
  proof (cases "collect_loop (ev_from_str env) (ev_display_stream_error env) out co")
    case (Inl e)
    then have "snd (collect_polls env entries ctx (item # items) co sr) = fold (cs_poll_next (ev_settle_clock env)) [ReadySome item] sr"
      by (simp add: h5)
    then show ?thesis by blast
  next
    case (Inr co')
    from Cons.IH [of ctx' co' ?sr] obtain ps where
      "snd (collect_polls env entries ctx' items co' ?sr) = fold (cs_poll_next (ev_settle_clock env)) ps ?sr" by blast
    with Inr have "snd (collect_polls env entries ctx (item # items) co sr)
        = fold (cs_poll_next (ev_settle_clock env)) (ReadySome item # ps) sr" by (simp add: h5)
    then show ?thesis by blast
  qed
qed

section \<open>The fate of a ticket\<close>

abbreviation breakers :: "'l GatewayState \<Rightarrow> BreakerRegistry" where
  "breakers st \<equiv> ad_breaker (gs_admission st)"

fun reply_ticket :: "('c, 'r) Reply \<Rightarrow> AdmissionTicket option" where
  "reply_ticket (ReplyStream content_type frames s guard) = cs_ticket s"
| "reply_ticket (ReplyRaw content_type s) = cb_ticket s"
| "reply_ticket _ = None"

definition owned_ticket :: "HandlerError + ('c, 'r) Reply \<Rightarrow> AdmissionTicket option" where
  "owned_ticket res = (case res of Inl e \<Rightarrow> None | Inr reply \<Rightarrow> reply_ticket reply)"

text \<open>Serving an admitted request either ends its ticket or moves it into the reply.\<close>

definition ticket_fate :: "AdmissionTicket \<Rightarrow> 'l GatewayState \<Rightarrow> (HandlerError + ('c, 'r) Reply) \<times> 'l GatewayState \<Rightarrow> bool" where
  "ticket_fate ticket st out \<longleftrightarrow>
     (if owned_ticket (fst out) = None then freed ticket (breakers st) (breakers (snd out))
      else owned_ticket (fst out) = Some ticket \<and> breakers (snd out) = breakers st)"

lemma cs_settled_freed:
  assumes "cs_ticket s = Some ticket" "ticket_ok ticket" "registry_wf reg"
  shows "freed ticket reg (cs_drop clock (fold (cs_poll_next clock) ps (s, reg)))"
proof -
  have "\<not> tk_consumed ticket" using assms(2) by (simp add: ticket_ok_def)
  from cs_settled [OF assms(1) this] show ?thesis
    using ticket_ok_freed [OF assms(2,3)] by (auto split: option.split)
qed

lemma cb_settled_freed:
  fixes ps :: "('e + string) poll list"
  assumes "cb_ticket s = Some ticket" "ticket_ok ticket" "registry_wf reg"
  shows "freed ticket reg (cb_drop clock (fold (cb_poll_next clock) ps (s, reg)))"
proof (induction ps)
  case Nil
  with assms ticket_ok_freed(2) show ?case by (simp add: cb_drop_def)
next
  case (Cons p ps)
  have done': "cb_ticket s' = None \<Longrightarrow> fold (cb_poll_next clock) qs (s', r) = (s', r)"
    for s' r and qs :: "('e + string) poll list"
    by (induction qs) (simp_all add: cb_poll_next_def split: option.splits)
  have unused: "\<not> tk_consumed ticket" using assms(2) by (simp add: ticket_ok_def)
  show ?case
  proof (cases "first_byte_succeeded p")
    case (Some ok)
    then have "cb_poll_next clock p (s, reg) = (s\<lparr>cb_ticket := None\<rparr>, snd (ticket_consume clock ticket (cb_chain_index s) ok reg))"
      using assms(1) unused ticket_drop_consumed by (simp add: cb_poll_next_def case_prod_unfold Let_def)
    then show ?thesis using ticket_ok_freed(1) [OF assms(2,3)] by (simp add: done' cb_drop_def)
  qed (use Cons in \<open>simp add: cb_poll_next_def\<close>)
qed

lemma complete_call_cases:
  assumes "ticket_ok ticket"
  obtains (failed) e where "complete_call clock rc ticket req reg = Some (Inl e, ticket_drop clock ticket reg)"
    | (served) s where "complete_call clock rc ticket req reg = Some (Inr s, reg)" "cs_ticket s = Some ticket"
proof -
  let ?res = "walk_spec rc ticket req (retry_policy_from (rr_retry (tk_resolved ticket))) [] (enumerate 0 (tk_filtered_chain ticket))"
  have "complete_inner rc ticket req = Some ?res"
    unfolding complete_inner_def by (rule chain_walk_eq [OF ticket_ok_allowed [OF assms]])
  then show thesis using that by (cases ?res) (auto simp: complete_call_def)
qed

end
