(* ===== verification/Dispatch.thy ===== *)
theory Dispatch
  imports Pipeline
begin

text \<open>
  What the request pipeline guarantees, from the composition of its parts: the fate of admission tickets, freedom from
  panics, the authentication gate, the origin of replies and the meaning of passthrough.
\<close>

section \<open>Serving an admitted request\<close>

lemma owned_ticket_simps [simp]:
  "owned_ticket (Inl e) = None" "owned_ticket (Inr reply) = reply_ticket reply"
  "owned_ticket (map_sum HE_Frontend (frontend_response_to_axum env) r) = None"
  unfolding owned_ticket_def
  by (simp, simp, cases r) (auto simp: frontend_response_to_axum_def split: FrontendResponse.split)

lemma run_unary_fate:
  assumes "ticket_ok ticket" "registry_wf (breakers st)" "run_unary env core snap spec model canonical ticket st = Some out"
  shows "ticket_fate ticket st out"
proof (rule complete_call_cases [OF assms(1), of "ev_settle_clock env" "ac_resilient_caller core" canonical "breakers st"])
  fix e
  assume "complete_call (ev_settle_clock env) (ac_resilient_caller core) ticket canonical (breakers st)
    = Some (Inl e, ticket_drop (ev_settle_clock env) ticket (breakers st))"
  with assms(3) ticket_ok_freed(2) [OF assms(1,2)] show ?thesis
    by (auto simp: run_unary_def ticket_fate_def Let_def)
next
  fix s
  assume call: "complete_call (ev_settle_clock env) (ac_resilient_caller core) ticket canonical (breakers st) = Some (Inr s, breakers st)"
    and s: "cs_ticket s = Some ticket"
  let ?kind = "fp_kind (sp_frontend spec)"
  obtain res sr where run: "collect_polls env (stream_hook_entries (as_plugins snap) ?kind model)
      (ev_context env (req_id canonical) ?kind (debug_frontend_kind ?kind @ ''/'' @ model)) (cs_inner s)
      (collector_new (ev_response_id env)) (s, breakers st) = (res, sr)" by (metis prod.collapse)
  obtain ps where "sr = fold (cs_poll_next (ev_settle_clock env)) ps (s, breakers st)"
    using collect_polls_source [of env "stream_hook_entries (as_plugins snap) ?kind model"] run by (metis snd_conv)
  with cs_settled_freed [OF s assms(1,2)] have "freed ticket (breakers st) (cs_drop (ev_settle_clock env) sr)" by simp
  with assms(3) call run show ?thesis
    by (cases res) (auto simp: run_unary_def ticket_fate_def Let_def)
qed

lemma run_stream_fate:
  assumes "ticket_ok ticket" "registry_wf (breakers st)" "run_stream env core snap spec model canonical ticket st = Some out"
  shows "ticket_fate ticket st out"
proof (rule complete_call_cases [OF assms(1), of "ev_settle_clock env" "ac_resilient_caller core" canonical "breakers st"])
  fix e
  assume "complete_call (ev_settle_clock env) (ac_resilient_caller core) ticket canonical (breakers st)
    = Some (Inl e, ticket_drop (ev_settle_clock env) ticket (breakers st))"
  with assms(3) ticket_ok_freed(2) [OF assms(1,2)] show ?thesis
    by (auto simp: run_stream_def ticket_fate_def Let_def)
next
  fix s
  assume "complete_call (ev_settle_clock env) (ac_resilient_caller core) ticket canonical (breakers st) = Some (Inr s, breakers st)"
    "cs_ticket s = Some ticket"
  with assms(3) show ?thesis
    by (auto simp: run_stream_def ticket_fate_def Let_def split: FrontendResponse.splits)
qed

lemma serve_fate:
  assumes "ticket_ok ticket" "registry_wf (breakers st)" "serve env core snap spec body model blocked canonical ticket st = Some out"
  shows "ticket_fate ticket st out"
proof -
  have walk: "(if req_stream canonical then run_stream env core snap spec model canonical ticket st
      else run_unary env core snap spec model canonical ticket st) = Some out \<Longrightarrow> ticket_fate ticket st out"
    using run_unary_fate [OF assms(1,2), where out = out] run_stream_fate [OF assms(1,2), where out = out] by (auto split: if_splits)
  show ?thesis
  proof (cases "sp_try_proxy_raw spec \<and> \<not> blocked")
    case False
    with assms(3) walk show ?thesis by (auto simp: serve_def Let_def)
  next
    case True
    with assms(3) obtain r where r: "try_passthrough env core spec body ticket = Some r"
      by (auto simp: serve_def Let_def split: option.splits)
    show ?thesis
    proof (cases r)
      case (Inl e)
      with True assms(3) r ticket_ok_freed(2) [OF assms(1,2)] show ?thesis
        by (auto simp: serve_def ticket_fate_def)
    next
      case (Inr reply)
      then have "reply = Some rep \<Longrightarrow> owned_ticket (Inr rep) = Some ticket" for rep
        using r by (auto simp: try_passthrough_def cb_new_def split: list.splits option.splits sum.splits)
      with Inr True assms(3) r walk show ?thesis
        by (cases reply) (auto simp: serve_def ticket_fate_def)
    qed
  qed
qed

lemma map_sum_Inr: "map_sum f g x = Inr y \<longleftrightarrow> (\<exists>z. x = Inr z \<and> y = g z)"
  by (cases x) auto

lemma run_unary_reply:
  assumes "run_unary env core snap spec model canonical ticket st = Some (Inr reply, st')"
  shows "\<exists>resp. reply = frontend_response_to_axum env resp"
  using assms by (auto simp: run_unary_def Let_def map_sum_Inr split: option.splits sum.splits prod.splits)

lemma serve_owner:
  assumes "ticket_ok ticket" "serve env core snap spec body model blocked canonical ticket st = Some (res, st')"
  shows "res = Inr (ReplyStream ct frames s guard) \<Longrightarrow> cs_ticket s = Some ticket" "res = Inr (ReplyRaw ct b) \<Longrightarrow> cb_ticket b = Some ticket"
proof -
  have unary: "run_unary env core snap spec model canonical ticket st = Some (res, st') \<Longrightarrow>
      res \<noteq> Inr (ReplyStream ct frames s guard) \<and> res \<noteq> Inr (ReplyRaw ct b)"
    by (auto simp: frontend_response_to_axum_def dest!: run_unary_reply split: FrontendResponse.splits)
  have stream: "run_stream env core snap spec model canonical ticket st = Some (res, st') \<Longrightarrow>
      (res = Inr (ReplyStream ct frames s guard) \<longrightarrow> cs_ticket s = Some ticket) \<and> res \<noteq> Inr (ReplyRaw ct b)"
    by (auto simp: run_stream_def Let_def dest: complete_call_served(1) split: option.splits sum.splits prod.splits FrontendResponse.splits)
  show "cs_ticket s = Some ticket" if "res = Inr (ReplyStream ct frames s guard)"
    using assms(2) that unary stream
    by (auto simp: serve_def try_passthrough_def Let_def split: if_splits option.splits sum.splits list.splits)
  show "cb_ticket b = Some ticket" if "res = Inr (ReplyRaw ct b)"
    using assms(2) that unary stream
    by (auto simp: serve_def try_passthrough_def cb_new_def Let_def split: if_splits option.splits sum.splits list.splits)
qed

lemma decode_keeps: "decode_or_dump env snap frontend body st = (res, st') \<Longrightarrow> gs_admission st' = gs_admission st \<and> gs_supervisor st' = gs_supervisor st"
  by (auto simp: decode_or_dump_def Let_def split: sum.splits if_splits)

lemma request_model_keeps: "request_model env snap spec body st = (res, st') \<Longrightarrow>
    gs_admission st' = gs_admission st \<and> gs_supervisor st' = gs_supervisor st"
  by (auto simp: request_model_def split: if_splits prod.splits sum.splits dest: decode_keeps)

text \<open>A request is either refused before admission, or refused by it, or served with a ticket.\<close>

definition request_admitted :: "('l, 'c, 'r) GatewayEnv \<Rightarrow> AppCore \<Rightarrow> 'c AppSnapshot \<Rightarrow> PipelineSpec \<Rightarrow> header_map \<Rightarrow> string
    \<Rightarrow> 'l GatewayState \<Rightarrow> string \<Rightarrow> AgentIdentity \<Rightarrow> ResolvedRoute \<Rightarrow> CanonicalRequest \<Rightarrow> CanonicalRequest \<Rightarrow> bool
    \<Rightarrow> RouteEntry \<Rightarrow> 'l GatewayState \<Rightarrow> bool" where
  "request_admitted env core snap spec headers body st model identity resolved decoded canonical blocked entry st2 \<longleftrightarrow>
     (\<exists>st1 d. request_model env snap spec body st = (Inr (model, d), st1) \<and> (d = None \<or> d = Some decoded))
     \<and> fp_decode_request (sp_frontend spec) body = Inr decoded
     \<and> check_auth env snap headers spec = Inr identity
     \<and> resolver_resolve_route (ev_lower env) (ac_resolver core) (fp_kind (sp_frontend spec)) model = Inr resolved
     \<and> rr_chain resolved \<noteq> []
     \<and> shape_request env core snap spec headers model (hd (rr_chain resolved)) decoded = Inr (canonical, blocked)
     \<and> find_route_entry (as_config snap) (fp_kind (sp_frontend spec)) model = Some entry
     \<and> gs_admission st2 = gs_admission st \<and> gs_supervisor st2 = gs_supervisor st"

lemma dispatch_cases:
  assumes "dispatch_inner env core snap spec headers body st = Some (res, st')"
  obtains (refused) e where "res = Inl e" "gs_admission st' = gs_admission st" "gs_supervisor st' = gs_supervisor st"
    | (admitted) model identity resolved decoded canonical blocked entry st2 r adm where
        "request_admitted env core snap spec headers body st model identity resolved decoded canonical blocked entry st2"
        "admit (ev_governor env) (ev_encode_ordinary env) (ev_admit_clock env) (gs_admission st) resolved entry (as_config snap)
           canonical identity (client_ip_of env headers) (select_image_estimator (fp_kind (sp_frontend spec))) = (r, adm)"
        "case r of Inl e \<Rightarrow> res = Inl (handler_error_from_admission e (fp_kind (sp_frontend spec))) \<and> st' = st2\<lparr>gs_admission := adm\<rparr>
         | Inr ticket \<Rightarrow> serve env core snap spec body model blocked canonical ticket (st2\<lparr>gs_admission := adm\<rparr>) = Some (res, st')"
proof -
  obtain m st1 where rm: "request_model env snap spec body st = (m, st1)" by fastforce
  note keep1 = request_model_keeps [OF rm]
  show thesis
  proof (cases m)
    case (Inl e)
    with assms rm keep1 show ?thesis by (intro refused) (auto simp: dispatch_inner_def)
  next
    case (Inr md)
    obtain model d where md: "md = (model, d)" by (cases md)
    note step = assms [unfolded dispatch_inner_def rm Inr md, simplified]
    show ?thesis
    proof (cases "check_auth env snap headers spec")
      case (Inl e)
      with step keep1 show ?thesis by (intro refused) auto
    next
      case auth: (Inr identity)
      show ?thesis
      proof (cases "resolver_resolve_route (ev_lower env) (ac_resolver core) (fp_kind (sp_frontend spec)) model")
        case (Inl e)
        with step auth keep1 show ?thesis by (intro refused) auto
      next
        case route: (Inr resolved)
        with step auth obtain t ts where chain: "rr_chain resolved = t # ts" by (auto split: list.splits)
        obtain dec st2 where dec: "(case d of Some c \<Rightarrow> (Inr c, st1) | None \<Rightarrow> decode_or_dump env snap (sp_frontend spec) body st1) = (dec, st2)"
          by fastforce
        have keep2: "gs_admission st2 = gs_admission st" "gs_supervisor st2 = gs_supervisor st"
          using dec keep1 decode_keeps by (fastforce split: option.splits)+
        show ?thesis
        proof (cases dec)
          case (Inl e)
          with step auth route chain dec keep2 show ?thesis by (intro refused) auto
        next
          case decoded: (Inr c)
          have src: "fp_decode_request (sp_frontend spec) body = Inr c \<and> (d = None \<or> d = Some c)"
          proof (cases d)
            case None
            with dec decoded show ?thesis by (auto simp: decode_or_dump_def Let_def split: sum.splits if_splits)
          next
            case (Some c')
            with rm Inr md dec decoded show ?thesis
              by (cases "extract_model_from_body env body")
                (auto simp: request_model_def decode_or_dump_def Let_def split: if_splits sum.splits prod.splits)
          qed
          show ?thesis
          proof (cases "shape_request env core snap spec headers model t c")
            case (Inl e)
            with step auth route chain dec decoded keep2 show ?thesis by (intro refused) auto
          next
            case shaped: (Inr cb)
            obtain canonical blocked where cb: "cb = (canonical, blocked)" by (cases cb)
            show ?thesis
            proof (cases "find_route_entry (as_config snap) (fp_kind (sp_frontend spec)) model")
              case None
              with step auth route chain dec decoded shaped cb keep2 show ?thesis
                by (intro refused) (auto simp: admit_and_serve_def)
            next
              case (Some entry)
              obtain r adm where adm: "admit (ev_governor env) (ev_encode_ordinary env) (ev_admit_clock env) (gs_admission st) resolved entry
                  (as_config snap) canonical identity (client_ip_of env headers) (select_image_estimator (fp_kind (sp_frontend spec))) = (r, adm)"
                by fastforce
              show ?thesis
                by (rule admitted [of model identity resolved c canonical blocked entry st2 r adm])
                  (use step rm Inr md src auth route chain dec decoded shaped cb Some adm keep2 in
                    \<open>auto simp: request_admitted_def admit_and_serve_def split: sum.splits\<close>)
            qed
          qed
        qed
      qed
    qed
  qed
qed

section \<open>Breaker probes\<close>

lemma dispatch_probes:
  assumes "registry_wf (breakers st)" "dispatch_inner env core snap spec headers body st = Some (res, st')"
  shows "registry_wf (breakers st')
    \<and> (\<forall>k. probe_busy (breakers st') k \<longrightarrow> probe_busy (breakers st) k
         \<or> (\<exists>ticket. owned_ticket res = Some ticket \<and> k \<in> granted_keys ticket))
    \<and> (\<forall>ct frames s guard polls passed st2. res = Inr (ReplyStream ct frames s guard) \<longrightarrow> registry_wf (breakers st2) \<longrightarrow>
         (\<exists>ticket. owned_ticket res = Some ticket
            \<and> freed ticket (breakers st2) (breakers (snd (close_stream env s guard polls passed st2)))))
    \<and> (\<forall>ct s st2. \<forall>polls :: ('e + string) poll list. res = Inr (ReplyRaw ct s) \<longrightarrow> registry_wf (breakers st2) \<longrightarrow>
         (\<exists>ticket. owned_ticket res = Some ticket \<and> freed ticket (breakers st2) (breakers (close_raw env s polls st2))))"
  using assms(2)
proof (cases rule: dispatch_cases)
  case (refused e)
  with assms(1) show ?thesis by simp
next
  case (admitted model identity resolved decoded canonical blocked entry st2 r adm)
  note probes = admit_probes [OF assms(1) admitted(2)]
  show ?thesis
  proof (cases r)
    case (Inl e)
    with admitted(3) probes show ?thesis by auto
  next
    case (Inr ticket)
    have ok: "ticket_ok ticket" using admit_ticket_ok admitted(2) Inr by blast
    let ?st = "st2\<lparr>gs_admission := adm\<rparr>"
    have pr: "probe_busy (ad_breaker adm) k \<Longrightarrow> probe_busy (breakers st) k \<or> k \<in> granted_keys ticket" for k
      using probes(2) [of k] Inr by simp
    have run: "serve env core snap spec body model blocked canonical ticket ?st = Some (res, st')" using admitted(3) Inr by simp
    have wf: "registry_wf (breakers ?st)" using probes(1) by simp
    note fate = serve_fate [OF ok wf run, unfolded ticket_fate_def, simplified]
    show ?thesis
    proof (cases "owned_ticket res")
      case None
      have "cs_ticket s = Some ticket" if "res = Inr (ReplyStream ct frames s guard)" for ct frames s guard
        using serve_owner [OF ok run] that by simp
      moreover have "cb_ticket s = Some ticket" if "res = Inr (ReplyRaw ct s)" for ct s
        using serve_owner [OF ok run] that by simp
      moreover have "freed ticket (ad_breaker adm) (breakers st')" using fate None by simp
      then have "registry_wf (breakers st')" "\<forall>k. probe_busy (breakers st') k \<longrightarrow> probe_busy (breakers st) k"
        using pr unfolding freed_def by blast+
      ultimately show ?thesis using None by auto
    next
      case (Some t)
      with fate have t: "t = ticket" "breakers st' = ad_breaker adm" by auto
      show ?thesis
        using Some probes(1) pr t cs_settled_freed [OF _ ok] cb_settled_freed [OF _ ok, where ?'e = 'e]
        by (auto simp: close_stream_def close_raw_def)
    qed
  qed
qed

text \<open>C2. A request never leaves a probe of a circuit breaker behind. Whatever happens in the pipeline, refusal, error or
  reply, a probe that is in flight afterwards was in flight before or belongs to the ticket that a lazy reply
  owns; and when the body of such a reply ends, whenever and however it was read, and whatever other requests did
  to the breakers in between, exactly that ticket's probes are freed.\<close>

theorem dispatch_leaks_no_probe:
  assumes "registry_wf (breakers st)" "dispatch_inner env core snap spec headers body st = Some (res, st')"
  shows "registry_wf (breakers st')
    \<and> (\<forall>k. probe_busy (breakers st') k \<longrightarrow> probe_busy (breakers st) k
         \<or> (\<exists>ticket. owned_ticket res = Some ticket \<and> k \<in> granted_keys ticket))
    \<and> (\<forall>ct frames s guard polls passed st2. res = Inr (ReplyStream ct frames s guard) \<longrightarrow> registry_wf (breakers st2) \<longrightarrow>
         (\<exists>ticket. owned_ticket res = Some ticket
            \<and> freed ticket (breakers st2) (breakers (snd (close_stream env s guard polls passed st2)))))
    \<and> (\<forall>ct s st2. \<forall>polls :: ('e + string) poll list. res = Inr (ReplyRaw ct s) \<longrightarrow> registry_wf (breakers st2) \<longrightarrow>
         (\<exists>ticket. owned_ticket res = Some ticket \<and> freed ticket (breakers st2) (breakers (close_raw env s polls st2))))"
  by (rule dispatch_probes [OF assms])

section \<open>A demonstration gateway\<close>

text \<open>A demonstration gateway: one front end, a provider that answers every call, no plugins, no upstream settings.\<close>

definition demo_items :: "stream_item list" where
  "demo_items = map Inr [ResponseStart ''r'' ''m'' 0, MessageStart Assistant, ContentBlockStart 0 KText, TextDelta 0 ''hi'',
     ContentBlockStop 0, MessageStop EndTurn None, ResponseStop None]"

definition demo_frontend :: "bool \<Rightarrow> FrontendProtocol" where
  "demo_frontend streaming = \<lparr>fp_kind = OpenAiChat,
     fp_decode_request = (\<lambda>body. if body = [] then Inl (InvalidBody ''empty'')
        else Inr ((demo_request ''hi'')\<lparr>req_model := body, req_stream := streaming\<rparr>)),
     fp_encode_unary = (\<lambda>resp. Inr (FR_Unary ''application/json'' (cr_model resp))),
     fp_encode_stream = (\<lambda>items. FR_Stream ''text/event-stream'' (map (\<lambda>_. Inr ''data'') items))\<rparr>"

definition demo_pspec :: "bool \<Rightarrow> bool \<Rightarrow> PipelineSpec" where
  "demo_pspec streaming raw = \<lparr>sp_frontend = demo_frontend streaming, sp_endpoint_label = ''/v1'',
     sp_capture_anthropic_headers = False, sp_try_proxy_raw = raw, sp_log_streaming_usage_on_drop = False\<rparr>"

definition demo_upstreamer :: "stream_item list BackendProvider" where
  "demo_upstreamer = \<lparr>pv_capabilities = \<lparr>pc_streaming = True, pc_tool_use = True, pc_vision = False,
     pc_json_mode = True, pc_accepts_xhigh = False\<rparr>, pv_complete = (\<lambda>_ _ _. Inr demo_items)\<rparr>"

definition demo_core :: "RouteEntry list \<Rightarrow> AppCore" where
  "demo_core routes = \<lparr>ac_resolver = \<lparr>rs_static_router = the (router_from_config (demo_gateway routes)), rs_model_index = index_empty\<rparr>,
     ac_providers = (\<lambda>_. Some demo_upstreamer),
     ac_resilient_caller = \<lparr>rc_providers = (\<lambda>_. Some demo_upstreamer), rc_jitter = (\<lambda>_ _. 0), rc_elapsed_ms = (\<lambda>_. 0),
       rc_display = display_provider_error\<rparr>\<rparr>"

definition demo_snapshot :: "bool \<Rightarrow> RouteEntry list \<Rightarrow> nat AppSnapshot" where
  "demo_snapshot auth routes = \<lparr>as_config = (demo_gateway routes)\<lparr>gc_upstreams := Map.empty\<rparr>, as_auth_enabled = auth, as_auth_required = auth,
     as_configured_key_hashes = {}, as_plugins = registry_empty, as_dump_dir = ''/tmp''\<rparr>"

definition demo_state :: "nat GatewayState" where
  "demo_state = \<lparr>gs_admission = \<lparr>ad_limiter = registry_disabled, ad_breaker = Map.empty,
     ad_providers = (\<lambda>_. Some demo_upstreamer), ad_probe = (\<lambda>_. None)\<rparr>, gs_supervisor = supervisor_new, gs_dumps = []\<rparr>"

definition demo_env :: "(nat, nat, string) GatewayEnv" where
  "demo_env = \<lparr>ev_governor = demo_governor, ev_encode_ordinary = (\<lambda>_. []), ev_sha256 = (\<lambda>_. []), ev_lower = id, ev_to_str = Some,
     ev_header_value = (\<lambda>_. True), ev_read_model = (\<lambda>body. Inr body), ev_from_str = (\<lambda>_. Inr JNull), ev_display_stream_error = (\<lambda>_. ''e''),
     ev_display_plugin_error = (\<lambda>_. ''p''), ev_proxy_raw = (\<lambda>name body target kind. Inr (Some (''text/event-stream'', body))),
     ev_context = (\<lambda>_ _ _. 0), ev_response_id = ''id'', ev_uuid = ''0123456789'', ev_write_file = (\<lambda>_ _. True),
     ev_admit_clock = (\<lambda>_. 5), ev_settle_clock = (\<lambda>_. 9), ev_elapsed_ms = 1\<rparr>"

definition demo_first :: BackendTarget where
  "demo_first = \<lparr>bt_provider = ''a'', bt_model = ''x'', bt_policy = route_policy (demo_route ''m'' ''a'' ''x'')\<rparr>"

definition demo_granted :: AdmissionTicket where
  "demo_granted = \<lparr>tk_filtered_chain = [demo_first],
     tk_resolved = \<lparr>rr_chain = [demo_first],
       rr_retry = retry_config_default, rr_breaker = breaker_config_default, rr_route_label = ''openai_chat/m''\<rparr>,
     tk_identity = Anonymous, tk_breaker_holds = [Some \<lparr>bh_provider = ''a'', bh_model = ''x'',
       bh_policy = breaker_policy_from breaker_config_default, bh_consumed = False\<rparr>],
     tk_rate_limit_reservations = [(), ()], tk_consumed = False\<rparr>"

definition demo_admitted_state :: "nat GatewayState" where
  "demo_admitted_state = set_breakers demo_state [(''a'', ''x'') \<mapsto> new_breaker ''a'' ''x'']"

lemma demo_core_resolve:
  "resolver_resolve_route id (ac_resolver (demo_core [demo_route ''m'' ''a'' ''x''])) OpenAiChat ''m'' = Inr (tk_resolved demo_granted)"
proof -
  have "router_from_config (demo_gateway [demo_route ''m'' ''a'' ''x'']) \<noteq> None"
    by (simp add: router_from_config_def add_route_def demo_route_defs frontend_of_string_def route_targets_def strip_suffix_char_def)
  then show ?thesis
    by (simp add: demo_core_def resolver_resolve_route_def apply_fuzzy_upgrades_def upgrade_target_def index_resolve_def index_empty_def
      router_from_config_def add_route_def demo_route_defs frontend_of_string_def route_targets_def strip_suffix_char_def resolve_route_def
      router_empty_def retry_config_for_def breaker_config_for_def demo_granted_def demo_first_def route_label_def)
qed

lemma demo_pipeline_admit:
  "admit demo_governor (\<lambda>_. []) (\<lambda>_. 5) (gs_admission demo_state) (tk_resolved demo_granted) (demo_route ''m'' ''a'' ''x'')
     (as_config (demo_snapshot auth [demo_route ''m'' ''a'' ''x''])) ((demo_request ''hi'')\<lparr>req_stream := streaming, req_resolved_policy := rp\<rparr>) Anonymous ip est
   = (Inr demo_granted, gs_admission demo_admitted_state)"
proof -
  have lim: "check_pre_chain demo_governor registry_disabled Anonymous l i = (Inr (), registry_disabled)"
    "check_upstream_limits demo_governor [t] registry_disabled = (Inr (), registry_disabled)" for l i t
    by (simp_all add: check_pre_chain_def and_then_def check_per_upstream_def registry_disabled_def)
  have surv: "fo_survivors (filter_chain \<lparr>fe_route = r, fe_config = c\<lparr>gc_upstreams := Map.empty\<rparr>, fe_request = q, fe_probe = p,
      fe_image_estimator = est, fe_encode_ordinary = enc\<rparr> ts) = ts" for r c q p enc ts
    by (simp add: filter_chain_def filter_fold_spec reject_reason_def)
  show ?thesis
    by (simp add: admit_def demo_state_def demo_snapshot_def lim surv demo_granted_def demo_first_def check_capability_def
      demo_upstreamer_def acquire_holds_def try_hold_def registry_decision_def registry_get_or_create_def breaker_decision_def new_breaker_def
      demo_admitted_state_def request_has_image_def demo_request_def is_image_def message_user_def text_content_block_def Let_def
      del: check_upstream_limits.simps)
qed

lemma demo_shape:
  "shape_request demo_env core (demo_snapshot auth routes) (demo_pspec streaming raw) headers m t req
   = Inr (req\<lparr>req_resolved_policy := resolved_policy_for core t req\<rparr>, False)"
  by (simp add: shape_request_def demo_pspec_def demo_frontend_def demo_snapshot_def run_pre_admission_hook_def run_on_decoded_request_def
    run_on_resolved_def plugin_lookup_def registry_empty_def has_on_decoded_request_subscriber_def has_on_resolved_subscriber_def)

definition demo_dispatch :: "bool \<Rightarrow> bool \<Rightarrow> bool \<Rightarrow> string \<Rightarrow> ((HandlerError + (nat, string) Reply) \<times> nat GatewayState) option" where
  "demo_dispatch auth streaming raw body = dispatch_inner demo_env (demo_core [demo_route ''m'' ''a'' ''x''])
     (demo_snapshot auth [demo_route ''m'' ''a'' ''x'']) (demo_pspec streaming raw) [] body demo_state"

lemma demo_dispatch_served:
  "demo_dispatch False streaming raw ''m'' = serve demo_env (demo_core [demo_route ''m'' ''a'' ''x''])
     (demo_snapshot False [demo_route ''m'' ''a'' ''x'']) (demo_pspec streaming raw) ''m'' ''m'' False
     ((demo_request ''hi'')\<lparr>req_stream := streaming, req_resolved_policy := resolved_policy_for (demo_core [demo_route ''m'' ''a'' ''x''])
        demo_first ((demo_request ''hi'')\<lparr>req_stream := streaming\<rparr>)\<rparr>) demo_granted demo_admitted_state"
proof -
  have req: "(demo_request ''hi'')\<lparr>req_model := ''m'', req_stream := streaming\<rparr> = (demo_request ''hi'')\<lparr>req_stream := streaming\<rparr>"
    by (simp add: demo_request_def)
  have model: "request_model demo_env (demo_snapshot False [demo_route ''m'' ''a'' ''x'']) (demo_pspec streaming raw) ''m'' demo_state
      = (Inr (''m'', if raw then None else Some ((demo_request ''hi'')\<lparr>req_stream := streaming\<rparr>)), demo_state)"
    by (simp add: request_model_def demo_pspec_def extract_model_from_body_def demo_env_def decode_or_dump_def demo_frontend_def)
      (simp add: demo_request_def)
  have dec: "decode_or_dump demo_env (demo_snapshot False [demo_route ''m'' ''a'' ''x'']) (sp_frontend (demo_pspec streaming raw)) ''m'' demo_state
      = (Inr ((demo_request ''hi'')\<lparr>req_stream := streaming\<rparr>), demo_state)"
    by (simp add: demo_pspec_def demo_frontend_def decode_or_dump_def req)
  have auth: "check_auth demo_env (demo_snapshot False [demo_route ''m'' ''a'' ''x'']) [] (demo_pspec streaming raw) = Inr Anonymous"
    by (simp add: check_auth_def demo_snapshot_def)
  have chain: "rr_chain (tk_resolved demo_granted) = [demo_first]" by (simp add: demo_granted_def)
  have entry: "find_route_entry (as_config (demo_snapshot False [demo_route ''m'' ''a'' ''x''])) OpenAiChat ''m'' = Some (demo_route ''m'' ''a'' ''x'')"
    by (simp add: find_route_entry_def demo_snapshot_def demo_gateway_def demo_route_def)
  have kind: "fp_kind (sp_frontend (demo_pspec streaming raw)) = OpenAiChat" by (simp add: demo_pspec_def demo_frontend_def)
  have st: "demo_state\<lparr>gs_admission := gs_admission demo_admitted_state\<rparr> = demo_admitted_state" by (simp add: demo_admitted_state_def)
  have env: "ev_governor demo_env = demo_governor" "ev_encode_ordinary demo_env = (\<lambda>_. [])" "ev_admit_clock demo_env = (\<lambda>_. 5)"
    "ev_lower demo_env = id" by (simp_all add: demo_env_def)
  have serve: "admit_and_serve demo_env core (demo_snapshot False [demo_route ''m'' ''a'' ''x'']) (demo_pspec streaming raw) [] body ''m'' Anonymous
      (tk_resolved demo_granted) ((demo_request ''hi'')\<lparr>req_stream := streaming, req_resolved_policy := rp\<rparr>) blocked demo_state
    = serve demo_env core (demo_snapshot False [demo_route ''m'' ''a'' ''x'']) (demo_pspec streaming raw) body ''m'' blocked
      ((demo_request ''hi'')\<lparr>req_stream := streaming, req_resolved_policy := rp\<rparr>) demo_granted demo_admitted_state" for core body rp blocked
    by (simp add: admit_and_serve_def kind entry env demo_pipeline_admit st Let_def)
  obtain d where d: "request_model demo_env (demo_snapshot False [demo_route ''m'' ''a'' ''x'']) (demo_pspec streaming raw) ''m'' demo_state
      = (Inr (''m'', d), demo_state)"
    and dec': "(case d of Some c \<Rightarrow> (Inr c, demo_state) | None \<Rightarrow> decode_or_dump demo_env (demo_snapshot False [demo_route ''m'' ''a'' ''x''])
        (sp_frontend (demo_pspec streaming raw)) ''m'' demo_state) = (Inr ((demo_request ''hi'')\<lparr>req_stream := streaming\<rparr>), demo_state)"
    using model dec by (auto split: if_splits)
  show ?thesis
    unfolding demo_dispatch_def dispatch_inner_def
    by (simp add: d auth kind demo_core_resolve env chain dec' demo_shape serve)
qed

lemma demo_env_simps [simp]:
  "ev_from_str demo_env = (\<lambda>_. Inr JNull)" "ev_display_stream_error demo_env = (\<lambda>_. ''e'')" "ev_display_plugin_error demo_env = (\<lambda>_. ''p'')"
  "ev_proxy_raw demo_env = (\<lambda>name body target kind. Inr (Some (''text/event-stream'', body)))" "ev_context demo_env = (\<lambda>_ _ _. 0)"
  "ev_response_id demo_env = ''id''" "ev_settle_clock demo_env = (\<lambda>_. 9)" "content_type_or demo_env d ct = ct"
  by (simp_all add: demo_env_def content_type_or_def)

lemma demo_dispatch_raw:
  "demo_dispatch False streaming True ''m'' = Some (Inr (ReplyRaw ''text/event-stream'' (cb_new ''m'' demo_granted 0)), demo_admitted_state)"
  unfolding demo_dispatch_served
  by (simp add: serve_def try_passthrough_def demo_pspec_def demo_granted_def demo_core_def)

lemma demo_complete:
  "complete_call clock (ac_resilient_caller (demo_core [demo_route ''m'' ''a'' ''x''])) demo_granted req reg
     = Some (Inr \<lparr>cs_inner = demo_items, cs_ticket = Some demo_granted, cs_chain_index = 0\<rparr>, reg)"
  by (simp add: complete_call_def complete_inner_def demo_granted_def breaker_allowed_def call_element_def demo_core_def demo_upstreamer_def
    demo_call_up demo_first_def)

lemma demo_dispatch_stream:
  "demo_dispatch False True False ''m'' = Some (Inr (ReplyStream ''text/event-stream'' (map (\<lambda>_. Inr ''data'') demo_items)
     \<lparr>cs_inner = demo_items, cs_ticket = Some demo_granted, cs_chain_index = 0\<rparr>
     \<lparr>hg_registry = registry_empty, hg_route = (OpenAiChat, ''m''), hg_ctx = 0\<rparr>), demo_admitted_state)"
  unfolding demo_dispatch_served
  by (simp add: serve_def demo_pspec_def run_stream_def demo_complete Let_def demo_frontend_def wrap_stream_def plugin_lookup_def
    demo_snapshot_def registry_empty_def demo_admitted_state_def demo_state_def)

lemma demo_dispatch_unary:
  "\<exists>st'. demo_dispatch False False False ''m'' = Some (Inr (ReplyUnary ''application/json'' ''m''), st')"
  unfolding demo_dispatch_served
  by (simp add: serve_def demo_pspec_def run_unary_def demo_complete Let_def demo_frontend_def stream_hook_entries_def plugin_lookup_def
    demo_snapshot_def registry_empty_def demo_items_def h5_item_def collector_new_def collect_block_stop_def collected_def
    frontend_response_to_axum_def)

theorem dispatch_leaks_no_probe_witness:
  "registry_wf (breakers demo_state)
   \<and> freed demo_granted Map.empty (breakers (close_raw demo_env (cb_new ''m'' demo_granted 0) [Pending, ReadySome (Inl ()), ReadyNone] demo_state))"
proof -
  have wf: "registry_wf (breakers demo_state)" by (simp add: demo_state_def registry_wf_def)
  have "breakers demo_state = Map.empty" by (simp add: demo_state_def)
  moreover have "\<exists>ticket. owned_ticket (Inr (ReplyRaw ''text/event-stream'' (cb_new ''m'' demo_granted 0)) :: HandlerError + (nat, string) Reply) = Some ticket
      \<and> freed ticket (breakers demo_state) (breakers (close_raw demo_env (cb_new ''m'' demo_granted 0) [Pending, ReadySome (Inl ()), ReadyNone] demo_state))"
    using dispatch_leaks_no_probe [OF wf demo_dispatch_raw [of True, unfolded demo_dispatch_def], where ?'e = unit] wf by blast
  ultimately show ?thesis using wf by (simp add: cb_new_def)
qed

lemma dispatch_panic_free:
  fixes env :: "('l, 'c, 'r) GatewayEnv"
  assumes "router_from_config cfg = Some (rs_static_router (ac_resolver core))"
    and "\<And>items. \<exists>ct frames. fp_encode_stream (sp_frontend spec) items = FR_Stream ct frames"
  shows "dispatch_inner env core snap spec headers body st \<noteq> None"
proof -
  have stream: "run_stream env core snap spec model canonical ticket st2 \<noteq> None"
    and unary: "run_unary env core snap spec model canonical ticket st2 \<noteq> None" if "ticket_ok ticket"
    for model canonical ticket and st2 :: "'l GatewayState"
  proof -
    have call: "complete_call (ev_settle_clock env) (ac_resilient_caller core) ticket canonical (breakers st2) \<noteq> None"
      by (rule complete_call_cases [OF that, of "ev_settle_clock env" "ac_resilient_caller core" canonical "breakers st2"]) auto
    then show "run_unary env core snap spec model canonical ticket st2 \<noteq> None"
      by (auto simp: run_unary_def Let_def split: prod.splits sum.splits)
    have "fp_encode_stream (sp_frontend spec) items \<noteq> FR_Unary ct b" for items ct b
      using assms(2) by (metis FrontendResponse.distinct(1))
    with call show "run_stream env core snap spec model canonical ticket st2 \<noteq> None"
      by (auto simp: run_stream_def Let_def split: prod.splits sum.splits FrontendResponse.splits)
  qed
  have pass: "try_passthrough env core spec body ticket \<noteq> None" if "tk_filtered_chain ticket \<noteq> []" for ticket
    using that by (auto simp: try_passthrough_def split: list.splits option.splits sum.splits)
  have served: "serve env core snap spec body model blocked canonical ticket st2 \<noteq> None"
    if "ticket_ok ticket" "tk_filtered_chain ticket \<noteq> []" for model blocked canonical ticket and st2 :: "'l GatewayState"
    using stream [OF that(1)] unary [OF that(1)] pass [OF that(2)] unfolding serve_def Let_def
    by (auto split: option.splits sum.splits)
  have admitted: "admit_and_serve env core snap spec headers body model identity resolved canonical blocked st2 \<noteq> None"
    for model identity resolved canonical blocked and st2 :: "'l GatewayState"
  proof -
    have "serve env core snap spec body model blocked canonical ticket (st2\<lparr>gs_admission := adm\<rparr>) \<noteq> None"
      if "admit (ev_governor env) (ev_encode_ordinary env) (ev_admit_clock env) (gs_admission st2) resolved entry (as_config snap)
           canonical identity (client_ip_of env headers) (select_image_estimator (fp_kind (sp_frontend spec))) = (Inr ticket, adm)"
      for entry ticket adm
      using served [OF admit_ticket_ok [OF that]] admit_granted [OF that] by blast
    then show ?thesis unfolding admit_and_serve_def Let_def
      by (auto split: option.splits prod.splits sum.splits)
  qed
  have "rr_chain resolved \<noteq> []"
    if "resolver_resolve_route (ev_lower env) (ac_resolver core) fe model = Inr resolved" for fe model resolved
    using that router_chain_nonempty [OF assms(1)]
    by (auto simp: resolver_resolve_route_def apply_fuzzy_upgrades_def split: sum.splits)
  with admitted show ?thesis unfolding dispatch_inner_def
    by (fastforce split: prod.splits sum.splits list.splits)
qed

text \<open>The pipeline does not panic. With a router built from the configuration and a front end whose stream encoder returns a
  stream, every request, whatever its bytes, headers and target, ends in an error or a reply: no \<open>expect\<close> and no
  \<open>unreachable!\<close> of the pipeline, the admission ticket or the chain walk is reached.\<close>

theorem dispatch_total:
  fixes env :: "('l, 'c, 'r) GatewayEnv"
  assumes "router_from_config cfg = Some (rs_static_router (ac_resolver core))"
    and "\<And>items. \<exists>ct frames. fp_encode_stream (sp_frontend spec) items = FR_Stream ct frames"
  shows "dispatch_inner env core snap spec headers body st \<noteq> None"
  using assms by (rule dispatch_panic_free)

theorem dispatch_total_witness:
  "router_from_config (demo_gateway [demo_route ''m'' ''a'' ''x'']) = Some (rs_static_router (ac_resolver (demo_core [demo_route ''m'' ''a'' ''x''])))
   \<and> demo_dispatch True True True body \<noteq> None"
proof -
  have r: "router_from_config (demo_gateway [demo_route ''m'' ''a'' ''x''])
      = Some (rs_static_router (ac_resolver (demo_core [demo_route ''m'' ''a'' ''x''])))"
    by (simp add: demo_core_def router_from_config_def add_route_def demo_route_defs frontend_of_string_def route_targets_def strip_suffix_char_def)
  moreover have "demo_dispatch True True True body \<noteq> None"
    unfolding demo_dispatch_def by (rule dispatch_total [OF r]) (simp add: demo_pspec_def demo_frontend_def)
  ultimately show ?thesis by blast
qed

text \<open>C5. The authentication gate. When keys are required, a request is served, or counted against a limit or a breaker, or
  seen by a plugin task, only if the key it presents hashes to a configured one; any other request is answered 401 or, before
  that, with the error of its body, and of the state it can only leave behind the dump of an
  undecodable body, and that only where no passthrough is tried.\<close>

theorem auth_gate:
  assumes "as_auth_enabled snap" "as_auth_required snap"
    and "dispatch_inner env core snap spec headers body st = Some (res, st')"
  shows "(\<exists>h \<in> as_configured_key_hashes snap. extract_identity_from_headers (ev_sha256 env)
        (header_str env headers ''authorization'') (header_str env headers ''x-api-key'') = KeyHash h)
    \<or> gs_admission st' = gs_admission st \<and> gs_supervisor st' = gs_supervisor st
      \<and> (res = Inl (HE_Unauthorized (fp_kind (sp_frontend spec))) \<or> (\<exists>e. res = Inl (HE_Frontend e)))
      \<and> (sp_try_proxy_raw spec \<longrightarrow> gs_dumps st' = gs_dumps st)"
proof -
  obtain m st1 where rm: "request_model env snap spec body st = (m, st1)" by fastforce
  have dumps: "sp_try_proxy_raw spec \<Longrightarrow> gs_dumps st1 = gs_dumps st" using rm by (auto simp: request_model_def)
  have err: "\<exists>fe. e = HE_Frontend fe" if "m = Inl e" for e
    using rm that by (cases "extract_model_from_body env body")
      (auto simp: request_model_def extract_model_from_body_def decode_or_dump_def Let_def split: if_splits sum.splits prod.splits)
  show ?thesis
  proof (cases "check_auth env snap headers spec")
    case (Inr identity)
    with assms(1,2) show ?thesis
      by (auto simp: check_auth_def Let_def split: AgentIdentity.splits if_splits)
  next
    case (Inl e)
    with assms(1,2) have "e = HE_Unauthorized (fp_kind (sp_frontend spec))"
      by (auto simp: check_auth_def Let_def split: AgentIdentity.splits if_splits)
    with Inl assms(3) rm err dumps request_model_keeps [OF rm] show ?thesis
      by (auto simp: dispatch_inner_def split: sum.splits)
  qed
qed

theorem auth_gate_witness:
  "\<exists>st'. demo_dispatch True False False ''m'' = Some (Inl (HE_Unauthorized OpenAiChat), st') \<and> gs_admission st' = gs_admission demo_state"
proof -
  have run: "\<exists>st'. demo_dispatch True False False ''m'' = Some (Inl (HE_Unauthorized OpenAiChat), st')"
    by (simp add: demo_dispatch_def dispatch_inner_def request_model_def demo_pspec_def decode_or_dump_def demo_frontend_def check_auth_def
      demo_snapshot_def header_str_def extract_identity_from_headers_def)
  then obtain st' where st': "demo_dispatch True False False ''m'' = Some (Inl (HE_Unauthorized OpenAiChat), st')" by blast
  have snap: "as_auth_enabled (demo_snapshot True rs)" "as_auth_required (demo_snapshot True rs)" "as_configured_key_hashes (demo_snapshot True rs) = {}" for rs
    by (simp_all add: demo_snapshot_def)
  from auth_gate [OF snap(1,2) st' [unfolded demo_dispatch_def]] snap(3) st' show ?thesis by auto
qed

text \<open>An undecodable body of an unauthenticated client is written to disk and the path is sent back.\<close>

theorem unauthenticated_dump:
  "\<exists>m st'. demo_dispatch True False False [] = Some (Inl (HE_Frontend (InvalidBody m)), st') \<and> gs_dumps st' = [(''/tmp/openai-chat-01234567.json'', [])]"
  by (simp add: demo_dispatch_def dispatch_inner_def request_model_def demo_pspec_def decode_or_dump_def demo_frontend_def
    demo_env_def demo_snapshot_def demo_state_def)

lemma find_route_entry_listed:
  assumes "find_route_entry config fe m = Some e"
  shows "e \<in> set (gc_routes config) \<and> frontend_of_string (re_frontend e) = Some fe \<and> (re_model e = m \<or> re_model e = ''*'')"
proof -
  have "re_frontend e = frontend_kind_str fe \<or> re_frontend e = frontend_alt fe \<Longrightarrow> frontend_of_string (re_frontend e) = Some fe"
    by (cases fe) (auto simp: frontend_of_string_def)
  moreover have "find P es = Some e \<Longrightarrow> e \<in> set es \<and> P e" for P es by (auto simp: find_Some_iff)
  ultimately show ?thesis using assms by (fastforce simp: find_route_entry_def Let_def split: option.splits)
qed

text \<open>A model that only prefix routes serve cannot be used. When no route of the client's dialect has literally the requested
  model or the catch-all, every request for it fails and leaves the limiter, the breakers and the
  plugin tasks untouched, although the router resolves it through the prefix route.\<close>

theorem prefix_model_unreachable:
  assumes "request_model env snap spec body st = (Inr (model, d), st1)"
    and "\<forall>e \<in> set (gc_routes (as_config snap)). frontend_of_string (re_frontend e) = Some (fp_kind (sp_frontend spec)) \<longrightarrow>
           re_model e \<noteq> model \<and> re_model e \<noteq> ''*''"
    and "dispatch_inner env core snap spec headers body st = Some (res, st')"
  shows "(\<exists>e. res = Inl e) \<and> gs_admission st' = gs_admission st \<and> gs_supervisor st' = gs_supervisor st"
  using assms(3)
proof (cases rule: dispatch_cases)
  case (admitted model' identity resolved decoded canonical blocked entry st2 r adm)
  then have "model' = model" "find_route_entry (as_config snap) (fp_kind (sp_frontend spec)) model' = Some entry"
    using assms(1) by (auto simp: request_admitted_def)
  with find_route_entry_listed assms(2) have False by blast
  then show ?thesis ..
qed auto

theorem prefix_model_unreachable_witness:
  "\<exists>resolved e st'. resolver_resolve_route id (ac_resolver (demo_core [demo_route ''gpt-*'' ''a'' ''x''])) OpenAiChat ''gpt-5'' = Inr resolved
     \<and> dispatch_inner demo_env (demo_core [demo_route ''gpt-*'' ''a'' ''x'']) (demo_snapshot False [demo_route ''gpt-*'' ''a'' ''x''])
         (demo_pspec False False) [] ''gpt-5'' demo_state = Some (Inl e, st')"
proof -
  let ?core = "demo_core [demo_route ''gpt-*'' ''a'' ''x'']" and ?snap = "demo_snapshot False [demo_route ''gpt-*'' ''a'' ''x'']"
  have router: "router_from_config (demo_gateway [demo_route ''gpt-*'' ''a'' ''x'']) = Some (rs_static_router (ac_resolver ?core))"
    by (simp add: demo_core_def router_from_config_def add_route_def demo_route_defs frontend_of_string_def route_targets_def strip_suffix_char_def)
  have "\<exists>r. router_from_config (demo_gateway [demo_route ''gpt-*'' ''a'' ''x'']) = Some r \<and> (\<exists>route. resolve_route r OpenAiChat ''gpt-5'' = Inr route)"
    by (simp add: router_from_config_def demo_gateway_def demo_route_def add_route_def frontend_of_string_def route_targets_def
        strip_suffix_char_def prefix_route_def router_empty_def resolve_route_def starts_with_def)
  with router have resolves: "\<exists>resolved. resolver_resolve_route id (ac_resolver ?core) OpenAiChat ''gpt-5'' = Inr resolved"
    by (auto simp: resolver_resolve_route_def)
  obtain d st1 where rm: "request_model demo_env ?snap (demo_pspec False False) ''gpt-5'' demo_state = (Inr (''gpt-5'', d), st1)"
    by (simp add: request_model_def demo_pspec_def decode_or_dump_def demo_frontend_def)
  have lits: "\<forall>e \<in> set (gc_routes (as_config ?snap)). frontend_of_string (re_frontend e) = Some (fp_kind (sp_frontend (demo_pspec False False))) \<longrightarrow>
      re_model e \<noteq> ''gpt-5'' \<and> re_model e \<noteq> ''*''"
    by (simp add: demo_snapshot_def demo_gateway_def demo_route_def)
  have enc: "\<exists>ct frames. fp_encode_stream (sp_frontend (demo_pspec False False)) items = FR_Stream ct frames" for items
    by (simp add: demo_pspec_def demo_frontend_def)
  obtain res st' where run: "dispatch_inner demo_env ?core ?snap (demo_pspec False False) [] ''gpt-5'' demo_state = Some (res, st')"
    using dispatch_panic_free [OF router enc, of demo_env ?snap "[]" "''gpt-5''" demo_state] by auto
  from prefix_model_unreachable [OF rm lits run] run resolves show ?thesis by blast
qed

section \<open>Where a reply comes from\<close>

lemma protected_policy [simp]: "protected_fields (req\<lparr>req_resolved_policy := rp\<rparr>) = protected_fields req"
  "protected_fields (req\<lparr>req_inbound_anthropic_headers := hs\<rparr>) = protected_fields req"
  by (simp_all add: protected_fields_def)

lemma pre_admission_protects:
  assumes "run_pre_admission_hook snap spec ctx kind model req hook = (Inr (req', mutated), ctx')"
  shows "protected_fields req' = protected_fields req" "sp_try_proxy_raw spec \<Longrightarrow> \<not> mutated \<Longrightarrow> req' = req"
  using assms
  by (auto simp: run_pre_admission_hook_def run_on_decoded_request_def run_on_resolved_def has_on_decoded_request_subscriber_def
    has_on_resolved_subscriber_def Let_def split: RequestHookKind.splits prod.splits sum.splits option.splits if_splits dest: walk_protects)

text \<open>The decoded request with the captured headers, before any plugin sees it.\<close>

definition with_headers :: "('l, 'c, 'r) GatewayEnv \<Rightarrow> PipelineSpec \<Rightarrow> header_map \<Rightarrow> CanonicalRequest \<Rightarrow> CanonicalRequest" where
  "with_headers env spec headers decoded = (if sp_capture_anthropic_headers spec
     then decoded\<lparr>req_inbound_anthropic_headers := capture_anthropic_headers env headers\<rparr> else decoded)"

lemma shape_request_ok:
  assumes "shape_request env core snap spec headers model t decoded = Inr (req, blocked)"
  shows "protected_fields req = protected_fields decoded"
    and "sp_try_proxy_raw spec \<Longrightarrow> \<not> blocked \<Longrightarrow> req = (with_headers env spec headers decoded)
      \<lparr>req_resolved_policy := resolved_policy_for core t (with_headers env spec headers decoded)\<rparr>"
proof -
  let ?c = "with_headers env spec headers decoded"
  let ?p = "\<lambda>r. r\<lparr>req_resolved_policy := resolved_policy_for core t r\<rparr>"
  from assms obtain ctx c1 m1 ctx1 m2 ctx2 where
    h2: "run_pre_admission_hook snap spec ctx (fp_kind (sp_frontend spec)) model ?c RH_DecodedRequest = (Inr (c1, m1), ctx1)"
    and h3: "run_pre_admission_hook snap spec ctx1 (fp_kind (sp_frontend spec)) model (?p c1) (RH_Resolved t) = (Inr (req, m2), ctx2)"
    and b: "blocked = (m1 \<or> m2)"
    by (auto simp: shape_request_def with_headers_def Let_def split: prod.splits sum.splits)
  note s2 = pre_admission_protects [OF h2] and s3 = pre_admission_protects [OF h3]
  have "protected_fields ?c = protected_fields decoded" by (simp add: with_headers_def)
  with s2(1) s3(1) show "protected_fields req = protected_fields decoded" by simp
  show "req = ?p ?c" if "sp_try_proxy_raw spec" "\<not> blocked"
    using s2(2) s3(2) that b by simp
qed

lemma call_element_ok: "ro_result (call_element rc req policy p i t) = Inr out \<Longrightarrow> \<exists>n. pv_complete p t req n = Inr out"
  using retry_loop_ok [of "pv_complete p t req" "\<lambda>n. compute_backoff n policy (rc_jitter rc i n)" policy 1 0]
  by (auto simp: call_element_def retry_with_policy_def retry_run_ok_def Let_def)

lemma chain_walk_served:
  assumes "chain_walk rc ticket req policy els tried le skipped = Some (Inr (out, i))"
  shows "\<exists>t p n. (i, t) \<in> set els \<and> rc_providers rc (bt_provider t) = Some p \<and> pv_complete p t req n = Inr out"
  using assms
  by (induction rc ticket req policy els tried le skipped rule: chain_walk.induct)
    (fastforce simp: Let_def dest: call_element_ok split: if_splits option.splits sum.splits)+

text \<open>The items of a stream are those of one of the targets in the ticket's chain.\<close>

definition answered_by :: "AppCore \<Rightarrow> BackendTarget list \<Rightarrow> CanonicalRequest \<Rightarrow> stream_item list \<Rightarrow> bool" where
  "answered_by core chain req items \<longleftrightarrow> (\<exists>t \<in> set chain. \<exists>p n. rc_providers (ac_resilient_caller core) (bt_provider t) = Some p
     \<and> pv_complete p t req n = Inr items)"

lemma complete_call_answered:
  assumes "complete_call clock (ac_resilient_caller core) ticket req reg = Some (Inr s, reg')"
  shows "answered_by core (tk_filtered_chain ticket) req (cs_inner s)"
proof -
  have "(i, t) \<in> set (enumerate 0 xs) \<Longrightarrow> t \<in> set xs" for i t and xs :: "BackendTarget list" by (auto simp: in_set_enumerate_eq)
  then show ?thesis
    using chain_walk_served [OF complete_call_served(3) [OF assms, unfolded complete_inner_def]] unfolding answered_by_def by blast
qed

definition stream_for :: "('l, 'c, 'r) GatewayEnv \<Rightarrow> 'c AppSnapshot \<Rightarrow> FrontendKind \<Rightarrow> string \<Rightarrow> CanonicalRequest \<Rightarrow> stream_item list
    \<Rightarrow> stream_item list" where
  "stream_for env snap kind model req items = wrap_stream (ev_display_plugin_error env) (as_plugins snap) kind model
     (ev_context env (req_id req) kind (debug_frontend_kind kind @ ''/'' @ model)) items"

text \<open>What a canonical (not passed through) reply has to be, given the upstream's items.\<close>

definition canonical_reply :: "('l, 'c, 'r) GatewayEnv \<Rightarrow> 'c AppSnapshot \<Rightarrow> PipelineSpec \<Rightarrow> string \<Rightarrow> CanonicalRequest
    \<Rightarrow> stream_item list \<Rightarrow> ('c, 'r) Reply \<Rightarrow> bool" where
  "canonical_reply env snap spec model req items reply \<longleftrightarrow>
     (let fe = sp_frontend spec; events = stream_for env snap (fp_kind fe) model req items in
      if req_stream req
      then (\<exists>ct frames s guard. fp_encode_stream fe events = FR_Stream ct frames \<and> cs_inner s = items
              \<and> reply = ReplyStream (content_type_or env ''text/event-stream'' ct) frames s guard)
      else (\<exists>resp out. collect_stream (ev_from_str env) (ev_display_stream_error env) (ev_response_id env) events = Inr resp
              \<and> fp_encode_unary fe resp = Inr out \<and> reply = frontend_response_to_axum env out))"

lemma run_stream_canonical:
  assumes "run_stream env core snap spec model req ticket st = Some (Inr reply, st')" "req_stream req"
  shows "\<exists>items. answered_by core (tk_filtered_chain ticket) req items \<and> canonical_reply env snap spec model req items reply"
  using assms complete_call_answered
  by (fastforce simp: run_stream_def canonical_reply_def stream_for_def Let_def split: option.splits prod.splits sum.splits FrontendResponse.splits)

lemma run_unary_canonical:
  assumes "run_unary env core snap spec model req ticket st = Some (Inr reply, st')" "\<not> req_stream req"
  shows "\<exists>items. answered_by core (tk_filtered_chain ticket) req items \<and> canonical_reply env snap spec model req items reply"
proof -
  let ?kind = "fp_kind (sp_frontend spec)"
  let ?ctx = "ev_context env (req_id req) ?kind (debug_frontend_kind ?kind @ ''/'' @ model)"
  from assms(1) obtain s reg where call: "complete_call (ev_settle_clock env) (ac_resilient_caller core) ticket req (breakers st) = Some (Inr s, reg)"
    by (auto simp: run_unary_def Let_def split: option.splits prod.splits sum.splits)
  let ?polls = "collect_polls env (stream_hook_entries (as_plugins snap) ?kind model) ?ctx (cs_inner s) (collector_new (ev_response_id env)) (s, reg)"
  from assms(1) call obtain co out where "fst ?polls = Inr co" "fp_encode_unary (sp_frontend spec) (collected co) = Inr out"
      "reply = frontend_response_to_axum env out"
    by (cases ?polls) (auto simp: run_unary_def Let_def map_sum_Inr split: sum.splits)
  then have "canonical_reply env snap spec model req (cs_inner s) reply"
    using assms(2) by (auto simp: canonical_reply_def stream_for_def collect_polls_result wrap_stream_eq collect_stream_def)
  with complete_call_answered [OF call] show ?thesis by blast
qed

text \<open>C4. What a reply contains. Every reply to a request that was not passed through is, for a target of the chain that the router
  resolved for the request's model, the stream this target's provider answered with, run through the route's
  plugins, and then either encoded as a stream or collected and encoded as one response, as the decoded
  request asked; the request the provider saw has the client's id, model and stream flag.\<close>

theorem reply_is_upstreams:
  assumes "dispatch_inner env core snap spec headers body st = Some (Inr reply, st')"
  shows "(\<exists>ct s. reply = ReplyRaw ct s) \<or>
    (\<exists>model d st1 decoded resolved req items. request_model env snap spec body st = (Inr (model, d), st1)
       \<and> fp_decode_request (sp_frontend spec) body = Inr decoded
       \<and> resolver_resolve_route (ev_lower env) (ac_resolver core) (fp_kind (sp_frontend spec)) model = Inr resolved
       \<and> protected_fields req = protected_fields decoded
       \<and> answered_by core (rr_chain resolved) req items \<and> canonical_reply env snap spec model req items reply)"
  using assms
proof (cases rule: dispatch_cases)
  case (admitted model identity resolved decoded req blocked entry st2 r adm)
  from admitted(3) obtain ticket where r: "r = Inr ticket" by (cases r) auto
  have sub: "set (tk_filtered_chain ticket) \<subseteq> set (rr_chain resolved)"
    by (rule admit_granted [OF admitted(2) [unfolded r]]) (auto simp: filter_chain_def filter_fold_spec)
  let ?st = "st2\<lparr>gs_admission := adm\<rparr>"
  have run: "serve env core snap spec body model blocked req ticket ?st = Some (Inr reply, st')" using admitted(3) r by simp
  have walk: "\<exists>items. answered_by core (tk_filtered_chain ticket) req items \<and> canonical_reply env snap spec model req items reply"
    if "(if req_stream req then run_stream env core snap spec model req ticket ?st else run_unary env core snap spec model req ticket ?st) = Some (Inr reply, st')"
    using that run_stream_canonical run_unary_canonical by (cases "req_stream req") (simp_all, blast+)
  have "(\<exists>ct s. reply = ReplyRaw ct s) \<or> (\<exists>items. answered_by core (tk_filtered_chain ticket) req items \<and> canonical_reply env snap spec model req items reply)"
    using run walk unfolding serve_def try_passthrough_def Let_def
    by (auto split: if_splits option.splits sum.splits list.splits)
  moreover have "answered_by core (tk_filtered_chain ticket) req items \<Longrightarrow> answered_by core (rr_chain resolved) req items" for items
    using sub by (auto simp: answered_by_def)
  moreover have "protected_fields req = protected_fields decoded"
    using admitted(1) shape_request_ok(1) by (fastforce simp: request_admitted_def)
  ultimately show ?thesis using admitted(1) unfolding request_admitted_def by metis
qed auto

theorem reply_is_upstreams_witness:
  "\<exists>reply st' req items. demo_dispatch False False False ''m'' = Some (Inr reply, st')
     \<and> answered_by (demo_core [demo_route ''m'' ''a'' ''x'']) [demo_first] req items
     \<and> canonical_reply demo_env (demo_snapshot False [demo_route ''m'' ''a'' ''x'']) (demo_pspec False False) ''m'' req items reply"
proof -
  obtain st' where run: "demo_dispatch False False False ''m'' = Some (Inr (ReplyUnary ''application/json'' ''m''), st')"
    using demo_dispatch_unary by blast
  have lower: "ev_lower demo_env = id" and kind: "fp_kind (sp_frontend (demo_pspec False False)) = OpenAiChat"
    by (simp_all add: demo_env_def demo_pspec_def demo_frontend_def)
  have model: "model = ''m''" if "request_model demo_env (demo_snapshot False [demo_route ''m'' ''a'' ''x'']) (demo_pspec False False) ''m'' demo_state
      = (Inr (model, d), st1)" for model d st1
    using that by (simp add: request_model_def demo_pspec_def decode_or_dump_def demo_frontend_def)
  have chain: "rr_chain (tk_resolved demo_granted) = [demo_first]" by (simp add: demo_granted_def)
  from reply_is_upstreams [OF run [unfolded demo_dispatch_def]] demo_core_resolve chain run show ?thesis
    unfolding lower kind by (fastforce dest: model)
qed

text \<open>What passthrough means. A passed-through reply is the byte stream that the provider of the admitted chain's first target
  returned for exactly the bytes the client sent; it is only taken where the front end allows it, for an admitted request that
  no plugin changed: the request admission saw is the decoded one with the captured headers and the
  route's policy.\<close>

theorem passthrough_is_raw:
  assumes "dispatch_inner env core snap spec headers body st = Some (Inr (ReplyRaw ct s), st')"
  shows "sp_try_proxy_raw spec \<and> (\<exists>model decoded resolved identity entry target ticket ct0.
       fp_decode_request (sp_frontend spec) body = Inr decoded
     \<and> resolver_resolve_route (ev_lower env) (ac_resolver core) (fp_kind (sp_frontend spec)) model = Inr resolved
     \<and> fst (admit (ev_governor env) (ev_encode_ordinary env) (ev_admit_clock env) (gs_admission st) resolved entry (as_config snap)
         ((with_headers env spec headers decoded)\<lparr>req_resolved_policy :=
            resolved_policy_for core (hd (rr_chain resolved)) (with_headers env spec headers decoded)\<rparr>)
         identity (client_ip_of env headers) (select_image_estimator (fp_kind (sp_frontend spec)))) = Inr ticket
     \<and> target = hd (tk_filtered_chain ticket)
     \<and> ev_proxy_raw env (bt_provider target) body target (fp_kind (sp_frontend spec)) = Inr (Some (ct0, cb_inner s))
     \<and> s = cb_new (cb_inner s) ticket 0)"
  using assms
proof (cases rule: dispatch_cases)
  case (admitted model identity resolved decoded req blocked entry st2 r adm)
  from admitted(3) obtain ticket where r: "r = Inr ticket" by (cases r) auto
  have run: "serve env core snap spec body model blocked req ticket (st2\<lparr>gs_admission := adm\<rparr>) = Some (Inr (ReplyRaw ct s), st')"
    using admitted(3) r by simp
  have "run_stream env core snap spec model req ticket st0 \<noteq> Some (Inr (ReplyRaw ct s), st')"
    "run_unary env core snap spec model req ticket st0 \<noteq> Some (Inr (ReplyRaw ct s), st')" for st0
    using run_unary_reply by (fastforce simp: run_stream_def frontend_response_to_axum_def Let_def
      split: option.splits prod.splits sum.splits FrontendResponse.splits)+
  with run obtain ct0 where raw: "sp_try_proxy_raw spec" "\<not> blocked"
      "ev_proxy_raw env (bt_provider (hd (tk_filtered_chain ticket))) body (hd (tk_filtered_chain ticket)) (fp_kind (sp_frontend spec)) = Inr (Some (ct0, cb_inner s))"
      "s = cb_new (cb_inner s) ticket 0"
    unfolding serve_def try_passthrough_def Let_def
    by (auto simp: cb_new_def split: if_splits option.splits sum.splits list.splits)
  have "req = (with_headers env spec headers decoded)\<lparr>req_resolved_policy :=
      resolved_policy_for core (hd (rr_chain resolved)) (with_headers env spec headers decoded)\<rparr>"
    using admitted(1) shape_request_ok(2) raw(1,2) by (fastforce simp: request_admitted_def)
  with admitted(1,2) raw r show ?thesis unfolding request_admitted_def by (metis fst_conv)
qed auto

theorem passthrough_is_raw_witness:
  "demo_dispatch False True True ''m'' = Some (Inr (ReplyRaw ''text/event-stream'' (cb_new ''m'' demo_granted 0)), demo_admitted_state)
   \<and> sp_try_proxy_raw (demo_pspec True True)"
  using demo_dispatch_raw passthrough_is_raw [OF demo_dispatch_raw [of True, unfolded demo_dispatch_def]] by blast

end
