(* ===== verification/Validation.thy ===== *)
theory Validation
  imports Plugins Rate_Limit Cost_Filter
begin

text \<open>
  The validation of a configuration file, \<open>config/src/validation.rs\<close>: the startup rules of \<open>validate\<close> around the route,
  rate-limit and authentication rules modelled elsewhere, the plugin rules, the rules of a reload and the
  strict check against the discovered models.

  \<open>FullConfig\<close> is the part of \<open>GatewayConfig\<close> that validation reads; a \<open>BTreeMap\<close> is the list of its entries in key
  order. \<open>gateway_config\<close> is the part that the router, the limiter and the cost filter use. Of an error the texts
  are left out, not what distinguishes it.
\<close>

section \<open>The configuration file\<close>

type_synonym u16 = "16 word"

record ServerConfig =
  sc_bind :: string
  sc_port :: u16
  sc_keepalive_secs :: u64

record AdminConfig =
  adc_bind :: string
  adc_port :: u16

record OtelConfig =
  oc_endpoint :: "string option"
  oc_sample_ratio :: f64

text \<open>The connection fields of an upstream block.\<close>

record UpstreamEndpoint =
  ue_base_url :: string
  ue_api_key :: string
  ue_request_timeout_secs :: u64
  ue_anthropic_version :: string

record FullConfig =
  cf_server :: ServerConfig
  cf_upstreams :: "(string \<times> UpstreamConfig \<times> UpstreamEndpoint) list"
  cf_routes :: "RouteEntry list"
  cf_plugins :: "(string \<times> PluginSpec) list"
  cf_auth :: AuthConfig
  cf_rate_limit :: RateLimitConfig
  cf_admin :: "AdminConfig option"
  cf_otel :: "OtelConfig option"
  cf_plugin_flush_secs :: u64
  cf_strict_upstream_models :: bool

definition gateway_config :: "FullConfig \<Rightarrow> GatewayConfig" where
  "gateway_config cfg = \<lparr>gc_upstreams = map_of (map (\<lambda>(name, up, ep). (name, up)) (cf_upstreams cfg)),
     gc_routes = cf_routes cfg, gc_auth = cf_auth cfg, gc_rate_limit = cf_rate_limit cfg\<rparr>"

abbreviation upstream_names :: "FullConfig \<Rightarrow> string list" where
  "upstream_names cfg \<equiv> map fst (cf_upstreams cfg)"

section \<open>Startup validation\<close>

datatype upstream_fault = EmptyApiKey | EmptyBaseUrl | BadScheme | ZeroTimeout | EmptyVersion

datatype ValidationError =
    ZeroPort
  | VE_UnknownUpstream string
  | DuplicateAlias string string
  | VE_UnknownFrontend string
  | InvalidUpstream string upstream_fault
  | VE_SampleRatio f64
  | VE_FlushSecs u64
  | InvalidRoute route_error
  | VE_RateLimit limit_error
  | VE_Auth limit_error
  | PortCollision u16 u16 string
  | NegativeCost string string
  | ImpossibleMinTier string Tier "(string \<times> Tier) list"
  | UndeclaredPlugin string string string
  | ZeroTimeoutMs string string
  | DuplicatePluginName string
  | UnknownUpstreamModel string string string

definition check_listeners :: "FullConfig \<Rightarrow> ValidationError option" where
  "check_listeners cfg =
     (let server = cf_server cfg in
      if sc_port server = 0 then Some ZeroPort
      else case cf_admin cfg of
        None \<Rightarrow> None
      | Some admin \<Rightarrow>
          (if adc_port admin = 0 then Some ZeroPort
           else if adc_port admin = sc_port server \<and> adc_bind admin = sc_bind server
           then Some (PortCollision (adc_port admin) (sc_port server) (adc_bind admin))
           else None))"

definition check_limits :: "FullConfig \<Rightarrow> ValidationError option" where
  "check_limits cfg =
     (case cf_otel cfg of
        Some otel \<Rightarrow> (if \<not> (0 \<le> oc_sample_ratio otel \<and> oc_sample_ratio otel \<le> 1) then Some (VE_SampleRatio (oc_sample_ratio otel))
                      else if cf_plugin_flush_secs cfg > 300 then Some (VE_FlushSecs (cf_plugin_flush_secs cfg)) else None)
      | None \<Rightarrow> (if cf_plugin_flush_secs cfg > 300 then Some (VE_FlushSecs (cf_plugin_flush_secs cfg)) else None))"

definition valid_frontends :: "string list" where
  "valid_frontends = [''anthropic_messages'', ''anthropic'', ''openai_chat'', ''openai'', ''openai_responses'', ''responses'']"

text \<open>The upstream names that a route references, in either shape.\<close>

definition referenced_upstreams :: "RouteEntry \<Rightarrow> string list" where
  "referenced_upstreams route =
     (if re_upstreams route \<noteq> [] then map ur_name (re_upstreams route)
      else case re_upstream route of Some name \<Rightarrow> [name] | None \<Rightarrow> [])"

fun check_aliases :: "FullConfig \<Rightarrow> (string \<times> string) set \<Rightarrow> RouteEntry list \<Rightarrow> ValidationError option" where
  "check_aliases cfg seen [] = None"
| "check_aliases cfg seen (route # routes) =
     (if re_frontend route \<notin> set valid_frontends then Some (VE_UnknownFrontend (re_frontend route))
      else case find (\<lambda>name. \<not> upstream_is_configured (gateway_config cfg) (upstream_names cfg) name) (referenced_upstreams route) of
        Some name \<Rightarrow> Some (VE_UnknownUpstream name)
      | None \<Rightarrow>
          (if (re_frontend route, re_model route) \<in> seen then Some (DuplicateAlias (re_frontend route) (re_model route))
           else check_aliases cfg (insert (re_frontend route, re_model route) seen) routes))"

definition validate_oai_style_upstream :: "string \<Rightarrow> UpstreamEndpoint \<Rightarrow> ValidationError option" where
  "validate_oai_style_upstream name ep =
     (if ue_api_key ep = [] then Some (InvalidUpstream name EmptyApiKey)
      else if ue_base_url ep = [] then Some (InvalidUpstream name EmptyBaseUrl)
      else if \<not> starts_with (ue_base_url ep) ''http://'' \<and> \<not> starts_with (ue_base_url ep) ''https://''
      then Some (InvalidUpstream name BadScheme)
      else if ue_request_timeout_secs ep = 0 then Some (InvalidUpstream name ZeroTimeout)
      else None)"

fun check_upstream :: "string \<times> UpstreamConfig \<times> UpstreamEndpoint \<Rightarrow> ValidationError option" where
  "check_upstream (name, Anthropic c, ep) =
     (case validate_oai_style_upstream name ep of
        Some e \<Rightarrow> Some e
      | None \<Rightarrow> (if ue_anthropic_version ep = [] then Some (InvalidUpstream name EmptyVersion) else None))"
| "check_upstream (name, Deepseek c, ep) = validate_oai_style_upstream name ep"
| "check_upstream (name, Gemini c, ep) = validate_oai_style_upstream name ep"
| "check_upstream (name, Glm c, ep) = validate_oai_style_upstream name ep"
| "check_upstream (name, up, ep) = None"

definition check_cost :: "string \<times> UpstreamConfig \<times> UpstreamEndpoint \<Rightarrow> ValidationError option" where
  "check_cost = (\<lambda>(name, up, ep).
     case upstream_cost up of
       None \<Rightarrow> None
     | Some cost \<Rightarrow>
         (if input_per_million_usd cost < 0 then Some (NegativeCost name ''input_per_million_usd'')
          else if output_per_million_usd cost < 0 then Some (NegativeCost name ''output_per_million_usd'')
          else None))"

text \<open>The tiers of a route's chain; the virtual name \<open>copilot\<close> stands for the first Copilot block.\<close>

definition tier_lookup :: "FullConfig \<Rightarrow> string \<Rightarrow> UpstreamConfig option" where
  "tier_lookup cfg n =
     or_opt (gc_upstreams (gateway_config cfg) n)
       (if n = ''copilot''
        then find (\<lambda>u. case u of GithubCopilot c \<Rightarrow> True | _ \<Rightarrow> False) (map (fst \<circ> snd) (cf_upstreams cfg)) else None)"

definition check_min_tier :: "FullConfig \<Rightarrow> RouteEntry \<Rightarrow> ValidationError option" where
  "check_min_tier cfg route =
     (case re_min_tier route of
        None \<Rightarrow> None
      | Some min_tier \<Rightarrow>
          (let chain_tiers = List.map_filter (\<lambda>n. map_option (\<lambda>u. (n, upstream_tier u)) (tier_lookup cfg n)) (referenced_upstreams route)
           in if chain_tiers = [] then None
              else if \<not> list_ex (\<lambda>(n, t). t \<ge> min_tier) chain_tiers
              then Some (ImpossibleMinTier (re_frontend route @ ''/'' @ re_model route) min_tier chain_tiers)
              else None))"

section \<open>Plugin rules\<close>

definition iter_references :: "RoutePluginsBlock \<Rightarrow> (string \<times> string) list" where
  "iter_references b = map (Pair ''on_decoded_request'') (rb_on_decoded_request b) @ map (Pair ''on_resolved'') (rb_on_resolved b)
     @ map (Pair ''on_stream_event'') (rb_on_stream_event b) @ map (Pair ''on_response_complete'') (rb_on_response_complete b)"

fun check_plugin_names :: "string set \<Rightarrow> string list \<Rightarrow> ValidationError option" where
  "check_plugin_names seen [] = None"
| "check_plugin_names seen (name # names) =
     (if name \<in> seen then Some (DuplicatePluginName name) else check_plugin_names (insert name seen) names)"

definition check_timeouts :: "string \<times> PluginSpec \<Rightarrow> ValidationError option" where
  "check_timeouts = (\<lambda>(name, spec).
     case ps_timeout_ms spec of
       None \<Rightarrow> None
     | Some (Uniform ms) \<Rightarrow> (if ms = 0 then Some (ZeroTimeoutMs name ''uniform'') else None)
     | Some (PerHook d h2 h3 h5 h7) \<Rightarrow>
         map_option (\<lambda>(slot, v). ZeroTimeoutMs name slot)
           (find (\<lambda>(slot, v). v = Some 0) [(''default'', d), (''on_decoded_request'', h2), (''on_resolved'', h3),
              (''on_stream_event'', h5), (''on_response_complete'', h7)]))"

definition check_references :: "FullConfig \<Rightarrow> RouteEntry \<Rightarrow> ValidationError option" where
  "check_references cfg route =
     (case re_plugins route of
        None \<Rightarrow> None
      | Some block \<Rightarrow>
          map_option (\<lambda>(hook, name). UndeclaredPlugin (re_frontend route @ ''/'' @ re_model route) name hook)
            (find (\<lambda>(hook, name). name \<notin> fst ` set (cf_plugins cfg)) (iter_references block)))"

definition validate_plugins :: "FullConfig \<Rightarrow> ValidationError option" where
  "validate_plugins cfg = first_error (\<lambda>x. x)
     [check_plugin_names {} (map fst (cf_plugins cfg)), first_error check_timeouts (cf_plugins cfg),
      first_error (check_references cfg) (cf_routes cfg)]"

definition tunnel :: "('e \<Rightarrow> ValidationError) \<Rightarrow> 'e + unit \<Rightarrow> ValidationError option" where
  "tunnel f r = (case r of Inl e \<Rightarrow> Some (f e) | Inr u \<Rightarrow> None)"

definition validate :: "FullConfig \<Rightarrow> ValidationError + unit" where
  "validate cfg =
     (case first_error (\<lambda>x. x)
        [check_listeners cfg, check_limits cfg, check_aliases cfg {} (cf_routes cfg),
         first_error check_upstream (cf_upstreams cfg),
         tunnel InvalidRoute (validate_routes (gateway_config cfg) (upstream_names cfg)),
         tunnel VE_RateLimit (validate_rate_limit (gateway_config cfg)),
         tunnel VE_Auth (validate_auth (gateway_config cfg)),
         first_error check_cost (cf_upstreams cfg),
         first_error (check_min_tier cfg) (cf_routes cfg),
         validate_plugins cfg]
      of Some e \<Rightarrow> Inl e | None \<Rightarrow> Inr ())"

section \<open>The strict model check\<close>

definition checked_models :: "RouteEntry \<Rightarrow> (string \<times> string) list" where
  "checked_models entry =
     (if re_upstreams entry \<noteq> []
      then map (\<lambda>u. (ur_name u, ur_model u)) (filter (\<lambda>u. ur_model u \<noteq> ''*'') (re_upstreams entry))
      else case (re_upstream entry, re_upstream_model entry) of
        (Some u, Some m) \<Rightarrow> (if m \<noteq> ''*'' then [(u, m)] else [])
      | _ \<Rightarrow> [])"

definition validate_with_index :: "FullConfig \<Rightarrow> (string \<times> string list) list \<Rightarrow> ValidationError + unit" where
  "validate_with_index cfg discovered =
     (if \<not> cf_strict_upstream_models cfg then Inr ()
      else case first_error (\<lambda>entry. map_option (\<lambda>(u, m). UnknownUpstreamModel (re_frontend entry @ ''/'' @ re_model entry) u m)
             (find (\<lambda>(u, m). \<not> list_ex (\<lambda>(p, models). p = u \<and> m \<in> set models) discovered) (checked_models entry))) (cf_routes cfg) of
        Some e \<Rightarrow> Inl e
      | None \<Rightarrow> Inr ())"

section \<open>Reload validation\<close>

record ReloadBaseline =
  bl_upstream_names :: "string list"
  bl_server :: ServerConfig
  bl_admin :: "AdminConfig option"
  bl_otel_endpoint :: "string option"

datatype ReloadValidationError =
    UpstreamSetChanged "string list" "string list"
  | ImmutableFieldChanged string string string
  | StartupError ValidationError

definition show_port :: "u16 \<Rightarrow> string" where
  "show_port p = show_nat (unat p)"

definition check_immutable :: "('e \<Rightarrow> string) \<Rightarrow> string \<Rightarrow> 'e \<Rightarrow> 'e \<Rightarrow> ReloadValidationError option" where
  "check_immutable display field old new = (if new \<noteq> old then Some (ImmutableFieldChanged field (display old) (display new)) else None)"

text \<open>\<open>debug\<close> is \<open>{:?}\<close> on an optional string.\<close>

definition validate_for_reload :: "(string option \<Rightarrow> string) \<Rightarrow> FullConfig \<Rightarrow> ReloadBaseline \<Rightarrow> ReloadValidationError + nat" where
  "validate_for_reload debug candidate baseline =
     (let names = upstream_names candidate;
          added = filter (\<lambda>n. n \<notin> set (bl_upstream_names baseline)) names;
          removed = filter (\<lambda>n. n \<notin> set names) (bl_upstream_names baseline)
      in case first_error (\<lambda>x. x)
        [check_immutable id ''server.bind'' (sc_bind (bl_server baseline)) (sc_bind (cf_server candidate)),
         check_immutable show_port ''server.port'' (sc_port (bl_server baseline)) (sc_port (cf_server candidate)),
         (case (bl_admin baseline, cf_admin candidate) of
            (Some b, Some c) \<Rightarrow> or_opt (check_immutable id ''admin.bind'' (adc_bind b) (adc_bind c))
              (check_immutable show_port ''admin.port'' (adc_port b) (adc_port c))
          | (None, Some c) \<Rightarrow> Some (ImmutableFieldChanged ''admin'' ''absent'' ''present'')
          | (Some b, None) \<Rightarrow> Some (ImmutableFieldChanged ''admin'' ''present'' ''absent'')
          | (None, None) \<Rightarrow> None),
         check_immutable debug ''otel.endpoint'' (bl_otel_endpoint baseline) (Option.bind (cf_otel candidate) oc_endpoint),
         (if added \<noteq> [] \<or> removed \<noteq> [] then Some (UpstreamSetChanged added removed) else None),
         (case validate candidate of Inl e \<Rightarrow> Some (StartupError e) | Inr u \<Rightarrow> None)]
      of Some e \<Rightarrow> Inl e | None \<Rightarrow> Inr (length (cf_routes candidate)))"

section \<open>What an accepted configuration guarantees\<close>

lemma validate_checks:
  assumes "validate cfg = Inr ()"
  shows "check_listeners cfg = None" "check_aliases cfg {} (cf_routes cfg) = None"
    "validate_routes (gateway_config cfg) (upstream_names cfg) = Inr ()"
    "\<forall>route \<in> set (cf_routes cfg). check_min_tier cfg route = None" "validate_plugins cfg = None"
  using assms by (auto simp: validate_def tunnel_def first_error_none split: option.splits sum.splits)

lemma check_aliases_ok:
  "check_aliases cfg seen routes = None \<Longrightarrow>
     (\<forall>route \<in> set routes. frontend_of_string (re_frontend route) \<noteq> None
        \<and> (\<forall>n \<in> set (referenced_upstreams route). upstream_is_configured (gateway_config cfg) (upstream_names cfg) n))
     \<and> distinct (map (\<lambda>r. (re_frontend r, re_model r)) routes)
     \<and> (\<lambda>r. (re_frontend r, re_model r)) ` set routes \<inter> seen = {}"
proof (induction cfg seen routes rule: check_aliases.induct)
  case (2 cfg seen route routes)
  have "re_frontend route \<in> set valid_frontends \<Longrightarrow> frontend_of_string (re_frontend route) \<noteq> None"
    by (auto simp: valid_frontends_def frontend_of_string_def)
  moreover from "2.prems" have *: "re_frontend route \<in> set valid_frontends"
      "find (\<lambda>n. \<not> upstream_is_configured (gateway_config cfg) (upstream_names cfg) n) (referenced_upstreams route) = None"
      "(re_frontend route, re_model route) \<notin> seen"
      "check_aliases cfg (insert (re_frontend route, re_model route) seen) routes = None"
    by (auto split: if_splits option.splits)
  moreover note "2.IH" [OF _ *(2,3,4)]
  ultimately show ?case by (auto simp: find_None_iff)
qed simp

lemma tier_lookup_configured:
  assumes "upstream_is_configured (gateway_config cfg) (upstream_names cfg) n"
  shows "tier_lookup cfg n \<noteq> None"
proof (cases "gc_upstreams (gateway_config cfg) n")
  case None
  let ?cop = "\<lambda>u. case u of GithubCopilot c \<Rightarrow> True | _ \<Rightarrow> False"
  from None assms have m: "n = ''copilot''"
    "list_ex (\<lambda>m. case gc_upstreams (gateway_config cfg) m of Some (GithubCopilot _) \<Rightarrow> True | _ \<Rightarrow> False) (upstream_names cfg)"
    by (auto simp: upstream_is_configured_def)
  then obtain m where "case gc_upstreams (gateway_config cfg) m of Some (GithubCopilot _) \<Rightarrow> True | _ \<Rightarrow> False"
    by (auto simp only: list_ex_iff)
  then obtain u where u: "gc_upstreams (gateway_config cfg) m = Some u" "?cop u"
    by (cases "gc_upstreams (gateway_config cfg) m") (simp_all split: UpstreamConfig.splits)
  then have "u \<in> set (map (fst \<circ> snd) (cf_upstreams cfg))"
    by (force simp: gateway_config_def dest: map_of_SomeD)
  with u(2) have "find ?cop (map (fst \<circ> snd) (cf_upstreams cfg)) \<noteq> None" unfolding find_None_iff by blast
  with None m(1) show ?thesis by (simp add: tier_lookup_def or_opt_def)
qed (simp add: tier_lookup_def or_opt_def)

lemma min_tier_met:
  assumes "check_min_tier cfg route = None" "re_min_tier route = Some min_tier" "referenced_upstreams route \<noteq> []"
    and "\<forall>n \<in> set (referenced_upstreams route). upstream_is_configured (gateway_config cfg) (upstream_names cfg) n"
  shows "\<exists>n \<in> set (referenced_upstreams route). \<exists>u. tier_lookup cfg n = Some u \<and> min_tier \<le> upstream_tier u"
proof -
  let ?tiers = "List.map_filter (\<lambda>n. map_option (\<lambda>u. (n, upstream_tier u)) (tier_lookup cfg n)) (referenced_upstreams route)"
  obtain n where n: "n \<in> set (referenced_upstreams route)" using assms(3) by (cases "referenced_upstreams route") auto
  with assms(4) tier_lookup_configured obtain u where "tier_lookup cfg n = Some u" by blast
  with n have "(n, upstream_tier u) \<in> set ?tiers" by (force simp: List.map_filter_def)
  then have "?tiers \<noteq> []" by auto
  with assms(1,2) have "list_ex (\<lambda>(n, t). t \<ge> min_tier) ?tiers" by (auto simp: check_min_tier_def Let_def split: if_splits)
  then obtain m t where "(m, t) \<in> set ?tiers" "min_tier \<le> t" by (auto simp: list_ex_iff)
  then have "m \<in> set (referenced_upstreams route) \<and> (\<exists>u. tier_lookup cfg m = Some u \<and> t = upstream_tier u)"
    unfolding List.map_filter_def by auto
  with \<open>min_tier \<le> t\<close> show ?thesis by blast
qed

text \<open>Which errors the plugin registry can still report.\<close>

fun factory_error :: "RegistryBuildError \<Rightarrow> bool" where
  "factory_error (RB_UndeclaredPluginReference r h p) = False"
| "factory_error (RB_UnknownFrontend f) = False"
| "factory_error _ = True"

lemma resolve_hook_declared:
  "resolve_hook plugins fe route hook names = Inl e \<Longrightarrow> set names \<subseteq> dom plugins \<Longrightarrow> factory_error e"
  by (induction names) (auto split: option.splits if_splits sum.splits)

lemma references_names: "snd ` set (iter_references rp) = set (rb_on_decoded_request rp) \<union> set (rb_on_resolved rp)
    \<union> set (rb_on_stream_event rp) \<union> set (rb_on_response_complete rp)"
  by (simp add: iter_references_def image_Un image_image Un_assoc)

lemma build_plans_declared:
  assumes "build_plans plugins routes plans = Inl e"
    and "\<forall>r \<in> set routes. frontend_of_string (re_frontend r) \<noteq> None"
    and "\<forall>r \<in> set routes. \<forall>rp. re_plugins r = Some rp \<longrightarrow> snd ` set (iter_references rp) \<subseteq> dom plugins"
  shows "factory_error e"
  using assms
proof (induction plugins routes plans rule: build_plans.induct)
  case (2 plugins route routes plans)
  have "factory_error e" if "resolve_plan plugins fe route rp = Inl e" "re_plugins route = Some rp" for fe rp
  proof -
    have "set (rb_on_decoded_request rp) \<union> set (rb_on_resolved rp) \<union> set (rb_on_stream_event rp) \<union> set (rb_on_response_complete rp) \<subseteq> dom plugins"
      using "2.prems"(3) that(2) by (simp add: references_names)
    with that(1) show ?thesis
      by (auto simp: resolve_plan_def split: sum.splits dest!: resolve_hook_declared)
  qed
  with 2 show ?case by (auto split: option.splits sum.splits if_splits)
qed simp

lemma instantiate_dom:
  "instantiate_plugins known fm specs plugins = Inr plugins' \<Longrightarrow> dom plugins' = dom plugins \<union> fst ` set specs"
  by (induction known fm specs plugins rule: instantiate_plugins.induct) (auto split: option.splits sum.splits)

lemma instantiate_error: "instantiate_plugins known fm specs plugins = Inl e \<Longrightarrow> factory_error e"
  by (induction known fm specs plugins rule: instantiate_plugins.induct) (auto split: option.splits sum.splits)

lemma index_factories_error: "index_factories fs fm = Inl e \<Longrightarrow> factory_error e"
  by (induction fs fm rule: index_factories.induct) (auto split: if_splits)

lemma validated_plugins:
  assumes "validate_plugins cfg = None"
  shows "\<forall>r \<in> set (cf_routes cfg). \<forall>rp. re_plugins r = Some rp \<longrightarrow> snd ` set (iter_references rp) \<subseteq> fst ` set (cf_plugins cfg)"
    and "\<forall>(name, spec) \<in> set (cf_plugins cfg). check_timeouts (name, spec) = None"
  using assms by (fastforce simp: validate_plugins_def first_error_none check_references_def find_None_iff split: option.splits)+

lemma timeouts_positive:
  assumes "check_timeouts (name, spec) = None" "ps_timeout_ms spec = Some t"
  shows "timeout_for_hook (hook_timeouts_from_yaml t) hook \<noteq> 0"
proof (cases t)
  case (Uniform ms)
  with assms show ?thesis by (cases hook) (auto simp: check_timeouts_def hook_timeouts_uniform_def split: if_splits)
next
  case (PerHook d h2 h3 h5 h7)
  with assms have "d \<noteq> Some 0" "h2 \<noteq> Some 0" "h3 \<noteq> Some 0" "h5 \<noteq> Some 0" "h7 \<noteq> Some 0"
    by (auto simp: check_timeouts_def split: if_splits)
  with PerHook show ?thesis
    by (cases hook; cases d; cases h2; cases h3; cases h5; cases h7) (simp_all add: hook_timeouts_default_def unwrap_or_def or_opt_def)
qed

lemma validated_starts:
  assumes "validate cfg = Inr ()"
  shows "(\<exists>r. router_from_config (gateway_config cfg) = Some r)
    \<and> distinct (map (\<lambda>r. (re_frontend r, re_model r)) (cf_routes cfg))
    \<and> (\<forall>factories e. registry_build factories (cf_plugins cfg) (cf_routes cfg) = Inl e \<longrightarrow> factory_error e)
    \<and> (\<forall>(name, spec) \<in> set (cf_plugins cfg). \<forall>t hook. ps_timeout_ms spec = Some t \<longrightarrow>
         timeout_for_hook (hook_timeouts_from_yaml t) hook \<noteq> 0)
    \<and> (\<forall>route \<in> set (cf_routes cfg). \<exists>n \<in> set (referenced_upstreams route). \<exists>u. tier_lookup cfg n = Some u
         \<and> (\<forall>env. fe_route env = route \<longrightarrow> \<not> tier_rejects env u))"
proof -
  note checks = validate_checks [OF assms]
  note aliases = check_aliases_ok [OF checks(2), THEN conjunct1] check_aliases_ok [OF checks(2), THEN conjunct2, THEN conjunct1] and plugins = validated_plugins [OF checks(5)]
  have "\<exists>r. router_from_config (gateway_config cfg) = Some r" by (rule validated_router [OF checks(3)])
  moreover have "factory_error e" if "registry_build factories (cf_plugins cfg) (cf_routes cfg) = Inl e" for factories e
  proof -
    have "factory_error e" if "instantiate_plugins known fm (cf_plugins cfg) Map.empty = Inr ps"
      "build_plans ps (cf_routes cfg) Map.empty = Inl e" for known fm ps
      by (rule build_plans_declared [OF that(2)])
        (use aliases(1) plugins(1) instantiate_dom [OF that(1)] in auto)
    with that show ?thesis
      by (auto simp: registry_build_def split: sum.splits dest: index_factories_error instantiate_error)
  qed
  moreover have "\<exists>n \<in> set (referenced_upstreams route). \<exists>u. tier_lookup cfg n = Some u \<and> (\<forall>env. fe_route env = route \<longrightarrow> \<not> tier_rejects env u)"
    if r: "route \<in> set (cf_routes cfg)" for route
  proof -
    have conf: "\<forall>n \<in> set (referenced_upstreams route). upstream_is_configured (gateway_config cfg) (upstream_names cfg) n" using aliases(1) r by blast
    have "\<exists>j. validate_route (gateway_config cfg) (upstream_names cfg) j route = None"
      using checks(3) r unfolding validate_routes_def by (intro validate_loop_ok) (auto simp: gateway_config_def)
    then have names: "referenced_upstreams route \<noteq> []"
      by (auto simp: validate_route_def referenced_upstreams_def Let_def split: if_splits option.splits)
    show ?thesis
    proof (cases "re_min_tier route")
      case None
      from names obtain n where "n \<in> set (referenced_upstreams route)" by (cases "referenced_upstreams route") auto
      moreover from this conf tier_lookup_configured obtain u where "tier_lookup cfg n = Some u" by blast
      ultimately show ?thesis using None by (auto simp: tier_rejects_def)
    next
      case (Some min_tier)
      from min_tier_met [OF _ Some names conf] checks(4) r show ?thesis
        by (fastforce simp: tier_rejects_def Some)
    qed
  qed
  ultimately show ?thesis using aliases(2) plugins(2) timeouts_positive by (fastforce simp: case_prod_unfold)
qed

text \<open>C19. What validation is for. When a configuration is accepted, the router is built from it without a panic; no two routes have
  the same front end and model; the plugin registry cannot fail for an undeclared plugin or an unknown
  front end; every configured plugin timeout is positive; and each route with a minimum tier names an
  upstream that the tier axis of the cost filter does not reject.\<close>

theorem validated_config_starts:
  assumes "validate cfg = Inr ()"
  shows "(\<exists>r. router_from_config (gateway_config cfg) = Some r)
    \<and> distinct (map (\<lambda>r. (re_frontend r, re_model r)) (cf_routes cfg))
    \<and> (\<forall>factories e. registry_build factories (cf_plugins cfg) (cf_routes cfg) = Inl e \<longrightarrow> factory_error e)
    \<and> (\<forall>(name, spec) \<in> set (cf_plugins cfg). \<forall>t hook. ps_timeout_ms spec = Some t \<longrightarrow>
         timeout_for_hook (hook_timeouts_from_yaml t) hook \<noteq> 0)
    \<and> (\<forall>route \<in> set (cf_routes cfg). \<exists>n \<in> set (referenced_upstreams route). \<exists>u. tier_lookup cfg n = Some u
         \<and> (\<forall>env. fe_route env = route \<longrightarrow> \<not> tier_rejects env u))"
  by (rule validated_starts [OF assms])

definition demo_server :: ServerConfig where
  "demo_server = \<lparr>sc_bind = ''127.0.0.1'', sc_port = 8787, sc_keepalive_secs = 15\<rparr>"

definition demo_full :: "(string \<times> UpstreamConfig \<times> UpstreamEndpoint) list \<Rightarrow> RouteEntry list \<Rightarrow> FullConfig" where
  "demo_full ups routes = \<lparr>cf_server = demo_server, cf_upstreams = ups, cf_routes = routes, cf_plugins = [],
     cf_auth = auth_config_default, cf_rate_limit = rate_limit_config_default, cf_admin = None, cf_otel = None,
     cf_plugin_flush_secs = 5, cf_strict_upstream_models = False\<rparr>"

definition demo_endpoint :: UpstreamEndpoint where
  "demo_endpoint = \<lparr>ue_base_url = ''http://u'', ue_api_key = ''k'', ue_request_timeout_secs = 30, ue_anthropic_version = ''v''\<rparr>"

lemmas demo_full_defs = demo_full_def demo_server_def demo_endpoint_def demo_route_defs

lemma demo_full_valid: "validate (demo_full [(''a'', demo_upstream, demo_endpoint)] [demo_route ''m'' ''a'' ''x'']) = Inr ()"
proof -
  let ?cfg = "demo_full [(''a'', demo_upstream, demo_endpoint)] [demo_route ''m'' ''a'' ''x'']"
  have "check_listeners ?cfg = None" "check_limits ?cfg = None"
    by (simp_all add: check_listeners_def check_limits_def demo_full_defs)
  moreover have "check_aliases ?cfg {} (cf_routes ?cfg) = None" "first_error (check_min_tier ?cfg) (cf_routes ?cfg) = None"
    by (simp_all add: demo_full_defs gateway_config_def valid_frontends_def referenced_upstreams_def upstream_is_configured_def
      check_min_tier_def)
  moreover have "first_error check_upstream (cf_upstreams ?cfg) = None" "first_error check_cost (cf_upstreams ?cfg) = None"
    by (simp_all add: demo_full_defs check_cost_def)
  moreover have "validate_routes (gateway_config ?cfg) (upstream_names ?cfg) = Inr ()" "validate_rate_limit (gateway_config ?cfg) = Inr ()"
    "validate_auth (gateway_config ?cfg) = Inr ()"
    by code_simp+
  moreover have "validate_plugins ?cfg = None"
    by (simp add: demo_full_defs validate_plugins_def check_references_def)
  ultimately show ?thesis unfolding validate_def tunnel_def by simp
qed

theorem validated_config_starts_witness:
  "(\<exists>r. router_from_config (gateway_config (demo_full [(''a'', demo_upstream, demo_endpoint)] [demo_route ''m'' ''a'' ''x''])) = Some r)"
  using validated_config_starts [OF demo_full_valid] by blast

end
