(* ===== verification/Gateway.thy ===== *)
theory Gateway
  imports Dispatch Validation
begin

text \<open>
  The life of the gateway process: how a configuration becomes the running state (\<open>AppState::build\<close> of
  \<open>gateway/src/state.rs\<close>, \<open>run\<close> and \<open>run_core\<close> of \<open>gateway/src/commands/serve.rs\<close>), how a reload replaces the
  policy under traffic (\<open>handle_reload\<close>, \<open>reload_trigger.rs\<close>, \<open>observability/src/reload.rs\<close>,
  \<open>admin/reload_handler.rs\<close>) and what is flushed at shutdown, with the step relation of the whole process.

  \<open>BootEnv\<close> collects what is not under the model: the constructors of the HTTP providers and their model discovery,
  the plugin factories, the clocks, the file system and the YAML reader. A panic is \<open>None\<close>. The channel hands reloads
  one by one to a single task, so a reload is one step; a request is one step too, but may use any snapshot that was
  current at some time before. Listeners, tracing and metrics are not modelled.
\<close>

section \<open>State\<close>

record ('l, 'c) AppState =
  st_core :: AppCore
  st_config_path :: "string option"
  st_server_config :: ServerConfig
  st_admin_config :: "AdminConfig option"
  st_config :: FullConfig
  st_snapshot :: "'c AppSnapshot"
  st_gateway :: "'l GatewayState"
  st_flush_registry :: "PluginSupervisor option"

text \<open>\<open>st_config\<close> is the configuration inside the current snapshot. \<open>gs_supervisor\<close> of \<open>st_gateway\<close> belongs to the plugin
  registry of the current snapshot; \<open>st_flush_registry\<close> is the supervisor of the registry that \<open>run_core\<close> captured for
  its flush, once that registry is no longer the current one.\<close>

record 'c BootEnv =
  bv_from_config :: "string \<Rightarrow> UpstreamConfig \<Rightarrow> UpstreamEndpoint \<Rightarrow> string + stream_item list BackendProvider"
  bv_list_models :: "string \<Rightarrow> string + model_table option"
  bv_lower :: "string \<Rightarrow> string"
  bv_factories :: "'c PluginFactory list"
  bv_latency_probe :: "string \<Rightarrow> u64 option"
  bv_jitter :: "nat \<Rightarrow> u32 \<Rightarrow> f64"
  bv_elapsed_ms :: "nat \<Rightarrow> u64"
  bv_dump_dir :: "FullConfig \<Rightarrow> string"
  bv_read_to_string :: "string \<Rightarrow> string + string"
  bv_from_yaml :: "string \<Rightarrow> string + FullConfig"
  bv_debug :: "string option \<Rightarrow> string"

section \<open>Startup\<close>

definition register_provider :: "'c BootEnv \<Rightarrow> string \<times> UpstreamConfig \<times> UpstreamEndpoint
    \<Rightarrow> (string \<rightharpoonup> stream_item list BackendProvider) \<Rightarrow> (string \<rightharpoonup> stream_item list BackendProvider)" where
  "register_provider env up registry =
     (case up of (name, cfg, ep) \<Rightarrow>
        (case bv_from_config env name cfg ep of Inr p \<Rightarrow> registry(name \<mapsto> p) | Inl e \<Rightarrow> registry))"

definition build_providers :: "'c BootEnv \<Rightarrow> FullConfig \<Rightarrow> (string \<rightharpoonup> stream_item list BackendProvider)" where
  "build_providers env cfg = fold (register_provider env) (cf_upstreams cfg) Map.empty"

text \<open>The order in which the hash map of the providers is iterated does not matter; here it is that of the configuration.\<close>

definition discover :: "'c BootEnv \<Rightarrow> string list \<Rightarrow> (string \<times> model_table) list" where
  "discover env names = List.map_filter (\<lambda>name.
     case bv_list_models env name of Inr (Some models) \<Rightarrow> Some (name, models) | _ \<Rightarrow> None) names"

text \<open>\<open>observability::reload::build\<close>, and the same fields at startup.\<close>

definition build_snapshot :: "'c BootEnv \<Rightarrow> FullConfig \<Rightarrow> 'c PluginRegistry \<Rightarrow> 'c AppSnapshot" where
  "build_snapshot env cfg plugins = \<lparr>as_config = gateway_config cfg, as_auth_enabled = au_enabled (cf_auth cfg),
     as_auth_required = au_required (cf_auth cfg), as_configured_key_hashes = fst ` set (au_keys (cf_auth cfg)),
     as_plugins = plugins, as_dump_dir = bv_dump_dir env cfg\<rparr>"

definition build_limiter :: "FullConfig \<Rightarrow> 'l LimiterRegistry" where
  "build_limiter cfg = (if rl_enabled (cf_rate_limit cfg) then registry_from_config (cf_rate_limit cfg) else registry_disabled)"

definition build_core :: "'c BootEnv \<Rightarrow> FullConfig \<Rightarrow> StaticRouter \<Rightarrow> AppCore" where
  "build_core env cfg router =
     (let providers = build_providers env cfg;
          names = filter (\<lambda>n. providers n \<noteq> None) (upstream_names cfg)
      in \<lparr>ac_resolver = \<lparr>rs_static_router = router, rs_model_index = with_metadata (bv_lower env) (discover env names)\<rparr>,
          ac_providers = providers,
          ac_resilient_caller = \<lparr>rc_providers = providers, rc_jitter = bv_jitter env, rc_elapsed_ms = bv_elapsed_ms env,
            rc_display = display_provider_error\<rparr>\<rparr>)"

definition app_build :: "'c BootEnv \<Rightarrow> FullConfig \<Rightarrow> (RegistryBuildError + ('l, 'c) AppState) option" where
  "app_build env cfg =
     (case registry_build (bv_factories env) (cf_plugins cfg) (cf_routes cfg) of
        Inl e \<Rightarrow> Some (Inl e)
      | Inr plugins \<Rightarrow>
          (case router_from_config (gateway_config cfg) of
             None \<Rightarrow> None
           | Some router \<Rightarrow>
               Some (Inr \<lparr>st_core = build_core env cfg router, st_config_path = None, st_server_config = cf_server cfg,
                 st_admin_config = cf_admin cfg, st_config = cfg, st_snapshot = build_snapshot env cfg plugins,
                 st_gateway = \<lparr>gs_admission = \<lparr>ad_limiter = build_limiter cfg, ad_breaker = Map.empty,
                     ad_providers = build_providers env cfg, ad_probe = bv_latency_probe env\<rparr>,
                   gs_supervisor = supervisor_new, gs_dumps = []\<rparr>,
                 st_flush_registry = None\<rparr>)))"

datatype StartError =
    StartConfig ValidationError
  | StartPlugins RegistryBuildError
  | StartModels ValidationError

text \<open>\<open>run\<close> on a loaded configuration, up to the point where the listeners are bound.\<close>

definition run_start :: "'c BootEnv \<Rightarrow> string \<Rightarrow> FullConfig \<Rightarrow> (StartError + ('l, 'c) AppState) option" where
  "run_start env path cfg =
     (case validate cfg of
        Inl e \<Rightarrow> Some (Inl (StartConfig e))
      | Inr u \<Rightarrow>
          (case app_build env cfg of
             None \<Rightarrow> None
           | Some (Inl e) \<Rightarrow> Some (Inl (StartPlugins e))
           | Some (Inr state) \<Rightarrow>
               (let index = rs_model_index (ac_resolver (st_core state));
                    discovered = map (\<lambda>p. (p, map fst (provider_models index p))) (index_providers index)
                in case validate_with_index (st_config state) discovered of
                     Inl e \<Rightarrow> Some (Inl (StartModels e))
                   | Inr u \<Rightarrow> Some (Inr (state\<lparr>st_config_path := Some path\<rparr>)))))"

section \<open>Reload\<close>

datatype ReloadSource = RS_Path string | RS_Yaml string | RS_Sighup

datatype ReloadOutcome =
    RO_Ok nat
  | RO_ValidationError ReloadValidationError
  | RO_ImmutableField ReloadValidationError
  | RO_Io string
  | RO_Parse string
  | RO_PluginValidation RegistryBuildError

definition reload_yaml :: "'c BootEnv \<Rightarrow> ('l, 'c) AppState \<Rightarrow> ReloadSource \<Rightarrow> string + string" where
  "reload_yaml env state source =
     (case source of
        RS_Path p \<Rightarrow> bv_read_to_string env p
      | RS_Yaml s \<Rightarrow> Inr s
      | RS_Sighup \<Rightarrow>
          (case st_config_path state of
             Some p \<Rightarrow> bv_read_to_string env p
           | None \<Rightarrow> Inl ''no config path; SIGHUP can't re-read''))"

definition reload_baseline :: "('l, 'c) AppState \<Rightarrow> ReloadBaseline" where
  "reload_baseline state = \<lparr>bl_upstream_names = upstream_names (st_config state), bl_server = st_server_config state,
     bl_admin = st_admin_config state, bl_otel_endpoint = Option.bind (cf_otel (st_config state)) oc_endpoint\<rparr>"

text \<open>The two stores: the snapshot, then the limiter. A fresh registry has a fresh supervisor.\<close>

definition commit_reload :: "'c BootEnv \<Rightarrow> FullConfig \<Rightarrow> 'c PluginRegistry \<Rightarrow> ('l, 'c) AppState \<Rightarrow> ('l, 'c) AppState" where
  "commit_reload env candidate plugins state =
     (let gs = st_gateway state in
      state\<lparr>st_config := candidate, st_snapshot := build_snapshot env candidate plugins,
        st_gateway := gs\<lparr>gs_admission := (gs_admission gs)\<lparr>ad_limiter := build_limiter candidate\<rparr>, gs_supervisor := supervisor_new\<rparr>,
        st_flush_registry := Some (unwrap_or (st_flush_registry state) (gs_supervisor gs))\<rparr>)"

definition handle_reload :: "'c BootEnv \<Rightarrow> ReloadSource \<Rightarrow> ('l, 'c) AppState \<Rightarrow> ReloadOutcome \<times> ('l, 'c) AppState" where
  "handle_reload env source state =
     (case reload_yaml env state source of
        Inl e \<Rightarrow> (RO_Io e, state)
      | Inr yaml \<Rightarrow>
          (case bv_from_yaml env yaml of
             Inl e \<Rightarrow> (RO_Parse e, state)
           | Inr candidate \<Rightarrow>
               (case validate_for_reload (bv_debug env) candidate (reload_baseline state) of
                  Inr diff \<Rightarrow>
                    (case registry_build (bv_factories env) (cf_plugins candidate) (cf_routes candidate) of
                       Inl e \<Rightarrow> (RO_PluginValidation e, state)
                     | Inr plugins \<Rightarrow> (RO_Ok diff, commit_reload env candidate plugins state))
                | Inl (ImmutableFieldChanged field old new) \<Rightarrow> (RO_ImmutableField (ImmutableFieldChanged field old new), state)
                | Inl (UpstreamSetChanged added removed) \<Rightarrow> (RO_ImmutableField (UpstreamSetChanged added removed), state)
                | Inl (StartupError e) \<Rightarrow> (RO_ValidationError (StartupError e), state))))"

text \<open>\<open>POST /admin/reload\<close>: the source of a request or the status of its refusal, and the status of an outcome. \<open>utf8\<close> is
  whether the body is valid UTF-8.\<close>

definition reload_request :: "('l, 'c) AppState \<Rightarrow> string \<Rightarrow> bool \<Rightarrow> string \<Rightarrow> nat + ReloadSource" where
  "reload_request state content_type utf8 body =
     (if body = [] then (case st_config_path state of Some path \<Rightarrow> Inr (RS_Path path) | None \<Rightarrow> Inl 500)
      else if \<not> starts_with content_type ''application/yaml'' \<and> \<not> starts_with content_type ''text/yaml'' then Inl 400
      else if utf8 then Inr (RS_Yaml body) else Inl 400)"

fun outcome_status :: "ReloadOutcome \<Rightarrow> nat" where
  "outcome_status (RO_Ok diff) = 200"
| "outcome_status (RO_ValidationError e) = 400"
| "outcome_status (RO_ImmutableField e) = 403"
| "outcome_status (RO_Parse e) = 400"
| "outcome_status (RO_PluginValidation e) = 400"
| "outcome_status (RO_Io e) = 500"

definition reload_handler :: "'c BootEnv \<Rightarrow> string \<Rightarrow> bool \<Rightarrow> string \<Rightarrow> ('l, 'c) AppState \<Rightarrow> nat \<times> ('l, 'c) AppState" where
  "reload_handler env content_type utf8 body state =
     (case reload_request state content_type utf8 body of
        Inl status \<Rightarrow> (status, state)
      | Inr source \<Rightarrow> (let (outcome, state') = handle_reload env source state in (outcome_status outcome, state')))"

section \<open>Shutdown\<close>

text \<open>\<open>run_core\<close> flushes the registry that it captured before serving.\<close>

definition shutdown_flush :: "('l, 'c) AppState \<Rightarrow> (string \<rightharpoonup> u64)" where
  "shutdown_flush state = fst (flush_pending_h7 (unwrap_or (st_flush_registry state) (gs_supervisor (st_gateway state))))"

section \<open>What traffic cannot change\<close>

lemma same_config_refl [simp]: "same_config reg reg"
  by (simp add: same_config_def)

lemma run_gate_keeps: "same_config reg (snd (run_gate g d key cfg reg))"
  using run_gate_post [OF prod.collapse [symmetric]] by blast

lemma and_then_keeps:
  "same_config reg (snd p) \<Longrightarrow> (\<And>r. same_config r (snd (k r))) \<Longrightarrow> same_config reg (snd (and_then p k))"
  by (auto simp: and_then_def split: prod.split sum.split intro: same_config_trans)

lemma check_pre_chain_keeps: "same_config reg (snd (check_pre_chain g reg ident fm ip))"
  by (simp add: check_pre_chain_def run_gate_keeps and_then_keeps)

lemma check_upstream_limits_keeps: "same_config reg (snd (check_upstream_limits g ts reg))"
  by (induction ts arbitrary: reg) (simp_all add: check_per_upstream_def run_gate_keeps and_then_keeps)

text \<open>The admission state after a request, but for its buckets and breakers.\<close>

definition same_admission :: "('l, 'st) Admission \<Rightarrow> ('l, 'st) Admission \<Rightarrow> bool" where
  "same_admission adm adm' \<longleftrightarrow> same_config (ad_limiter adm) (ad_limiter adm') \<and> ad_providers adm' = ad_providers adm \<and> ad_probe adm' = ad_probe adm"

lemma same_admission_refl: "same_admission adm adm"
  by (simp add: same_admission_def same_config_def)

lemma same_admission_trans: "same_admission a b \<Longrightarrow> same_admission b c \<Longrightarrow> same_admission a c"
  by (auto simp: same_admission_def intro: same_config_trans)

lemma same_admission_breakers: "same_admission adm (adm'\<lparr>ad_breaker := b\<rparr>) = same_admission adm adm'"
  by (simp add: same_admission_def)

lemma admit_keeps:
  assumes "admit g enc clock adm resolved entry cfg req ident ip est = (r, adm')"
  shows "same_admission adm adm'"
proof -
  obtain r1 lim1 where pre: "check_pre_chain g (ad_limiter adm) ident (rr_route_label resolved) ip = (r1, lim1)" by fastforce
  let ?chain = "fo_survivors (filter_chain \<lparr>fe_route = entry, fe_config = cfg, fe_request = req,
                 fe_probe = ad_probe adm, fe_image_estimator = est, fe_encode_ordinary = enc\<rparr> (rr_chain resolved))"
  obtain r2 lim2 where up: "check_upstream_limits g ?chain lim1 = (r2, lim2)" by fastforce
  have "same_config (ad_limiter adm) lim1" "same_config (ad_limiter adm) lim2"
    using check_pre_chain_keeps [of "ad_limiter adm" g ident "rr_route_label resolved" ip] check_upstream_limits_keeps [of lim1 g ?chain] pre up
    by (auto intro: same_config_trans)
  with assms pre up show ?thesis unfolding admit_def same_admission_def
    by (auto simp: Let_def split: sum.splits if_splits option.splits prod.splits)
qed

lemma run_keeps:
  "run_unary env core snap spec model canonical ticket st = Some (res, st') \<Longrightarrow> same_admission (gs_admission st) (gs_admission st')"
  "run_stream env core snap spec model canonical ticket st = Some (res, st') \<Longrightarrow> same_admission (gs_admission st) (gs_admission st')"
  by (auto simp: run_unary_def run_stream_def Let_def same_admission_breakers same_admission_refl
    split: option.splits prod.splits sum.splits FrontendResponse.splits)

lemma serve_keeps:
  assumes "serve env core snap spec body model blocked canonical ticket st = Some (res, st')"
  shows "same_admission (gs_admission st) (gs_admission st')"
  using assms by (auto simp: serve_def Let_def same_admission_breakers same_admission_refl
    split: option.splits prod.splits sum.splits if_splits dest: run_keeps)

lemma dispatch_keeps:
  assumes "dispatch_inner env core snap spec headers body st = Some (res, st')"
  shows "same_admission (gs_admission st) (gs_admission st')"
  using assms
proof (cases rule: dispatch_cases)
  case (refused e)
  then show ?thesis by (simp add: same_admission_refl)
next
  case (admitted model identity resolved decoded canonical blocked entry st2 r adm)
  from admit_keeps [OF admitted(2)] admitted(3) show ?thesis
    by (cases r) (auto dest!: serve_keeps intro: same_admission_trans)
qed

section \<open>The process as a step relation\<close>

text \<open>A reply that owns a ticket stays open until its body ends.\<close>

definition opened :: "nat \<Rightarrow> HandlerError + ('c, 'r) Reply \<Rightarrow> (nat \<times> ('c, 'r) Reply) list" where
  "opened i res = (case res of Inl e \<Rightarrow> [] | Inr reply \<Rightarrow> (if reply_ticket reply = None then [] else [(i, reply)]))"

text \<open>Traffic on an older snapshot spawns its plugin tasks on that snapshot's registry.\<close>

definition traffic :: "('l, 'c) AppState \<Rightarrow> bool \<Rightarrow> 'l GatewayState \<Rightarrow> ('l, 'c) AppState" where
  "traffic state current gs =
     state\<lparr>st_gateway := if current then gs else gs\<lparr>gs_supervisor := gs_supervisor (st_gateway state)\<rparr>\<rparr>"

text \<open>\<open>gateway_run env path boot state snaps replies\<close>: started from \<open>boot\<close>, the process can reach \<open>state\<close>, where \<open>snaps\<close> are the
  snapshots that were ever current, the newest last, and \<open>replies\<close> the open replies with the index of their snapshot. The
  file that a reload reads may have any content.\<close>

inductive gateway_run :: "'c BootEnv \<Rightarrow> string \<Rightarrow> FullConfig \<Rightarrow> ('l, 'c) AppState \<Rightarrow> 'c AppSnapshot list
    \<Rightarrow> (nat \<times> ('c, 'r) Reply) list \<Rightarrow> bool" for benv path boot where
  run_started: "run_start benv path boot = Some (Inr state) \<Longrightarrow> gateway_run benv path boot state [st_snapshot state] []"
| run_request: "gateway_run benv path boot state snaps replies \<Longrightarrow> i < length snaps \<Longrightarrow>
    dispatch_inner env (st_core state) (snaps ! i) spec headers body (st_gateway state) = Some (res, gs) \<Longrightarrow>
    gateway_run benv path boot (traffic state (Suc i = length snaps) gs) snaps (replies @ opened i res)"
| run_closed_stream: "gateway_run benv path boot state snaps replies \<Longrightarrow> (i, ReplyStream ct frames s guard) \<in> set replies \<Longrightarrow>
    gateway_run benv path boot (traffic state (Suc i = length snaps) (snd (close_stream (env :: ('l, 'c, 'r) GatewayEnv) s guard polls passed (st_gateway state))))
      snaps (remove1 (i, ReplyStream ct frames s guard) replies)"
| run_closed_raw: "gateway_run benv path boot state snaps replies \<Longrightarrow> (i, ReplyRaw ct b) \<in> set replies \<Longrightarrow>
    gateway_run benv path boot (traffic state (Suc i = length snaps) (close_raw (env :: ('l, 'c, 'r) GatewayEnv) b (bytes :: (unit + string) poll list) (st_gateway state)))
      snaps (remove1 (i, ReplyRaw ct b) replies)"
| run_tasks: "gateway_run benv path boot state snaps replies \<Longrightarrow>
    gateway_run benv path boot (state\<lparr>st_gateway := (st_gateway state)\<lparr>gs_supervisor := supervisor\<rparr>\<rparr>) snaps replies"
| run_reload: "gateway_run benv path boot state snaps replies \<Longrightarrow>
    handle_reload (benv\<lparr>bv_read_to_string := read\<rparr>) source state = (outcome, state') \<Longrightarrow>
    gateway_run benv path boot state' (case outcome of RO_Ok n \<Rightarrow> snaps @ [st_snapshot state'] | _ \<Rightarrow> snaps) replies"

section \<open>What an accepted reload keeps\<close>

text \<open>The part of a configuration that a running process cannot change.\<close>

definition immutable_part :: "FullConfig \<Rightarrow> string set \<times> string \<times> u16 \<times> (string \<times> u16) option \<times> string option" where
  "immutable_part cfg = (set (upstream_names cfg), sc_bind (cf_server cfg), sc_port (cf_server cfg),
     map_option (\<lambda>a. (adc_bind a, adc_port a)) (cf_admin cfg), Option.bind (cf_otel cfg) oc_endpoint)"

lemma check_immutable_none [simp]: "check_immutable display field old new = None \<longleftrightarrow> new = old"
  by (simp add: check_immutable_def)

lemma filter_notin_empty: "filter (\<lambda>n. n \<notin> set ys) xs = [] \<longleftrightarrow> set xs \<subseteq> set ys"
  by (auto simp: filter_empty_conv)

lemma validate_for_reload_ok:
  assumes "validate_for_reload debug cand bl = Inr n"
  shows "validate cand = Inr ()" "n = length (cf_routes cand)"
    "immutable_part cand = (set (bl_upstream_names bl), sc_bind (bl_server bl), sc_port (bl_server bl),
       map_option (\<lambda>a. (adc_bind a, adc_port a)) (bl_admin bl), bl_otel_endpoint bl)"
proof -
  note ok = assms [unfolded validate_for_reload_def Let_def, simplified]
  have conds: "sc_bind (cf_server cand) = sc_bind (bl_server bl)" "sc_port (cf_server cand) = sc_port (bl_server bl)"
    "Option.bind (cf_otel cand) oc_endpoint = bl_otel_endpoint bl" "validate cand = Inr ()" "n = length (cf_routes cand)"
    "set (upstream_names cand) = set (bl_upstream_names bl)"
    using ok by (auto simp: first_error_none filter_notin_empty filter_empty_conv split: option.splits sum.splits if_splits)
  show "validate cand = Inr ()" "n = length (cf_routes cand)" using conds by simp_all
  have "map_option (\<lambda>a. (adc_bind a, adc_port a)) (cf_admin cand) = map_option (\<lambda>a. (adc_bind a, adc_port a)) (bl_admin bl)"
    using ok by (auto simp: first_error_none or_opt_def split: option.splits sum.splits if_splits)
  with conds show "immutable_part cand = (set (bl_upstream_names bl), sc_bind (bl_server bl), sc_port (bl_server bl),
       map_option (\<lambda>a. (adc_bind a, adc_port a)) (bl_admin bl), bl_otel_endpoint bl)"
    unfolding immutable_part_def by simp
qed

lemma handle_reload_cases:
  assumes "handle_reload env source state = (outcome, state')"
  obtains (rejected) "\<forall>n. outcome \<noteq> RO_Ok n" "state' = state"
    | (accepted) candidate plugins yaml where "outcome = RO_Ok (length (cf_routes candidate))"
        "reload_yaml env state source = Inr yaml" "bv_from_yaml env yaml = Inr candidate" "validate candidate = Inr ()"
        "immutable_part candidate = (set (upstream_names (st_config state)), sc_bind (st_server_config state), sc_port (st_server_config state),
           map_option (\<lambda>a. (adc_bind a, adc_port a)) (st_admin_config state), Option.bind (cf_otel (st_config state)) oc_endpoint)"
        "registry_build (bv_factories env) (cf_plugins candidate) (cf_routes candidate) = Inr plugins"
        "state' = commit_reload env candidate plugins state"
proof (cases "reload_yaml env state source")
  case (Inl e)
  with assms show ?thesis by (intro rejected) (auto simp: handle_reload_def)
next
  case yaml: (Inr yaml)
  show ?thesis
  proof (cases "bv_from_yaml env yaml")
    case (Inl e)
    with assms yaml show ?thesis by (intro rejected) (auto simp: handle_reload_def)
  next
    case cand: (Inr candidate)
    show ?thesis
    proof (cases "validate_for_reload (bv_debug env) candidate (reload_baseline state)")
      case (Inl e)
      with assms yaml cand show ?thesis by (intro rejected) (auto simp: handle_reload_def split: ReloadValidationError.splits)
    next
      case diff: (Inr n)
      note ok = validate_for_reload_ok [OF diff]
      show ?thesis
      proof (cases "registry_build (bv_factories env) (cf_plugins candidate) (cf_routes candidate)")
        case (Inl e)
        with assms yaml cand diff show ?thesis by (intro rejected) (auto simp: handle_reload_def)
      next
        case (Inr plugins)
        show ?thesis
          by (rule accepted [of candidate yaml plugins])
            (use assms yaml cand diff ok Inr in \<open>auto simp: handle_reload_def reload_baseline_def\<close>)
      qed
    qed
  qed
qed

section \<open>Startup\<close>

lemma registry_build_error:
  assumes "validate cfg = Inr ()" "registry_build factories (cf_plugins cfg) (cf_routes cfg) = Inl e"
  shows "factory_error e"
  using validated_starts [OF assms(1)] assms(2) by blast

lemma run_start_cases:
  "case (run_start env path cfg :: (StartError + ('l, 'c) AppState) option) of
     None \<Rightarrow> False
   | Some (Inl (StartConfig e)) \<Rightarrow> validate cfg = Inl e
   | Some (Inl (StartPlugins e)) \<Rightarrow> validate cfg = Inr () \<and> factory_error e
   | Some (Inl (StartModels e)) \<Rightarrow> validate cfg = Inr () \<and> cf_strict_upstream_models cfg
   | Some (Inr state) \<Rightarrow> validate cfg = Inr () \<and>
       (\<exists>plugins router. registry_build (bv_factories env) (cf_plugins cfg) (cf_routes cfg) = Inr plugins
          \<and> router_from_config (gateway_config cfg) = Some router
          \<and> state = \<lparr>st_core = build_core env cfg router, st_config_path = Some path, st_server_config = cf_server cfg,
                 st_admin_config = cf_admin cfg, st_config = cfg, st_snapshot = build_snapshot env cfg plugins,
                 st_gateway = \<lparr>gs_admission = \<lparr>ad_limiter = build_limiter cfg, ad_breaker = Map.empty,
                     ad_providers = build_providers env cfg, ad_probe = bv_latency_probe env\<rparr>,
                   gs_supervisor = supervisor_new, gs_dumps = []\<rparr>,
                 st_flush_registry = None\<rparr>)"
proof (cases "validate cfg")
  case (Inl e)
  then show ?thesis by (simp add: run_start_def)
next
  case (Inr u)
  then have ok: "validate cfg = Inr ()" by simp
  obtain router where router: "router_from_config (gateway_config cfg) = Some router"
    using validated_starts [OF ok] by blast
  show ?thesis
  proof (cases "registry_build (bv_factories env) (cf_plugins cfg) (cf_routes cfg)")
    case (Inl e)
    with registry_build_error [OF ok Inl] show ?thesis by (simp add: run_start_def app_build_def ok)
  next
    case (Inr plugins)
    have "validate_with_index cfg d = Inl e \<Longrightarrow> cf_strict_upstream_models cfg" for d e
      by (auto simp: validate_with_index_def split: if_splits)
    with Inr router ok show ?thesis
      by (auto simp: run_start_def app_build_def Let_def split: sum.split)
  qed
qed

section \<open>The invariant\<close>

definition open_ok :: "BreakerRegistry \<Rightarrow> (nat \<times> ('c, 'r) Reply) list \<Rightarrow> bool" where
  "open_ok reg replies \<longleftrightarrow> registry_wf reg
     \<and> (\<forall>(i, reply) \<in> set replies. \<exists>ticket. reply_ticket reply = Some ticket \<and> ticket_ok ticket)
     \<and> (\<forall>k. probe_busy reg k \<longrightarrow> (\<exists>(i, reply) \<in> set replies. \<exists>ticket. reply_ticket reply = Some ticket \<and> k \<in> granted_keys ticket))"

definition policy_ok :: "'c BootEnv \<Rightarrow> FullConfig \<Rightarrow> ('l, 'c) AppState \<Rightarrow> 'c AppSnapshot list \<Rightarrow> bool" where
  "policy_ok env boot state snaps \<longleftrightarrow>
     (\<exists>router. router_from_config (gateway_config boot) = Some router \<and> st_core state = build_core env boot router)
     \<and> st_server_config state = cf_server boot \<and> st_admin_config state = cf_admin boot
     \<and> validate (st_config state) = Inr () \<and> immutable_part (st_config state) = immutable_part boot
     \<and> snaps \<noteq> [] \<and> st_snapshot state = last snaps
     \<and> (\<exists>plugins. registry_build (bv_factories env) (cf_plugins (st_config state)) (cf_routes (st_config state)) = Inr plugins
          \<and> st_snapshot state = build_snapshot env (st_config state) plugins)
     \<and> same_config (build_limiter (st_config state)) (ad_limiter (gs_admission (st_gateway state)))
     \<and> ad_providers (gs_admission (st_gateway state)) = build_providers env boot"

lemma close_stream_freed:
  assumes "cs_ticket s = Some ticket" "ticket_ok ticket" "registry_wf (breakers st)"
  shows "freed ticket (breakers st) (breakers (snd (close_stream env s guard polls passed st)))"
  using cs_settled_freed [OF assms] by (simp add: close_stream_def Let_def)

lemma close_raw_freed:
  assumes "cb_ticket b = Some ticket" "ticket_ok ticket" "registry_wf (breakers st)"
  shows "freed ticket (breakers st) (breakers (close_raw env b bytes st))"
  using cb_settled_freed [OF assms] by (simp add: close_raw_def)

lemma open_ok_closed:
  assumes "open_ok reg replies" "(i, reply) \<in> set replies" "reply_ticket reply = Some ticket" "freed ticket reg reg'"
  shows "open_ok reg' (remove1 (i, reply) replies)"
proof -
  have "\<exists>(j, r) \<in> set (remove1 (i, reply) replies). \<exists>t. reply_ticket r = Some t \<and> k \<in> granted_keys t" if "probe_busy reg' k" for k
  proof -
    from that assms(4) have "probe_busy reg k" "k \<notin> granted_keys ticket" unfolding freed_def by blast+
    with assms(1,3) obtain j r t where "(j, r) \<in> set replies" "reply_ticket r = Some t" "k \<in> granted_keys t" "r \<noteq> reply"
      unfolding open_ok_def by fastforce
    then show ?thesis by (intro bexI [of _ "(j, r)"]) auto
  qed
  with assms(1,4) show ?thesis unfolding open_ok_def freed_def using set_remove1_subset by fastforce
qed

lemma dispatch_ticket_ok:
  assumes "registry_wf (breakers st)" "dispatch_inner env core snap spec headers body st = Some (res, st')" "owned_ticket res = Some t"
  shows "ticket_ok t"
  using assms(2)
proof (cases rule: dispatch_cases)
  case (refused e)
  with assms(3) show ?thesis by simp
next
  case (admitted model identity resolved decoded canonical blocked entry st2 r adm)
  show ?thesis
  proof (cases r)
    case (Inl e)
    with admitted(3) assms(3) show ?thesis by simp
  next
    case (Inr ticket)
    have ok: "ticket_ok ticket" using admit_ticket_ok admitted(2) Inr by blast
    have wf: "registry_wf (breakers (st2\<lparr>gs_admission := adm\<rparr>))" using admit_probes [OF assms(1) admitted(2)] by simp
    have run: "serve env core snap spec body model blocked canonical ticket (st2\<lparr>gs_admission := adm\<rparr>) = Some (res, st')"
      using admitted(3) Inr by simp
    from serve_fate [OF ok wf run] assms(3) have "t = ticket" by (simp add: ticket_fate_def)
    with ok show ?thesis by simp
  qed
qed

lemma open_ok_request:
  assumes "open_ok (breakers st) replies" "dispatch_inner env core snap spec headers body st = Some (res, st')"
  shows "open_ok (breakers st') (replies @ opened i res)"
proof -
  have wf: "registry_wf (breakers st)" using assms(1) by (simp add: open_ok_def)
  note after = dispatch_probes [OF wf assms(2), where ?'e = unit]
  have opened: "set (opened i res) = (case owned_ticket res of None \<Rightarrow> {} | Some t \<Rightarrow> {(i, projr res)})"
    "owned_ticket res = Some t \<Longrightarrow> reply_ticket (projr res) = Some t" for t
    by (auto simp: opened_def owned_ticket_def split: sum.splits option.splits)
  have "\<exists>(j, r) \<in> set (replies @ opened i res). \<exists>t. reply_ticket r = Some t \<and> k \<in> granted_keys t" if "probe_busy (breakers st') k" for k
  proof (cases "probe_busy (breakers st) k")
    case True
    with assms(1) show ?thesis unfolding open_ok_def by fastforce
  next
    case False
    with after that obtain t where "owned_ticket res = Some t" "k \<in> granted_keys t" by blast
    with opened show ?thesis by (intro bexI [of _ "(i, projr res)"]) auto
  qed
  moreover have "\<forall>(j, r) \<in> set (opened i res). \<exists>t. reply_ticket r = Some t \<and> ticket_ok t"
    using dispatch_ticket_ok [OF wf assms(2)] opened by (auto split: option.splits)
  ultimately show ?thesis using after assms(1) unfolding open_ok_def by auto
qed

definition gateway_ok :: "'c BootEnv \<Rightarrow> FullConfig \<Rightarrow> ('l, 'c) AppState \<Rightarrow> 'c AppSnapshot list \<Rightarrow> (nat \<times> ('c, 'r) Reply) list \<Rightarrow> bool" where
  "gateway_ok env boot state snaps replies \<longleftrightarrow> policy_ok env boot state snaps \<and> open_ok (breakers (st_gateway state)) replies"

lemma gateway_ok_traffic:
  assumes "gateway_ok env boot state snaps replies" "same_admission (gs_admission (st_gateway state)) (gs_admission gs)"
    and "open_ok (breakers gs) replies'"
  shows "gateway_ok env boot (traffic state current gs) snaps replies'"
  using assms by (auto simp: gateway_ok_def policy_ok_def traffic_def same_admission_def intro: same_config_trans)

lemma gateway_ok_started:
  fixes state :: "('l, 'c) AppState"
  assumes "run_start env path boot = Some (Inr state)"
  shows "gateway_ok env boot state [st_snapshot state] []"
proof -
  have started: "policy_ok env boot state [st_snapshot state] \<and> breakers (st_gateway state) = Map.empty"
    using run_start_cases [where env = env and path = path and cfg = boot and ?'l = 'l] assms by (auto simp: policy_ok_def)
  moreover have "open_ok Map.empty []" by (simp add: open_ok_def registry_wf_def probe_busy_def)
  ultimately show ?thesis by (simp add: gateway_ok_def)
qed

lemma policy_ok_reload:
  assumes "policy_ok env boot state snaps" "handle_reload (env\<lparr>bv_read_to_string := read\<rparr>) source state = (outcome, state')"
  shows "policy_ok env boot state' (case outcome of RO_Ok n \<Rightarrow> snaps @ [st_snapshot state'] | _ \<Rightarrow> snaps)
    \<and> breakers (st_gateway state') = breakers (st_gateway state)"
  using assms(2)
proof (cases rule: handle_reload_cases)
  case rejected
  with assms(1) show ?thesis by (cases outcome) auto
next
  case (accepted candidate plugins yaml)
  have imm: "immutable_part candidate = immutable_part boot"
    using accepted(5) assms(1) by (auto simp: policy_ok_def immutable_part_def)
  have "build_snapshot (env\<lparr>bv_read_to_string := read\<rparr>) candidate plugins = build_snapshot env candidate plugins"
    by (simp add: build_snapshot_def)
  with accepted imm assms(1) show ?thesis by (auto simp: policy_ok_def commit_reload_def Let_def)
qed

lemma gateway_run_ok:
  fixes state :: "('l, 'c) AppState" and replies :: "(nat \<times> ('c, 'r) Reply) list"
  assumes "gateway_run env path boot state snaps replies"
  shows "gateway_ok env boot state snaps replies"
  using assms
proof (induction rule: gateway_run.induct)
  case (run_started state)
  then show ?case by (rule gateway_ok_started)
next
  case (run_request state snaps replies i genv spec headers body res gs)
  have "open_ok (breakers gs) (replies @ opened i res)"
    using open_ok_request [OF _ run_request(3)] run_request.IH by (simp add: gateway_ok_def)
  with run_request.IH dispatch_keeps [OF run_request(3)] show ?case by (rule gateway_ok_traffic)
next
  case (run_closed_stream state snaps replies i ct frames s guard genv polls passed)
  let ?gs = "snd (close_stream genv s guard polls passed (st_gateway state))"
  from run_closed_stream have ok: "open_ok (breakers (st_gateway state)) replies" by (simp add: gateway_ok_def)
  with run_closed_stream(2) obtain ticket where t: "cs_ticket s = Some ticket" "ticket_ok ticket" "registry_wf (breakers (st_gateway state))"
    unfolding open_ok_def by fastforce
  have "open_ok (breakers ?gs) (remove1 (i, ReplyStream ct frames s guard) replies)"
    using open_ok_closed [OF ok run_closed_stream(2) _ close_stream_freed [OF t]] t(1) by simp
  moreover have "same_admission (gs_admission (st_gateway state)) (gs_admission ?gs)"
    by (simp add: close_stream_def Let_def same_admission_breakers same_admission_refl)
  ultimately show ?case using run_closed_stream.IH by (intro gateway_ok_traffic)
next
  case (run_closed_raw state snaps replies i ct b genv bytes)
  let ?gs = "close_raw genv b bytes (st_gateway state)"
  from run_closed_raw have ok: "open_ok (breakers (st_gateway state)) replies" by (simp add: gateway_ok_def)
  with run_closed_raw(2) obtain ticket where t: "cb_ticket b = Some ticket" "ticket_ok ticket" "registry_wf (breakers (st_gateway state))"
    unfolding open_ok_def by fastforce
  have "open_ok (breakers ?gs) (remove1 (i, ReplyRaw ct b) replies)"
    using open_ok_closed [OF ok run_closed_raw(2) _ close_raw_freed [OF t]] t(1) by simp
  moreover have "same_admission (gs_admission (st_gateway state)) (gs_admission ?gs)"
    by (simp add: close_raw_def same_admission_breakers same_admission_refl)
  ultimately show ?case using run_closed_raw.IH by (intro gateway_ok_traffic)
next
  case (run_tasks state snaps replies supervisor)
  then show ?case by (auto simp: gateway_ok_def policy_ok_def)
next
  case (run_reload state snaps replies read source outcome state')
  then show ?case using policy_ok_reload [OF _ run_reload(2)] by (auto simp: gateway_ok_def)
qed

section \<open>What holds in every reachable state\<close>

lemma run_keeps_router:
  assumes "gateway_run env path boot state snaps replies"
  obtains router where "router_from_config (gateway_config boot) = Some router" "st_core state = build_core env boot router"
    "rs_static_router (ac_resolver (st_core state)) = router"
  using gateway_run_ok [OF assms] by (auto simp: gateway_ok_def policy_ok_def build_core_def Let_def)

text \<open>Starting never panics. It fails only with the fault that validation found, with a plugin factory's error, or, when the
  strict check is on, with a model that no provider offers; a process that starts has a valid configuration, and under the
  strict check every model that its routes name was discovered at the route's upstream.\<close>

theorem startup_ok:
  "case (run_start env path cfg :: (StartError + ('l, 'c) AppState) option) of
     None \<Rightarrow> False
   | Some (Inl (StartConfig e)) \<Rightarrow> validate cfg = Inl e
   | Some (Inl (StartPlugins e)) \<Rightarrow> validate cfg = Inr () \<and> factory_error e
   | Some (Inl (StartModels e)) \<Rightarrow> validate cfg = Inr () \<and> cf_strict_upstream_models cfg
   | Some (Inr state) \<Rightarrow> validate cfg = Inr () \<and> (cf_strict_upstream_models cfg \<longrightarrow>
       (\<forall>entry \<in> set (cf_routes cfg). \<forall>(upstream, model) \<in> set (checked_models entry). \<exists>models.
          (upstream, models) \<in> set (mi_metadata (rs_model_index (ac_resolver (st_core state)))) \<and> model \<in> fst ` set models))"
proof -
  have strict: "\<exists>models. (u, models) \<in> set (mi_metadata index) \<and> m \<in> fst ` set models"
    if "validate_with_index cfg (map (\<lambda>p. (p, map fst (provider_models index p))) (index_providers index)) = Inr ()"
      "cf_strict_upstream_models cfg" "entry \<in> set (cf_routes cfg)" "(u, m) \<in> set (checked_models entry)" for index entry u m
  proof -
    from that have "u \<in> set (index_providers index) \<and> m \<in> fst ` set (provider_models index u)"
      by (force simp: validate_with_index_def first_error_none find_None_iff list_ex_iff split: option.splits)
    then obtain models where "map_of (mi_metadata index) u = Some models" "m \<in> fst ` set models"
      by (cases "map_of (mi_metadata index) u") (auto simp: provider_models_def)
    then show ?thesis using map_of_SomeD by fast
  qed
  obtain r where r: "(run_start env path cfg :: (StartError + ('l, 'c) AppState) option) = r" by blast
  show ?thesis
  proof (cases r)
    case None
    with r run_start_cases [where env = env and path = path and cfg = cfg and ?'l = 'l] show ?thesis by simp
  next
    case (Some res)
    show ?thesis
    proof (cases res)
      case (Inl e)
      with Some r run_start_cases [where env = env and path = path and cfg = cfg and ?'l = 'l] show ?thesis by simp
    next
      case (Inr state)
      with Some r have run: "run_start env path cfg = Some (Inr state)" by simp
      then have "validate cfg = Inr ()" using run_start_cases [where env = env and path = path and cfg = cfg and ?'l = 'l] by simp
      moreover have "\<exists>index. index = rs_model_index (ac_resolver (st_core state))
          \<and> validate_with_index cfg (map (\<lambda>p. (p, map fst (provider_models index p))) (index_providers index)) = Inr ()"
        using run by (auto simp: run_start_def app_build_def Let_def split: sum.splits option.splits)
      ultimately show ?thesis using strict r Some Inr by (auto 0 3)
    qed
  qed
qed



text \<open>A model that the boot router does not know stays unknown, whatever routes a reload brings in.\<close>

theorem reload_cannot_add_routes:
  assumes "gateway_run env path boot state snaps replies" "router_from_config (gateway_config boot) = Some router"
    and "resolve_route router (fp_kind (sp_frontend spec)) model = Inl e"
    and "request_model genv snap spec body (st_gateway state) = (Inr (model, d), st1)"
    and "dispatch_inner genv (st_core state) snap spec headers body (st_gateway state) = Some (res, st')"
  shows "(\<exists>e. res = Inl e) \<and> gs_admission st' = gs_admission (st_gateway state)"
  using assms(5)
proof (cases rule: dispatch_cases)
  case (admitted model' identity resolved decoded canonical blocked entry st2 r adm)
  then have "resolver_resolve_route (ev_lower genv) (ac_resolver (st_core state)) (fp_kind (sp_frontend spec)) model = Inr resolved"
    using assms(4) by (auto simp: request_admitted_def)
  moreover have "rs_static_router (ac_resolver (st_core state)) = router"
    using assms(2) by (auto intro: run_keeps_router [OF assms(1)])
  ultimately have False using assms(3) by (simp add: resolver_resolve_route_def)
  then show ?thesis ..
qed auto

text \<open>The tasks of a registry that a reload brought in are not in the report of the shutdown flush.\<close>

theorem reload_orphans_plugin_tasks:
  assumes "handle_reload env source state = (RO_Ok n, state')"
  shows "shutdown_flush (state'\<lparr>st_gateway := gs\<rparr>) = shutdown_flush state"
  using assms
proof (cases rule: handle_reload_cases)
  case (accepted candidate plugins yaml)
  then show ?thesis
    by (cases "st_flush_registry state") (simp_all add: shutdown_flush_def commit_reload_def Let_def unwrap_or_def)
qed auto

section \<open>A demonstration process\<close>

definition demo_boot :: FullConfig where
  "demo_boot = demo_full [(''a'', demo_upstream, demo_endpoint)] [demo_route ''m'' ''a'' ''x'']"

definition demo_boot_env :: "nat BootEnv" where
  "demo_boot_env = \<lparr>bv_from_config = (\<lambda>_ _ _. Inr demo_upstreamer), bv_list_models = (\<lambda>_. Inr None), bv_lower = id, bv_factories = [],
     bv_latency_probe = (\<lambda>_. None), bv_jitter = (\<lambda>_ _. 0), bv_elapsed_ms = (\<lambda>_. 0), bv_dump_dir = (\<lambda>_. ''/tmp''),
     bv_read_to_string = (\<lambda>p. Inl ''gone''),
     bv_from_yaml = (\<lambda>s. if s = ''one'' then Inr demo_boot
        else Inr (demo_full [(''a'', demo_upstream, demo_endpoint)] [demo_route ''m'' ''a'' ''x'', demo_route ''n'' ''a'' ''x''])),
     bv_debug = (\<lambda>_. [])\<rparr>"

lemma demo_registry: "registry_build [] [] [demo_route m u x] = Inr registry_empty"
  by (simp add: registry_build_def demo_route_def registry_empty_def frontend_of_string_def)

lemma demo_started: "\<exists>state :: (nat, nat) AppState. run_start demo_boot_env ''gw.yaml'' demo_boot = Some (Inr state)
    \<and> st_config state = demo_boot \<and> st_config_path state = Some ''gw.yaml''"
proof -
  have valid: "validate demo_boot = Inr ()" unfolding demo_boot_def by (rule demo_full_valid)
  have fields: "cf_plugins demo_boot = []" "cf_routes demo_boot = [demo_route ''m'' ''a'' ''x'']" "\<not> cf_strict_upstream_models demo_boot"
    "bv_factories demo_boot_env = []"
    by (simp_all add: demo_boot_def demo_full_def demo_boot_env_def)
  from validated_starts [OF valid] obtain router where "router_from_config (gateway_config demo_boot) = Some router" by blast
  with valid fields show ?thesis
    by (simp add: run_start_def app_build_def demo_registry validate_with_index_def)
qed

theorem startup_ok_witness:
  "\<exists>r. (run_start demo_boot_env ''gw.yaml'' demo_boot :: (StartError + (nat, nat) AppState) option) = Some (Inr r) \<and> validate demo_boot = Inr ()"
  using startup_ok [where env = demo_boot_env and path = "''gw.yaml''" and cfg = demo_boot and ?'l = nat] demo_started by auto



text \<open>The virtual upstream name \<open>copilot\<close> passes validation, but no provider is registered under it.\<close>

lemma build_providers_names: "build_providers env cfg name \<noteq> None \<Longrightarrow> name \<in> set (upstream_names cfg)"
proof -
  have "fold (register_provider env) ups reg name \<noteq> None \<Longrightarrow> reg name \<noteq> None \<or> name \<in> fst ` set ups" for ups reg
    by (induction ups arbitrary: reg) (fastforce simp: register_provider_def split: sum.splits if_splits prod.splits)+
  then show "build_providers env cfg name \<noteq> None \<Longrightarrow> name \<in> set (upstream_names cfg)"
    by (fastforce simp: build_providers_def)
qed

theorem copilot_alias_unserved:
  "validate (demo_full [(''gh'', GithubCopilot \<lparr>uf_tier = Standard, uf_cost = None, uf_p95_latency_budget_ms = None\<rparr>, demo_endpoint)]
     [demo_route ''m'' ''copilot'' ''x'']) = Inr ()
   \<and> ac_providers (build_core env (demo_full [(''gh'', GithubCopilot \<lparr>uf_tier = Standard, uf_cost = None, uf_p95_latency_budget_ms = None\<rparr>, demo_endpoint)]
     [demo_route ''m'' ''copilot'' ''x'']) router) ''copilot'' = None"
proof -
  let ?cfg = "demo_full [(''gh'', GithubCopilot \<lparr>uf_tier = Standard, uf_cost = None, uf_p95_latency_budget_ms = None\<rparr>, demo_endpoint)]
     [demo_route ''m'' ''copilot'' ''x'']"
  have "check_listeners ?cfg = None" "check_limits ?cfg = None"
    by (simp_all add: check_listeners_def check_limits_def demo_full_defs)
  moreover have "check_aliases ?cfg {} (cf_routes ?cfg) = None" "first_error (check_min_tier ?cfg) (cf_routes ?cfg) = None"
    by (simp_all add: demo_full_defs gateway_config_def valid_frontends_def referenced_upstreams_def upstream_is_configured_def
      check_min_tier_def)
  moreover have "first_error check_upstream (cf_upstreams ?cfg) = None" "first_error check_cost (cf_upstreams ?cfg) = None"
    by (simp_all add: demo_full_defs check_cost_def)
  moreover have "validate_routes (gateway_config ?cfg) (upstream_names ?cfg) = Inr ()" "validate_rate_limit (gateway_config ?cfg) = Inr ()"
    "validate_auth (gateway_config ?cfg) = Inr ()"
    by code_simp+
  moreover have "validate_plugins ?cfg = None"
    by (simp add: demo_full_defs validate_plugins_def check_references_def)
  ultimately have "validate ?cfg = Inr ()" unfolding validate_def tunnel_def by simp
  moreover have "ac_providers (build_core env ?cfg router) ''copilot'' = None"
  proof -
    have "''copilot'' \<notin> set (upstream_names ?cfg)" by (simp add: demo_full_def)
    then have "build_providers env ?cfg ''copilot'' = None" using build_providers_names by blast
    then show ?thesis by (simp add: build_core_def Let_def)
  qed
  ultimately show ?thesis by blast
qed

end
