(* ===== verification/Request_Wire.thy ===== *)
theory Request_Wire
  imports Serde Handler_Error
begin

text \<open>
  What the request decoders of \<open>crates/frontends\<close> and the request encoders of \<open>crates/providers\<close> share:
  the third-party codecs they call (the JSON reader and writer, base64, the cast of a JSON number to
  \<open>f32\<close>) as one record of parameters, the JSON form of the canonical content blocks
  (\<open>core/src/content.rs\<close>, \<open>media.rs\<close>, \<open>tool.rs\<close>), and the rules by which a member written into an
  object is read back. \<open>serde_json\<close> is built with \<open>preserve_order\<close>, so an object keeps the order in
  which its members were inserted.
\<close>

section \<open>Codecs and strings\<close>

text \<open>\<open>we_from_str\<close> is \<open>serde_json::from_str\<close>, \<open>we_to_string\<close> the \<open>Display\<close> of a \<open>Value\<close>, \<open>we_b64_decode\<close>
  and \<open>we_b64_encode\<close> the standard base64 alphabet, and \<open>we_f32\<close> the value of a number as \<open>f32\<close>.\<close>

record WireEnv =
  we_from_str :: "string \<Rightarrow> json option"
  we_to_string :: "json \<Rightarrow> string"
  we_b64_decode :: "string \<Rightarrow> string option"
  we_b64_encode :: "string \<Rightarrow> string"
  we_f32 :: "f64 \<Rightarrow> f64"

definition de_f32 :: "WireEnv \<Rightarrow> json \<Rightarrow> f64 option" where
  "de_f32 env v =
     (case v of JPosInt n \<Rightarrow> Some (we_f32 env (real (unat n)))
      | JNegInt i \<Rightarrow> Some (we_f32 env (real_of_int i))
      | JFloat x \<Rightarrow> Some (we_f32 env x)
      | _ \<Rightarrow> None)"

text \<open>\<open>str::strip_prefix\<close> and \<open>[&str]::join\<close>.\<close>

definition strip_prefix_str :: "string \<Rightarrow> string \<Rightarrow> string option" where
  "strip_prefix_str p s = (if starts_with s p then Some (drop (length p) s) else None)"

fun join_with :: "string \<Rightarrow> string list \<Rightarrow> string" where
  "join_with sep [] = []"
| "join_with sep [x] = x"
| "join_with sep (x # y # rest) = x @ sep @ join_with sep (y # rest)"

lemma strip_prefix_str_append [simp]: "strip_prefix_str p (p @ s) = Some s"
  by (simp add: strip_prefix_str_def starts_with_def)

lemma strip_prefix_str_Some: "strip_prefix_str p s = Some rest \<longleftrightarrow> s = p @ rest"
  by (auto simp: strip_prefix_str_def starts_with_iff_prefix prefix_def)

lemma split_once_append: "c \<notin> set a \<Longrightarrow> split_once c (a @ c # b) = Some (a, b)"
  by (simp add: split_once_def dropWhile_append takeWhile_append)

lemma split_once_Some: "split_once c s = Some (a, b) \<longleftrightarrow> s = a @ c # b \<and> c \<notin> set a"
proof
  assume "split_once c s = Some (a, b)"
  then obtain x where x: "dropWhile (\<lambda>x. x \<noteq> c) s = x # b" and a: "a = takeWhile (\<lambda>x. x \<noteq> c) s"
    by (auto simp: split_once_def split: list.splits)
  from x have "x = c" by (metis (mono_tags, lifting) hd_dropWhile list.distinct(1) list.sel(1))
  with x a show "s = a @ c # b \<and> c \<notin> set a"
    by (metis (mono_tags, lifting) set_takeWhileD takeWhile_dropWhile_id)
qed (use split_once_append in blast)

lemma join_with_eq_Nil: "join_with sep xs = [] \<Longrightarrow> xs \<noteq> [] \<Longrightarrow> hd xs = []"
  by (cases "(sep, xs)" rule: join_with.cases) auto

text \<open>\<open>ResolvedPolicy::default()\<close>: a decoder leaves the policy to the router.\<close>

definition resolved_policy_default :: ResolvedPolicy where
  "resolved_policy_default = \<lparr>rp_reasoning_effort = None, rp_reasoning_budget_tokens = None,
     rp_supported_efforts = None, rp_supported_endpoints = None, rp_anthropic_headers = []\<rparr>"

section \<open>Canonical content as JSON\<close>

text \<open>\<open>BinarySource\<close>: the variant \<open>Bytes\<close> is skipped by \<open>serde\<close>, so serializing it fails and its tag is
  not recognised.\<close>

fun source_value :: "WireEnv \<Rightarrow> BinarySource \<Rightarrow> json option" where
  "source_value env (Url u) = Some (JObject [(''type'', JString ''url''), (''url'', JString u)])"
| "source_value env (Base64 m d) = Some (JObject [(''type'', JString ''base64''), (''media_type'', JString m),
     (''data'', JString (we_b64_encode env d))])"
| "source_value env (Bytes m d) = None"
| "source_value env (ProviderFileId f) =
     Some (JObject [(''type'', JString ''provider_file_id''), (''file_id'', JString f)])"

definition read_source :: "WireEnv \<Rightarrow> json \<Rightarrow> BinarySource option" where
  "read_source env v = Option.bind (de_field v ''type'' as_str) (\<lambda>ty.
     if ty = ''url'' then map_option Url (de_field v ''url'' as_str)
     else if ty = ''base64'' then
       Option.bind (de_field v ''media_type'' as_str) (\<lambda>m.
         map_option (Base64 m) (Option.bind (de_field v ''data'' as_str) (we_b64_decode env)))
     else if ty = ''provider_file_id'' then map_option ProviderFileId (de_field v ''file_id'' as_str)
     else None)"

definition ext_member :: "extension_map \<Rightarrow> (string \<times> json) list" where
  "ext_member e = (if e = [] then [] else [(''extensions'', JObject e)])"

fun arguments_value :: "ToolCallArguments \<Rightarrow> json" where
  "arguments_value (Complete v) = JObject [(''kind'', JString ''complete''), (''value'', v)]"
| "arguments_value (Streaming d) = JObject [(''kind'', JString ''streaming''), (''data'', JString d)]"

definition tagged_media :: "WireEnv \<Rightarrow> string \<Rightarrow> MediaBlock \<Rightarrow> json option" where
  "tagged_media env tag b = map_option (\<lambda>src. JObject ([(''type'', JString tag), (''source'', src)]
     @ ext_member (mb_extensions b))) (source_value env (mb_source b))"

text \<open>\<open>serde_json::to_value\<close> of a \<open>ContentBlock\<close>.\<close>

fun block_value :: "WireEnv \<Rightarrow> ContentBlock \<Rightarrow> json option" where
  "block_value env (BText t) = Some (JObject ([(''type'', JString ''text''), (''text'', JString (tb_text t))]
     @ ext_member (tb_extensions t)))"
| "block_value env (BImage b) = tagged_media env ''image'' b"
| "block_value env (BAudio b) = tagged_media env ''audio'' b"
| "block_value env (BFile b) = tagged_media env ''file'' b"
| "block_value env (BToolCall t) = Some (JObject ([(''type'', JString ''tool_call''), (''id'', JString (tc_id t)),
     (''name'', JString (tc_name t)), (''arguments'', arguments_value (tc_arguments t))]
     @ ext_member (tc_extensions t)))"
| "block_value env (BToolResult t) = Some (JObject ([(''type'', JString ''tool_result''),
     (''tool_call_id'', JString (tr_tool_call_id t)), (''content'', tr_content t),
     (''is_error'', JBool (tr_is_error t))] @ ext_member (tr_extensions t)))"
| "block_value env (BReasoning t) = Some (JObject ([(''type'', JString ''reasoning''),
     (''text'', JString (tb_text t))] @ ext_member (tb_extensions t)))"
| "block_value env (BRedactedReasoning r) = Some (JObject ([(''type'', JString ''redacted_reasoning''),
     (''data'', JString (rr_data r))] @ ext_member (rr_extensions r)))"
| "block_value env (BUnsupported u) = Some (JObject [(''type'', JString ''unsupported''),
     (''origin'', JString (ub_origin u)), (''raw'', ub_raw u)])"

section \<open>Reading back what was written\<close>

lemma or_opt_None2 [simp]: "or_opt x None = x"
  by (cases x) simp_all

lemma map_option_same [simp]: "map_option (\<lambda>v. v) x = x"
  by (cases x) simp_all

lemma map_of_opt_member:
  "map_of (opt_member k f o' @ xs) k' = (if k = k' then or_opt (map_option f o') (map_of xs k') else map_of xs k')"
  by (cases o') auto

lemma map_of_opt_member_last:
  "map_of (opt_member k f o') k' = (if k = k' then map_option f o' else None)"
  by (cases o') auto

text \<open>A member that was written is read by its own reader; one that was left out is absent.\<close>

lemma de_option_member:
  assumes "map_of kvs k = map_option f o'"
    and "\<And>x. o' = Some x \<Longrightarrow> \<not> is_null (f x) \<and> de (f x) = Some (g x)"
  shows "de_option (JObject kvs) k de = Some (map_option g o')"
  using assms by (cases o') (auto simp: de_option_def)

lemma de_field_member: "map_of kvs k = Some x \<Longrightarrow> de_field (JObject kvs) k de = de x"
  by (simp add: de_field_def)

lemma de_option_absent: "map_of kvs k = None \<Longrightarrow> de_option (JObject kvs) k de = Some None"
  by (simp add: de_option_def)

lemma de_option_present: "map_of kvs k = Some x \<Longrightarrow> \<not> is_null x \<Longrightarrow> de_option (JObject kvs) k de = map_option Some (de x)"
  by (simp add: de_option_def)

lemma de_default_absent: "map_of kvs k = None \<Longrightarrow> de_default (JObject kvs) k d de = Some d"
  by (simp add: de_default_def)

lemma those_map: "(\<And>x. x \<in> set xs \<Longrightarrow> f x = Some (g x)) \<Longrightarrow> those (map f xs) = Some (map g xs)"
  by (induction xs) auto

lemma de_array_written:
  "(\<And>x. x \<in> set xs \<Longrightarrow> de (f x) = Some (g x)) \<Longrightarrow> de_array de (JArray (map f xs)) = Some (map g xs)"
  by (simp add: de_array_def comp_def those_map)

lemma those_map_Some [simp]: "those (map Some xs) = Some xs"
  by (induction xs) auto

lemma de_array_read_back:
  "(\<And>x. x \<in> set xs \<Longrightarrow> de (f x) = Some x) \<Longrightarrow> de_array de (JArray (map f xs)) = Some xs"
  using de_array_written [of xs de f "\<lambda>x. x"] by simp

lemma those_map_D: "those (map f xs) = Some ys \<Longrightarrow> y \<in> set ys \<Longrightarrow> \<exists>x. f x = Some y"
  by (induction xs arbitrary: ys) (auto split: option.splits)

lemma de_array_D: "de_array f v = Some ys \<Longrightarrow> y \<in> set ys \<Longrightarrow> \<exists>x. f x = Some y"
  by (auto simp: de_array_def bind_eq_Some_conv dest: those_map_D)

lemma de_option_D: "de_option v k f = Some (Some y) \<Longrightarrow> \<exists>x. f x = Some y"
  by (auto simp: de_option_def split: option.splits if_splits)

lemma de_field_D: "de_field v k f = Some y \<Longrightarrow> \<exists>x. f x = Some y"
  by (auto simp: de_field_def bind_eq_Some_conv)

lemma de_option_get:
  assumes "jget v k = map_option f o'" "\<And>x. o' = Some x \<Longrightarrow> \<not> is_null (f x) \<and> de (f x) = Some (g x)"
  shows "de_option v k de = Some (map_option g o')"
  using assms by (cases o') (auto simp: de_option_def)

text \<open>A number read as \<open>f32\<close> is unchanged by a second cast.\<close>

lemma de_option_f32:
  assumes "de_option v k (de_f32 env) = Some x" "\<And>y. we_f32 env (we_f32 env y) = we_f32 env y"
  shows "map_option (we_f32 env) x = x"
  using assms by (auto simp: de_option_def de_f32_def split: option.splits if_splits json.splits)

lemma de_f32_float [simp]: "de_f32 env (JFloat x) = Some (we_f32 env x)"
  by (simp add: de_f32_def)

lemma de_option_f32_back:
  assumes "jget v k = map_option JFloat x" "map_option (we_f32 env) x = x"
  shows "de_option v k (de_f32 env) = Some x"
  using assms by (cases x) (auto simp: de_option_def)

lemma read_source_value:
  assumes "source_value env src = Some v" and "\<And>d. we_b64_decode env (we_b64_encode env d) = Some d"
  shows "read_source env v = Some src"
  using assms by (cases src) (auto simp: read_source_def de_field_def)

end
