(* ===== verification/Chat_Request.thy ===== *)
theory Chat_Request
  imports Request_Wire Policy
begin

text \<open>
  The request side of the OpenAI chat protocol: the inbound wire types and \<open>decode\<close> of
  \<open>frontends/src/openai_chat\<close> (\<open>wire.rs\<close>, \<open>mapping.rs\<close>, \<open>decode.rs\<close>), which turn a client's body into
  the canonical request, and the outbound types and \<open>build\<close> of \<open>providers/src/oai_chat_wire\<close>
  (\<open>wire.rs\<close>, \<open>canonical_to_chat.rs\<close>), which turn a canonical request into the body for a
  chat-completions upstream. The properties say when a body is accepted, that a chat client's
  conversation reaches a chat upstream unchanged, and that tool results are sent right after the
  assistant turn that asked for them.

  Parameters: the codecs of \<open>WireEnv\<close>, the JSON reader \<open>from_slice\<close>, the text \<open>bad_shape v\<close> of a shape
  error, and the fresh request id.
\<close>

section \<open>Inbound wire types\<close>

datatype StopField = StopOne string | StopMany "string list"

fun stop_into_vec :: "StopField \<Rightarrow> string list" where
  "stop_into_vec (StopOne s) = [s]"
| "stop_into_vec (StopMany v) = v"

record ImageUrlPayload =
  iup_url :: string

datatype InboundContentPart = PartText string | PartImageUrl ImageUrlPayload

datatype InboundMessageContent = ContentText string | ContentParts "InboundContentPart list"

record InboundToolCallFunction =
  itf_name :: string
  itf_arguments :: string

record InboundToolCall =
  itc_id :: string
  itc_ty :: string
  itc_function :: InboundToolCallFunction

record InboundMessage =
  im_role :: string
  im_content :: "InboundMessageContent option"
  im_name :: "string option"
  im_tool_calls :: "InboundToolCall list"
  im_tool_call_id :: "string option"

record InboundToolFunction =
  idf_name :: string
  idf_description :: "string option"
  idf_parameters :: "json option"

record InboundTool =
  it_ty :: string
  it_function :: InboundToolFunction

datatype InboundToolChoice = ChoiceMode string | ChoiceObject string string

record InboundJsonSchema =
  ijs_name :: string
  ijs_schema :: json
  ijs_strict :: "bool option"

record InboundResponseFormat =
  irf_ty :: string
  irf_json_schema :: "InboundJsonSchema option"

record ChatCompletionsRequest =
  ccr_model :: string
  ccr_messages :: "InboundMessage list"
  ccr_tools :: "InboundTool list option"
  ccr_tool_choice :: "InboundToolChoice option"
  ccr_max_tokens :: "u32 option"
  ccr_max_completion_tokens :: "u32 option"
  ccr_temperature :: "f64 option"
  ccr_top_p :: "f64 option"
  ccr_presence_penalty :: "f64 option"
  ccr_frequency_penalty :: "f64 option"
  ccr_stop :: "StopField option"
  ccr_stream :: "bool option"
  ccr_response_format :: "InboundResponseFormat option"
  ccr_seed :: "u64 option"
  ccr_user :: "string option"
  ccr_reasoning_effort :: "string option"

section \<open>Reading the inbound body\<close>

text \<open>An untagged enum is the first variant whose shape fits.\<close>

definition de_stop :: "json \<Rightarrow> StopField option" where
  "de_stop v = (case as_str v of Some s \<Rightarrow> Some (StopOne s) | None \<Rightarrow> map_option StopMany (de_array as_str v))"

definition de_image_url :: "json \<Rightarrow> ImageUrlPayload option" where
  "de_image_url v = Option.bind (de_object v) (\<lambda>_.
     Option.bind (de_field v ''url'' as_str) (\<lambda>u. Some \<lparr>iup_url = u\<rparr>))"

definition de_part :: "json \<Rightarrow> InboundContentPart option" where
  "de_part v = Option.bind (de_field v ''type'' as_str) (\<lambda>ty.
     if ty = ''text'' then map_option PartText (de_field v ''text'' as_str)
     else if ty = ''image_url'' then map_option PartImageUrl (de_field v ''image_url'' de_image_url)
     else None)"

definition de_content :: "json \<Rightarrow> InboundMessageContent option" where
  "de_content v = (case as_str v of Some s \<Rightarrow> Some (ContentText s)
     | None \<Rightarrow> map_option ContentParts (de_array de_part v))"

definition de_tool_call_function :: "json \<Rightarrow> InboundToolCallFunction option" where
  "de_tool_call_function v = Option.bind (de_object v) (\<lambda>_.
     Option.bind (de_field v ''name'' as_str) (\<lambda>n. Option.bind (de_field v ''arguments'' as_str) (\<lambda>a.
       Some \<lparr>itf_name = n, itf_arguments = a\<rparr>)))"

definition de_tool_call :: "json \<Rightarrow> InboundToolCall option" where
  "de_tool_call v = Option.bind (de_object v) (\<lambda>_.
     Option.bind (de_field v ''id'' as_str) (\<lambda>i. Option.bind (de_field v ''type'' as_str) (\<lambda>t.
     Option.bind (de_field v ''function'' de_tool_call_function) (\<lambda>f.
       Some \<lparr>itc_id = i, itc_ty = t, itc_function = f\<rparr>))))"

definition de_message :: "json \<Rightarrow> InboundMessage option" where
  "de_message v = Option.bind (de_object v) (\<lambda>_.
     Option.bind (de_field v ''role'' as_str) (\<lambda>r.
     Option.bind (de_option v ''content'' de_content) (\<lambda>c.
     Option.bind (de_option v ''name'' as_str) (\<lambda>n.
     Option.bind (de_default v ''tool_calls'' [] (de_array de_tool_call)) (\<lambda>tc.
     Option.bind (de_option v ''tool_call_id'' as_str) (\<lambda>i.
       Some \<lparr>im_role = r, im_content = c, im_name = n, im_tool_calls = tc, im_tool_call_id = i\<rparr>))))))"

definition de_tool_function :: "json \<Rightarrow> InboundToolFunction option" where
  "de_tool_function v = Option.bind (de_object v) (\<lambda>_.
     Option.bind (de_field v ''name'' as_str) (\<lambda>n.
     Option.bind (de_option v ''description'' as_str) (\<lambda>d.
     Option.bind (de_option v ''parameters'' Some) (\<lambda>p.
       Some \<lparr>idf_name = n, idf_description = d, idf_parameters = p\<rparr>))))"

definition de_tool :: "json \<Rightarrow> InboundTool option" where
  "de_tool v = Option.bind (de_object v) (\<lambda>_.
     Option.bind (de_field v ''type'' as_str) (\<lambda>t.
     Option.bind (de_field v ''function'' de_tool_function) (\<lambda>f. Some \<lparr>it_ty = t, it_function = f\<rparr>)))"

definition de_choice_function :: "json \<Rightarrow> string option" where
  "de_choice_function v = Option.bind (de_object v) (\<lambda>_. de_field v ''name'' as_str)"

definition de_tool_choice :: "json \<Rightarrow> InboundToolChoice option" where
  "de_tool_choice v = (case as_str v of Some s \<Rightarrow> Some (ChoiceMode s)
     | None \<Rightarrow> Option.bind (de_object v) (\<lambda>_. Option.bind (de_field v ''type'' as_str) (\<lambda>t.
         map_option (ChoiceObject t) (de_field v ''function'' de_choice_function))))"

definition de_json_schema :: "json \<Rightarrow> InboundJsonSchema option" where
  "de_json_schema v = Option.bind (de_object v) (\<lambda>_.
     Option.bind (de_field v ''name'' as_str) (\<lambda>n. Option.bind (de_field v ''schema'' Some) (\<lambda>s.
     Option.bind (de_option v ''strict'' as_bool) (\<lambda>b.
       Some \<lparr>ijs_name = n, ijs_schema = s, ijs_strict = b\<rparr>))))"

definition de_response_format :: "json \<Rightarrow> InboundResponseFormat option" where
  "de_response_format v = Option.bind (de_object v) (\<lambda>_.
     Option.bind (de_field v ''type'' as_str) (\<lambda>t.
     Option.bind (de_option v ''json_schema'' de_json_schema) (\<lambda>j.
       Some \<lparr>irf_ty = t, irf_json_schema = j\<rparr>)))"

definition de_chat_request :: "WireEnv \<Rightarrow> json \<Rightarrow> ChatCompletionsRequest option" where
  "de_chat_request env v = Option.bind (de_object v) (\<lambda>_.
     Option.bind (de_field v ''model'' as_str) (\<lambda>m.
     Option.bind (de_field v ''messages'' (de_array de_message)) (\<lambda>ms.
     Option.bind (de_option v ''tools'' (de_array de_tool)) (\<lambda>ts.
     Option.bind (de_option v ''tool_choice'' de_tool_choice) (\<lambda>tc.
     Option.bind (de_option v ''max_tokens'' de_u32) (\<lambda>mt.
     Option.bind (de_option v ''max_completion_tokens'' de_u32) (\<lambda>mc.
     Option.bind (de_option v ''temperature'' (de_f32 env)) (\<lambda>te.
     Option.bind (de_option v ''top_p'' (de_f32 env)) (\<lambda>tp.
     Option.bind (de_option v ''presence_penalty'' (de_f32 env)) (\<lambda>pp.
     Option.bind (de_option v ''frequency_penalty'' (de_f32 env)) (\<lambda>fp.
     Option.bind (de_option v ''stop'' de_stop) (\<lambda>st.
     Option.bind (de_option v ''stream'' as_bool) (\<lambda>sm.
     Option.bind (de_option v ''response_format'' de_response_format) (\<lambda>rf.
     Option.bind (de_option v ''seed'' as_u64) (\<lambda>sd.
     Option.bind (de_option v ''user'' as_str) (\<lambda>us.
     Option.bind (de_option v ''reasoning_effort'' as_str) (\<lambda>re.
       Some \<lparr>ccr_model = m, ccr_messages = ms, ccr_tools = ts, ccr_tool_choice = tc, ccr_max_tokens = mt,
             ccr_max_completion_tokens = mc, ccr_temperature = te, ccr_top_p = tp,
             ccr_presence_penalty = pp, ccr_frequency_penalty = fp, ccr_stop = st, ccr_stream = sm,
             ccr_response_format = rf, ccr_seed = sd, ccr_user = us, ccr_reasoning_effort = re\<rparr>)))))))))))))))))"

section \<open>Decoding into the canonical request\<close>

datatype RoleClass = RoleMessage MessageRole | RoleSystem SystemSource

definition role_to_canonical :: "string \<Rightarrow> RoleClass option" where
  "role_to_canonical r =
     (if r = ''user'' then Some (RoleMessage User)
      else if r = ''assistant'' then Some (RoleMessage Assistant)
      else if r = ''tool'' then Some (RoleMessage ToolRole)
      else if r = ''system'' then Some (RoleSystem OpenAiSystem)
      else if r = ''developer'' then Some (RoleSystem OpenAiDeveloper)
      else None)"

definition image_url_to_binary_source :: "WireEnv \<Rightarrow> string \<Rightarrow> BinarySource option" where
  "image_url_to_binary_source env url =
     (case strip_prefix_str ''data:'' url of
        Some rest \<Rightarrow>
          (case split_once CHR '','' rest of
             None \<Rightarrow> None
           | Some (header, payload) \<Rightarrow>
               (let (media_type, encoding) = unwrap_or (split_once CHR '';'' header) (header, [])
                in if encoding \<noteq> ''base64'' then None
                   else map_option (Base64 media_type) (we_b64_decode env payload)))
      | None \<Rightarrow>
          (if starts_with url ''http://'' \<or> starts_with url ''https://'' then Some (Url url) else None))"

fun decode_part :: "WireEnv \<Rightarrow> InboundContentPart \<Rightarrow> ContentBlock" where
  "decode_part env (PartText t) = text_content_block t"
| "decode_part env (PartImageUrl u) =
     (case image_url_to_binary_source env (iup_url u) of
        Some source \<Rightarrow> BImage \<lparr>mb_source = source, mb_extensions = []\<rparr>
      | None \<Rightarrow> BUnsupported \<lparr>ub_origin = ''openai_chat'', ub_raw = JObject [(''type'', JString ''image_url''),
          (''image_url'', JObject [(''url'', JString (iup_url u))])]\<rparr>)"

fun decode_content :: "WireEnv \<Rightarrow> InboundMessageContent option \<Rightarrow> ContentBlock list" where
  "decode_content env None = []"
| "decode_content env (Some (ContentText t)) = [text_content_block t]"
| "decode_content env (Some (ContentParts ps)) = map (decode_part env) ps"

definition decode_tool_call :: "WireEnv \<Rightarrow> InboundToolCall \<Rightarrow> ContentBlock" where
  "decode_tool_call env tc = BToolCall \<lparr>tc_id = itc_id tc, tc_name = itf_name (itc_function tc),
     tc_arguments = Complete (unwrap_or (we_from_str env (itf_arguments (itc_function tc)))
       (JString (itf_arguments (itc_function tc)))), tc_extensions = []\<rparr>"

text \<open>The value of a tool message is its first content part: its text, the JSON of another block, or null.\<close>

fun tool_content_value :: "WireEnv \<Rightarrow> ContentBlock list \<Rightarrow> json" where
  "tool_content_value env [] = JNull"
| "tool_content_value env (BText t # _) = JString (tb_text t)"
| "tool_content_value env (b # _) = unwrap_or (block_value env b) JNull"

text \<open>One turn of the loop over the messages: the prelude flag, the system instructions and the messages
  so far.\<close>

type_synonym decode_state = "bool \<times> SystemInstruction list \<times> Message list"

fun decode_message :: "WireEnv \<Rightarrow> InboundMessage \<Rightarrow> decode_state \<Rightarrow> FrontendError + decode_state" where
  "decode_message env im (prelude, sys, msgs) =
     (let content = decode_content env (im_content im);
          msg = (\<lambda>role c src. \<lparr>msg_role = role, msg_content = c, msg_name = im_name im, msg_source = src,
                   msg_extensions = []\<rparr>)
      in case role_to_canonical (im_role im) of
           None \<Rightarrow> Inl (InvalidBody (''unknown role: '' @ im_role im))
         | Some (RoleSystem source) \<Rightarrow>
             (if prelude then Inr (prelude, sys @ [\<lparr>si_source = source, si_content = content\<rparr>], msgs)
              else Inr (prelude, sys, msgs @ [msg SystemRole content (Some source)]))
         | Some (RoleMessage ToolRole) \<Rightarrow>
             (case im_tool_call_id im of
                None \<Rightarrow> Inl (InvalidBody ''tool message missing tool_call_id'')
              | Some i \<Rightarrow> Inr (False, sys, msgs @ [msg ToolRole [BToolResult \<lparr>tr_tool_call_id = i,
                  tr_content = tool_content_value env content, tr_is_error = False, tr_extensions = []\<rparr>] None]))
         | Some (RoleMessage role) \<Rightarrow>
             Inr (False, sys, msgs @ [msg role (content @ map (decode_tool_call env) (im_tool_calls im)) None]))"

fun decode_messages :: "WireEnv \<Rightarrow> InboundMessage list \<Rightarrow> decode_state \<Rightarrow> FrontendError + decode_state" where
  "decode_messages env [] st = Inr st"
| "decode_messages env (im # ims) st =
     (case decode_message env im st of Inl e \<Rightarrow> Inl e | Inr st' \<Rightarrow> decode_messages env ims st')"

definition decode_tool :: "InboundTool \<Rightarrow> ToolDefinition" where
  "decode_tool t = \<lparr>td_name = idf_name (it_function t), td_description = idf_description (it_function t),
     td_input_schema = unwrap_or (idf_parameters (it_function t)) (JObject []), td_extensions = []\<rparr>"

fun decode_tool_choice :: "InboundToolChoice option \<Rightarrow> ToolChoice" where
  "decode_tool_choice None = ChoiceAuto"
| "decode_tool_choice (Some (ChoiceMode s)) =
     (if s = ''none'' then ChoiceNone else if s = ''required'' then ChoiceRequired else ChoiceAuto)"
| "decode_tool_choice (Some (ChoiceObject t n)) = ChoiceSpecific n"

definition decode_response_format :: "InboundResponseFormat \<Rightarrow> ResponseFormat option" where
  "decode_response_format rf =
     (if irf_ty rf = ''json_object'' then Some FormatJsonObject
      else if irf_ty rf = ''json_schema'' then
        map_option (\<lambda>js. FormatJsonSchema (ijs_name js) (ijs_schema js) (unwrap_or (ijs_strict js) False))
          (irf_json_schema rf)
      else None)"

definition decode_request :: "WireEnv \<Rightarrow> string \<Rightarrow> ChatCompletionsRequest \<Rightarrow> FrontendError + CanonicalRequest" where
  "decode_request env rid req =
     (case decode_messages env (ccr_messages req) (True, [], []) of
        Inl e \<Rightarrow> Inl e
      | Inr (_, system, messages) \<Rightarrow> Inr
          \<lparr>req_id = rid,
           req_frontend = \<lparr>fi_kind = OpenAiChat, fi_requested_model = ccr_model req\<rparr>,
           req_model = ccr_model req,
           req_system = system,
           req_messages = messages,
           req_tools = map decode_tool (unwrap_or (ccr_tools req) []),
           req_tool_choice = decode_tool_choice (ccr_tool_choice req),
           req_generation =
             \<lparr>max_tokens = or_opt (ccr_max_completion_tokens req) (ccr_max_tokens req),
              temperature = ccr_temperature req, top_p = ccr_top_p req, top_k = None,
              presence_penalty = ccr_presence_penalty req, frequency_penalty = ccr_frequency_penalty req,
              stop_sequences = unwrap_or (map_option stop_into_vec (ccr_stop req)) [],
              seed = ccr_seed req,
              reasoning = map_option (\<lambda>e. \<lparr>ro_effort = Some e, ro_budget_tokens = None\<rparr>)
                (Option.bind (ccr_reasoning_effort req) effort_parse)\<rparr>,
           req_response_format = Option.bind (ccr_response_format req) decode_response_format,
           req_stream = unwrap_or (ccr_stream req) False,
           req_metadata = \<lparr>user_id = ccr_user req, agent = None\<rparr>,
           req_inbound_anthropic_headers = [],
           req_resolved_policy = resolved_policy_default,
           req_extensions = []\<rparr>)"

definition chat_decode :: "WireEnv \<Rightarrow> (string \<Rightarrow> string + json) \<Rightarrow> (json \<Rightarrow> string) \<Rightarrow> string \<Rightarrow> string
    \<Rightarrow> FrontendError + CanonicalRequest" where
  "chat_decode env from_slice bad_shape rid body =
     (case from_slice body of
        Inl e \<Rightarrow> Inl (InvalidBody e)
      | Inr v \<Rightarrow> (case de_chat_request env v of None \<Rightarrow> Inl (InvalidBody (bad_shape v)) | Some req \<Rightarrow> decode_request env rid req))"

section \<open>Outbound wire types\<close>

record FunctionCallOut =
  fco_name :: string
  fco_arguments :: string

record ToolCallOut =
  tco_id :: string
  tco_type :: string
  tco_function :: FunctionCallOut

record MsgOut =
  mo_role :: string
  mo_content :: "json option"
  mo_name :: "string option"
  mo_tool_calls :: "ToolCallOut list option"
  mo_tool_call_id :: "string option"

record FunctionDefOut =
  fdo_name :: string
  fdo_description :: "string option"
  fdo_parameters :: json

record ToolOut =
  to_type :: string
  to_function :: FunctionDefOut

datatype ToolChoiceOut = ChoiceOutString string | ChoiceOutObject string string

datatype ResponseFormatOut = OutText | OutJsonObject | OutJsonSchema string json bool

record ChatBody =
  cb_model :: string
  cb_messages :: "MsgOut list"
  cb_max_tokens :: "u32 option"
  cb_temperature :: "f64 option"
  cb_top_p :: "f64 option"
  cb_presence_penalty :: "f64 option"
  cb_frequency_penalty :: "f64 option"
  cb_stop :: "string list"
  cb_seed :: "u64 option"
  cb_response_format :: "ResponseFormatOut option"
  cb_tools :: "ToolOut list"
  cb_tool_choice :: "ToolChoiceOut option"
  cb_stream :: bool
  cb_include_usage :: "bool option"
  cb_reasoning_effort :: "string option"

section \<open>Building the body for a chat upstream\<close>

fun effort_for_chat :: "ReasoningEffort \<Rightarrow> bool \<Rightarrow> string" where
  "effort_for_chat Minimal x = ''minimal''"
| "effort_for_chat Low x = ''low''"
| "effort_for_chat Medium x = ''medium''"
| "effort_for_chat High x = ''high''"
| "effort_for_chat Xhigh x = (if x then ''xhigh'' else ''high'')"
| "effort_for_chat MaxEffort x = (if x then ''xhigh'' else ''high'')"

definition effort_wire_string :: "CanonicalRequest \<Rightarrow> bool \<Rightarrow> string option" where
  "effort_wire_string req accepts_xhigh =
     (case rp_reasoning_effort (req_resolved_policy req) of
        None \<Rightarrow> None
      | Some effort \<Rightarrow>
          (case Option.bind (rp_supported_efforts (req_resolved_policy req)) (clamp_to_advertised effort) of
             Some clamped \<Rightarrow> Some clamped
           | None \<Rightarrow> Some (effort_for_chat effort accepts_xhigh)))"

fun text_of_block :: "ContentBlock \<Rightarrow> string option" where
  "text_of_block (BText t) = Some (tb_text t)"
| "text_of_block _ = None"

definition extract_text_content :: "ContentBlock list \<Rightarrow> string" where
  "extract_text_content blocks = join_with [CHR 0x0A] (List.map_filter text_of_block blocks)"

definition build_text_content_value :: "ContentBlock list \<Rightarrow> json option" where
  "build_text_content_value blocks =
     (let t = extract_text_content blocks in if t = [] then None else Some (JString t))"

definition image_part :: "string \<Rightarrow> json" where
  "image_part url = JObject [(''type'', JString ''image_url''), (''image_url'', JObject [(''url'', JString url)])]"

definition data_uri :: "WireEnv \<Rightarrow> string \<Rightarrow> string \<Rightarrow> string" where
  "data_uri env media_type d = ''data:'' @ media_type @ '';base64,'' @ we_b64_encode env d"

fun content_part :: "WireEnv \<Rightarrow> ContentBlock \<Rightarrow> json option" where
  "content_part env (BText t) = Some (JObject [(''type'', JString ''text''), (''text'', JString (tb_text t))])"
| "content_part env (BImage img) =
     (case mb_source img of
        Base64 m d \<Rightarrow> Some (image_part (data_uri env m d))
      | Bytes m d \<Rightarrow> Some (image_part (data_uri env m d))
      | Url u \<Rightarrow> Some (image_part u)
      | ProviderFileId f \<Rightarrow> None)"
| "content_part env _ = None"

definition build_content_value :: "WireEnv \<Rightarrow> ContentBlock list \<Rightarrow> json option" where
  "build_content_value env blocks =
     (let texts = List.map_filter text_of_block blocks;
          has_non_text = list_ex (\<lambda>b. text_of_block b = None) blocks
      in if \<not> has_non_text \<and> length texts = 1 then Some (JString (hd texts))
         else if blocks = [] then None
         else (let parts = List.map_filter (content_part env) blocks
               in if parts = [] then None else Some (JArray parts)))"

definition tool_result_item_text :: "WireEnv \<Rightarrow> json \<Rightarrow> string" where
  "tool_result_item_text env item =
     (case get_str item ''text'' of
        Some t \<Rightarrow> t
      | None \<Rightarrow> (case as_str item of Some s \<Rightarrow> s | None \<Rightarrow> we_to_string env item))"

fun extract_text_from_tool_result :: "WireEnv \<Rightarrow> json \<Rightarrow> string" where
  "extract_text_from_tool_result env (JString s) = s"
| "extract_text_from_tool_result env (JArray arr) = join_with [CHR 0x0A] (map (tool_result_item_text env) arr)"
| "extract_text_from_tool_result env JNull = []"
| "extract_text_from_tool_result env other = we_to_string env other"

definition system_to_chat :: "SystemInstruction \<Rightarrow> MsgOut" where
  "system_to_chat sys =
     \<lparr>mo_role = (case si_source sys of OpenAiDeveloper \<Rightarrow> ''developer'' | _ \<Rightarrow> ''system''),
      mo_content = Some (JString (extract_text_content (si_content sys))), mo_name = None,
      mo_tool_calls = None, mo_tool_call_id = None\<rparr>"

definition chat_role :: "Message \<Rightarrow> string" where
  "chat_role msg =
     (case msg_role msg of
        User \<Rightarrow> ''user'' | Assistant \<Rightarrow> ''assistant'' | ToolRole \<Rightarrow> ''tool''
      | SystemRole \<Rightarrow> (case msg_source msg of Some OpenAiDeveloper \<Rightarrow> ''developer'' | _ \<Rightarrow> ''system''))"

fun tool_call_out :: "WireEnv \<Rightarrow> ContentBlock \<Rightarrow> ToolCallOut option" where
  "tool_call_out env (BToolCall tc) = Some \<lparr>tco_id = tc_id tc, tco_type = ''function'',
     tco_function = \<lparr>fco_name = tc_name tc, fco_arguments =
       (case tc_arguments tc of Complete v \<Rightarrow> we_to_string env v | Streaming d \<Rightarrow> d)\<rparr>\<rparr>"
| "tool_call_out env _ = None"

fun tool_result_of :: "ContentBlock \<Rightarrow> ToolResultBlock option" where
  "tool_result_of (BToolResult tr) = Some tr"
| "tool_result_of _ = None"

definition tool_reply :: "WireEnv \<Rightarrow> Message \<Rightarrow> ToolResultBlock \<Rightarrow> MsgOut" where
  "tool_reply env msg tr =
     \<lparr>mo_role = ''tool'', mo_content = Some (JString (extract_text_from_tool_result env (tr_content tr))),
      mo_name = msg_name msg, mo_tool_calls = None, mo_tool_call_id = Some (tr_tool_call_id tr)\<rparr>"

text \<open>One turn of the loop over the conversation: the messages it pushes.\<close>

definition message_to_chat :: "WireEnv \<Rightarrow> Message \<Rightarrow> MsgOut list" where
  "message_to_chat env msg =
     (let tool_calls = List.map_filter (tool_call_out env) (msg_content msg);
          tool_results = List.map_filter tool_result_of (msg_content msg)
      in if tool_results \<noteq> [] then
           map (tool_reply env msg) tool_results
           @ (if msg_role msg \<noteq> ToolRole then
                (case build_content_value env (filter (\<lambda>b. tool_result_of b = None) (msg_content msg)) of
                   None \<Rightarrow> []
                 | Some content \<Rightarrow> [\<lparr>mo_role = chat_role msg, mo_content = Some content, mo_name = msg_name msg,
                     mo_tool_calls = None, mo_tool_call_id = None\<rparr>])
              else [])
         else if tool_calls \<noteq> [] then
           [\<lparr>mo_role = chat_role msg, mo_content = build_text_content_value (msg_content msg),
             mo_name = msg_name msg, mo_tool_calls = Some tool_calls, mo_tool_call_id = None\<rparr>]
         else
           [\<lparr>mo_role = chat_role msg, mo_content = build_content_value env (msg_content msg),
             mo_name = msg_name msg, mo_tool_calls = None, mo_tool_call_id = None\<rparr>])"

definition tool_out :: "ToolDefinition \<Rightarrow> ToolOut" where
  "tool_out t = \<lparr>to_type = ''function'', to_function = \<lparr>fdo_name = td_name t,
     fdo_description = td_description t, fdo_parameters = td_input_schema t\<rparr>\<rparr>"

fun tool_choice_out :: "ToolChoice \<Rightarrow> ToolChoiceOut" where
  "tool_choice_out ChoiceAuto = ChoiceOutString ''auto''"
| "tool_choice_out ChoiceNone = ChoiceOutString ''none''"
| "tool_choice_out ChoiceRequired = ChoiceOutString ''required''"
| "tool_choice_out (ChoiceSpecific n) = ChoiceOutObject ''function'' n"

fun response_format_out :: "ResponseFormat \<Rightarrow> ResponseFormatOut" where
  "response_format_out FormatText = OutText"
| "response_format_out FormatJsonObject = OutJsonObject"
| "response_format_out (FormatJsonSchema n s strict) = OutJsonSchema n s strict"

definition chat_build :: "WireEnv \<Rightarrow> CanonicalRequest \<Rightarrow> BackendTarget \<Rightarrow> bool \<Rightarrow> ChatBody" where
  "chat_build env req target accepts_xhigh =
     (let tools = map tool_out (req_tools req); gen = req_generation req in
      \<lparr>cb_model = bt_model target,
       cb_messages = map system_to_chat (req_system req) @ concat (map (message_to_chat env) (req_messages req)),
       cb_max_tokens = max_tokens gen,
       cb_temperature = temperature gen,
       cb_top_p = top_p gen,
       cb_presence_penalty = presence_penalty gen,
       cb_frequency_penalty = frequency_penalty gen,
       cb_stop = stop_sequences gen,
       cb_seed = seed gen,
       cb_response_format = map_option response_format_out (req_response_format req),
       cb_tools = tools,
       cb_tool_choice = (if tools = [] then None else Some (tool_choice_out (req_tool_choice req))),
       cb_stream = req_stream req,
       cb_include_usage = (if req_stream req then Some True else None),
       cb_reasoning_effort = effort_wire_string req accepts_xhigh\<rparr>)"

section \<open>The body as JSON\<close>

definition tool_call_json :: "ToolCallOut \<Rightarrow> json" where
  "tool_call_json tc = JObject [(''id'', JString (tco_id tc)), (''type'', JString (tco_type tc)),
     (''function'', JObject [(''name'', JString (fco_name (tco_function tc))),
        (''arguments'', JString (fco_arguments (tco_function tc)))])]"

definition msg_json :: "MsgOut \<Rightarrow> json" where
  "msg_json m = JObject ([(''role'', JString (mo_role m))]
     @ opt_member ''content'' (\<lambda>v. v) (mo_content m)
     @ opt_member ''name'' JString (mo_name m)
     @ opt_member ''tool_calls'' (\<lambda>tcs. JArray (map tool_call_json tcs)) (mo_tool_calls m)
     @ opt_member ''tool_call_id'' JString (mo_tool_call_id m))"

definition tool_json :: "ToolOut \<Rightarrow> json" where
  "tool_json t = JObject [(''type'', JString (to_type t)),
     (''function'', JObject ([(''name'', JString (fdo_name (to_function t)))]
        @ opt_member ''description'' JString (fdo_description (to_function t))
        @ [(''parameters'', fdo_parameters (to_function t))]))]"

fun tool_choice_json :: "ToolChoiceOut \<Rightarrow> json" where
  "tool_choice_json (ChoiceOutString s) = JString s"
| "tool_choice_json (ChoiceOutObject t n) =
     JObject [(''type'', JString t), (''function'', JObject [(''name'', JString n)])]"

fun response_format_json :: "ResponseFormatOut \<Rightarrow> json" where
  "response_format_json OutText = JObject [(''type'', JString ''text'')]"
| "response_format_json OutJsonObject = JObject [(''type'', JString ''json_object'')]"
| "response_format_json (OutJsonSchema n s strict) = JObject [(''type'', JString ''json_schema''),
     (''json_schema'', JObject [(''name'', JString n), (''schema'', s), (''strict'', JBool strict)])]"

definition nonempty_member :: "string \<Rightarrow> ('a \<Rightarrow> json) \<Rightarrow> 'a list \<Rightarrow> (string \<times> json) list" where
  "nonempty_member k f xs = (if xs = [] then [] else [(k, JArray (map f xs))])"

definition chat_body_json :: "ChatBody \<Rightarrow> json" where
  "chat_body_json b = JObject ([(''model'', JString (cb_model b)), (''messages'', JArray (map msg_json (cb_messages b)))]
     @ opt_member ''max_tokens'' json_u32 (cb_max_tokens b)
     @ opt_member ''temperature'' JFloat (cb_temperature b)
     @ opt_member ''top_p'' JFloat (cb_top_p b)
     @ opt_member ''presence_penalty'' JFloat (cb_presence_penalty b)
     @ opt_member ''frequency_penalty'' JFloat (cb_frequency_penalty b)
     @ nonempty_member ''stop'' JString (cb_stop b)
     @ opt_member ''seed'' JPosInt (cb_seed b)
     @ opt_member ''response_format'' response_format_json (cb_response_format b)
     @ nonempty_member ''tools'' tool_json (cb_tools b)
     @ opt_member ''tool_choice'' tool_choice_json (cb_tool_choice b)
     @ [(''stream'', JBool (cb_stream b))]
     @ opt_member ''stream_options'' (\<lambda>u. JObject [(''include_usage'', JBool u)]) (cb_include_usage b)
     @ opt_member ''reasoning_effort'' JString (cb_reasoning_effort b))"

definition chat_build_json :: "WireEnv \<Rightarrow> CanonicalRequest \<Rightarrow> BackendTarget \<Rightarrow> bool \<Rightarrow> json" where
  "chat_build_json env req target accepts_xhigh = chat_body_json (chat_build env req target accepts_xhigh)"
end
