(* ===== verification/Chat_Forward.thy ===== *)
theory Chat_Forward
  imports Chat_Request
begin

text \<open>
  What the two halves of the chat request path promise together. A decoded request has one canonical
  message per message of the body (the leading system messages become instructions), so a chat upstream is
  sent the client's conversation message for message; a body made of the message shapes that
  \<open>forwardable\<close> lists is read back by the upstream as the client wrote it. Tool replies directly follow
  the assistant turn whose calls they answer, whatever front end the conversation came from.
\<close>

section \<open>Messages one by one\<close>

definition is_system :: "InboundMessage \<Rightarrow> bool" where
  "is_system im \<longleftrightarrow> im_role im = ''system'' \<or> im_role im = ''developer''"

definition bad_message :: "InboundMessage \<Rightarrow> bool" where
  "bad_message im \<longleftrightarrow> role_to_canonical (im_role im) = None \<or> (im_role im = ''tool'' \<and> im_tool_call_id im = None)"

definition message_error :: "InboundMessage \<Rightarrow> FrontendError" where
  "message_error im = InvalidBody (if role_to_canonical (im_role im) = None then ''unknown role: '' @ im_role im
     else ''tool message missing tool_call_id'')"

text \<open>The canonical image of one message, as an instruction of the prelude and as a message.\<close>

definition source_of_role :: "string \<Rightarrow> SystemSource" where
  "source_of_role r = (if r = ''developer'' then OpenAiDeveloper else OpenAiSystem)"

definition canonical_system :: "WireEnv \<Rightarrow> InboundMessage \<Rightarrow> SystemInstruction" where
  "canonical_system env im = \<lparr>si_source = source_of_role (im_role im), si_content = decode_content env (im_content im)\<rparr>"

definition canonical_message :: "WireEnv \<Rightarrow> InboundMessage \<Rightarrow> Message" where
  "canonical_message env im =
     (let content = decode_content env (im_content im);
          msg = (\<lambda>role c src. \<lparr>msg_role = role, msg_content = c, msg_name = im_name im, msg_source = src,
                   msg_extensions = []\<rparr>)
      in if is_system im then msg SystemRole content (Some (source_of_role (im_role im)))
         else if im_role im = ''tool'' then msg ToolRole [BToolResult \<lparr>tr_tool_call_id = the (im_tool_call_id im),
           tr_content = tool_content_value env content, tr_is_error = False, tr_extensions = []\<rparr>] None
         else msg (if im_role im = ''user'' then User else Assistant)
           (content @ map (decode_tool_call env) (im_tool_calls im)) None)"

lemma good_role_cases [consumes 1, case_names sys tool turn]:
  assumes "\<not> bad_message im"
  obtains (sys) "is_system im" "role_to_canonical (im_role im) = Some (RoleSystem (source_of_role (im_role im)))"
  | (tool) i where "im_role im = ''tool''" "\<not> is_system im" "role_to_canonical (im_role im) = Some (RoleMessage ToolRole)"
      "im_tool_call_id im = Some i"
  | (turn) role where "im_role im = (if role = User then ''user'' else ''assistant'')" "role \<in> {User, Assistant}"
      "\<not> is_system im" "role_to_canonical (im_role im) = Some (RoleMessage role)"
  using assms unfolding bad_message_def
  by (auto simp: role_to_canonical_def is_system_def source_of_role_def split: if_splits)

lemma decode_message_bad: "bad_message im \<Longrightarrow> decode_message env im (prelude, sys, msgs) = Inl (message_error im)"
  by (auto simp: bad_message_def message_error_def Let_def role_to_canonical_def split: if_splits)

lemma decode_message_good:
  assumes "\<not> bad_message im"
  shows "decode_message env im (prelude, sys, msgs) = Inr
    (if is_system im \<and> prelude then (True, sys @ [canonical_system env im], msgs)
     else (prelude \<and> is_system im, sys, msgs @ [canonical_message env im]))"
  using assms
proof (cases rule: good_role_cases)
  case sys
  then show ?thesis by (simp add: Let_def canonical_system_def canonical_message_def)
next
  case (tool i)
  then show ?thesis by (simp add: Let_def canonical_message_def)
next
  case (turn role)
  then show ?thesis by (auto simp: Let_def canonical_message_def)
qed

lemma decode_messages_after_prelude:
  "decode_messages env ims (False, sys, msgs) =
     (case find bad_message ims of
        Some im \<Rightarrow> Inl (message_error im)
      | None \<Rightarrow> Inr (False, sys, msgs @ map (canonical_message env) ims))"
  by (induction ims arbitrary: msgs) (auto simp: decode_message_bad decode_message_good simp del: decode_message.simps split: option.splits)

lemma decode_messages_prelude:
  "decode_messages env ims (True, sys, []) =
     (case find bad_message ims of
        Some im \<Rightarrow> Inl (message_error im)
      | None \<Rightarrow> Inr (list_all is_system ims, sys @ map (canonical_system env) (takeWhile is_system ims),
          map (canonical_message env) (dropWhile is_system ims)))"
  by (induction ims arbitrary: sys)
     (auto simp: decode_message_bad decode_message_good decode_messages_after_prelude
        simp del: decode_message.simps split: option.splits)

lemma decode_request_messages:
  assumes "decode_request env rid req = Inr c"
  shows "find bad_message (ccr_messages req) = None"
    "req_system c = map (canonical_system env) (takeWhile is_system (ccr_messages req))"
    "req_messages c = map (canonical_message env) (dropWhile is_system (ccr_messages req))"
  using assms by (auto simp: decode_request_def decode_messages_prelude split: option.splits sum.splits)

section \<open>Which bodies are accepted\<close>

text \<open>
  A chat-completions request is rejected exactly when one of its messages has a role other than the five the
  protocol knows, or is a tool message without the id of the call it answers; the error is a 400 whose text names
  the first such message's problem, and nothing else about the typed request can make decoding fail.
\<close>

theorem chat_decode_rejects:
  "decode_request env rid req = Inl e \<longleftrightarrow>
    (\<exists>im. find bad_message (ccr_messages req) = Some im \<and> e = message_error im)"
  by (auto simp: decode_request_def decode_messages_prelude split: option.splits)

section \<open>One upstream message per client message\<close>

lemma map_filter_none: "(\<And>x. x \<in> set xs \<Longrightarrow> f x = None) \<Longrightarrow> List.map_filter f xs = []"
  by (induction xs) (auto simp: List.map_filter_simps)

lemma concat_map_single: "(\<And>x. x \<in> set xs \<Longrightarrow> f x = [g x]) \<Longrightarrow> concat (map f xs) = map g xs"
  by (induction xs) auto

lemma decode_part_plain:
  "tool_call_out env (decode_part env' p) = None" "tool_result_of (decode_part env' p) = None"
  by (cases p; auto simp: text_content_block_def split: option.splits)+

lemma decode_content_plain:
  "List.map_filter (tool_call_out env) (decode_content env' c) = []"
  "List.map_filter tool_result_of (decode_content env' c) = []"
  by (cases "(env', c)" rule: decode_content.cases;
      auto simp: text_content_block_def List.map_filter_simps decode_part_plain intro!: map_filter_none)+

definition call_out :: "WireEnv \<Rightarrow> InboundToolCall \<Rightarrow> ToolCallOut" where
  "call_out env tc = \<lparr>tco_id = itc_id tc, tco_type = ''function'', tco_function = \<lparr>fco_name = itf_name (itc_function tc),
     fco_arguments = we_to_string env (unwrap_or (we_from_str env (itf_arguments (itc_function tc)))
       (JString (itf_arguments (itc_function tc))))\<rparr>\<rparr>"

lemma decoded_calls:
  "List.map_filter (tool_call_out env) (map (decode_tool_call env) tcs) = map (call_out env) tcs"
  "List.map_filter tool_result_of (map (decode_tool_call env) tcs) = []"
  by (simp_all add: List.map_filter_def decode_tool_call_def call_out_def comp_def)

text \<open>The upstream message of one message of the conversation.\<close>

definition upstream_message :: "WireEnv \<Rightarrow> InboundMessage \<Rightarrow> MsgOut" where
  "upstream_message env im =
     (let content = decode_content env (im_content im) in
      if im_role im = ''tool'' then
        \<lparr>mo_role = ''tool'', mo_content = Some (JString (extract_text_from_tool_result env (tool_content_value env content))),
         mo_name = im_name im, mo_tool_calls = None, mo_tool_call_id = im_tool_call_id im\<rparr>
      else if is_system im \<or> im_tool_calls im = [] then
        \<lparr>mo_role = im_role im, mo_content = build_content_value env content, mo_name = im_name im,
         mo_tool_calls = None, mo_tool_call_id = None\<rparr>
      else
        \<lparr>mo_role = im_role im, mo_content = build_text_content_value content, mo_name = im_name im,
         mo_tool_calls = Some (map (call_out env) (im_tool_calls im)), mo_tool_call_id = None\<rparr>)"

lemma extract_text_content_calls:
  "extract_text_content (c @ map (decode_tool_call env) tcs) = extract_text_content c"
proof -
  have "List.map_filter text_of_block (map (decode_tool_call env) tcs) = []"
    by (simp add: List.map_filter_def decode_tool_call_def comp_def)
  then show ?thesis by (simp add: extract_text_content_def map_filter_append)
qed

lemma message_to_chat_canonical:
  assumes "\<not> bad_message im"
  shows "message_to_chat env (canonical_message env im) = [upstream_message env im]"
  using assms
proof (cases rule: good_role_cases)
  case sys
  then have "im_role im = ''system'' \<or> im_role im = ''developer''" by (simp add: is_system_def)
  with sys show ?thesis
    by (auto simp: canonical_message_def Let_def message_to_chat_def decode_content_plain upstream_message_def
        chat_role_def source_of_role_def)
next
  case (tool i)
  then show ?thesis
    by (simp add: canonical_message_def Let_def message_to_chat_def List.map_filter_simps upstream_message_def tool_reply_def)
next
  case (turn role)
  then show ?thesis
    by (auto simp: canonical_message_def Let_def message_to_chat_def decode_content_plain map_filter_append decoded_calls
        upstream_message_def chat_role_def build_text_content_value_def extract_text_content_calls)
qed

lemma role_of_system: "is_system im \<Longrightarrow> mo_role (system_to_chat (canonical_system env im)) = im_role im"
  by (auto simp: system_to_chat_def canonical_system_def source_of_role_def is_system_def)

lemma find_None_good: "find bad_message ims = None \<Longrightarrow> im \<in> set ims \<Longrightarrow> \<not> bad_message im"
  by (auto simp: find_None_iff)

lemma chat_build_messages:
  assumes "decode_request env rid req = Inr c"
  shows "cb_messages (chat_build env (c\<lparr>req_resolved_policy := p\<rparr>) target xh) =
    map (\<lambda>im. system_to_chat (canonical_system env im)) (takeWhile is_system (ccr_messages req))
    @ map (upstream_message env) (dropWhile is_system (ccr_messages req))"
proof -
  note dec = decode_request_messages [OF assms]
  have "message_to_chat env (canonical_message env im) = [upstream_message env im]"
    if "im \<in> set (dropWhile is_system (ccr_messages req))" for im
    using that dec(1) by (intro message_to_chat_canonical) (auto dest: find_None_good set_dropWhileD)
  then have "concat (map (message_to_chat env) (req_messages c))
      = map (upstream_message env) (dropWhile is_system (ccr_messages req))"
    unfolding dec(3) map_map comp_def by (rule concat_map_single)
  then show ?thesis by (simp add: chat_build_def Let_def dec(2) comp_def)
qed

text \<open>
  Whatever a chat client's conversation contains, a chat upstream is sent exactly one message for each of its
  messages, in the same order, with the same wire role, and a tool message keeps the id of the call it answers.
\<close>

theorem chat_roles_preserved:
  assumes "decode_request env rid req = Inr c"
  shows "map (\<lambda>m. (mo_role m, mo_tool_call_id m)) (cb_messages (chat_build env (c\<lparr>req_resolved_policy := p\<rparr>) target xh))
    = map (\<lambda>im. (im_role im, if im_role im = ''tool'' then im_tool_call_id im else None)) (ccr_messages req)"
proof -
  let ?out = "\<lambda>m. (mo_role m, mo_tool_call_id m)"
    and ?in = "\<lambda>im. (im_role im, if im_role im = ''tool'' then im_tool_call_id im else None)"
  have "?out (system_to_chat (canonical_system env im)) = ?in im" if "im \<in> set (takeWhile is_system (ccr_messages req))" for im
    using set_takeWhileD [OF that] role_of_system [of im env] by (auto simp: is_system_def system_to_chat_def)
  then have sys: "map ?out (map (\<lambda>im. system_to_chat (canonical_system env im)) (takeWhile is_system (ccr_messages req)))
      = map ?in (takeWhile is_system (ccr_messages req))" by simp
  have rest: "map ?out (map (upstream_message env) (dropWhile is_system (ccr_messages req)))
      = map ?in (dropWhile is_system (ccr_messages req))"
    by (simp add: upstream_message_def Let_def)
  show ?thesis
    unfolding chat_build_messages [OF assms] map_append sys rest by (simp add: map_append [symmetric] del: map_append)
qed

section \<open>Which message shapes are forwarded unchanged\<close>

definition forwardable_part :: "WireEnv \<Rightarrow> InboundContentPart \<Rightarrow> bool" where
  "forwardable_part env p =
     (case p of PartText t \<Rightarrow> True
      | PartImageUrl u \<Rightarrow> (case image_url_to_binary_source env (iup_url u) of
          Some (Url _) \<Rightarrow> True
        | Some (Base64 m d) \<Rightarrow> data_uri env m d = iup_url u
        | _ \<Rightarrow> False))"

text \<open>A list of parts must not be empty, nor a single text (which is sent as a plain string).\<close>

definition forwardable_content :: "WireEnv \<Rightarrow> InboundMessageContent option \<Rightarrow> bool" where
  "forwardable_content env c =
     (case c of Some (ContentParts ps) \<Rightarrow>
        ps \<noteq> [] \<and> (case ps of [PartText _] \<Rightarrow> False | _ \<Rightarrow> True) \<and> list_all (forwardable_part env) ps
      | _ \<Rightarrow> True)"

definition is_text :: "InboundMessageContent option \<Rightarrow> bool" where
  "is_text c = (case c of Some (ContentText _) \<Rightarrow> True | _ \<Rightarrow> False)"

definition is_nonempty_text :: "InboundMessageContent option \<Rightarrow> bool" where
  "is_nonempty_text c = (case c of Some (ContentText t) \<Rightarrow> t \<noteq> [] | _ \<Rightarrow> False)"

text \<open>The arguments of a call are JSON in the form the writer gives it.\<close>

definition forwardable_call :: "WireEnv \<Rightarrow> InboundToolCall \<Rightarrow> bool" where
  "forwardable_call env tc \<longleftrightarrow> itc_ty tc = ''function''
     \<and> map_option (we_to_string env) (we_from_str env (itf_arguments (itc_function tc))) = Some (itf_arguments (itc_function tc))"

definition forwardable_prelude :: "InboundMessage \<Rightarrow> bool" where
  "forwardable_prelude im \<longleftrightarrow> is_text (im_content im) \<and> im_name im = None \<and> im_tool_calls im = [] \<and> im_tool_call_id im = None"

definition forwardable :: "WireEnv \<Rightarrow> InboundMessage \<Rightarrow> bool" where
  "forwardable env im =
     (if im_role im = ''tool'' then is_text (im_content im) \<and> im_tool_calls im = [] \<and> im_tool_call_id im \<noteq> None
      else if is_system im \<or> im_tool_calls im = [] then
        im_role im \<in> {''system'', ''developer'', ''user'', ''assistant''} \<and> forwardable_content env (im_content im)
        \<and> im_tool_calls im = [] \<and> im_tool_call_id im = None
      else im_role im \<in> {''user'', ''assistant''} \<and> (im_content im = None \<or> is_nonempty_text (im_content im))
        \<and> list_all (forwardable_call env) (im_tool_calls im) \<and> im_tool_call_id im = None)"

definition forwardable_messages :: "WireEnv \<Rightarrow> InboundMessage list \<Rightarrow> bool" where
  "forwardable_messages env ims \<longleftrightarrow> list_all forwardable_prelude (takeWhile is_system ims)
     \<and> list_all (forwardable env) (dropWhile is_system ims)"

lemma forwardable_good: "forwardable env im \<Longrightarrow> \<not> bad_message im"
  by (auto simp: forwardable_def bad_message_def role_to_canonical_def split: if_splits)

lemma prelude_good: "is_system im \<Longrightarrow> \<not> bad_message im"
  by (auto simp: is_system_def bad_message_def role_to_canonical_def)

lemma forwardable_messages_good:
  assumes "forwardable_messages env ims"
  shows "find bad_message ims = None"
proof -
  have "\<not> bad_message im" if "im \<in> set ims" for im
  proof -
    have "im \<in> set (takeWhile is_system ims @ dropWhile is_system ims)" using that by simp
    then consider "im \<in> set (takeWhile is_system ims)" | "im \<in> set (dropWhile is_system ims)" unfolding set_append by blast
    then show ?thesis
      using assms by cases (auto simp: forwardable_messages_def list_all_iff forwardable_good prelude_good dest: set_takeWhileD)
  qed
  then show ?thesis by (auto simp: find_None_iff)
qed

section \<open>Reading an upstream message\<close>

lemma image_of_url:
  assumes "forwardable_part env (PartImageUrl u)"
  shows "\<exists>p. content_part env (decode_part env (PartImageUrl u)) = Some p \<and> de_part p = Some (PartImageUrl u)"
  using assms
  by (auto simp: forwardable_part_def image_part_def de_part_def de_image_url_def de_defs image_url_to_binary_source_def
      split: option.splits BinarySource.splits if_splits prod.splits)

lemma forwardable_part_read:
  assumes "forwardable_part env p"
  shows "\<exists>v. content_part env (decode_part env p) = Some v \<and> de_part v = Some p"
proof (cases p)
  case (PartText t)
  then show ?thesis by (simp add: text_content_block_def de_part_def de_defs)
next
  case (PartImageUrl u)
  with assms image_of_url show ?thesis by blast
qed

lemma forwardable_parts_read:
  assumes "list_all (forwardable_part env) ps"
  shows "de_array de_part (JArray (List.map_filter (content_part env) (map (decode_part env) ps))) = Some ps
    \<and> length (List.map_filter (content_part env) (map (decode_part env) ps)) = length ps"
  using assms
proof (induction ps)
  case (Cons p ps)
  then obtain v where "content_part env (decode_part env p) = Some v" "de_part v = Some p"
    using forwardable_part_read by auto
  with Cons show ?case by (auto simp: List.map_filter_simps de_array_def)
qed (simp add: List.map_filter_simps de_array_def)

lemma texts_of_parts:
  "list_ex (\<lambda>b. text_of_block b = None) (map (decode_part env) ps) \<longleftrightarrow> (\<exists>u. PartImageUrl u \<in> set ps)"
proof (induction ps)
  case (Cons p ps)
  then show ?case by (cases p) (auto simp: text_content_block_def split: option.splits)
qed simp

lemma texts_length:
  "\<not> (\<exists>u. PartImageUrl u \<in> set ps) \<Longrightarrow> length (List.map_filter text_of_block (map (decode_part env) ps)) = length ps"
proof (induction ps)
  case (Cons p ps)
  then show ?case by (cases p) (auto simp: List.map_filter_simps text_content_block_def)
qed (simp add: List.map_filter_simps)

lemma forwardable_content_read:
  assumes "forwardable_content env c"
  shows "case c of None \<Rightarrow> build_content_value env (decode_content env c) = None
    | Some x \<Rightarrow> (\<exists>v. build_content_value env (decode_content env c) = Some v \<and> \<not> is_null v \<and> de_content v = Some x)"
proof (cases "(env, c)" rule: decode_content.cases)
  case (3 e ps)
  with assms have ps: "ps \<noteq> []" "\<And>t. ps \<noteq> [PartText t]" "list_all (forwardable_part env) ps"
    by (auto simp: forwardable_content_def split: list.splits InboundContentPart.splits)
  note read = forwardable_parts_read [OF ps(3)]
  have "\<not> (\<not> list_ex (\<lambda>b. text_of_block b = None) (map (decode_part env) ps)
      \<and> length (List.map_filter text_of_block (map (decode_part env) ps)) = 1)"
  proof (cases "\<exists>u. PartImageUrl u \<in> set ps")
    case False
    have "length ps \<noteq> 1"
      using ps(2) False by (cases ps; cases "hd ps") auto
    then show ?thesis using texts_length [OF False] by simp
  qed (simp add: texts_of_parts)
  then have "build_content_value env (map (decode_part env) ps)
      = Some (JArray (List.map_filter (content_part env) (map (decode_part env) ps)))"
    using ps(1) read by (auto simp: build_content_value_def Let_def)
  then show ?thesis using 3 read by (simp add: de_content_def)
qed (simp_all add: build_content_value_def text_content_block_def List.map_filter_simps de_content_def)

lemma forwardable_call_read:
  assumes "forwardable_call env tc"
  shows "de_tool_call (tool_call_json (call_out env tc)) = Some tc"
  using assms
  by (auto simp: forwardable_call_def de_tool_call_def de_tool_call_function_def tool_call_json_def call_out_def de_defs)

lemma msg_json_read:
  assumes "case mo_content m of None \<Rightarrow> c = None | Some v \<Rightarrow> \<not> is_null v \<and> (\<exists>x. de_content v = Some x \<and> c = Some x)"
    and "case mo_tool_calls m of None \<Rightarrow> tcs = [] | Some outs \<Rightarrow> de_array de_tool_call (JArray (map tool_call_json outs)) = Some tcs"
  shows "de_message (msg_json m) = Some \<lparr>im_role = mo_role m, im_content = c, im_name = mo_name m, im_tool_calls = tcs,
    im_tool_call_id = mo_tool_call_id m\<rparr>"
proof -
  note member = msg_json_def map_of_opt_member map_of_opt_member_last
  have "de_field (msg_json m) ''role'' as_str = Some (mo_role m)"
    by (simp add: de_field_def msg_json_def)
  moreover have "de_option (msg_json m) ''content'' de_content = Some c"
    using assms(1) by (cases "mo_content m") (auto simp: de_option_def member simp del: map_of_append)
  moreover have "de_option (msg_json m) ''name'' as_str = Some (mo_name m)"
    by (cases "mo_name m") (simp_all add: de_option_def member del: map_of_append)
  moreover have "de_default (msg_json m) ''tool_calls'' [] (de_array de_tool_call) = Some tcs"
    using assms(2) by (cases "mo_tool_calls m") (simp_all add: de_default_def member del: map_of_append)
  moreover have "de_option (msg_json m) ''tool_call_id'' as_str = Some (mo_tool_call_id m)"
    by (cases "mo_tool_call_id m") (simp_all add: de_option_def member del: map_of_append)
  ultimately show ?thesis by (simp add: de_message_def) (simp add: msg_json_def de_object_def)
qed

lemma is_textE: "is_text c \<Longrightarrow> \<exists>t. c = Some (ContentText t)"
  by (auto simp: is_text_def split: option.splits InboundMessageContent.splits)

lemma prelude_message_read:
  assumes "is_system im" "forwardable_prelude im"
  shows "de_message (msg_json (system_to_chat (canonical_system env im))) = Some im"
proof -
  obtain t where "im_content im = Some (ContentText t)"
    using assms(2) by (auto simp: forwardable_prelude_def is_text_def split: option.splits InboundMessageContent.splits)
  then show ?thesis
    using assms role_of_system [OF assms(1), of env]
    by (subst msg_json_read [where c = "im_content im" and tcs = "[]"])
       (auto simp: forwardable_prelude_def system_to_chat_def canonical_system_def extract_text_content_def
          text_content_block_def List.map_filter_simps de_content_def)
qed

lemma forwardable_message_read:
  assumes "forwardable env im"
  shows "de_message (msg_json (upstream_message env im)) = Some im"
proof -
  note read = msg_json_read [where c = "im_content im"]
  show ?thesis
  proof (cases "im_role im = ''tool''")
    case True
    with assms obtain t where "im_content im = Some (ContentText t)" "im_tool_calls im = []"
      using is_textE [of "im_content im"] by (auto simp: forwardable_def)
    with True show ?thesis
      by (subst read [where tcs = "[]"]) (simp_all add: upstream_message_def text_content_block_def de_content_def)
  next
    case tool: False
    show ?thesis
    proof (cases "is_system im \<or> im_tool_calls im = []")
      case True
      with assms tool have m: "forwardable_content env (im_content im)" "im_tool_calls im = []" "im_tool_call_id im = None"
        by (simp_all add: forwardable_def)
      then show ?thesis
        using forwardable_content_read [OF m(1)] tool
        by (subst read [where tcs = "[]"]) (auto simp: upstream_message_def Let_def split: option.splits)
    next
      case False
      with assms tool have m: "im_content im = None \<or> is_nonempty_text (im_content im)" "im_tool_call_id im = None"
        "list_all (forwardable_call env) (im_tool_calls im)"
        by (simp_all add: forwardable_def)
      have calls: "de_array de_tool_call (JArray (map tool_call_json (map (call_out env) (im_tool_calls im)))) = Some (im_tool_calls im)"
        unfolding map_map comp_def
        by (rule de_array_read_back, rule forwardable_call_read) (use m(3) in \<open>simp add: list_all_iff\<close>)
      have "im_content im = None \<or> (\<exists>t. im_content im = Some (ContentText t) \<and> t \<noteq> [])"
        using m(1) by (auto simp: is_nonempty_text_def split: option.splits InboundMessageContent.splits)
      then show ?thesis
        using False tool m(2) calls
        by (subst read [where tcs = "im_tool_calls im"])
           (auto simp: upstream_message_def build_text_content_value_def extract_text_content_def text_content_block_def
              List.map_filter_simps de_content_def)
    qed
  qed
qed

lemma forwardable_messages_read:
  assumes "decode_request env rid req = Inr c" "forwardable_messages env (ccr_messages req)"
  shows "de_array de_message (JArray (map msg_json (cb_messages
    (chat_build env (c\<lparr>req_resolved_policy := p\<rparr>) target xh)))) = Some (ccr_messages req)"
proof -
  let ?pre = "takeWhile is_system (ccr_messages req)" and ?post = "dropWhile is_system (ccr_messages req)"
  let ?f = "\<lambda>im. de_message (msg_json (system_to_chat (canonical_system env im)))"
  let ?g = "\<lambda>im. de_message (msg_json (upstream_message env im))"
  have f: "map ?f ?pre = map Some ?pre"
    using assms(2) by (intro map_cong refl prelude_message_read) (auto simp: forwardable_messages_def list_all_iff dest: set_takeWhileD)
  have g: "map ?g ?post = map Some ?post"
    using assms(2) by (intro map_cong refl forwardable_message_read) (auto simp: forwardable_messages_def list_all_iff)
  have "map de_message (map msg_json (map (\<lambda>im. system_to_chat (canonical_system env im)) ?pre @ map (upstream_message env) ?post))
      = map ?f ?pre @ map ?g ?post" by (simp add: comp_def)
  also have "\<dots> = map Some (?pre @ ?post)" unfolding f g map_append ..
  also have "\<dots> = map Some (ccr_messages req)" by simp
  finally show ?thesis
    unfolding chat_build_messages [OF assms(1)] de_array_def by (simp only: as_array.simps Option.bind.simps those_map_Some)
qed

section \<open>Reading an upstream body\<close>

lemma map_of_nonempty_member:
  "map_of (nonempty_member k f l @ xs) k' =
     (if k = k' \<and> l \<noteq> [] then Some (JArray (map f l)) else map_of xs k')"
  by (simp add: nonempty_member_def)

lemma chat_body_get:
  "jget (chat_body_json b) ''model'' = Some (JString (cb_model b))"
  "jget (chat_body_json b) ''messages'' = Some (JArray (map msg_json (cb_messages b)))"
  "jget (chat_body_json b) ''tools'' = (if cb_tools b = [] then None else Some (JArray (map tool_json (cb_tools b))))"
  "jget (chat_body_json b) ''tool_choice'' = map_option tool_choice_json (cb_tool_choice b)"
  "jget (chat_body_json b) ''max_tokens'' = map_option json_u32 (cb_max_tokens b)"
  "jget (chat_body_json b) ''max_completion_tokens'' = None"
  "jget (chat_body_json b) ''temperature'' = map_option JFloat (cb_temperature b)"
  "jget (chat_body_json b) ''top_p'' = map_option JFloat (cb_top_p b)"
  "jget (chat_body_json b) ''presence_penalty'' = map_option JFloat (cb_presence_penalty b)"
  "jget (chat_body_json b) ''frequency_penalty'' = map_option JFloat (cb_frequency_penalty b)"
  "jget (chat_body_json b) ''stop'' = (if cb_stop b = [] then None else Some (JArray (map JString (cb_stop b))))"
  "jget (chat_body_json b) ''stream'' = Some (JBool (cb_stream b))"
  "jget (chat_body_json b) ''response_format'' = map_option response_format_json (cb_response_format b)"
  "jget (chat_body_json b) ''seed'' = map_option JPosInt (cb_seed b)"
  "jget (chat_body_json b) ''user'' = None"
  "jget (chat_body_json b) ''reasoning_effort'' = map_option JString (cb_reasoning_effort b)"
  by (simp_all add: chat_body_json_def map_of_opt_member map_of_opt_member_last map_of_nonempty_member del: map_of_append)

lemma de_object_body [simp]: "de_object (chat_body_json b) = Some (chat_body_json b)"
  by (simp add: chat_body_json_def de_object_def)

text \<open>What a client's request becomes on the way through: the upstream's model, the effort the policy resolved,
  explicit defaults; and the members the gateway drops.\<close>

definition normal_tool :: "InboundTool \<Rightarrow> InboundTool" where
  "normal_tool t = \<lparr>it_ty = ''function'', it_function = (it_function t)\<lparr>idf_parameters :=
     Some (unwrap_or (idf_parameters (it_function t)) (JObject []))\<rparr>\<rparr>"

fun normal_choice :: "InboundToolChoice option \<Rightarrow> InboundToolChoice" where
  "normal_choice None = ChoiceMode ''auto''"
| "normal_choice (Some (ChoiceMode s)) = ChoiceMode (if s = ''none'' \<or> s = ''required'' then s else ''auto'')"
| "normal_choice (Some (ChoiceObject t n)) = ChoiceObject ''function'' n"

definition normal_format :: "InboundResponseFormat \<Rightarrow> InboundResponseFormat option" where
  "normal_format rf =
     (if irf_ty rf = ''json_object'' then Some \<lparr>irf_ty = ''json_object'', irf_json_schema = None\<rparr>
      else if irf_ty rf = ''json_schema'' then map_option (\<lambda>js. \<lparr>irf_ty = ''json_schema'',
        irf_json_schema = Some (js\<lparr>ijs_strict := Some (unwrap_or (ijs_strict js) False)\<rparr>)\<rparr>) (irf_json_schema rf)
      else None)"

definition forwarded_request :: "ChatCompletionsRequest \<Rightarrow> string \<Rightarrow> string option \<Rightarrow> ChatCompletionsRequest" where
  "forwarded_request r model effort =
     (let tools = unwrap_or (ccr_tools r) []; stops = unwrap_or (map_option stop_into_vec (ccr_stop r)) [] in
      r\<lparr>ccr_model := model,
        ccr_tools := (if tools = [] then None else Some (map normal_tool tools)),
        ccr_tool_choice := (if tools = [] then None else Some (normal_choice (ccr_tool_choice r))),
        ccr_max_tokens := or_opt (ccr_max_completion_tokens r) (ccr_max_tokens r),
        ccr_max_completion_tokens := None,
        ccr_stop := (if stops = [] then None else Some (StopMany stops)),
        ccr_stream := Some (unwrap_or (ccr_stream r) False),
        ccr_response_format := Option.bind (ccr_response_format r) normal_format,
        ccr_user := None,
        ccr_reasoning_effort := effort\<rparr>)"

lemma tool_read:
  assumes "\<not> is_null (unwrap_or (idf_parameters (it_function t)) (JObject []))"
  shows "de_tool (tool_json (tool_out (decode_tool t))) = Some (normal_tool t)"
proof -
  let ?f = "JObject ([(''name'', JString (idf_name (it_function t)))]
    @ opt_member ''description'' JString (idf_description (it_function t))
    @ [(''parameters'', unwrap_or (idf_parameters (it_function t)) (JObject []))])"
  have "de_tool_function ?f = Some (it_function (normal_tool t))"
    using assms
    by (cases "idf_description (it_function t)") (simp_all add: de_tool_function_def de_defs normal_tool_def)
  then show ?thesis
    by (simp add: de_tool_def tool_json_def tool_out_def decode_tool_def de_object_def de_field_def normal_tool_def)
qed

lemma choice_read:
  "de_tool_choice (tool_choice_json (tool_choice_out (decode_tool_choice c))) = Some (normal_choice c)"
  "\<not> is_null (tool_choice_json (tool_choice_out (decode_tool_choice c)))"
  by (cases c rule: decode_tool_choice.cases; simp add: de_tool_choice_def de_choice_function_def de_defs)+

lemma format_read:
  assumes "decode_response_format rf = Some f"
  shows "de_response_format (response_format_json (response_format_out f)) = normal_format rf
    \<and> normal_format rf \<noteq> None \<and> \<not> is_null (response_format_json (response_format_out f))"
  using assms
  by (auto simp: decode_response_format_def normal_format_def de_response_format_def de_json_schema_def de_defs
      split: if_splits)

lemma format_read_option:
  "de_option (chat_body_json b) ''response_format'' de_response_format = Some (Option.bind rf normal_format)"
  if "cb_response_format b = map_option response_format_out (Option.bind rf decode_response_format)"
proof (cases "Option.bind rf decode_response_format")
  case None
  then have "Option.bind rf normal_format = None"
    by (cases rf) (auto simp: decode_response_format_def normal_format_def split: if_splits)
  with None that show ?thesis by (simp add: de_option_def chat_body_get)
next
  case (Some f)
  then obtain x where x: "rf = Some x" "decode_response_format x = Some f" by (cases rf) auto
  with Some that format_read [OF x(2)] show ?thesis by (auto simp: de_option_def chat_body_get)
qed

lemma de_tool_parameters: "de_tool v = Some t \<Longrightarrow> \<not> is_null (unwrap_or (idf_parameters (it_function t)) (JObject []))"
  by (auto simp: de_tool_def de_tool_function_def de_option_def de_field_def bind_eq_Some_conv split: option.splits if_splits)

lemma de_option_tools_parameters:
  assumes "de_option v ''tools'' (de_array de_tool) = Some ts" "t \<in> set (unwrap_or ts [])"
  shows "\<not> is_null (unwrap_or (idf_parameters (it_function t)) (JObject []))"
proof -
  obtain xs where "ts = Some xs" "t \<in> set xs" using assms(2) by (cases ts) auto
  with assms(1) obtain x where "de_array de_tool x = Some xs" by (auto simp: de_option_def split: option.splits if_splits)
  with \<open>t \<in> set xs\<close> show ?thesis
    by (auto simp: de_array_def bind_eq_Some_conv dest!: those_map_D dest: de_tool_parameters)
qed

lemma chat_request_from_wire:
  assumes "de_chat_request env v = Some r" "\<And>y. we_f32 env (we_f32 env y) = we_f32 env y"
  shows "map_option (we_f32 env) (ccr_temperature r) = ccr_temperature r"
    "map_option (we_f32 env) (ccr_top_p r) = ccr_top_p r"
    "map_option (we_f32 env) (ccr_presence_penalty r) = ccr_presence_penalty r"
    "map_option (we_f32 env) (ccr_frequency_penalty r) = ccr_frequency_penalty r"
    "t \<in> set (unwrap_or (ccr_tools r) []) \<Longrightarrow> \<not> is_null (unwrap_or (idf_parameters (it_function t)) (JObject []))"
proof -
  have "de_option v ''temperature'' (de_f32 env) = Some (ccr_temperature r) \<and> de_option v ''top_p'' (de_f32 env) = Some (ccr_top_p r)
    \<and> de_option v ''presence_penalty'' (de_f32 env) = Some (ccr_presence_penalty r)
    \<and> de_option v ''frequency_penalty'' (de_f32 env) = Some (ccr_frequency_penalty r)
    \<and> de_option v ''tools'' (de_array de_tool) = Some (ccr_tools r)"
    using assms(1) unfolding de_chat_request_def by (auto simp: bind_eq_Some_conv)
  then show "map_option (we_f32 env) (ccr_temperature r) = ccr_temperature r"
    "map_option (we_f32 env) (ccr_top_p r) = ccr_top_p r"
    "map_option (we_f32 env) (ccr_presence_penalty r) = ccr_presence_penalty r"
    "map_option (we_f32 env) (ccr_frequency_penalty r) = ccr_frequency_penalty r"
    "t \<in> set (unwrap_or (ccr_tools r) []) \<Longrightarrow> \<not> is_null (unwrap_or (idf_parameters (it_function t)) (JObject []))"
    using de_option_f32 [OF _ assms(2)] de_option_tools_parameters by blast+
qed

lemma upstream_reads:
  assumes wire: "de_chat_request env v = Some r" "\<And>y. we_f32 env (we_f32 env y) = we_f32 env y"
    and dec: "decode_request env rid r = Inr c" and fw: "forwardable_messages env (ccr_messages r)"
  shows "de_chat_request env (chat_build_json env (c\<lparr>req_resolved_policy := p\<rparr>) target xh)
    = Some (forwarded_request r (bt_model target) (effort_wire_string (c\<lparr>req_resolved_policy := p\<rparr>) xh))"
proof -
  let ?b = "chat_build env (c\<lparr>req_resolved_policy := p\<rparr>) target xh"
  let ?f = "forwarded_request r (bt_model target) (effort_wire_string (c\<lparr>req_resolved_policy := p\<rparr>) xh)"
  note [simp] = chat_body_get
  note f32 = chat_request_from_wire [OF wire]
  have c: "req_generation c = \<lparr>max_tokens = or_opt (ccr_max_completion_tokens r) (ccr_max_tokens r),
      temperature = ccr_temperature r, top_p = ccr_top_p r, top_k = None,
      presence_penalty = ccr_presence_penalty r, frequency_penalty = ccr_frequency_penalty r,
      stop_sequences = unwrap_or (map_option stop_into_vec (ccr_stop r)) [], seed = ccr_seed r,
      reasoning = map_option (\<lambda>e. \<lparr>ro_effort = Some e, ro_budget_tokens = None\<rparr>) (Option.bind (ccr_reasoning_effort r) effort_parse)\<rparr>"
    "req_tools c = map decode_tool (unwrap_or (ccr_tools r) [])" "req_tool_choice c = decode_tool_choice (ccr_tool_choice r)"
    "req_response_format c = Option.bind (ccr_response_format r) decode_response_format"
    "req_stream c = unwrap_or (ccr_stream r) False"
    using dec by (auto simp: decode_request_def split: sum.splits)
  have b: "cb_model ?b = bt_model target" "cb_max_tokens ?b = or_opt (ccr_max_completion_tokens r) (ccr_max_tokens r)"
    "cb_temperature ?b = ccr_temperature r" "cb_top_p ?b = ccr_top_p r" "cb_presence_penalty ?b = ccr_presence_penalty r"
    "cb_frequency_penalty ?b = ccr_frequency_penalty r" "cb_stop ?b = unwrap_or (map_option stop_into_vec (ccr_stop r)) []"
    "cb_seed ?b = ccr_seed r" "cb_tools ?b = map (tool_out \<circ> decode_tool) (unwrap_or (ccr_tools r) [])"
    "cb_tool_choice ?b = (if unwrap_or (ccr_tools r) [] = [] then None else Some (tool_choice_out (decode_tool_choice (ccr_tool_choice r))))"
    "cb_stream ?b = unwrap_or (ccr_stream r) False" "cb_reasoning_effort ?b = effort_wire_string (c\<lparr>req_resolved_policy := p\<rparr>) xh"
    "cb_response_format ?b = map_option response_format_out (Option.bind (ccr_response_format r) decode_response_format)"
    by (simp_all add: chat_build_def Let_def c)
  have "de_field (chat_body_json ?b) ''model'' as_str = Some (ccr_model ?f)"
    by (simp add: de_field_def b forwarded_request_def Let_def)
  moreover have "de_field (chat_body_json ?b) ''messages'' (de_array de_message) = Some (ccr_messages ?f)"
    using forwardable_messages_read [OF dec fw] by (simp add: de_field_def forwarded_request_def Let_def)
  moreover have "de_option (chat_body_json ?b) ''tools'' (de_array de_tool) = Some (ccr_tools ?f)"
  proof -
    have "de_array de_tool (JArray (map (\<lambda>t. tool_json (tool_out (decode_tool t))) (unwrap_or (ccr_tools r) [])))
        = Some (map normal_tool (unwrap_or (ccr_tools r) []))"
      by (rule de_array_written, rule tool_read, rule f32(5))
    then show ?thesis by (simp add: de_option_def b forwarded_request_def Let_def comp_def)
  qed
  moreover have "de_option (chat_body_json ?b) ''tool_choice'' de_tool_choice = Some (ccr_tool_choice ?f)"
    by (simp add: de_option_def b forwarded_request_def Let_def choice_read)
  moreover have "de_option (chat_body_json ?b) ''max_tokens'' de_u32 = Some (ccr_max_tokens ?f)"
    by (subst de_option_get [where g = "\<lambda>x. x" and f = json_u32 and o' = "cb_max_tokens ?b"])
       (simp_all add: b forwarded_request_def Let_def option.map_ident)
  moreover have "de_option (chat_body_json ?b) ''max_completion_tokens'' de_u32 = Some (ccr_max_completion_tokens ?f)"
    by (simp add: de_option_def forwarded_request_def Let_def)
  moreover have "de_option (chat_body_json ?b) ''temperature'' (de_f32 env) = Some (ccr_temperature ?f)"
    "de_option (chat_body_json ?b) ''top_p'' (de_f32 env) = Some (ccr_top_p ?f)"
    "de_option (chat_body_json ?b) ''presence_penalty'' (de_f32 env) = Some (ccr_presence_penalty ?f)"
    "de_option (chat_body_json ?b) ''frequency_penalty'' (de_f32 env) = Some (ccr_frequency_penalty ?f)"
    by (rule de_option_f32_back; simp add: b f32 forwarded_request_def Let_def)+
  moreover have "de_option (chat_body_json ?b) ''stop'' de_stop = Some (ccr_stop ?f)"
    by (simp add: de_option_def b forwarded_request_def Let_def de_stop_def de_array_read_back)
  moreover have "de_option (chat_body_json ?b) ''stream'' as_bool = Some (ccr_stream ?f)"
    by (simp add: de_option_def b forwarded_request_def Let_def)
  moreover have "de_option (chat_body_json ?b) ''response_format'' de_response_format = Some (ccr_response_format ?f)"
    using format_read_option [OF b(13)] by (simp add: forwarded_request_def Let_def)
  moreover have "de_option (chat_body_json ?b) ''seed'' as_u64 = Some (ccr_seed ?f)"
    by (subst de_option_get [where g = "\<lambda>x. x" and f = JPosInt and o' = "ccr_seed r"])
       (simp_all add: b forwarded_request_def Let_def option.map_ident)
  moreover have "de_option (chat_body_json ?b) ''user'' as_str = Some (ccr_user ?f)"
    by (simp add: de_option_def forwarded_request_def Let_def)
  moreover have "de_option (chat_body_json ?b) ''reasoning_effort'' as_str = Some (ccr_reasoning_effort ?f)"
    by (subst de_option_get [where g = "\<lambda>x. x" and f = JString and o' = "cb_reasoning_effort ?b"])
       (simp_all add: b forwarded_request_def Let_def option.map_ident)
  ultimately show ?thesis
    unfolding chat_build_json_def de_chat_request_def by (simp del: chat_body_get)
qed

text \<open>
  C8. A chat client's request passes through the gateway to a chat upstream intact: when its messages have the
  shapes that can be forwarded, decoding succeeds, and the upstream, reading the rebuilt body by the same rules,
  sees the same messages (texts, images, tool calls and replies, names), the same tools, sampling parameters,
  stop sequences and output format, up to the normal form of \<open>forwarded_request\<close>: its own model name, the
  effort the policy resolved, defaults written out, and no \<open>user\<close>.
\<close>

theorem chat_request_forwarded:
  assumes "de_chat_request env v = Some r" "forwardable_messages env (ccr_messages r)"
    and "\<And>y. we_f32 env (we_f32 env y) = we_f32 env y"
  shows "\<exists>c. decode_request env rid r = Inr c \<and>
    de_chat_request env (chat_build_json env (c\<lparr>req_resolved_policy := p\<rparr>) target xh)
      = Some (forwarded_request r (bt_model target) (effort_wire_string (c\<lparr>req_resolved_policy := p\<rparr>) xh))"
proof -
  obtain c where "decode_request env rid r = Inr c"
    using forwardable_messages_good [OF assms(2)] by (auto simp: decode_request_def decode_messages_prelude)
  with upstream_reads [OF assms(1,3)] assms(2) show ?thesis by blast
qed

definition demo_wire :: WireEnv where
  "demo_wire = \<lparr>we_from_str = (\<lambda>s. if s = ''{}'' then Some (JObject []) else None), we_to_string = (\<lambda>v. ''{}''),
     we_b64_decode = Some, we_b64_encode = (\<lambda>d. d), we_f32 = (\<lambda>x. of_int (round (1024 * x)) / 1024)\<rparr>"

definition demo_chat_body :: json where
  "demo_chat_body = JObject [(''model'', JString ''gpt''), (''temperature'', JPosInt 1),
     (''messages'', JArray
       [JObject [(''role'', JString ''developer''), (''content'', JString ''Be brief.'')],
        JObject [(''role'', JString ''user''), (''content'', JArray
          [JObject [(''type'', JString ''text''), (''text'', JString ''What is this?'')],
           JObject [(''type'', JString ''image_url''),
             (''image_url'', JObject [(''url'', JString ''data:image/png;base64,iVBO'')])]])],
        JObject [(''role'', JString ''assistant''), (''content'', JNull), (''tool_calls'', JArray
          [JObject [(''id'', JString ''c1''), (''type'', JString ''function''),
            (''function'', JObject [(''name'', JString ''look''), (''arguments'', JString ''{}'')])]])],
        JObject [(''role'', JString ''tool''), (''tool_call_id'', JString ''c1''), (''content'', JString ''a cat'')]])]"

definition demo_chat_request :: ChatCompletionsRequest where
  "demo_chat_request = \<lparr>ccr_model = ''gpt'', ccr_messages =
     [\<lparr>im_role = ''developer'', im_content = Some (ContentText ''Be brief.''), im_name = None, im_tool_calls = [], im_tool_call_id = None\<rparr>,
      \<lparr>im_role = ''user'', im_content = Some (ContentParts [PartText ''What is this?'',
         PartImageUrl \<lparr>iup_url = ''data:image/png;base64,iVBO''\<rparr>]), im_name = None, im_tool_calls = [], im_tool_call_id = None\<rparr>,
      \<lparr>im_role = ''assistant'', im_content = None, im_name = None, im_tool_calls = [\<lparr>itc_id = ''c1'', itc_ty = ''function'',
         itc_function = \<lparr>itf_name = ''look'', itf_arguments = ''{}''\<rparr>\<rparr>], im_tool_call_id = None\<rparr>,
      \<lparr>im_role = ''tool'', im_content = Some (ContentText ''a cat''), im_name = None, im_tool_calls = [], im_tool_call_id = Some ''c1''\<rparr>],
     ccr_tools = None, ccr_tool_choice = None, ccr_max_tokens = None, ccr_max_completion_tokens = None, ccr_temperature = Some 1,
     ccr_top_p = None, ccr_presence_penalty = None, ccr_frequency_penalty = None, ccr_stop = None, ccr_stream = None,
     ccr_response_format = None, ccr_seed = None, ccr_user = None, ccr_reasoning_effort = None\<rparr>"

lemma demo_chat_read: "de_chat_request demo_wire demo_chat_body = Some demo_chat_request"
  by (simp add: demo_chat_body_def demo_chat_request_def demo_wire_def de_chat_request_def de_defs de_array_def de_message_def
      de_content_def de_part_def de_image_url_def de_tool_call_def de_tool_call_function_def de_f32_def)

lemma demo_image: "image_url_to_binary_source demo_wire ''data:image/png;base64,iVBO'' = Some (Base64 ''image/png'' ''iVBO'')"
  by code_simp

lemma demo_chat_forwardable: "forwardable_messages demo_wire (ccr_messages demo_chat_request)"
  by (simp add: forwardable_messages_def demo_chat_request_def is_system_def forwardable_prelude_def is_text_def forwardable_def
      forwardable_content_def forwardable_part_def demo_image data_uri_def forwardable_call_def)
     (simp add: demo_wire_def)

lemma demo_f32: "we_f32 demo_wire (we_f32 demo_wire y) = we_f32 demo_wire y"
  by (simp add: demo_wire_def)

definition demo_target :: BackendTarget where
  "demo_target = \<lparr>bt_provider = ''openai'', bt_model = ''gpt-5'', bt_policy = \<lparr>default_reasoning_effort = None,
     default_anthropic_beta = None, reasoning_mapping = []\<rparr>\<rparr>"

theorem chat_request_forwarded_witness:
  "\<exists>c. decode_request demo_wire ''req_1'' demo_chat_request = Inr c \<and>
    de_chat_request demo_wire (chat_build_json demo_wire (c\<lparr>req_resolved_policy := resolved_policy_default\<rparr>) demo_target False)
      = Some (forwarded_request demo_chat_request ''gpt-5''
          (effort_wire_string (c\<lparr>req_resolved_policy := resolved_policy_default\<rparr>) False))"
  using chat_request_forwarded [OF demo_chat_read demo_chat_forwardable demo_f32, of "''req_1''" resolved_policy_default demo_target False]
  by (simp add: demo_target_def)

theorem chat_roles_preserved_witness:
  "\<exists>c. decode_request demo_wire ''req_1'' demo_chat_request = Inr c \<and>
    map (\<lambda>m. (mo_role m, mo_tool_call_id m))
      (cb_messages (chat_build demo_wire (c\<lparr>req_resolved_policy := resolved_policy_default\<rparr>) demo_target False))
    = [(''developer'', None), (''user'', None), (''assistant'', None), (''tool'', Some ''c1'')]"
proof -
  obtain c where c: "decode_request demo_wire ''req_1'' demo_chat_request = Inr c"
    using forwardable_messages_good [OF demo_chat_forwardable] by (auto simp: decode_request_def decode_messages_prelude)
  show ?thesis
    using chat_roles_preserved [OF c, of resolved_policy_default demo_target False] c
    by (auto simp: demo_chat_request_def)
qed

section \<open>Tool replies follow the calls they answer\<close>

definition call_ids :: "Message \<Rightarrow> string list" where
  "call_ids m = List.map_filter (\<lambda>b. case b of BToolCall tc \<Rightarrow> Some (tc_id tc) | _ \<Rightarrow> None) (msg_content m)"

definition result_ids :: "Message \<Rightarrow> string list" where
  "result_ids m = map tr_tool_call_id (List.map_filter tool_result_of (msg_content m))"

text \<open>A conversation in which every tool result answers a call of the assistant turn it follows; \<open>awaited\<close>
  holds the ids that may still be answered. Tool-role messages may share one turn's answers between them.\<close>

fun answers_follow :: "string list \<Rightarrow> Message list \<Rightarrow> bool" where
  "answers_follow awaited [] = True"
| "answers_follow awaited (m # ms) =
     (if result_ids m \<noteq> [] then set (result_ids m) \<subseteq> set awaited
        \<and> answers_follow (if msg_role m = ToolRole then awaited else []) ms
      else msg_role m \<noteq> ToolRole \<and> answers_follow (call_ids m) ms)"

text \<open>The upstream's rule: nothing stands between an assistant message and the tool messages answering it.\<close>

fun replies_follow :: "string list \<Rightarrow> MsgOut list \<Rightarrow> bool" where
  "replies_follow awaited [] = True"
| "replies_follow awaited (m # ms) =
     (if mo_role m = ''tool'' then mo_tool_call_id m \<in> Some ` set awaited \<and> replies_follow awaited ms
      else replies_follow (map tco_id (unwrap_or (mo_tool_calls m) [])) ms)"

definition reply_ids :: "MsgOut list \<Rightarrow> string option list" where
  "reply_ids ms = map mo_tool_call_id (filter (\<lambda>m. mo_role m = ''tool'') ms)"

lemma replies_follow_mono: "replies_follow a ms \<Longrightarrow> set a \<subseteq> set b \<Longrightarrow> replies_follow b ms"
proof (induction ms arbitrary: a b)
  case (Cons m ms)
  then show ?case by (cases "mo_role m = ''tool''") auto
qed simp

lemma replies_follow_system:
  "replies_follow [] (map system_to_chat ss @ ms) = replies_follow [] ms"
  "reply_ids (map system_to_chat ss @ ms) = reply_ids ms"
  by (induction ss) (auto simp: system_to_chat_def reply_ids_def split: SystemSource.splits)

lemma replies_follow_tools:
  "replies_follow a (map (tool_reply env m) trs @ ms) \<longleftrightarrow> set (map tr_tool_call_id trs) \<subseteq> set a \<and> replies_follow a ms"
  by (induction trs) (auto simp: tool_reply_def)

lemma chat_role_tool: "chat_role m = ''tool'' \<longleftrightarrow> msg_role m = ToolRole"
  by (auto simp: chat_role_def split: MessageRole.splits option.splits SystemSource.splits)

lemma call_ids_out: "map tco_id (List.map_filter (tool_call_out env) (msg_content m)) = call_ids m"
proof -
  have "map tco_id (List.map_filter (tool_call_out env) bs)
      = List.map_filter (\<lambda>b. case b of BToolCall tc \<Rightarrow> Some (tc_id tc) | _ \<Rightarrow> None) bs" for bs
  proof (induction bs)
    case (Cons b bs)
    then show ?case by (cases b) (simp_all add: List.map_filter_simps)
  qed (simp add: List.map_filter_simps)
  then show ?thesis by (simp add: call_ids_def)
qed

lemma message_replies_follow:
  assumes "answers_follow a (m # ms)" "\<And>b. answers_follow b ms \<Longrightarrow> replies_follow b out"
  shows "replies_follow a (message_to_chat env m @ out)"
proof (cases "result_ids m = []")
  case True
  then have "List.map_filter tool_result_of (msg_content m) = []" by (simp add: result_ids_def)
  then show ?thesis
    using assms True call_ids_out [of env m] chat_role_tool [of m]
    by (auto simp: message_to_chat_def Let_def)
next
  case False
  then have some: "List.map_filter tool_result_of (msg_content m) \<noteq> []" by (simp add: result_ids_def)
  show ?thesis
  proof (cases "msg_role m = ToolRole")
    case True
    then show ?thesis
      using assms False some by (auto simp: message_to_chat_def Let_def replies_follow_tools result_ids_def)
  next
    case user: False
    have "replies_follow [] out" using assms False user by simp
    then show ?thesis
      using assms(1) False some user replies_follow_mono [of "[]" out a] chat_role_tool [of m]
      by (auto simp: message_to_chat_def Let_def replies_follow_tools result_ids_def split: option.splits)
  qed
qed

lemma message_reply_ids:
  assumes "result_ids m \<noteq> [] \<or> msg_role m \<noteq> ToolRole"
  shows "reply_ids (message_to_chat env m) = map Some (result_ids m)"
proof (cases "result_ids m = []")
  case True
  then show ?thesis
    using assms chat_role_tool [of m] by (simp add: message_to_chat_def Let_def reply_ids_def result_ids_def)
next
  case False
  have replies: "reply_ids (map (tool_reply env m) trs) = map Some (map tr_tool_call_id trs)" for trs
    by (induction trs) (simp_all add: reply_ids_def tool_reply_def)
  have app: "reply_ids (xs @ ys) = reply_ids xs @ reply_ids ys" for xs ys
    by (simp add: reply_ids_def)
  have results: "List.map_filter tool_result_of (msg_content m) \<noteq> []" using False by (simp add: result_ids_def)
  show ?thesis
  proof (cases "msg_role m = ToolRole")
    case True
    with results show ?thesis by (simp add: message_to_chat_def Let_def replies result_ids_def)
  next
    case tool: False
    then have "chat_role m \<noteq> ''tool''" using chat_role_tool by blast
    then have other: "reply_ids [\<lparr>mo_role = chat_role m, mo_content = c, mo_name = n, mo_tool_calls = t, mo_tool_call_id = i\<rparr>] = []"
      for c n t i unfolding reply_ids_def by (simp only: filter.simps MsgOut.simps if_False list.map)
    show ?thesis
    proof (cases "build_content_value env (filter (\<lambda>b. tool_result_of b = None) (msg_content m))")
      case None
      with results tool show ?thesis by (simp add: message_to_chat_def Let_def replies result_ids_def)
    next
      case (Some v)
      with results tool show ?thesis by (simp add: message_to_chat_def Let_def app replies other result_ids_def)
    qed
  qed
qed

lemma conversation_replies:
  assumes "answers_follow a msgs"
  shows "replies_follow a (concat (map (message_to_chat env) msgs))
    \<and> reply_ids (concat (map (message_to_chat env) msgs)) = map Some (concat (map result_ids msgs))"
  using assms
proof (induction msgs arbitrary: a)
  case (Cons m ms)
  have "result_ids m \<noteq> [] \<or> msg_role m \<noteq> ToolRole" using Cons.prems by (auto split: if_splits)
  moreover obtain b where "answers_follow b ms" using Cons.prems by (auto split: if_splits)
  ultimately have "reply_ids (concat (map (message_to_chat env) (m # ms))) = map Some (concat (map result_ids (m # ms)))"
    using Cons.IH message_reply_ids [of m env] by (simp add: reply_ids_def)
  moreover have "replies_follow a (message_to_chat env m @ concat (map (message_to_chat env) ms))"
    using message_replies_follow [OF Cons.prems] Cons.IH by blast
  ultimately show ?case by simp
qed (simp add: reply_ids_def)

text \<open>
  C23. Upstreams with a strict order accept the rebuilt conversation: if every tool result of the canonical
  conversation answers a call of the assistant turn before it, then in the chat body nothing stands between an
  assistant message and the tool messages answering its calls (a user's own text is moved behind them), and
  every result is sent exactly once, in order.
\<close>

theorem tool_replies_follow_calls:
  assumes "answers_follow [] (req_messages req)"
  shows "replies_follow [] (cb_messages (chat_build env req target xh))
    \<and> reply_ids (cb_messages (chat_build env req target xh)) = map Some (concat (map result_ids (req_messages req)))"
  using conversation_replies [OF assms, of env]
  by (simp add: chat_build_def Let_def replies_follow_system)

text \<open>An Anthropic client's turn: two calls, then one user message with text, both results and more text.\<close>

definition demo_tool_turns :: "Message list" where
  "demo_tool_turns =
     [message_user [text_content_block ''Compare them.''],
      message_assistant [BToolCall \<lparr>tc_id = ''a'', tc_name = ''look'', tc_arguments = Streaming ''{}'', tc_extensions = []\<rparr>,
        BToolCall \<lparr>tc_id = ''b'', tc_name = ''look'', tc_arguments = Streaming ''{}'', tc_extensions = []\<rparr>],
      message_user [text_content_block ''Here:'',
        BToolResult \<lparr>tr_tool_call_id = ''a'', tr_content = JString ''cat'', tr_is_error = False, tr_extensions = []\<rparr>,
        BToolResult \<lparr>tr_tool_call_id = ''b'', tr_content = JNull, tr_is_error = False, tr_extensions = []\<rparr>,
        text_content_block ''Well?'']]"

lemma demo_tool_turns_answers: "answers_follow [] demo_tool_turns"
  by (simp add: demo_tool_turns_def message_user_def message_assistant_def text_content_block_def result_ids_def call_ids_def
      List.map_filter_simps)

theorem tool_replies_follow_calls_witness:
  "\<exists>req. req_messages req = demo_tool_turns \<and> replies_follow [] (cb_messages (chat_build demo_wire req demo_target False))
    \<and> reply_ids (cb_messages (chat_build demo_wire req demo_target False)) = [Some ''a'', Some ''b'']"
proof -
  obtain req :: CanonicalRequest where req: "req_messages req = demo_tool_turns"
    by (metis CanonicalRequest.select_convs(5))
  then show ?thesis
    using tool_replies_follow_calls [of req demo_wire demo_target False] demo_tool_turns_answers
    by (auto simp: demo_tool_turns_def message_user_def message_assistant_def text_content_block_def result_ids_def
        List.map_filter_simps)
qed

text \<open>What does not survive: the parts of a tool reply after the first, arguments that are not JSON (they arrive as
  a quoted JSON string), and the images of an assistant turn that also calls tools.\<close>

lemma tool_reply_first_part:
  "im_role im = ''tool'' \<Longrightarrow> im_content im = Some (ContentParts (PartText t # rest)) \<Longrightarrow>
    mo_content (upstream_message env im) = Some (JString t)"
  by (simp add: upstream_message_def text_content_block_def)

lemma invalid_arguments_requoted:
  "we_from_str env (itf_arguments (itc_function tc)) = None \<Longrightarrow>
    fco_arguments (tco_function (call_out env tc)) = we_to_string env (JString (itf_arguments (itc_function tc)))"
  by (simp add: call_out_def)

lemma assistant_images_dropped:
  "im_role im = ''assistant'' \<Longrightarrow> im_tool_calls im \<noteq> [] \<Longrightarrow> im_content im = Some (ContentParts [PartImageUrl u]) \<Longrightarrow>
    mo_content (upstream_message env im) = None"
  by (simp add: upstream_message_def is_system_def build_text_content_value_def extract_text_content_def
      List.map_filter_simps split: option.splits)

end
