(* ===== verification/Chat_Dialects.thy ===== *)
theory Chat_Dialects
  imports Chat_Forward
begin

text \<open>
  The two providers that post-process the chat body: \<open>providers/src/deepseek/request.rs\<close> strips cache marks,
  \<open>providers/src/glm/request.rs\<close> also replaces the effort by GLM's binary \<open>thinking\<close> switch. The debug lines
  that report a strip are left out; its count is the second component of the result. A \<open>serde_json::Map\<close>
  with \<open>preserve_order\<close> removes a member by moving the last one into its place.
\<close>

section \<open>Changing a JSON object in place\<close>

definition map_remove :: "string \<Rightarrow> (string \<times> json) list \<Rightarrow> json option \<times> (string \<times> json) list" where
  "map_remove k kvs =
     (let before = takeWhile (\<lambda>kv. fst kv \<noteq> k) kvs in
      case dropWhile (\<lambda>kv. fst kv \<noteq> k) kvs of
        [] \<Rightarrow> (None, kvs)
      | kv # rest \<Rightarrow> (Some (snd kv), before @ (if rest = [] then [] else last rest # butlast rest)))"

definition map_insert :: "string \<Rightarrow> json \<Rightarrow> (string \<times> json) list \<Rightarrow> (string \<times> json) list" where
  "map_insert k v kvs = AList.update k v kvs"

section \<open>The passes\<close>

fun strip_object :: "json \<Rightarrow> json \<times> nat" where
  "strip_object (JObject kvs) =
     (case map_remove ''cache_control'' kvs of
        (Some _, kvs') \<Rightarrow> (JObject kvs', 1)
      | (None, _) \<Rightarrow> (JObject kvs, 0))"
| "strip_object v = (v, 0)"

definition strip_all :: "(json \<Rightarrow> json \<times> nat) \<Rightarrow> json list \<Rightarrow> json list \<times> nat" where
  "strip_all f vs = (map (fst \<circ> f) vs, sum_list (map (snd \<circ> f) vs))"

text \<open>\<open>if let Some(xs) = obj.get_mut(k).and_then(as_array_mut)\<close> with a loop over \<open>xs\<close>.\<close>

definition strip_member :: "(json \<Rightarrow> json \<times> nat) \<Rightarrow> string \<Rightarrow> json \<Rightarrow> json \<times> nat" where
  "strip_member f k v =
     (case v of
        JObject kvs \<Rightarrow>
          (case map_of kvs k of
             Some (JArray xs) \<Rightarrow> (JObject (AList.update k (JArray (fst (strip_all f xs))) kvs), snd (strip_all f xs))
           | _ \<Rightarrow> (v, 0))
      | _ \<Rightarrow> (v, 0))"

definition strip_message :: "json \<Rightarrow> json \<times> nat" where
  "strip_message msg =
     (let (msg', n) = strip_object msg; (msg'', k) = strip_member strip_object ''content'' msg' in (msg'', n + k))"

definition strip_cache_control :: "json \<Rightarrow> json \<times> nat" where
  "strip_cache_control body = strip_member strip_message ''messages'' body"

definition deepseek_build :: "WireEnv \<Rightarrow> CanonicalRequest \<Rightarrow> BackendTarget \<Rightarrow> bool \<Rightarrow> json" where
  "deepseek_build env req target accepts_xhigh = fst (strip_cache_control (chat_build_json env req target accepts_xhigh))"

definition glm_thinking :: "ReasoningEffort option \<Rightarrow> string" where
  "glm_thinking effort = (case effort of Some Minimal \<Rightarrow> ''disabled'' | Some _ \<Rightarrow> ''enabled'' | None \<Rightarrow> ''enabled'')"

definition glm_build :: "WireEnv \<Rightarrow> CanonicalRequest \<Rightarrow> BackendTarget \<Rightarrow> bool \<Rightarrow> ProviderError + json" where
  "glm_build env req target accepts_xhigh =
     (case chat_build_json env req target accepts_xhigh of
        JObject kvs \<Rightarrow>
          (let kvs1 = snd (map_remove ''reasoning_effort'' kvs);
               kvs2 = map_insert ''thinking'' (JObject [(''type'',
                 JString (glm_thinking (rp_reasoning_effort (req_resolved_policy req))))]) kvs1
           in Inr (fst (strip_cache_control (JObject kvs2))))
      | _ \<Rightarrow> Inl (PE_Encode ''GLM request body must be a JSON object''))"

section \<open>What the passes leave alone\<close>

lemma map_remove_absent: "map_of kvs k = None \<Longrightarrow> map_remove k kvs = (None, kvs)"
proof -
  assume "map_of kvs k = None"
  then have none: "dropWhile (\<lambda>kv. fst kv \<noteq> k) kvs = []" by (auto simp: map_of_eq_None_iff dropWhile_eq_Nil_conv)
  show ?thesis by (simp only: map_remove_def Let_def none list.case)
qed

lemma strip_object_clean: "jget v ''cache_control'' = None \<Longrightarrow> strip_object v = (v, 0)"
  by (cases v) (simp_all add: map_remove_absent)

lemma strip_all_clean: "(\<And>v. v \<in> set vs \<Longrightarrow> f v = (v, 0)) \<Longrightarrow> strip_all f vs = (vs, 0)"
  by (induction vs) (simp_all add: strip_all_def)

lemma update_same: "map_of kvs k = Some v \<Longrightarrow> AList.update k v kvs = kvs"
  by (induction kvs) (auto split: if_splits)

lemma strip_member_clean:
  assumes "\<And>xs v'. jget v k = Some (JArray xs) \<Longrightarrow> v' \<in> set xs \<Longrightarrow> f v' = (v', 0)"
  shows "strip_member f k v = (v, 0)"
proof (cases v)
  case (JObject kvs)
  then show ?thesis
    using assms strip_all_clean [of _ f] by (auto simp: strip_member_def update_same split: option.splits json.splits)
qed (simp_all add: strip_member_def)

lemma content_part_clean: "content_part env b = Some v \<Longrightarrow> jget v ''cache_control'' = None"
  by (cases b) (auto simp: image_part_def split: BinarySource.splits)

lemma build_content_clean:
  assumes "build_content_value env bs = Some (JArray xs)" "v \<in> set xs"
  shows "strip_object v = (v, 0)"
proof -
  have "xs = List.map_filter (content_part env) bs"
    using assms(1) by (auto simp: build_content_value_def Let_def split: if_splits)
  with assms(2) obtain b where "content_part env b = Some v" by (auto simp: List.map_filter_def)
  then show ?thesis by (intro strip_object_clean content_part_clean)
qed

text \<open>The content of a message is a string or a list of parts without marks.\<close>

definition clean_content :: "json option \<Rightarrow> bool" where
  "clean_content c = (case c of Some (JArray xs) \<Rightarrow> list_all (\<lambda>v. strip_object v = (v, 0)) xs | _ \<Rightarrow> True)"

lemma clean_build_content: "clean_content (build_content_value env bs)"
  using build_content_clean by (auto simp: clean_content_def list_all_iff split: option.splits json.splits)

lemma clean_text_content: "clean_content (build_text_content_value bs)"
  by (simp add: clean_content_def build_text_content_value_def Let_def)

lemma message_contents:
  "mo_content ` set (message_to_chat env msg) \<subseteq> {build_text_content_value (msg_content msg), build_content_value env (msg_content msg),
    build_content_value env (filter (\<lambda>b. tool_result_of b = None) (msg_content msg))} \<union> range (\<lambda>s. Some (JString s))"
proof (cases "List.map_filter tool_result_of (msg_content msg) = []")
  case True
  then show ?thesis
    by (cases "List.map_filter (tool_call_out env) (msg_content msg) = []") (simp_all add: message_to_chat_def Let_def)
next
  case False
  have replies: "mo_content ` set (map (tool_reply env msg) trs) \<subseteq> range (\<lambda>s. Some (JString s))" for trs
    by (auto simp: tool_reply_def)
  show ?thesis
  proof (cases "msg_role msg = ToolRole")
    case True
    with False replies show ?thesis by (simp add: message_to_chat_def Let_def) blast
  next
    case role: False
    show ?thesis
    proof (cases "build_content_value env (filter (\<lambda>b. tool_result_of b = None) (msg_content msg))")
      case None
      with False role replies show ?thesis by (simp add: message_to_chat_def Let_def) blast
    next
      case (Some v)
      with False role replies show ?thesis by (simp add: message_to_chat_def Let_def image_Un) blast
    qed
  qed
qed

lemma clean_messages:
  assumes "m \<in> set (cb_messages (chat_build env req target xh))"
  shows "clean_content (mo_content m)"
proof -
  consider s where "m = system_to_chat s" | msg where "m \<in> set (message_to_chat env msg)"
    using assms by (auto simp: chat_build_def Let_def)
  then show ?thesis
  proof cases
    case 1
    then show ?thesis by (simp add: system_to_chat_def clean_content_def)
  next
    case 2
    then have "mo_content m \<in> mo_content ` set (message_to_chat env msg)" by (rule imageI)
    with message_contents have "mo_content m \<in> {build_text_content_value (msg_content msg), build_content_value env (msg_content msg),
        build_content_value env (filter (\<lambda>b. tool_result_of b = None) (msg_content msg))} \<union> range (\<lambda>s. Some (JString s))"
      by (rule subsetD)
    moreover have "clean_content (Some (JString s))" for s by (simp add: clean_content_def)
    ultimately show ?thesis by (auto simp: clean_build_content clean_text_content)
  qed
qed

lemma msg_json_get:
  "jget (msg_json m) ''cache_control'' = None"
  "jget (msg_json m) ''content'' = mo_content m"
  by (simp_all add: msg_json_def map_of_opt_member map_of_opt_member_last del: map_of_append)

lemma strip_message_clean: "clean_content (mo_content m) \<Longrightarrow> strip_message (msg_json m) = (msg_json m, 0)"
  by (auto simp: strip_message_def strip_object_clean msg_json_get clean_content_def list_all_iff
      intro!: strip_member_clean)

lemma strip_chat_body:
  assumes "jget v ''messages'' = Some (JArray (map msg_json (cb_messages (chat_build env req target xh))))"
  shows "strip_cache_control v = (v, 0)"
  unfolding strip_cache_control_def
  by (rule strip_member_clean) (auto simp: assms intro!: strip_message_clean clean_messages)

section \<open>The bodies\<close>

lemma map_of_map_remove:
  "map_of (snd (map_remove k kvs)) k' = (if k' = k then None else map_of kvs k')" if "distinct (map fst kvs)"
proof (cases "dropWhile (\<lambda>kv. fst kv \<noteq> k) kvs")
  case Nil
  then have "map_of kvs k = None" by (auto simp: dropWhile_eq_Nil_conv map_of_eq_None_iff)
  then show ?thesis by (simp add: map_remove_absent)
next
  case (Cons kv rest)
  let ?before = "takeWhile (\<lambda>kv. fst kv \<noteq> k) kvs"
  have kvs: "kvs = ?before @ kv # rest" using Cons takeWhile_dropWhile_id [of _ kvs] by metis
  have "fst kv = k" using Cons by (metis (mono_tags, lifting) dropWhile_eq_Cons_conv)
  let ?tail = "if rest = [] then [] else last rest # butlast rest"
  have tail: "map_of ?tail = map_of rest"
  proof (cases rest rule: rev_cases)
    case (snoc ys y)
    have "distinct (map fst (ys @ [y]))" using that kvs snoc by (metis distinct_append list.simps(9) map_append distinct.simps(2))
    then show ?thesis using snoc by (cases y) (auto simp: map_add_comm dom_map_of_conv_image_fst map_add_upd)
  qed simp
  have out: "map_of (snd (map_remove k kvs)) = map_of (?before @ ?tail)" by (simp add: map_remove_def Cons)
  have d: "distinct (map fst (?before @ kv # rest))" using that kvs by metis
  then have fresh: "k \<notin> fst ` set ?before" "k \<notin> fst ` set rest" using \<open>fst kv = k\<close> by auto
  have before: "map_of ?before k = None" "map_of rest k = None" using fresh by (simp_all add: map_of_eq_None_iff)
  have "map_of (?before @ rest) k' = (if k' = k then None else map_of (?before @ kv # rest) k')"
    using \<open>fst kv = k\<close> before by (cases kv) (auto simp: map_add_def split: option.split)
  then show ?thesis unfolding out using tail kvs by (simp add: map_add_def)
qed

lemma strip_deepseek: "deepseek_build env req target xh = chat_build_json env req target xh"
  unfolding deepseek_build_def
  by (subst strip_chat_body [of _ env req target xh]) (simp_all add: chat_build_json_def chat_body_get)

definition chat_body_members :: "string list" where
  "chat_body_members = [''model'', ''messages'', ''max_tokens'', ''temperature'', ''top_p'', ''presence_penalty'', ''frequency_penalty'',
     ''stop'', ''seed'', ''response_format'', ''tools'', ''tool_choice'', ''stream'', ''stream_options'', ''reasoning_effort'']"

lemma subseq_opt_member: "subseq (map fst xs) ks \<Longrightarrow> subseq (map fst (opt_member k f o' @ xs)) (k # ks)"
  by (cases o') (simp_all add: list_emb_Cons)

lemma subseq_opt_member_last: "subseq (map fst (opt_member k f o')) [k]"
  by (cases o') simp_all

lemma subseq_nonempty_member: "subseq (map fst xs) ks \<Longrightarrow> subseq (map fst (nonempty_member k f l @ xs)) (k # ks)"
  by (simp add: nonempty_member_def list_emb_Cons)

lemma subseq_member: "subseq (map fst xs) ks \<Longrightarrow> subseq (map fst ([(k, v)] @ xs)) (k # ks)"
  by simp

lemma subseq_members2: "subseq (map fst xs) ks \<Longrightarrow> subseq (map fst ([(k, v), (k2, v2)] @ xs)) (k # k2 # ks)"
  by simp

lemma chat_body_keys:
  "\<exists>kvs. chat_body_json b = JObject kvs \<and> subseq (map fst kvs) chat_body_members"
  unfolding chat_body_json_def chat_body_members_def
  by (intro exI conjI, rule refl)
     (intro subseq_members2 subseq_opt_member subseq_nonempty_member subseq_member subseq_opt_member_last)

lemma distinct_subseq: "subseq xs ys \<Longrightarrow> distinct ys \<Longrightarrow> distinct xs"
  by (induction rule: list_emb.induct) (auto dest: list_emb_set)


end
