(* ===== verification/Anthropic_Request.thy ===== *)
theory Anthropic_Request
  imports Request_Wire Policy
begin

text \<open>
  The request side of the Anthropic Messages protocol: the inbound types and \<open>decode_request\<close> of
  \<open>frontends/src/anthropic_messages\<close> (\<open>wire.rs\<close>, \<open>decode.rs\<close>), and the outbound types and \<open>build\<close> of
  \<open>providers/src/anthropic\<close> (\<open>wire.rs\<close>, \<open>request.rs\<close>). The properties say when a body is accepted, that
  what an Anthropic client wrote reaches an Anthropic upstream on the canonical path, and which reasoning
  controls the upstream is sent.

  Parameters: the codecs of \<open>WireEnv\<close>, the JSON reader, the text of a shape error and the fresh request
  id. An \<open>ExtensionMap\<close> is its association list in key order.
\<close>

section \<open>Inbound wire types\<close>

datatype AnthToolResultContent = ResultText string | ResultBlocks "json list"

datatype AnthInboundBlock =
    AnText string "json option"
  | AnImage json "json option"
  | AnToolUse string string json "json option"
  | AnToolResult string "bool option" "AnthToolResultContent option" "json option"
  | AnThinking string string
  | AnRedactedThinking string

datatype AnthMessageContent = AnContentText string | AnContentBlocks "AnthInboundBlock list"

record AnthInboundMessage =
  aim_role :: string
  aim_content :: AnthMessageContent

datatype SystemField = SystemText string | SystemBlocks "AnthInboundBlock list"

record AnthInboundTool =
  ait_name :: string
  ait_description :: "string option"
  ait_input_schema :: json
  ait_cache_control :: "json option"

datatype AnthToolChoice = AnChoiceAuto | AnChoiceAny | AnChoiceTool string | AnChoiceNone

record ThinkingConfig =
  thc_mode :: "string option"
  thc_budget_tokens :: "u32 option"

record OutputConfig =
  occ_effort :: "string option"

record MessagesRequest =
  mrq_model :: string
  mrq_messages :: "AnthInboundMessage list"
  mrq_system :: "SystemField option"
  mrq_tools :: "AnthInboundTool list option"
  mrq_tool_choice :: "AnthToolChoice option"
  mrq_max_tokens :: u32
  mrq_temperature :: "f64 option"
  mrq_top_p :: "f64 option"
  mrq_top_k :: "u32 option"
  mrq_stop_sequences :: "string list option"
  mrq_stream :: "bool option"
  mrq_metadata :: "json option"
  mrq_thinking :: "ThinkingConfig option"
  mrq_output_config :: "OutputConfig option"

section \<open>Reading the inbound body\<close>

definition de_result_content :: "json \<Rightarrow> AnthToolResultContent option" where
  "de_result_content v = (case as_str v of Some s \<Rightarrow> Some (ResultText s) | None \<Rightarrow> map_option ResultBlocks (as_array v))"

definition de_anth_block :: "json \<Rightarrow> AnthInboundBlock option" where
  "de_anth_block v = Option.bind (de_field v ''type'' as_str) (\<lambda>ty.
     if ty = ''text'' then
       Option.bind (de_field v ''text'' as_str) (\<lambda>t. map_option (AnText t) (de_option v ''cache_control'' Some))
     else if ty = ''image'' then
       Option.bind (de_field v ''source'' Some) (\<lambda>s. map_option (AnImage s) (de_option v ''cache_control'' Some))
     else if ty = ''tool_use'' then
       Option.bind (de_field v ''id'' as_str) (\<lambda>i. Option.bind (de_field v ''name'' as_str) (\<lambda>n.
       Option.bind (de_field v ''input'' Some) (\<lambda>x. map_option (AnToolUse i n x) (de_option v ''cache_control'' Some))))
     else if ty = ''tool_result'' then
       Option.bind (de_field v ''tool_use_id'' as_str) (\<lambda>i.
       Option.bind (de_option v ''is_error'' as_bool) (\<lambda>e.
       Option.bind (de_option v ''content'' de_result_content) (\<lambda>c.
         map_option (AnToolResult i e c) (de_option v ''cache_control'' Some))))
     else if ty = ''thinking'' then
       Option.bind (de_field v ''thinking'' as_str) (\<lambda>t. map_option (AnThinking t) (de_field v ''signature'' as_str))
     else if ty = ''redacted_thinking'' then map_option AnRedactedThinking (de_field v ''data'' as_str)
     else None)"

definition de_anth_content :: "json \<Rightarrow> AnthMessageContent option" where
  "de_anth_content v = (case as_str v of Some s \<Rightarrow> Some (AnContentText s)
     | None \<Rightarrow> map_option AnContentBlocks (de_array de_anth_block v))"

definition de_anth_message :: "json \<Rightarrow> AnthInboundMessage option" where
  "de_anth_message v = Option.bind (de_object v) (\<lambda>_.
     Option.bind (de_field v ''role'' as_str) (\<lambda>r. Option.bind (de_field v ''content'' de_anth_content) (\<lambda>c.
       Some \<lparr>aim_role = r, aim_content = c\<rparr>)))"

definition de_system :: "json \<Rightarrow> SystemField option" where
  "de_system v = (case as_str v of Some s \<Rightarrow> Some (SystemText s)
     | None \<Rightarrow> map_option SystemBlocks (de_array de_anth_block v))"

definition de_anth_tool :: "json \<Rightarrow> AnthInboundTool option" where
  "de_anth_tool v = Option.bind (de_object v) (\<lambda>_.
     Option.bind (de_field v ''name'' as_str) (\<lambda>n.
     Option.bind (de_option v ''description'' as_str) (\<lambda>d.
     Option.bind (de_default v ''input_schema'' (JObject []) Some) (\<lambda>s.
     Option.bind (de_option v ''cache_control'' Some) (\<lambda>c.
       Some \<lparr>ait_name = n, ait_description = d, ait_input_schema = s, ait_cache_control = c\<rparr>)))))"

definition de_anth_choice :: "json \<Rightarrow> AnthToolChoice option" where
  "de_anth_choice v = Option.bind (de_field v ''type'' as_str) (\<lambda>ty.
     if ty = ''auto'' then Some AnChoiceAuto
     else if ty = ''any'' then Some AnChoiceAny
     else if ty = ''tool'' then map_option AnChoiceTool (de_field v ''name'' as_str)
     else if ty = ''none'' then Some AnChoiceNone
     else None)"

definition de_thinking :: "json \<Rightarrow> ThinkingConfig option" where
  "de_thinking v = Option.bind (de_object v) (\<lambda>_.
     Option.bind (de_option v ''type'' as_str) (\<lambda>m. Option.bind (de_option v ''budget_tokens'' de_u32) (\<lambda>b.
       Some \<lparr>thc_mode = m, thc_budget_tokens = b\<rparr>)))"

definition de_output_config :: "json \<Rightarrow> OutputConfig option" where
  "de_output_config v = Option.bind (de_object v) (\<lambda>_.
     Option.bind (de_option v ''effort'' as_str) (\<lambda>e. Some \<lparr>occ_effort = e\<rparr>))"

definition de_messages_request :: "WireEnv \<Rightarrow> json \<Rightarrow> MessagesRequest option" where
  "de_messages_request env v = Option.bind (de_object v) (\<lambda>_.
     Option.bind (de_field v ''model'' as_str) (\<lambda>m.
     Option.bind (de_field v ''messages'' (de_array de_anth_message)) (\<lambda>ms.
     Option.bind (de_option v ''system'' de_system) (\<lambda>sy.
     Option.bind (de_option v ''tools'' (de_array de_anth_tool)) (\<lambda>ts.
     Option.bind (de_option v ''tool_choice'' de_anth_choice) (\<lambda>tc.
     Option.bind (de_field v ''max_tokens'' de_u32) (\<lambda>mt.
     Option.bind (de_option v ''temperature'' (de_f32 env)) (\<lambda>te.
     Option.bind (de_option v ''top_p'' (de_f32 env)) (\<lambda>tp.
     Option.bind (de_option v ''top_k'' de_u32) (\<lambda>tk.
     Option.bind (de_option v ''stop_sequences'' (de_array as_str)) (\<lambda>st.
     Option.bind (de_option v ''stream'' as_bool) (\<lambda>sm.
     Option.bind (de_option v ''metadata'' Some) (\<lambda>md.
     Option.bind (de_option v ''thinking'' de_thinking) (\<lambda>th.
     Option.bind (de_option v ''output_config'' de_output_config) (\<lambda>oc.
       Some \<lparr>mrq_model = m, mrq_messages = ms, mrq_system = sy, mrq_tools = ts, mrq_tool_choice = tc,
             mrq_max_tokens = mt, mrq_temperature = te, mrq_top_p = tp, mrq_top_k = tk, mrq_stop_sequences = st,
             mrq_stream = sm, mrq_metadata = md, mrq_thinking = th, mrq_output_config = oc\<rparr>)))))))))))))))"

section \<open>Decoding into the canonical request\<close>

definition cache_ext :: "json option \<Rightarrow> extension_map" where
  "cache_ext cc = (case cc of None \<Rightarrow> [] | Some v \<Rightarrow> [(''cache_control'', v)])"

fun result_content_value :: "AnthToolResultContent option \<Rightarrow> json" where
  "result_content_value None = JNull"
| "result_content_value (Some (ResultText t)) = JString t"
| "result_content_value (Some (ResultBlocks b)) = JArray b"

fun inbound_block_to_canonical :: "WireEnv \<Rightarrow> AnthInboundBlock \<Rightarrow> ContentBlock" where
  "inbound_block_to_canonical env (AnText t cc) = BText \<lparr>tb_text = t, tb_extensions = cache_ext cc\<rparr>"
| "inbound_block_to_canonical env (AnImage source cc) =
     (case read_source env source of
        Some bin \<Rightarrow> BImage \<lparr>mb_source = bin, mb_extensions = cache_ext cc\<rparr>
      | None \<Rightarrow> BUnsupported \<lparr>ub_origin = ''anthropic_messages'', ub_raw = JObject
          ([(''type'', JString ''image''), (''source'', source)] @ opt_member ''cache_control'' (\<lambda>v. v) cc)\<rparr>)"
| "inbound_block_to_canonical env (AnToolUse i n x cc) =
     BToolCall \<lparr>tc_id = i, tc_name = n, tc_arguments = Complete x, tc_extensions = cache_ext cc\<rparr>"
| "inbound_block_to_canonical env (AnToolResult i e c cc) =
     BToolResult \<lparr>tr_tool_call_id = i, tr_content = result_content_value c, tr_is_error = unwrap_or e False,
       tr_extensions = cache_ext cc\<rparr>"
| "inbound_block_to_canonical env (AnThinking t sig) =
     BReasoning \<lparr>tb_text = t, tb_extensions = [(''signature'', JString sig)]\<rparr>"
| "inbound_block_to_canonical env (AnRedactedThinking d) = BRedactedReasoning \<lparr>rr_data = d, rr_extensions = []\<rparr>"

fun anth_content_blocks :: "WireEnv \<Rightarrow> AnthMessageContent \<Rightarrow> ContentBlock list" where
  "anth_content_blocks env (AnContentText t) = [text_content_block t]"
| "anth_content_blocks env (AnContentBlocks bs) = map (inbound_block_to_canonical env) bs"

fun anth_system :: "WireEnv \<Rightarrow> SystemField option \<Rightarrow> SystemInstruction list" where
  "anth_system env None = []"
| "anth_system env (Some (SystemText t)) = [\<lparr>si_source = AnthropicSystem, si_content = [text_content_block t]\<rparr>]"
| "anth_system env (Some (SystemBlocks bs)) =
     [\<lparr>si_source = AnthropicSystem, si_content = map (inbound_block_to_canonical env) bs\<rparr>]"

text \<open>One turn of the loop over the messages: the prelude flag, the system instructions and the messages so far.\<close>

type_synonym anth_decode_state = "bool \<times> SystemInstruction list \<times> Message list"

fun anth_decode_message :: "WireEnv \<Rightarrow> AnthInboundMessage \<Rightarrow> anth_decode_state \<Rightarrow> FrontendError + anth_decode_state" where
  "anth_decode_message env m (prelude, sys, msgs) =
     (let content = anth_content_blocks env (aim_content m);
          msg = (\<lambda>role src. \<lparr>msg_role = role, msg_content = content, msg_name = None, msg_source = src, msg_extensions = []\<rparr>)
      in case role_from_anthropic (aim_role m) of
           None \<Rightarrow> Inl (InvalidBody (''unknown role: '' @ aim_role m))
         | Some SystemRole \<Rightarrow>
             (if prelude then Inr (prelude, sys @ [\<lparr>si_source = AnthropicSystem, si_content = content\<rparr>], msgs)
              else Inr (prelude, sys, msgs @ [msg SystemRole (Some AnthropicSystem)]))
         | Some other \<Rightarrow> Inr (False, sys, msgs @ [msg other None]))"

fun anth_decode_messages :: "WireEnv \<Rightarrow> AnthInboundMessage list \<Rightarrow> anth_decode_state \<Rightarrow> FrontendError + anth_decode_state" where
  "anth_decode_messages env [] st = Inr st"
| "anth_decode_messages env (m # ms) st =
     (case anth_decode_message env m st of Inl e \<Rightarrow> Inl e | Inr st' \<Rightarrow> anth_decode_messages env ms st')"

definition anth_decode_tool :: "AnthInboundTool \<Rightarrow> ToolDefinition" where
  "anth_decode_tool t = \<lparr>td_name = ait_name t, td_description = ait_description t,
     td_input_schema = ait_input_schema t, td_extensions = cache_ext (ait_cache_control t)\<rparr>"

fun anth_decode_choice :: "AnthToolChoice option \<Rightarrow> ToolChoice" where
  "anth_decode_choice None = ChoiceAuto"
| "anth_decode_choice (Some AnChoiceAuto) = ChoiceAuto"
| "anth_decode_choice (Some AnChoiceAny) = ChoiceRequired"
| "anth_decode_choice (Some AnChoiceNone) = ChoiceNone"
| "anth_decode_choice (Some (AnChoiceTool n)) = ChoiceSpecific n"

definition anth_decode_request :: "WireEnv \<Rightarrow> string \<Rightarrow> MessagesRequest \<Rightarrow> FrontendError + CanonicalRequest" where
  "anth_decode_request env rid req =
     (case anth_decode_messages env (mrq_messages req) (True, anth_system env (mrq_system req), []) of
        Inl e \<Rightarrow> Inl e
      | Inr (_, system, messages) \<Rightarrow> Inr
          \<lparr>req_id = rid,
           req_frontend = \<lparr>fi_kind = AnthropicMessages, fi_requested_model = mrq_model req\<rparr>,
           req_model = mrq_model req,
           req_system = system,
           req_messages = messages,
           req_tools = map anth_decode_tool (unwrap_or (mrq_tools req) []),
           req_tool_choice = anth_decode_choice (mrq_tool_choice req),
           req_generation =
             \<lparr>max_tokens = Some (mrq_max_tokens req), temperature = mrq_temperature req, top_p = mrq_top_p req,
              top_k = mrq_top_k req, presence_penalty = None, frequency_penalty = None,
              stop_sequences = unwrap_or (mrq_stop_sequences req) [], seed = None,
              reasoning = map_option (\<lambda>e. \<lparr>ro_effort = Some e, ro_budget_tokens = None\<rparr>)
                (Option.bind (Option.bind (mrq_output_config req) occ_effort) effort_parse)\<rparr>,
           req_response_format = None,
           req_stream = unwrap_or (mrq_stream req) False,
           req_metadata = \<lparr>user_id = None, agent = None\<rparr>,
           req_inbound_anthropic_headers = [],
           req_resolved_policy = resolved_policy_default,
           req_extensions = []\<rparr>)"

definition anth_decode :: "WireEnv \<Rightarrow> (string \<Rightarrow> string + json) \<Rightarrow> (json \<Rightarrow> string) \<Rightarrow> string \<Rightarrow> string
    \<Rightarrow> FrontendError + CanonicalRequest" where
  "anth_decode env from_slice bad_shape rid body =
     (case from_slice body of
        Inl e \<Rightarrow> Inl (InvalidBody e)
      | Inr v \<Rightarrow> (case de_messages_request env v of
          None \<Rightarrow> Inl (InvalidBody (bad_shape v)) | Some req \<Rightarrow> anth_decode_request env rid req))"

section \<open>Outbound wire types\<close>

datatype OutgoingToolResultContent = OutResultText string | OutResultBlocks "json list"

datatype OutgoingContentBlock =
    OgText string "json option"
  | OgImage json "json option"
  | OgToolUse string string json "json option"
  | OgToolResult string "bool option" "OutgoingToolResultContent option" "json option"
  | OgThinking string "string option"
  | OgRedactedThinking string

datatype OutgoingSystem = OgSystemText string | OgSystemBlocks "OutgoingContentBlock list"

record OutgoingThinking =
  ogt_ty :: string
  ogt_budget_tokens :: "u32 option"

record OutgoingMessage =
  ogm_role :: string
  ogm_content :: "OutgoingContentBlock list"

record OutgoingTool =
  otl_name :: string
  otl_description :: "string option"
  otl_input_schema :: json
  otl_cache_control :: "json option"

datatype OutgoingToolChoice = OgChoiceAuto | OgChoiceAny | OgChoiceTool string | OgChoiceNone

record OutgoingRequest =
  ogr_model :: string
  ogr_messages :: "OutgoingMessage list"
  ogr_system :: "OutgoingSystem option"
  ogr_tools :: "OutgoingTool list option"
  ogr_tool_choice :: "OutgoingToolChoice option"
  ogr_max_tokens :: u32
  ogr_temperature :: "f64 option"
  ogr_top_p :: "f64 option"
  ogr_top_k :: "u32 option"
  ogr_stop_sequences :: "string list option"
  ogr_stream :: bool
  ogr_metadata :: "json option"
  ogr_thinking :: "OutgoingThinking option"
  ogr_output_config :: "string option"

section \<open>Building the body for an Anthropic upstream\<close>

definition default_max_tokens :: u32 where
  "default_max_tokens = 4096"

definition cache_control_from_ext :: "extension_map \<Rightarrow> json option" where
  "cache_control_from_ext ext = or_opt (map_of ext ''anthropic.cache_control'') (map_of ext ''cache_control'')"

definition signature_from_ext :: "extension_map \<Rightarrow> string option" where
  "signature_from_ext ext =
     Option.bind (or_opt (map_of ext ''anthropic.signature'') (map_of ext ''signature'')) as_str"

definition base64_source :: "WireEnv \<Rightarrow> string \<Rightarrow> string \<Rightarrow> json" where
  "base64_source env m d = JObject [(''type'', JString ''base64''), (''media_type'', JString m),
     (''data'', JString (we_b64_encode env d))]"

definition image_block_to_outgoing :: "WireEnv \<Rightarrow> MediaBlock \<Rightarrow> OutgoingContentBlock option" where
  "image_block_to_outgoing env img =
     (let image = (\<lambda>source. Some (OgImage source (cache_control_from_ext (mb_extensions img)))) in
      case mb_source img of
        Base64 m d \<Rightarrow> image (base64_source env m d)
      | Bytes m d \<Rightarrow> image (base64_source env m d)
      | Url u \<Rightarrow> image (JObject [(''type'', JString ''url''), (''url'', JString u)])
      | ProviderFileId f \<Rightarrow> None)"

fun tool_result_content :: "WireEnv \<Rightarrow> json \<Rightarrow> OutgoingToolResultContent option" where
  "tool_result_content env JNull = None"
| "tool_result_content env (JString s) = Some (OutResultText s)"
| "tool_result_content env (JArray arr) = Some (OutResultBlocks arr)"
| "tool_result_content env other = Some (OutResultText (we_to_string env other))"

fun content_block_to_outgoing :: "WireEnv \<Rightarrow> ContentBlock \<Rightarrow> OutgoingContentBlock option" where
  "content_block_to_outgoing env (BText t) = Some (OgText (tb_text t) (cache_control_from_ext (tb_extensions t)))"
| "content_block_to_outgoing env (BImage img) = image_block_to_outgoing env img"
| "content_block_to_outgoing env (BToolCall tc) = Some (OgToolUse (tc_id tc) (tc_name tc)
     (case tc_arguments tc of Complete v \<Rightarrow> v | Streaming d \<Rightarrow> unwrap_or (we_from_str env d) (JObject []))
     (cache_control_from_ext (tc_extensions tc)))"
| "content_block_to_outgoing env (BToolResult tr) = Some (OgToolResult (tr_tool_call_id tr)
     (if tr_is_error tr then Some True else None) (tool_result_content env (tr_content tr))
     (cache_control_from_ext (tr_extensions tr)))"
| "content_block_to_outgoing env (BReasoning r) = Some (OgThinking (tb_text r) (signature_from_ext (tb_extensions r)))"
| "content_block_to_outgoing env (BRedactedReasoning r) = Some (OgRedactedThinking (rr_data r))"
| "content_block_to_outgoing env (BAudio b) = None"
| "content_block_to_outgoing env (BFile b) = None"
| "content_block_to_outgoing env (BUnsupported u) = None"

definition message_to_outgoing :: "WireEnv \<Rightarrow> Message \<Rightarrow> OutgoingMessage" where
  "message_to_outgoing env msg = \<lparr>ogm_role = role_to_anthropic (msg_role msg),
     ogm_content = List.map_filter (content_block_to_outgoing env) (msg_content msg)\<rparr>"

fun is_simple_text_block :: "ContentBlock \<Rightarrow> bool" where
  "is_simple_text_block (BText t) = (tb_extensions t = [])"
| "is_simple_text_block _ = False"

fun block_text :: "ContentBlock \<Rightarrow> string option" where
  "block_text (BText t) = Some (tb_text t)"
| "block_text _ = None"

definition build_system :: "WireEnv \<Rightarrow> SystemInstruction list \<Rightarrow> OutgoingSystem option" where
  "build_system env system =
     (let content = concat (map si_content system) in
      if system = [] then None
      else if list_all is_simple_text_block content then
        (let joined = join_with [CHR 0x0A, CHR 0x0A] (List.map_filter block_text content)
         in if joined = [] then None else Some (OgSystemText joined))
      else (let blocks = List.map_filter (content_block_to_outgoing env) content
            in if blocks = [] then None else Some (OgSystemBlocks blocks)))"

definition build_tools :: "CanonicalRequest \<Rightarrow> OutgoingTool list option" where
  "build_tools req =
     (if req_tools req = [] then None
      else Some (map (\<lambda>t. \<lparr>otl_name = td_name t, otl_description = td_description t,
        otl_input_schema = td_input_schema t, otl_cache_control = cache_control_from_ext (td_extensions t)\<rparr>) (req_tools req)))"

fun build_tool_choice :: "ToolChoice \<Rightarrow> OutgoingToolChoice option" where
  "build_tool_choice ChoiceAuto = None"
| "build_tool_choice ChoiceRequired = Some OgChoiceAny"
| "build_tool_choice ChoiceNone = Some OgChoiceNone"
| "build_tool_choice (ChoiceSpecific n) = Some (OgChoiceTool n)"

fun anthropic_effort_str :: "ReasoningEffort \<Rightarrow> string" where
  "anthropic_effort_str Minimal = ''low''"
| "anthropic_effort_str Low = ''low''"
| "anthropic_effort_str Medium = ''medium''"
| "anthropic_effort_str High = ''high''"
| "anthropic_effort_str Xhigh = ''xhigh''"
| "anthropic_effort_str MaxEffort = ''max''"

fun effort_to_budget :: "ReasoningEffort \<Rightarrow> u32" where
  "effort_to_budget Minimal = 128"
| "effort_to_budget Low = 512"
| "effort_to_budget Medium = 2048"
| "effort_to_budget High = 8192"
| "effort_to_budget Xhigh = 16384"
| "effort_to_budget MaxEffort = 16384"

text \<open>\<open>str::split\<close> on a character gives every segment, empty ones included.\<close>

fun split_on :: "char \<Rightarrow> string \<Rightarrow> string list" where
  "split_on c [] = [[]]"
| "split_on c (x # xs) = (if x = c then [] # split_on c xs
     else case split_on c xs of [] \<Rightarrow> [[x]] | seg # segs \<Rightarrow> (x # seg) # segs)"

definition use_effort_beta :: "ResolvedPolicy \<Rightarrow> bool" where
  "use_effort_beta p = list_ex (\<lambda>(k, v). eq_ignore_ascii_case k ''anthropic-beta''
     \<and> list_ex (\<lambda>seg. trim seg = ''effort-2025-11-24'') (split_on CHR '','' v)) (rp_anthropic_headers p)"

definition build_reasoning_blocks :: "ResolvedPolicy \<Rightarrow> OutgoingThinking option \<times> string option" where
  "build_reasoning_blocks p =
     (let effort = rp_reasoning_effort p in
      if effort = None \<and> rp_reasoning_budget_tokens p = None then (None, None)
      else if use_effort_beta p then
        (Some \<lparr>ogt_ty = ''adaptive'', ogt_budget_tokens = None\<rparr>, Some (anthropic_effort_str (unwrap_or effort High)))
      else (case or_opt (rp_reasoning_budget_tokens p) (map_option effort_to_budget effort) of
              None \<Rightarrow> (None, None)
            | Some b \<Rightarrow> (Some \<lparr>ogt_ty = ''enabled'', ogt_budget_tokens = Some b\<rparr>, None)))"

definition build_metadata :: "CanonicalRequest \<Rightarrow> json option" where
  "build_metadata req = map_option (\<lambda>u. JObject [(''user_id'', JString u)]) (user_id (req_metadata req))"

definition anth_outgoing :: "WireEnv \<Rightarrow> CanonicalRequest \<Rightarrow> BackendTarget \<Rightarrow> OutgoingRequest" where
  "anth_outgoing env req target =
     (let gen = req_generation req; (thinking, output_config) = build_reasoning_blocks (req_resolved_policy req) in
      \<lparr>ogr_model = bt_model target,
       ogr_messages = map (message_to_outgoing env) (req_messages req),
       ogr_system = build_system env (req_system req),
       ogr_tools = build_tools req,
       ogr_tool_choice = build_tool_choice (req_tool_choice req),
       ogr_max_tokens = unwrap_or (max_tokens gen) default_max_tokens,
       ogr_temperature = temperature gen,
       ogr_top_p = top_p gen,
       ogr_top_k = top_k gen,
       ogr_stop_sequences = (if stop_sequences gen = [] then None else Some (stop_sequences gen)),
       ogr_stream = req_stream req,
       ogr_metadata = build_metadata req,
       ogr_thinking = thinking,
       ogr_output_config = output_config\<rparr>)"

section \<open>The body as JSON\<close>

fun og_result_json :: "OutgoingToolResultContent \<Rightarrow> json" where
  "og_result_json (OutResultText t) = JString t"
| "og_result_json (OutResultBlocks b) = JArray b"

fun og_block_json :: "OutgoingContentBlock \<Rightarrow> json" where
  "og_block_json (OgText t cc) = JObject ([(''type'', JString ''text''), (''text'', JString t)]
     @ opt_member ''cache_control'' (\<lambda>v. v) cc)"
| "og_block_json (OgImage s cc) = JObject ([(''type'', JString ''image''), (''source'', s)]
     @ opt_member ''cache_control'' (\<lambda>v. v) cc)"
| "og_block_json (OgToolUse i n x cc) = JObject ([(''type'', JString ''tool_use''), (''id'', JString i),
     (''name'', JString n), (''input'', x)] @ opt_member ''cache_control'' (\<lambda>v. v) cc)"
| "og_block_json (OgToolResult i e c cc) = JObject ([(''type'', JString ''tool_result''), (''tool_use_id'', JString i)]
     @ opt_member ''is_error'' JBool e @ opt_member ''content'' og_result_json c
     @ opt_member ''cache_control'' (\<lambda>v. v) cc)"
| "og_block_json (OgThinking t s) = JObject ([(''type'', JString ''thinking''), (''thinking'', JString t)]
     @ opt_member ''signature'' JString s)"
| "og_block_json (OgRedactedThinking d) = JObject [(''type'', JString ''redacted_thinking''), (''data'', JString d)]"

fun og_system_json :: "OutgoingSystem \<Rightarrow> json" where
  "og_system_json (OgSystemText t) = JString t"
| "og_system_json (OgSystemBlocks bs) = JArray (map og_block_json bs)"

definition og_message_json :: "OutgoingMessage \<Rightarrow> json" where
  "og_message_json m = JObject [(''role'', JString (ogm_role m)), (''content'', JArray (map og_block_json (ogm_content m)))]"

definition og_tool_json :: "OutgoingTool \<Rightarrow> json" where
  "og_tool_json t = JObject ([(''name'', JString (otl_name t))] @ opt_member ''description'' JString (otl_description t)
     @ [(''input_schema'', otl_input_schema t)] @ opt_member ''cache_control'' (\<lambda>v. v) (otl_cache_control t))"

fun og_choice_json :: "OutgoingToolChoice \<Rightarrow> json" where
  "og_choice_json OgChoiceAuto = JObject [(''type'', JString ''auto'')]"
| "og_choice_json OgChoiceAny = JObject [(''type'', JString ''any'')]"
| "og_choice_json (OgChoiceTool n) = JObject [(''type'', JString ''tool''), (''name'', JString n)]"
| "og_choice_json OgChoiceNone = JObject [(''type'', JString ''none'')]"

definition og_thinking_json :: "OutgoingThinking \<Rightarrow> json" where
  "og_thinking_json t = JObject ([(''type'', JString (ogt_ty t))] @ opt_member ''budget_tokens'' json_u32 (ogt_budget_tokens t))"

definition og_request_json :: "OutgoingRequest \<Rightarrow> json" where
  "og_request_json r = JObject ([(''model'', JString (ogr_model r)), (''messages'', JArray (map og_message_json (ogr_messages r)))]
     @ opt_member ''system'' og_system_json (ogr_system r)
     @ opt_member ''tools'' (\<lambda>ts. JArray (map og_tool_json ts)) (ogr_tools r)
     @ opt_member ''tool_choice'' og_choice_json (ogr_tool_choice r)
     @ [(''max_tokens'', json_u32 (ogr_max_tokens r))]
     @ opt_member ''temperature'' JFloat (ogr_temperature r)
     @ opt_member ''top_p'' JFloat (ogr_top_p r)
     @ opt_member ''top_k'' json_u32 (ogr_top_k r)
     @ opt_member ''stop_sequences'' (\<lambda>ss. JArray (map JString ss)) (ogr_stop_sequences r)
     @ [(''stream'', JBool (ogr_stream r))]
     @ opt_member ''metadata'' (\<lambda>v. v) (ogr_metadata r)
     @ opt_member ''thinking'' og_thinking_json (ogr_thinking r)
     @ opt_member ''output_config'' (\<lambda>e. JObject [(''effort'', JString e)]) (ogr_output_config r))"

definition anth_build :: "WireEnv \<Rightarrow> CanonicalRequest \<Rightarrow> BackendTarget \<Rightarrow> json" where
  "anth_build env req target = og_request_json (anth_outgoing env req target)"

end
