(* ===== verification/Anthropic_Forward.thy ===== *)
theory Anthropic_Forward
  imports Anthropic_Request
begin

text \<open>
  What the two halves of the Anthropic request path promise together: which bodies are accepted, and that on
  the canonical path an Anthropic upstream reads the client's own blocks (texts with their cache marks, images,
  tool uses and results, signed thinking), tools and sampling parameters.
\<close>

section \<open>Decoding message by message\<close>

definition anth_is_system :: "AnthInboundMessage \<Rightarrow> bool" where
  "anth_is_system m \<longleftrightarrow> aim_role m = ''system''"

definition anth_bad_role :: "AnthInboundMessage \<Rightarrow> bool" where
  "anth_bad_role m \<longleftrightarrow> role_from_anthropic (aim_role m) = None"

definition anth_prelude_instruction :: "WireEnv \<Rightarrow> AnthInboundMessage \<Rightarrow> SystemInstruction" where
  "anth_prelude_instruction env m = \<lparr>si_source = AnthropicSystem, si_content = anth_content_blocks env (aim_content m)\<rparr>"

definition anth_canonical_message :: "WireEnv \<Rightarrow> AnthInboundMessage \<Rightarrow> Message" where
  "anth_canonical_message env m = \<lparr>msg_role = the (role_from_anthropic (aim_role m)),
     msg_content = anth_content_blocks env (aim_content m), msg_name = None,
     msg_source = (if anth_is_system m then Some AnthropicSystem else None), msg_extensions = []\<rparr>"

lemma anth_decode_message_bad:
  "anth_bad_role m \<Longrightarrow> anth_decode_message env m (prelude, sys, msgs) = Inl (InvalidBody (''unknown role: '' @ aim_role m))"
  by (simp add: anth_bad_role_def Let_def)

lemma anth_decode_message_good:
  assumes "\<not> anth_bad_role m"
  shows "anth_decode_message env m (prelude, sys, msgs) = Inr
    (if anth_is_system m \<and> prelude then (True, sys @ [anth_prelude_instruction env m], msgs)
     else (prelude \<and> anth_is_system m, sys, msgs @ [anth_canonical_message env m]))"
  using assms
  by (auto simp: anth_bad_role_def Let_def anth_is_system_def anth_prelude_instruction_def anth_canonical_message_def
      role_from_anthropic_def split: if_splits)

lemma anth_decode_after_prelude:
  "anth_decode_messages env ms (False, sys, msgs) =
     (case find anth_bad_role ms of
        Some m \<Rightarrow> Inl (InvalidBody (''unknown role: '' @ aim_role m))
      | None \<Rightarrow> Inr (False, sys, msgs @ map (anth_canonical_message env) ms))"
  by (induction ms arbitrary: msgs)
     (auto simp: anth_decode_message_bad anth_decode_message_good simp del: anth_decode_message.simps split: option.splits)

lemma anth_decode_prelude:
  "anth_decode_messages env ms (True, sys, []) =
     (case find anth_bad_role ms of
        Some m \<Rightarrow> Inl (InvalidBody (''unknown role: '' @ aim_role m))
      | None \<Rightarrow> Inr (list_all anth_is_system ms, sys @ map (anth_prelude_instruction env) (takeWhile anth_is_system ms),
          map (anth_canonical_message env) (dropWhile anth_is_system ms)))"
  by (induction ms arbitrary: sys)
     (auto simp: anth_decode_message_bad anth_decode_message_good anth_decode_after_prelude
        simp del: anth_decode_message.simps split: option.splits)

section \<open>Block by block\<close>

definition forwardable_source :: "WireEnv \<Rightarrow> json \<Rightarrow> bool" where
  "forwardable_source env s =
     (case read_source env s of Some (Url u) \<Rightarrow> source_value env (Url u) = Some s
      | Some (Base64 m d) \<Rightarrow> source_value env (Base64 m d) = Some s | _ \<Rightarrow> False)"

text \<open>Only an image can be lost: its source must be one the gateway recognises, written the way it writes it.\<close>

fun forwardable_block :: "WireEnv \<Rightarrow> AnthInboundBlock \<Rightarrow> bool" where
  "forwardable_block env (AnImage s cc) = forwardable_source env s"
| "forwardable_block env _ = True"

fun block_cache :: "AnthInboundBlock \<Rightarrow> json option" where
  "block_cache (AnText _ cc) = cc"
| "block_cache (AnImage _ cc) = cc"
| "block_cache (AnToolUse _ _ _ cc) = cc"
| "block_cache (AnToolResult _ _ _ cc) = cc"
| "block_cache _ = None"

text \<open>\<open>is_error: false\<close> is the default and is left out.\<close>

fun normal_block :: "AnthInboundBlock \<Rightarrow> AnthInboundBlock" where
  "normal_block (AnToolResult i e c cc) = AnToolResult i (if e = Some True then Some True else None) c cc"
| "normal_block b = b"

lemma cache_control_cache_ext [simp]: "cache_control_from_ext (cache_ext cc) = cc"
  by (cases cc) (simp_all add: cache_control_from_ext_def cache_ext_def)

lemma de_option_cache:
  assumes "map_of kvs ''cache_control'' = cc" "cc \<noteq> Some JNull"
  shows "de_option (JObject kvs) ''cache_control'' Some = Some cc"
  using assms by (cases cc) (auto simp: de_option_def elim: is_null.elims)

lemma tool_result_content_back:
  "tool_result_content env (result_content_value c) =
    map_option (\<lambda>x. case x of ResultText t \<Rightarrow> OutResultText t | ResultBlocks b \<Rightarrow> OutResultBlocks b) c"
  by (cases c rule: result_content_value.cases) simp_all

lemma block_read:
  assumes "forwardable_block env b" "block_cache b \<noteq> Some JNull"
  shows "\<exists>out. content_block_to_outgoing env (inbound_block_to_canonical env b) = Some out
    \<and> de_anth_block (og_block_json out) = Some (normal_block b)"
proof (cases b)
  case (AnText t cc)
  with assms show ?thesis
    by (simp add: de_anth_block_def de_field_def de_option_cache map_of_opt_member_last)
next
  case (AnImage s cc)
  then consider u where "read_source env s = Some (Url u)" "source_value env (Url u) = Some s"
    | m d where "read_source env s = Some (Base64 m d)" "source_value env (Base64 m d) = Some s"
    using assms(1) by (auto simp: forwardable_source_def split: option.splits BinarySource.splits)
  then show ?thesis
  proof cases
    case 1
    with AnImage assms(2) show ?thesis
      by (auto simp: image_block_to_outgoing_def Let_def de_anth_block_def de_field_def de_option_cache map_of_opt_member_last)
  next
    case 2
    with AnImage assms(2) show ?thesis
      by (auto simp: image_block_to_outgoing_def Let_def base64_source_def de_anth_block_def de_field_def de_option_cache
          map_of_opt_member_last)
  qed
next
  case (AnToolUse i n x cc)
  with assms show ?thesis
    by (simp add: de_anth_block_def de_field_def de_option_cache map_of_opt_member_last)
next
  case (AnToolResult i e c cc)
  let ?out = "OgToolResult i (if e = Some True then Some True else None) (map_option (\<lambda>x. case x of ResultText t \<Rightarrow> OutResultText t
    | ResultBlocks b \<Rightarrow> OutResultBlocks b) c) cc"
  note member = map_of_opt_member map_of_opt_member_last
  have err: "de_option (og_block_json ?out) ''is_error'' as_bool = Some (if e = Some True then Some True else None)"
    by (simp add: de_option_def member del: map_of_append)
  have content: "de_option (og_block_json ?out) ''content'' de_result_content = Some c"
    by (cases c rule: result_content_value.cases) (simp_all add: de_option_def member de_result_content_def del: map_of_append)
  have cache: "de_option (og_block_json ?out) ''cache_control'' Some = Some cc"
    using assms AnToolResult by (simp add: de_option_cache member del: map_of_append)
  have "content_block_to_outgoing env (inbound_block_to_canonical env b) = Some ?out"
    unfolding AnToolResult by (cases e) (auto simp: tool_result_content_back)
  moreover have "de_anth_block (og_block_json ?out) = Some (normal_block b)"
    unfolding de_anth_block_def err content cache AnToolResult by (simp add: de_field_def)
  ultimately show ?thesis by blast
next
  case (AnThinking t sig)
  then show ?thesis by (simp add: signature_from_ext_def de_anth_block_def de_field_def)
next
  case (AnRedactedThinking d)
  then show ?thesis by (simp add: de_anth_block_def de_field_def)
qed

lemma blocks_read:
  assumes "\<And>b. b \<in> set bs \<Longrightarrow> forwardable_block env b \<and> block_cache b \<noteq> Some JNull"
  shows "de_array de_anth_block (JArray (map og_block_json (List.map_filter (content_block_to_outgoing env)
      (map (inbound_block_to_canonical env) bs)))) = Some (map normal_block bs)
    \<and> length (List.map_filter (content_block_to_outgoing env) (map (inbound_block_to_canonical env) bs)) = length bs"
  using assms
proof (induction bs)
  case (Cons b bs)
  from Cons.prems have "forwardable_block env b" "block_cache b \<noteq> Some JNull" by auto
  from block_read [OF this] obtain out where
    "content_block_to_outgoing env (inbound_block_to_canonical env b) = Some out"
    "de_anth_block (og_block_json out) = Some (normal_block b)" by blast
  with Cons show ?case by (auto simp: List.map_filter_simps de_array_def)
qed (simp add: List.map_filter_simps de_array_def)


section \<open>Messages and the system prompt\<close>

fun content_list :: "AnthMessageContent \<Rightarrow> AnthInboundBlock list" where
  "content_list (AnContentText t) = [AnText t None]"
| "content_list (AnContentBlocks bs) = bs"

lemma anth_content_blocks_list: "anth_content_blocks env c = map (inbound_block_to_canonical env) (content_list c)"
  by (cases c) (simp_all add: text_content_block_def cache_ext_def)

fun system_list :: "SystemField option \<Rightarrow> AnthInboundBlock list" where
  "system_list None = []"
| "system_list (Some (SystemText t)) = [AnText t None]"
| "system_list (Some (SystemBlocks bs)) = bs"

lemma anth_system_list: "concat (map si_content (anth_system env s)) = map (inbound_block_to_canonical env) (system_list s)"
  by (cases s rule: system_list.cases) (simp_all add: text_content_block_def cache_ext_def)

text \<open>The blocks that become the session's system prompt: the \<open>system\<close> field's, then the leading system messages'.\<close>

definition session_blocks :: "MessagesRequest \<Rightarrow> AnthInboundBlock list" where
  "session_blocks r = system_list (mrq_system r)
     @ concat (map (content_list \<circ> aim_content) (takeWhile anth_is_system (mrq_messages r)))"

definition all_blocks :: "MessagesRequest \<Rightarrow> AnthInboundBlock list" where
  "all_blocks r = system_list (mrq_system r) @ concat (map (content_list \<circ> aim_content) (mrq_messages r))"

lemma session_blocks_all: "b \<in> set (session_blocks r) \<Longrightarrow> b \<in> set (all_blocks r)"
  by (auto simp: session_blocks_def all_blocks_def dest!: set_takeWhileD)

definition forwardable_request :: "WireEnv \<Rightarrow> MessagesRequest \<Rightarrow> bool" where
  "forwardable_request env r \<longleftrightarrow> find anth_bad_role (mrq_messages r) = None
     \<and> list_all (forwardable_block env) (all_blocks r)"

fun simple_text :: "AnthInboundBlock \<Rightarrow> string option" where
  "simple_text (AnText t None) = Some t"
| "simple_text _ = None"

text \<open>Plain texts are joined into one string; anything else is sent as the list of blocks.\<close>

definition forwarded_system :: "AnthInboundBlock list \<Rightarrow> SystemField option" where
  "forwarded_system bs =
     (case those (map simple_text bs) of
        Some ts \<Rightarrow> (let joined = join_with [CHR 0x0A, CHR 0x0A] ts in if joined = [] then None else Some (SystemText joined))
      | None \<Rightarrow> Some (SystemBlocks (map normal_block bs)))"

definition forwarded_message :: "AnthInboundMessage \<Rightarrow> AnthInboundMessage" where
  "forwarded_message m = m\<lparr>aim_content := AnContentBlocks (map normal_block (content_list (aim_content m)))\<rparr>"

definition forwarded_messages_request :: "MessagesRequest \<Rightarrow> string \<Rightarrow> ResolvedPolicy \<Rightarrow> MessagesRequest" where
  "forwarded_messages_request r model p =
     r\<lparr>mrq_model := model,
       mrq_messages := map forwarded_message (dropWhile anth_is_system (mrq_messages r)),
       mrq_system := forwarded_system (session_blocks r),
       mrq_tools := (if unwrap_or (mrq_tools r) [] = [] then None else mrq_tools r),
       mrq_tool_choice := (if mrq_tool_choice r = Some AnChoiceAuto then None else mrq_tool_choice r),
       mrq_stop_sequences := (if unwrap_or (mrq_stop_sequences r) [] = [] then None else mrq_stop_sequences r),
       mrq_stream := Some (unwrap_or (mrq_stream r) False),
       mrq_metadata := None,
       mrq_thinking := map_option (\<lambda>t. \<lparr>thc_mode = Some (ogt_ty t), thc_budget_tokens = ogt_budget_tokens t\<rparr>)
         (fst (build_reasoning_blocks p)),
       mrq_output_config := map_option (\<lambda>e. \<lparr>occ_effort = Some e\<rparr>) (snd (build_reasoning_blocks p))\<rparr>"

lemma simple_block:
  "is_simple_text_block (inbound_block_to_canonical env b) \<longleftrightarrow> simple_text b \<noteq> None"
  "simple_text b = Some t \<Longrightarrow> block_text (inbound_block_to_canonical env b) = Some t"
  by (cases b rule: simple_text.cases; auto simp: cache_ext_def split: option.splits)+

lemma simple_blocks:
  "list_all is_simple_text_block (map (inbound_block_to_canonical env) bs) \<longleftrightarrow> those (map simple_text bs) \<noteq> None"
  by (induction bs) (auto simp: simple_block split: option.splits)

lemma simple_texts:
  "those (map simple_text bs) = Some ts \<Longrightarrow>
    List.map_filter block_text (map (inbound_block_to_canonical env) bs) = ts"
proof (induction bs arbitrary: ts)
  case (Cons b bs)
  then obtain t rest where "simple_text b = Some t" "those (map simple_text bs) = Some rest" "ts = t # rest"
    by (auto split: option.splits)
  with Cons.IH simple_block(2) show ?case by (simp add: List.map_filter_simps)
qed (simp add: List.map_filter_simps)

lemma system_read:
  assumes "concat (map si_content system) = map (inbound_block_to_canonical env) bs" "system = [] \<Longrightarrow> bs = []"
    and "\<And>b. b \<in> set bs \<Longrightarrow> forwardable_block env b \<and> block_cache b \<noteq> Some JNull"
  shows "case build_system env system of None \<Rightarrow> forwarded_system bs = None
    | Some out \<Rightarrow> \<not> is_null (og_system_json out) \<and> de_system (og_system_json out) = forwarded_system bs
        \<and> forwarded_system bs \<noteq> None"
proof (cases "those (map simple_text bs)")
  case (Some ts)
  then show ?thesis
    using assms(1,2) simple_blocks [of env bs] simple_texts [OF Some, of env]
    by (auto simp: build_system_def Let_def forwarded_system_def de_system_def)
next
  case None
  then have "bs \<noteq> []" "system \<noteq> []" using assms(2) by auto
  moreover have "\<not> list_all is_simple_text_block (concat (map si_content system))"
    using None simple_blocks [of env bs] assms(1) by simp
  ultimately show ?thesis
    using blocks_read [where bs = bs, OF assms(3)] None
    by (auto simp: build_system_def Let_def forwarded_system_def de_system_def assms(1))
qed

lemma role_back: "\<not> anth_bad_role m \<Longrightarrow> role_to_anthropic (the (role_from_anthropic (aim_role m))) = aim_role m"
  by (auto simp: anth_bad_role_def role_from_anthropic_def split: if_splits)

lemma message_read:
  assumes "\<not> anth_bad_role m"
    and "\<And>b. b \<in> set (content_list (aim_content m)) \<Longrightarrow> forwardable_block env b \<and> block_cache b \<noteq> Some JNull"
  shows "de_anth_message (og_message_json (message_to_outgoing env (anth_canonical_message env m))) = Some (forwarded_message m)"
  using blocks_read [where bs = "content_list (aim_content m)", OF assms(2)] role_back [OF assms(1)]
  by (simp add: de_anth_message_def og_message_json_def message_to_outgoing_def anth_canonical_message_def de_defs
      de_anth_content_def anth_content_blocks_list forwarded_message_def)

lemma anth_decode_request_fields:
  assumes "anth_decode_request env rid r = Inr c"
  shows "find anth_bad_role (mrq_messages r) = None"
    "req_system c = anth_system env (mrq_system r) @ map (anth_prelude_instruction env) (takeWhile anth_is_system (mrq_messages r))"
    "req_messages c = map (anth_canonical_message env) (dropWhile anth_is_system (mrq_messages r))"
    "req_tools c = map anth_decode_tool (unwrap_or (mrq_tools r) [])"
    "req_tool_choice c = anth_decode_choice (mrq_tool_choice r)"
    "max_tokens (req_generation c) = Some (mrq_max_tokens r)" "temperature (req_generation c) = mrq_temperature r"
    "top_p (req_generation c) = mrq_top_p r" "top_k (req_generation c) = mrq_top_k r"
    "stop_sequences (req_generation c) = unwrap_or (mrq_stop_sequences r) []"
    "req_stream c = unwrap_or (mrq_stream r) False" "user_id (req_metadata c) = None"
  using assms by (auto simp: anth_decode_request_def anth_decode_prelude split: option.splits sum.splits)

text \<open>
  An Anthropic request is rejected exactly when one of its messages has a role other than user, assistant or
  system, with a 400 naming the first such role; nothing else about the typed request can make decoding fail.
\<close>

theorem anth_decode_rejects:
  "anth_decode_request env rid r = Inl e \<longleftrightarrow>
    (\<exists>m. find anth_bad_role (mrq_messages r) = Some m \<and> e = InvalidBody (''unknown role: '' @ aim_role m))"
  by (auto simp: anth_decode_request_def anth_decode_prelude split: option.splits)

section \<open>The request as the upstream reads it\<close>

lemma de_option_Some_not_null: "de_option v k Some = Some c \<Longrightarrow> c \<noteq> Some JNull"
  by (auto simp: de_option_def split: option.splits if_splits)

lemma block_cache_wire: "de_anth_block v = Some b \<Longrightarrow> block_cache b \<noteq> Some JNull"
  by (auto simp: de_anth_block_def bind_eq_Some_conv dest: de_option_Some_not_null split: if_splits)

lemma content_cache_wire:
  assumes "de_anth_content v = Some c" "b \<in> set (content_list c)"
  shows "block_cache b \<noteq> Some JNull"
proof (cases "as_str v")
  case None
  with assms obtain bs where "c = AnContentBlocks bs" "de_array de_anth_block v = Some bs" by (auto simp: de_anth_content_def)
  with assms(2) show ?thesis by (auto dest!: de_array_D dest: block_cache_wire)
qed (use assms in \<open>auto simp: de_anth_content_def\<close>)

lemma system_cache_wire:
  assumes "de_option v k de_system = Some s" "b \<in> set (system_list s)"
  shows "block_cache b \<noteq> Some JNull"
proof (cases s)
  case (Some f)
  with assms(1) obtain x where x: "de_system x = Some f" by (auto dest: de_option_D)
  show ?thesis
  proof (cases "as_str x")
    case None
    with x obtain bs where "f = SystemBlocks bs" "de_array de_anth_block x = Some bs" by (auto simp: de_system_def)
    with assms(2) Some show ?thesis by (auto dest!: de_array_D dest: block_cache_wire)
  qed (use x Some assms(2) in \<open>auto simp: de_system_def\<close>)
qed (use assms(2) in simp)

lemma messages_request_wire:
  assumes "de_messages_request env v = Some r"
  shows "de_option v ''system'' de_system = Some (mrq_system r)"
    "de_field v ''messages'' (de_array de_anth_message) = Some (mrq_messages r)"
    "de_option v ''tools'' (de_array de_anth_tool) = Some (mrq_tools r)"
    "de_option v ''temperature'' (de_f32 env) = Some (mrq_temperature r)"
    "de_option v ''top_p'' (de_f32 env) = Some (mrq_top_p r)"
  using assms unfolding de_messages_request_def by (auto simp: bind_eq_Some_conv)

lemma all_blocks_wire:
  assumes "de_messages_request env v = Some r" "b \<in> set (all_blocks r)"
  shows "block_cache b \<noteq> Some JNull"
proof -
  consider "b \<in> set (system_list (mrq_system r))"
    | m where "m \<in> set (mrq_messages r)" "b \<in> set (content_list (aim_content m))"
    using assms(2) by (auto simp: all_blocks_def)
  then show ?thesis
  proof cases
    case 1
    then show ?thesis using system_cache_wire messages_request_wire(1) [OF assms(1)] by blast
  next
    case 2
    then obtain x where "de_anth_message x = Some m"
      using messages_request_wire(2) [OF assms(1)] by (auto dest!: de_field_D dest: de_array_D)
    then obtain y where "de_anth_content y = Some (aim_content m)"
      by (auto simp: de_anth_message_def bind_eq_Some_conv dest: de_field_D)
    with 2 show ?thesis using content_cache_wire by blast
  qed
qed

lemma tool_cache_wire:
  assumes "de_messages_request env v = Some r" "t \<in> set (unwrap_or (mrq_tools r) [])"
  shows "ait_cache_control t \<noteq> Some JNull"
proof -
  obtain ts where "mrq_tools r = Some ts" "t \<in> set ts" using assms(2) by (cases "mrq_tools r") auto
  then obtain x where "de_anth_tool x = Some t"
    using messages_request_wire(3) [OF assms(1)] by (auto dest!: de_option_D dest: de_array_D)
  then show ?thesis by (auto simp: de_anth_tool_def bind_eq_Some_conv dest: de_option_Some_not_null)
qed

lemma og_request_get:
  "jget (og_request_json r) ''model'' = Some (JString (ogr_model r))"
  "jget (og_request_json r) ''messages'' = Some (JArray (map og_message_json (ogr_messages r)))"
  "jget (og_request_json r) ''system'' = map_option og_system_json (ogr_system r)"
  "jget (og_request_json r) ''tools'' = map_option (\<lambda>ts. JArray (map og_tool_json ts)) (ogr_tools r)"
  "jget (og_request_json r) ''tool_choice'' = map_option og_choice_json (ogr_tool_choice r)"
  "jget (og_request_json r) ''max_tokens'' = Some (json_u32 (ogr_max_tokens r))"
  "jget (og_request_json r) ''temperature'' = map_option JFloat (ogr_temperature r)"
  "jget (og_request_json r) ''top_p'' = map_option JFloat (ogr_top_p r)"
  "jget (og_request_json r) ''top_k'' = map_option json_u32 (ogr_top_k r)"
  "jget (og_request_json r) ''stop_sequences'' = map_option (\<lambda>ss. JArray (map JString ss)) (ogr_stop_sequences r)"
  "jget (og_request_json r) ''stream'' = Some (JBool (ogr_stream r))"
  "jget (og_request_json r) ''metadata'' = ogr_metadata r"
  "jget (og_request_json r) ''thinking'' = map_option og_thinking_json (ogr_thinking r)"
  "jget (og_request_json r) ''output_config'' = map_option (\<lambda>e. JObject [(''effort'', JString e)]) (ogr_output_config r)"
  by (simp_all add: og_request_json_def map_of_opt_member map_of_opt_member_last del: map_of_append)

lemma anth_tool_read:
  assumes "ait_cache_control t \<noteq> Some JNull"
  shows "de_anth_tool (og_tool_json \<lparr>otl_name = td_name (anth_decode_tool t), otl_description = td_description (anth_decode_tool t),
    otl_input_schema = td_input_schema (anth_decode_tool t),
    otl_cache_control = cache_control_from_ext (td_extensions (anth_decode_tool t))\<rparr>) = Some t"
proof -
  let ?j = "og_tool_json \<lparr>otl_name = ait_name t, otl_description = ait_description t, otl_input_schema = ait_input_schema t,
    otl_cache_control = ait_cache_control t\<rparr>"
  note member = og_tool_json_def map_of_opt_member map_of_opt_member_last
  have "de_option ?j ''description'' as_str = Some (ait_description t)"
    by (subst de_option_get [where f = JString and g = "\<lambda>x. x" and o' = "ait_description t"]) (simp_all add: member del: map_of_append)
  moreover have "de_option ?j ''cache_control'' Some = Some (ait_cache_control t)"
    using assms by (simp add: og_tool_json_def) (subst de_option_cache, simp_all add: map_of_opt_member map_of_opt_member_last del: map_of_append)
  moreover have "de_default ?j ''input_schema'' (JObject []) Some = Some (ait_input_schema t)" "de_field ?j ''name'' as_str = Some (ait_name t)"
    by (simp_all add: de_default_def de_field_def member del: map_of_append)
  ultimately show ?thesis
    by (simp add: de_anth_tool_def anth_decode_tool_def) (simp add: og_tool_json_def de_object_def)
qed

lemma thinking_read: "de_thinking (og_thinking_json t) = Some \<lparr>thc_mode = Some (ogt_ty t), thc_budget_tokens = ogt_budget_tokens t\<rparr>"
  by (cases "ogt_budget_tokens t") (simp_all add: de_thinking_def og_thinking_json_def de_defs)

lemma anth_choice_read:
  "de_option v ''tool_choice'' de_anth_choice = Some (if c = Some AnChoiceAuto then None else c)"
  if "jget v ''tool_choice'' = map_option og_choice_json (build_tool_choice (anth_decode_choice c))"
  using that by (cases c rule: anth_decode_choice.cases) (simp_all add: de_option_def de_anth_choice_def de_field_def)

lemma forwardable_request_blocks:
  assumes "forwardable_request env r" "de_messages_request env v = Some r" "b \<in> set (all_blocks r)"
  shows "forwardable_block env b \<and> block_cache b \<noteq> Some JNull"
  using assms all_blocks_wire by (auto simp: forwardable_request_def list_all_iff)

lemma anth_messages_read:
  assumes "anth_decode_request env rid r = Inr c" "forwardable_request env r" "de_messages_request env v = Some r"
  shows "de_array de_anth_message (JArray (map og_message_json (map (message_to_outgoing env) (req_messages c))))
    = Some (map forwarded_message (dropWhile anth_is_system (mrq_messages r)))"
proof -
  note f = anth_decode_request_fields [OF assms(1)]
  have "de_anth_message (og_message_json (message_to_outgoing env (anth_canonical_message env m))) = Some (forwarded_message m)"
    if "m \<in> set (dropWhile anth_is_system (mrq_messages r))" for m
  proof (rule message_read)
    have m: "m \<in> set (mrq_messages r)" using that by (rule set_dropWhileD)
    then show "\<not> anth_bad_role m" using f(1) by (auto simp: find_None_iff)
    show "forwardable_block env b \<and> block_cache b \<noteq> Some JNull" if "b \<in> set (content_list (aim_content m))" for b
      using m that by (intro forwardable_request_blocks [OF assms(2,3)]) (auto simp: all_blocks_def)
  qed
  then show ?thesis unfolding f(3) map_map comp_def by (rule de_array_written)
qed

lemma anth_system_read:
  assumes "anth_decode_request env rid r = Inr c" "forwardable_request env r" "de_messages_request env v = Some r"
    and "jget j ''system'' = map_option og_system_json (build_system env (req_system c))"
  shows "de_option j ''system'' de_system = Some (forwarded_system (session_blocks r))"
proof -
  note f = anth_decode_request_fields [OF assms(1)]
  let ?pre = "takeWhile anth_is_system (mrq_messages r)"
  have "concat (map si_content (map (anth_prelude_instruction env) ?pre))
      = map (inbound_block_to_canonical env) (concat (map (content_list \<circ> aim_content) ?pre))"
    by (simp add: anth_prelude_instruction_def anth_content_blocks_list map_concat comp_def)
  then have content: "concat (map si_content (req_system c)) = map (inbound_block_to_canonical env) (session_blocks r)"
    by (simp add: f(2) session_blocks_def anth_system_list)
  moreover have "session_blocks r = []" if "req_system c = []" using content that by simp
  moreover have "forwardable_block env b \<and> block_cache b \<noteq> Some JNull" if "b \<in> set (session_blocks r)" for b
    using that by (intro forwardable_request_blocks [OF assms(2,3)] session_blocks_all)
  ultimately have "case build_system env (req_system c) of None \<Rightarrow> forwarded_system (session_blocks r) = None
    | Some out \<Rightarrow> \<not> is_null (og_system_json out) \<and> de_system (og_system_json out) = forwarded_system (session_blocks r)
        \<and> forwarded_system (session_blocks r) \<noteq> None"
    by (rule system_read)
  with assms(4) show ?thesis
    by (cases "build_system env (req_system c)") (auto simp: de_option_def)
qed

lemma anth_upstream_reads:
  assumes wire: "de_messages_request env v = Some r" and fw: "forwardable_request env r"
    and f32: "\<And>y. we_f32 env (we_f32 env y) = we_f32 env y"
    and dec: "anth_decode_request env rid r = Inr c"
  shows "de_messages_request env (anth_build env (c\<lparr>req_resolved_policy := p\<rparr>) target)
    = Some (forwarded_messages_request r (bt_model target) p)"
proof -
  let ?o = "anth_outgoing env (c\<lparr>req_resolved_policy := p\<rparr>) target"
  let ?j = "og_request_json ?o" and ?f = "forwarded_messages_request r (bt_model target) p"
  note f = anth_decode_request_fields [OF dec]
  note w = messages_request_wire [OF wire]
  have o: "ogr_model ?o = bt_model target" "ogr_messages ?o = map (message_to_outgoing env) (req_messages c)"
    "ogr_system ?o = build_system env (req_system c)" "ogr_tools ?o = build_tools (c\<lparr>req_resolved_policy := p\<rparr>)"
    "ogr_tool_choice ?o = build_tool_choice (anth_decode_choice (mrq_tool_choice r))" "ogr_max_tokens ?o = mrq_max_tokens r"
    "ogr_temperature ?o = mrq_temperature r" "ogr_top_p ?o = mrq_top_p r" "ogr_top_k ?o = mrq_top_k r"
    "ogr_stop_sequences ?o = (if unwrap_or (mrq_stop_sequences r) [] = [] then None else Some (unwrap_or (mrq_stop_sequences r) []))"
    "ogr_stream ?o = unwrap_or (mrq_stream r) False" "ogr_metadata ?o = None"
    "ogr_thinking ?o = fst (build_reasoning_blocks p)" "ogr_output_config ?o = snd (build_reasoning_blocks p)"
    by (simp_all add: anth_outgoing_def Let_def f build_metadata_def split: prod.split)
  have "de_object ?j = Some ?j" by (simp add: og_request_json_def de_object_def)
  moreover have "de_field ?j ''model'' as_str = Some (mrq_model ?f)"
    by (simp add: de_field_def og_request_get o forwarded_messages_request_def)
  moreover have "de_field ?j ''messages'' (de_array de_anth_message) = Some (mrq_messages ?f)"
    unfolding de_field_def og_request_get o Option.bind.simps anth_messages_read [OF dec fw wire]
    by (simp add: forwarded_messages_request_def)
  moreover have "de_option ?j ''system'' de_system = Some (mrq_system ?f)"
    by (subst anth_system_read [OF dec fw wire]) (simp_all add: og_request_get o forwarded_messages_request_def)
  moreover have "de_option ?j ''tools'' (de_array de_anth_tool) = Some (mrq_tools ?f)"
  proof -
    let ?out = "\<lambda>t. \<lparr>otl_name = td_name t, otl_description = td_description t,
        otl_input_schema = td_input_schema t, otl_cache_control = cache_control_from_ext (td_extensions t)\<rparr>"
    have "de_array de_anth_tool (JArray (map (\<lambda>t. og_tool_json (?out (anth_decode_tool t))) (unwrap_or (mrq_tools r) [])))
        = Some (unwrap_or (mrq_tools r) [])"
      by (rule de_array_read_back, rule anth_tool_read, rule tool_cache_wire [OF wire])
    then show ?thesis
      by (cases "mrq_tools r")
         (auto simp: de_option_def og_request_get o build_tools_def f forwarded_messages_request_def comp_def)
  qed
  moreover have "de_option ?j ''tool_choice'' de_anth_choice = Some (mrq_tool_choice ?f)"
    by (subst anth_choice_read [where c = "mrq_tool_choice r"]) (simp_all add: og_request_get o forwarded_messages_request_def)
  moreover have "de_field ?j ''max_tokens'' de_u32 = Some (mrq_max_tokens ?f)"
    by (simp add: de_field_def og_request_get o forwarded_messages_request_def)
  moreover have "de_option ?j ''temperature'' (de_f32 env) = Some (mrq_temperature ?f)"
    "de_option ?j ''top_p'' (de_f32 env) = Some (mrq_top_p ?f)"
    using de_option_f32 [OF w(4) f32] de_option_f32 [OF w(5) f32]
    by (auto intro!: de_option_f32_back simp: og_request_get o forwarded_messages_request_def)
  moreover have "de_option ?j ''top_k'' de_u32 = Some (mrq_top_k ?f)"
    by (subst de_option_get [where g = "\<lambda>x. x" and f = json_u32 and o' = "mrq_top_k r"])
       (simp_all add: og_request_get o forwarded_messages_request_def)
  moreover have "de_option ?j ''stop_sequences'' (de_array as_str) = Some (mrq_stop_sequences ?f)"
    by (cases "mrq_stop_sequences r") (auto simp: de_option_def og_request_get o forwarded_messages_request_def de_array_read_back)
  moreover have "de_option ?j ''stream'' as_bool = Some (mrq_stream ?f)"
    by (simp add: de_option_def og_request_get o forwarded_messages_request_def)
  moreover have "de_option ?j ''metadata'' Some = Some (mrq_metadata ?f)"
    by (simp add: de_option_def og_request_get o forwarded_messages_request_def)
  moreover have "de_option ?j ''thinking'' de_thinking = Some (mrq_thinking ?f)"
    by (subst de_option_get [where f = og_thinking_json and o' = "fst (build_reasoning_blocks p)"
          and g = "\<lambda>t. \<lparr>thc_mode = Some (ogt_ty t), thc_budget_tokens = ogt_budget_tokens t\<rparr>"])
       (simp_all add: og_request_get o forwarded_messages_request_def thinking_read, simp add: og_thinking_json_def)
  moreover have "de_option ?j ''output_config'' de_output_config = Some (mrq_output_config ?f)"
    by (cases "snd (build_reasoning_blocks p)")
       (simp_all add: de_option_def og_request_get o forwarded_messages_request_def de_output_config_def de_defs)
  ultimately show ?thesis
    unfolding anth_build_def de_messages_request_def
    by (simp del: og_request_get)
qed

text \<open>
  C24. On the canonical path an Anthropic client's request reaches an Anthropic upstream intact: when the roles are
  known and the images are of the two source kinds the gateway writes, decoding succeeds, and the upstream reads
  the same conversation (every block with its cache mark, ids, error flag and thinking signature), the same tools
  with their marks, tool choice and sampling parameters. \<open>forwarded_messages_request\<close> says what changes: the
  model, the system prompt (leading system messages join it, plain texts become one string), the reasoning
  controls, which come from the policy, and \<open>metadata\<close>, which is lost.
\<close>

theorem anth_request_forwarded:
  assumes "de_messages_request env v = Some r" "forwardable_request env r"
    and "\<And>y. we_f32 env (we_f32 env y) = we_f32 env y"
  shows "\<exists>c. anth_decode_request env rid r = Inr c \<and>
    de_messages_request env (anth_build env (c\<lparr>req_resolved_policy := p\<rparr>) target)
      = Some (forwarded_messages_request r (bt_model target) p)"
proof -
  obtain c where "anth_decode_request env rid r = Inr c"
    using assms(2) by (auto simp: anth_decode_request_def anth_decode_prelude forwardable_request_def)
  with anth_upstream_reads [OF assms] show ?thesis by blast
qed

text \<open>A client's body with a cached system prompt, an image, signed thinking, a tool call and its failed result.\<close>

definition demo_codec :: WireEnv where
  "demo_codec = \<lparr>we_from_str = (\<lambda>s. None), we_to_string = (\<lambda>v. ''{}''), we_b64_decode = Some, we_b64_encode = (\<lambda>d. d),
     we_f32 = (\<lambda>x. of_int (round (1024 * x)) / 1024)\<rparr>"

definition demo_image_source :: json where
  "demo_image_source = JObject [(''type'', JString ''base64''), (''media_type'', JString ''image/png''), (''data'', JString ''iVBO'')]"

definition demo_messages_body :: json where
  "demo_messages_body = JObject [(''model'', JString ''claude''), (''max_tokens'', JPosInt 100), (''top_p'', JPosInt 1),
     (''system'', JArray [JObject [(''type'', JString ''text''), (''text'', JString ''Be brief.''),
        (''cache_control'', JObject [(''type'', JString ''ephemeral'')])]]),
     (''messages'', JArray
       [JObject [(''role'', JString ''user''), (''content'', JArray
          [JObject [(''type'', JString ''image''), (''source'', demo_image_source)]])],
        JObject [(''role'', JString ''assistant''), (''content'', JArray
          [JObject [(''type'', JString ''thinking''), (''thinking'', JString ''hm''), (''signature'', JString ''sig'')],
           JObject [(''type'', JString ''tool_use''), (''id'', JString ''t1''), (''name'', JString ''look''), (''input'', JObject [])]])],
        JObject [(''role'', JString ''user''), (''content'', JArray
          [JObject [(''type'', JString ''tool_result''), (''tool_use_id'', JString ''t1''), (''is_error'', JBool True),
            (''content'', JString ''no'')]])]])]"

definition demo_messages_request :: MessagesRequest where
  "demo_messages_request = \<lparr>mrq_model = ''claude'', mrq_messages =
     [\<lparr>aim_role = ''user'', aim_content = AnContentBlocks [AnImage demo_image_source None]\<rparr>,
      \<lparr>aim_role = ''assistant'', aim_content = AnContentBlocks [AnThinking ''hm'' ''sig'', AnToolUse ''t1'' ''look'' (JObject []) None]\<rparr>,
      \<lparr>aim_role = ''user'', aim_content = AnContentBlocks [AnToolResult ''t1'' (Some True) (Some (ResultText ''no'')) None]\<rparr>],
     mrq_system = Some (SystemBlocks [AnText ''Be brief.'' (Some (JObject [(''type'', JString ''ephemeral'')]))]),
     mrq_tools = None, mrq_tool_choice = None, mrq_max_tokens = 100, mrq_temperature = None, mrq_top_p = Some 1, mrq_top_k = None,
     mrq_stop_sequences = None, mrq_stream = None, mrq_metadata = None, mrq_thinking = None, mrq_output_config = None\<rparr>"

lemma demo_messages_read: "de_messages_request demo_codec demo_messages_body = Some demo_messages_request"
  by (simp add: demo_messages_body_def demo_messages_request_def demo_codec_def de_messages_request_def de_defs de_array_def
      de_system_def de_anth_message_def de_anth_content_def de_anth_block_def de_result_content_def de_f32_def de_u32_def as_u32_def)

lemma demo_messages_forwardable: "forwardable_request demo_codec demo_messages_request"
  by (simp add: forwardable_request_def demo_messages_request_def all_blocks_def anth_bad_role_def role_from_anthropic_def
      forwardable_source_def demo_image_source_def read_source_def de_field_def demo_codec_def)

definition demo_effort_policy :: ResolvedPolicy where
  "demo_effort_policy = resolved_policy_default\<lparr>rp_reasoning_effort := Some Medium\<rparr>"

definition demo_claude :: BackendTarget where
  "demo_claude = \<lparr>bt_provider = ''anthropic'', bt_model = ''claude-opus'', bt_policy = \<lparr>default_reasoning_effort = None,
     default_anthropic_beta = None, reasoning_mapping = []\<rparr>\<rparr>"

theorem anth_request_forwarded_witness:
  "\<exists>c. anth_decode_request demo_codec ''req_1'' demo_messages_request = Inr c \<and>
    de_messages_request demo_codec (anth_build demo_codec (c\<lparr>req_resolved_policy := demo_effort_policy\<rparr>) demo_claude)
      = Some (demo_messages_request\<lparr>mrq_model := ''claude-opus'', mrq_stream := Some False,
          mrq_thinking := Some \<lparr>thc_mode = Some ''enabled'', thc_budget_tokens = Some 2048\<rparr>\<rparr>)"
proof -
  have "we_f32 demo_codec (we_f32 demo_codec y) = we_f32 demo_codec y" for y by (simp add: demo_codec_def)
  from anth_request_forwarded [OF demo_messages_read demo_messages_forwardable this, of "''req_1''" demo_effort_policy demo_claude]
  show ?thesis
    by (simp add: demo_claude_def forwarded_messages_request_def demo_messages_request_def anth_is_system_def forwarded_message_def
        session_blocks_def forwarded_system_def demo_effort_policy_def resolved_policy_default_def build_reasoning_blocks_def use_effort_beta_def)
qed

text \<open>What does not survive: an image whose source the decoder does not know becomes an unsupported block, which the
  encoder skips; and the legacy thinking budget of an effort is not held below \<open>max_tokens\<close>, whose default is 4096.\<close>

lemma unknown_image_dropped:
  "read_source env s = None \<Longrightarrow> content_block_to_outgoing env (inbound_block_to_canonical env (AnImage s cc)) = None"
  by simp

lemma legacy_budget_above_default:
  "rp_reasoning_effort p = Some High \<Longrightarrow> rp_reasoning_budget_tokens p = None \<Longrightarrow> \<not> use_effort_beta p \<Longrightarrow>
    \<exists>b. build_reasoning_blocks p = (Some \<lparr>ogt_ty = ''enabled'', ogt_budget_tokens = Some b\<rparr>, None) \<and> default_max_tokens < b"
  by (simp add: build_reasoning_blocks_def default_max_tokens_def)

end
