(* ===== verification/Token_Count.thy ===== *)
theory Token_Count
  imports Anthropic_Forward
begin

text \<open>
  \<open>/v1/messages/count_tokens\<close>: the wire type \<open>count_tokens_wire.rs\<close>, the estimate \<open>count_tokens.rs\<close> and the handler
  \<open>gateway/src/handlers/anthropic_count_tokens.rs\<close>. The tokenizer \<open>count_text\<close> and the JSON writer are parameters;
  the log line is left out. All sums saturate at \<open>u32::MAX\<close>.
\<close>

section \<open>The wire type\<close>

record CountTokensRequest =
  ctr_model :: string
  ctr_messages :: "AnthInboundMessage list"
  ctr_system :: "SystemField option"
  ctr_tools :: "AnthInboundTool list option"
  ctr_tool_choice :: "AnthToolChoice option"
  ctr_max_tokens :: "u32 option"
  ctr_temperature :: "f64 option"
  ctr_top_p :: "f64 option"
  ctr_top_k :: "u32 option"
  ctr_stop_sequences :: "string list option"
  ctr_metadata :: "json option"
  ctr_thinking :: "ThinkingConfig option"

definition de_count_request :: "WireEnv \<Rightarrow> json \<Rightarrow> CountTokensRequest option" where
  "de_count_request env v = Option.bind (de_object v) (\<lambda>_.
     Option.bind (de_field v ''model'' as_str) (\<lambda>m.
     Option.bind (de_field v ''messages'' (de_array de_anth_message)) (\<lambda>ms.
     Option.bind (de_option v ''system'' de_system) (\<lambda>sy.
     Option.bind (de_option v ''tools'' (de_array de_anth_tool)) (\<lambda>ts.
     Option.bind (de_option v ''tool_choice'' de_anth_choice) (\<lambda>tc.
     Option.bind (de_option v ''max_tokens'' de_u32) (\<lambda>mt.
     Option.bind (de_option v ''temperature'' (de_f32 env)) (\<lambda>te.
     Option.bind (de_option v ''top_p'' (de_f32 env)) (\<lambda>tp.
     Option.bind (de_option v ''top_k'' de_u32) (\<lambda>tk.
     Option.bind (de_option v ''stop_sequences'' (de_array as_str)) (\<lambda>st.
     Option.bind (de_option v ''metadata'' Some) (\<lambda>md.
     Option.bind (de_option v ''thinking'' de_thinking) (\<lambda>th.
       Some \<lparr>ctr_model = m, ctr_messages = ms, ctr_system = sy, ctr_tools = ts, ctr_tool_choice = tc,
             ctr_max_tokens = mt, ctr_temperature = te, ctr_top_p = tp, ctr_top_k = tk, ctr_stop_sequences = st,
             ctr_metadata = md, ctr_thinking = th\<rparr>)))))))))))))"

definition into_messages_request :: "CountTokensRequest \<Rightarrow> MessagesRequest" where
  "into_messages_request c = \<lparr>mrq_model = ctr_model c, mrq_messages = ctr_messages c, mrq_system = ctr_system c,
     mrq_tools = ctr_tools c, mrq_tool_choice = ctr_tool_choice c, mrq_max_tokens = unwrap_or (ctr_max_tokens c) 0,
     mrq_temperature = ctr_temperature c, mrq_top_p = ctr_top_p c, mrq_top_k = ctr_top_k c,
     mrq_stop_sequences = ctr_stop_sequences c, mrq_stream = None, mrq_metadata = ctr_metadata c,
     mrq_thinking = ctr_thinking c, mrq_output_config = None\<rparr>"

section \<open>The estimate\<close>

record TokenEnv =
  te_count_text :: "string \<Rightarrow> u32"
  te_to_string :: "json \<Rightarrow> string"

definition sat_sum :: "u32 \<Rightarrow> u32 list \<Rightarrow> u32" where
  "sat_sum start xs = foldl saturating_add start xs"

fun count_block :: "TokenEnv \<Rightarrow> ContentBlock \<Rightarrow> u32" where
  "count_block te (BText b) = te_count_text te (tb_text b)"
| "count_block te (BToolCall b) = saturating_add (saturating_add (te_count_text te (tc_name b))
     (te_count_text te (case tc_arguments b of Complete v \<Rightarrow> te_to_string te v | Streaming d \<Rightarrow> d))) 8"
| "count_block te (BToolResult b) = saturating_add (te_count_text te (te_to_string te (tr_content b))) 6"
| "count_block te (BReasoning b) = saturating_add (te_count_text te (tb_text b)) 4"
| "count_block te (BRedactedReasoning b) = saturating_add (of_nat (length (rr_data b)) div 4) 4"
| "count_block te (BUnsupported u) = 200"
| "count_block te (BImage m) = 200"
| "count_block te (BAudio m) = 200"
| "count_block te (BFile m) = 200"

definition count_message :: "TokenEnv \<Rightarrow> Message \<Rightarrow> u32" where
  "count_message te msg = sat_sum 4 (map (count_block te) (msg_content msg))"

definition count_tool :: "TokenEnv \<Rightarrow> ToolDefinition \<Rightarrow> u32" where
  "count_tool te t = saturating_add (saturating_add (saturating_add (te_count_text te (td_name t))
     (te_count_text te (unwrap_or (td_description t) []))) (te_count_text te (te_to_string te (td_input_schema t)))) 10"

fun count_tool_choice :: "TokenEnv \<Rightarrow> ToolChoice \<Rightarrow> u32" where
  "count_tool_choice te ChoiceAuto = 0"
| "count_tool_choice te ChoiceNone = 6"
| "count_tool_choice te ChoiceRequired = 6"
| "count_tool_choice te (ChoiceSpecific n) = saturating_add (te_count_text te n) 6"

definition count_system :: "TokenEnv \<Rightarrow> u32 \<Rightarrow> SystemInstruction \<Rightarrow> u32" where
  "count_system te t0 sys = sat_sum (saturating_add t0 4) (map (count_block te) (si_content sys))"

definition count_tokens :: "TokenEnv \<Rightarrow> CanonicalRequest \<Rightarrow> u32" where
  "count_tokens te req =
     (let t1 = foldl (count_system te) 0 (req_system req);
          t2 = sat_sum t1 (map (count_message te) (req_messages req));
          t3 = sat_sum t2 (map (count_tool te) (req_tools req))
      in saturating_add t3 (count_tool_choice te (req_tool_choice req)))"

text \<open>The handler: the body \<open>{"input_tokens": n}\<close>, or the front-end error.\<close>

definition count_handle :: "WireEnv \<Rightarrow> TokenEnv \<Rightarrow> (string \<Rightarrow> string + json) \<Rightarrow> (json \<Rightarrow> string) \<Rightarrow> string \<Rightarrow> string
    \<Rightarrow> HandlerError + json" where
  "count_handle env te from_slice bad_shape rid body =
     (case from_slice body of
        Inl e \<Rightarrow> Inl (HE_Frontend (InvalidBody e))
      | Inr v \<Rightarrow>
          (case de_count_request env v of
             None \<Rightarrow> Inl (HE_Frontend (InvalidBody (bad_shape v)))
           | Some ct \<Rightarrow>
               (case anth_decode_request env rid (into_messages_request ct) of
                  Inl e \<Rightarrow> Inl (HE_Frontend e)
                | Inr canonical \<Rightarrow> Inr (JObject [(''input_tokens'', json_u32 (count_tokens te canonical))]))))"

section \<open>Saturating sums are capped exact sums\<close>

abbreviation u32_max :: nat where
  "u32_max \<equiv> 2 ^ 32 - 1"

lemma capped_add: "min (min (a :: nat) m + b) m = min (a + b) m" "min (a + min b m) m = min (a + b) m"
  by auto

lemma unat_le_u32_max: "unat (x :: u32) \<le> u32_max"
  using unsigned_less [of x, where ?'a = nat] by simp

lemma unat_sat_sum: "unat (sat_sum start xs) = min (unat start + sum_list (map unat xs)) u32_max"
proof (induction xs arbitrary: start)
  case Nil
  then show ?case using unat_le_u32_max [of start] by (simp add: sat_sum_def)
next
  case (Cons x xs)
  have "unat (sat_sum start (x # xs)) = min (min (unat start + unat x) u32_max + sum_list (map unat xs)) u32_max"
    using Cons.IH [of "saturating_add start x"] by (simp add: sat_sum_def unat_saturating_add)
  then show ?case unfolding capped_add(1) by (simp add: add.assoc)
qed

text \<open>The estimate without the cap.\<close>

fun exact_block :: "TokenEnv \<Rightarrow> ContentBlock \<Rightarrow> nat" where
  "exact_block te (BText b) = unat (te_count_text te (tb_text b))"
| "exact_block te (BToolCall b) = unat (te_count_text te (tc_name b))
     + unat (te_count_text te (case tc_arguments b of Complete v \<Rightarrow> te_to_string te v | Streaming d \<Rightarrow> d)) + 8"
| "exact_block te (BToolResult b) = unat (te_count_text te (te_to_string te (tr_content b))) + 6"
| "exact_block te (BReasoning b) = unat (te_count_text te (tb_text b)) + 4"
| "exact_block te (BRedactedReasoning b) = length (rr_data b) mod 2 ^ 32 div 4 + 4"
| "exact_block te _ = 200"

definition exact_blocks :: "TokenEnv \<Rightarrow> ContentBlock list \<Rightarrow> nat" where
  "exact_blocks te bs = 4 + sum_list (map (exact_block te) bs)"

definition exact_tool :: "TokenEnv \<Rightarrow> ToolDefinition \<Rightarrow> nat" where
  "exact_tool te t = unat (te_count_text te (td_name t)) + unat (te_count_text te (unwrap_or (td_description t) []))
     + unat (te_count_text te (te_to_string te (td_input_schema t))) + 10"

fun exact_choice :: "TokenEnv \<Rightarrow> ToolChoice \<Rightarrow> nat" where
  "exact_choice te ChoiceAuto = 0"
| "exact_choice te (ChoiceSpecific n) = unat (te_count_text te n) + 6"
| "exact_choice te _ = 6"

lemma unat_count_block: "unat (count_block te b) = min (exact_block te b) u32_max"
proof (cases b)
  case (BText t)
  then show ?thesis using unat_le_u32_max by simp
next
  case (BRedactedReasoning r)
  have "unat (of_nat (length (rr_data r)) div 4 :: u32) = length (rr_data r) mod 2 ^ 32 div 4"
    by (simp add: unat_div unat_of_nat)
  with BRedactedReasoning show ?thesis by (simp add: unat_saturating_add)
qed (auto simp: unat_saturating_add)

lemma sum_capped: "min (a + sum_list (map (\<lambda>x. min (f x) m) xs)) (m :: nat) = min (a + sum_list (map f xs)) m"
proof (induction xs arbitrary: a)
  case (Cons x xs)
  have "min (a + (min (f x) m + sum_list (map (\<lambda>x. min (f x) m) xs))) m = min ((a + min (f x) m) + sum_list (map f xs)) m"
    using Cons.IH [of "a + min (f x) m"] by (simp add: add.assoc)
  also have "\<dots> = min (a + f x + sum_list (map f xs)) m" by (auto simp: min_def)
  finally show ?case by (simp add: add.assoc)
qed simp

lemma unat_sat_sum_map:
  assumes "\<And>x. unat (g x) = min (f x) u32_max"
  shows "unat (sat_sum start (map g xs)) = min (unat start + sum_list (map f xs)) u32_max"
  unfolding unat_sat_sum map_map comp_def assms sum_capped ..

lemma unat_count_message: "unat (count_message te m) = min (exact_blocks te (msg_content m)) u32_max"
  unfolding count_message_def exact_blocks_def
  by (subst unat_sat_sum_map [OF unat_count_block]) simp

lemma unat_count_tool: "unat (count_tool te t) = min (exact_tool te t) u32_max"
  by (simp add: count_tool_def exact_tool_def unat_saturating_add)

lemma unat_count_choice: "unat (count_tool_choice te c) = min (exact_choice te c) u32_max"
  by (cases c) (simp_all add: unat_saturating_add)

lemma unat_count_systems:
  "unat (foldl (count_system te) start ss) = min (unat start + sum_list (map (exact_blocks te \<circ> si_content) ss)) u32_max"
proof (induction ss arbitrary: start)
  case Nil
  then show ?case using unat_le_u32_max [of start] by simp
next
  case (Cons s ss)
  have one: "unat (count_system te start s) = min (unat start + exact_blocks te (si_content s)) u32_max"
    unfolding count_system_def unat_sat_sum_map [OF unat_count_block] exact_blocks_def
    by (simp add: unat_saturating_add)
  show ?case
    using Cons.IH [of "count_system te start s"] unfolding one
    by (simp only: foldl_Cons capped_add list.map sum_list.Cons comp_apply add.assoc)
qed


text \<open>
  The count endpoint accepts every prompt the messages endpoint accepts, and counts the same: the model, the sampling
  parameters and the token limit do not matter.
\<close>

lemma count_request_same_prompt:
  assumes "anth_decode_request env rid r = Inr c"
    and "ctr_messages ct = mrq_messages r" "ctr_system ct = mrq_system r" "ctr_tools ct = mrq_tools r"
      "ctr_tool_choice ct = mrq_tool_choice r"
  shows "\<exists>c'. anth_decode_request env rid' (into_messages_request ct) = Inr c' \<and> count_tokens te c' = count_tokens te c"
  using assms
  by (auto simp: anth_decode_request_def into_messages_request_def count_tokens_def split: sum.splits)

end
