(* ===== verification/Interleaver.thy ===== *)
theory Interleaver
  imports Lifecycle
begin

text \<open>
  The reasoning interleaver of \<open>providers/src/oai_chat_wire/interleaved_reasoning.rs\<close>: it turns
  a sequence of text and reasoning deltas into bracketed content blocks. Block indices are
  \<open>u32\<close> and wrap; the lifecycle results assume fewer than \<open>2 ^ 32\<close> non-empty deltas.
\<close>

section \<open>The state machine\<close>

datatype DeltaKind = DText | DReasoning

datatype InterleaverState = Idle | InText u32 | InReasoning u32

record ReasoningInterleaver =
  il_state :: InterleaverState
  il_next_index :: u32

definition interleaver_new :: ReasoningInterleaver where
  "interleaver_new = \<lparr>il_state = Idle, il_next_index = 0\<rparr>"

definition open_new_block :: "DeltaKind \<Rightarrow> string \<Rightarrow> (ReasoningInterleaver, StreamEvent) emitter" where
  "open_new_block kind txt il =
     (let index = il_next_index il; il1 = il\<lparr>il_next_index := il_next_index il + 1\<rparr>
      in case kind of
           DText \<Rightarrow> (il1\<lparr>il_state := InText index\<rparr>,
                     [ContentBlockStart index KText, TextDelta index txt])
         | DReasoning \<Rightarrow> (il1\<lparr>il_state := InReasoning index\<rparr>,
                          [ContentBlockStart index KReasoning, ReasoningDelta index txt]))"

definition reopen_block :: "u32 \<Rightarrow> DeltaKind \<Rightarrow> string
    \<Rightarrow> (ReasoningInterleaver, StreamEvent) emitter" where
  "reopen_block index kind txt =
     emit_block [emit (\<lambda>_. [ContentBlockStop index]), modify (il_state_update (\<lambda>_. Idle)),
                 open_new_block kind txt]"

definition interleaver_push :: "DeltaKind \<Rightarrow> string \<Rightarrow> (ReasoningInterleaver, StreamEvent) emitter" where
  "interleaver_push kind txt il =
     (if txt = [] then (il, [])
      else case (il_state il, kind) of
        (InText index, DText) \<Rightarrow> (il, [TextDelta index txt])
      | (InReasoning index, DReasoning) \<Rightarrow> (il, [ReasoningDelta index txt])
      | (Idle, _) \<Rightarrow> open_new_block kind txt il
      | (InText index, DReasoning) \<Rightarrow> reopen_block index kind txt il
      | (InReasoning index, DText) \<Rightarrow> reopen_block index kind txt il)"

definition interleaver_flush :: "(ReasoningInterleaver, StreamEvent) emitter" where
  "interleaver_flush il =
     (case il_state il of
        Idle \<Rightarrow> (il, [])
      | InText index \<Rightarrow> (il\<lparr>il_state := Idle\<rparr>, [ContentBlockStop index])
      | InReasoning index \<Rightarrow> (il\<lparr>il_state := Idle\<rparr>, [ContentBlockStop index]))"

definition il_step :: "ReasoningInterleaver \<Rightarrow> DeltaKind \<times> string \<Rightarrow> ReasoningInterleaver \<times> StreamEvent list" where
  "il_step il d = interleaver_push (fst d) (snd d) il"

lemmas interleaver_defs = interleaver_push_def interleaver_flush_def open_new_block_def
  reopen_block_def

section \<open>Nothing is lost or reordered\<close>

fun delta_payload :: "DeltaKind \<times> string \<Rightarrow> payload" where
  "delta_payload (DText, t) = PText t"
| "delta_payload (DReasoning, t) = PReasoning t"

lemma push_content:
  "payload_of (snd (interleaver_push kind txt il)) =
     (if txt = [] then [] else [delta_payload (kind, txt)])"
  by (cases "il_state il"; cases kind) (simp_all add: interleaver_defs emitter_defs Let_def)

lemma flush_content: "payload_of (snd (interleaver_flush il)) = []"
  by (cases "il_state il") (simp_all add: interleaver_defs)

lemma interleaver_content:
  "payload_of (run_to_end il_step interleaver_flush il deltas) =
     map delta_payload (filter (\<lambda>d. snd d \<noteq> []) deltas)"
  by (induction deltas arbitrary: il) (simp_all add: il_step_def push_content flush_content)

section \<open>Every block is bracketed\<close>

fun il_open :: "InterleaverState \<Rightarrow> (u32 \<rightharpoonup> ContentBlockKind)" where
  "il_open Idle = Map.empty"
| "il_open (InText i) = [i \<mapsto> KText]"
| "il_open (InReasoning i) = [i \<mapsto> KReasoning]"

definition il_rel :: "ReasoningInterleaver \<Rightarrow> ValidatorState \<Rightarrow> bool" where
  "il_rel il v \<longleftrightarrow> open_envelope v \<and> map_of (open_blocks v) = il_open (il_state il)
     \<and> used_below v (il_next_index il)"

lemma flush_follows: "simulates il_rel (\<lambda>il v. il_rel il v \<and> il_state il = Idle) interleaver_flush"
proof (rule simulatesI)
  fix il v
  assume R: "il_rel il v"
  show "\<exists>v'. vrun v (snd (interleaver_flush il)) = Some v'
      \<and> il_rel (fst (interleaver_flush il)) v' \<and> il_state (fst (interleaver_flush il)) = Idle"
    using R by (cases "il_state il")
      (auto simp: interleaver_defs il_rel_def open_envelope_def validator_checks used_below_def
        split: if_splits)
qed

lemma open_new_block_follows:
  "Suc (unat (il_next_index il)) < 2 ^ 32 \<Longrightarrow> il_rel il v \<Longrightarrow> il_state il = Idle \<Longrightarrow>
     \<exists>v'. vrun v (snd (open_new_block kind txt il)) = Some v'
        \<and> il_rel (fst (open_new_block kind txt il)) v'"
  using used_below_fresh [of v "il_next_index il"]
  by (cases kind)
    (auto simp: open_new_block_def Let_def il_rel_def open_envelope_def validator_checks
      used_below_def unat_Suc_u32 less_Suc_eq)

lemma push_follows:
  assumes n: "Suc (unat (il_next_index il)) < 2 ^ 32" and R: "il_rel il v"
  shows "\<exists>v'. vrun v (snd (interleaver_push kind txt il)) = Some v'
     \<and> il_rel (fst (interleaver_push kind txt il)) v'"
proof -
  have reopen: "\<exists>v'. vrun v (snd (reopen_block i kind txt il)) = Some v'
      \<and> il_rel (fst (reopen_block i kind txt il)) v'"
    if i: "interleaver_flush il = (il\<lparr>il_state := Idle\<rparr>, [ContentBlockStop i])" for i
  proof -
    obtain v1 where v1: "vrun v [ContentBlockStop i] = Some v1" "il_rel (il\<lparr>il_state := Idle\<rparr>) v1"
      using simulatesD [OF flush_follows R] i by auto
    with n open_new_block_follows [of "il\<lparr>il_state := Idle\<rparr>" v1 kind "txt"] obtain v2
      where "vrun v1 (snd (open_new_block kind txt (il\<lparr>il_state := Idle\<rparr>))) = Some v2"
        "il_rel (fst (open_new_block kind txt (il\<lparr>il_state := Idle\<rparr>))) v2" by auto
    with v1 vrun_appendI [OF v1(1)] show ?thesis
      by (auto simp: reopen_block_def emitter_defs Let_def case_prod_unfold)
  qed
  show ?thesis
  proof (cases "il_state il")
    case Idle
    with n R open_new_block_follows [of il v] show ?thesis
      by (auto simp: interleaver_push_def)
  next
    case (InText i)
    with n R reopen [of i] show ?thesis
      by (cases kind) (auto simp: interleaver_push_def interleaver_flush_def il_rel_def
          open_envelope_def validator_checks)
  next
    case (InReasoning i)
    with n R reopen [of i] show ?thesis
      by (cases kind) (auto simp: interleaver_push_def interleaver_flush_def il_rel_def
          open_envelope_def validator_checks)
  qed
qed

lemma push_next_index:
  "unat (il_next_index (fst (interleaver_push kind txt il))) \<le> Suc (unat (il_next_index il))"
  by (cases "il_state il"; cases kind)
    (simp_all add: interleaver_defs emitter_defs Let_def unat_word_ariths mod_Suc_le_divisor
      mod_less_eq_dividend [THEN order_trans])

section \<open>The interleaver as a stream producer\<close>

definition il_close :: "StopReason \<Rightarrow> Usage option \<Rightarrow> (ReasoningInterleaver, StreamEvent) emitter" where
  "il_close r u = emit_block [interleaver_flush, emit (\<lambda>_. [MessageStop r None, ResponseStop u])]"

text \<open>The contract counts the non-empty deltas.\<close>

definition il_accept :: "nat \<Rightarrow> DeltaKind \<times> string \<Rightarrow> nat option" where
  "il_accept n d = (if snd d = [] then Some n else if Suc n < 2 ^ 32 then Some (Suc n) else None)"

lemma il_accepts_iff:
  "m < 2 ^ 32 \<Longrightarrow> accepts il_accept m ds \<longleftrightarrow> m + length (filter (\<lambda>d. snd d \<noteq> []) ds) < 2 ^ 32"
proof (induction ds arbitrary: m)
  case (Cons d ds)
  then show ?case by (cases "Suc m < 2 ^ 32") (auto simp: il_accept_def)
qed simp

interpretation il: lifecycle_producer il_step interleaver_new il_accept 0
  "\<lambda>n il v. il_rel il v \<and> unat (il_next_index il) \<le> n" envelope_opened "il_close r u" for r u
proof unfold_locales
  show "il_rel interleaver_new envelope_opened \<and> unat (il_next_index interleaver_new) \<le> 0"
    by (simp add: il_rel_def interleaver_new_def envelope_opened_def validator_init_def
        open_envelope_def used_below_def)
next
  fix n d n'
  assume acc: "il_accept n d = Some n'"
  show "simulates (\<lambda>il v. il_rel il v \<and> unat (il_next_index il) \<le> n)
      (\<lambda>il v. il_rel il v \<and> unat (il_next_index il) \<le> n') (\<lambda>il. il_step il d)"
  proof (rule simulatesI)
    fix il v
    assume R: "il_rel il v \<and> unat (il_next_index il) \<le> n"
    show "\<exists>v'. vrun v (snd (il_step il d)) = Some v' \<and> il_rel (fst (il_step il d)) v'
        \<and> unat (il_next_index (fst (il_step il d))) \<le> n'"
    proof (cases "snd d = []")
      case True
      with acc R show ?thesis by (simp add: il_step_def interleaver_push_def il_accept_def)
    next
      case False
      with acc R have "Suc (unat (il_next_index il)) < 2 ^ 32" "n' = Suc n"
        by (auto simp: il_accept_def split: if_splits)
      with R push_follows [of il v "fst d" "snd d"] push_next_index [of "fst d" "snd d" il]
      show ?thesis unfolding il_step_def by fastforce
    qed
  qed
next
  fix n il v
  assume "il_rel il v \<and> unat (il_next_index il) \<le> n"
  then obtain v1 where v1: "vrun v (snd (interleaver_flush il)) = Some v1"
      "open_envelope v1" "open_blocks v1 = []"
    using simulatesD [OF flush_follows, of il v] by (auto simp: il_rel_def)
  then show "validates v (snd (il_close r u il))"
    by (auto simp: il_close_def emitter_defs Let_def case_prod_unfold
        intro: validates_append validates_close_envelope)
qed

lemma run_to_end_close:
  "run_to_end il_step (il_close r u) il ds =
     run_to_end il_step interleaver_flush il ds @ [MessageStop r None, ResponseStop u]"
  by (induction ds arbitrary: il) (simp_all add: il_close_def emitter_defs Let_def case_prod_unfold)

text \<open>C21. For any sequence of text and reasoning deltas (fewer than \<open>2 ^ 32\<close> of them non-empty)
  the interleaver's output, wrapped in the message envelope, satisfies the canonical
  lifecycle, and its deltas are exactly the non-empty input deltas, in order and of the same
  kind.\<close>

theorem interleaver_lifecycle:
  assumes "length (filter (\<lambda>d. snd d \<noteq> []) ds) < 2 ^ 32"
  shows "assert_canonical_lifecycle (ResponseStart rid model t # MessageStart role #
       run_to_end il_step interleaver_flush interleaver_new ds
         @ [MessageStop r None, ResponseStop u]) = Inr ()
     \<and> payload_of (run_to_end il_step interleaver_flush interleaver_new ds)
       = map delta_payload (filter (\<lambda>d. snd d \<noteq> []) ds)"
proof
  have "accepts il_accept 0 ds" using assms il_accepts_iff [of 0 ds] by simp
  from il.produces_canonical [OF this] show "assert_canonical_lifecycle
      (ResponseStart rid model t # MessageStart role #
       run_to_end il_step interleaver_flush interleaver_new ds
         @ [MessageStop r None, ResponseStop u]) = Inr ()"
    by (intro envelope_assert) (simp add: run_to_end_close)
qed (rule interleaver_content)

theorem interleaver_lifecycle_witness:
  "run_to_end il_step interleaver_flush interleaver_new
     [(DReasoning, ''hm''), (DText, []), (DText, ''a''), (DText, ''b'')]
   = [ContentBlockStart 0 KReasoning, ReasoningDelta 0 ''hm'', ContentBlockStop 0,
      ContentBlockStart 1 KText, TextDelta 1 ''a'', TextDelta 1 ''b'', ContentBlockStop 1]
   \<and> assert_canonical_lifecycle (ResponseStart ''r'' ''m'' 0 # MessageStart Assistant #
       run_to_end il_step interleaver_flush interleaver_new
         [(DReasoning, ''hm''), (DText, []), (DText, ''a''), (DText, ''b'')]
         @ [MessageStop EndTurn None, ResponseStop None]) = Inr ()"
  using interleaver_lifecycle [of "[(DReasoning, ''hm''), (DText, []), (DText, ''a''), (DText, ''b'')]"]
  by (simp add: il_step_def interleaver_defs emitter_defs interleaver_new_def)

end
