(* ===== verification/Chat_Sse_Parser.thy ===== *)
theory Chat_Sse_Parser
  imports Lifecycle
begin

text \<open>
  The OpenAI chat-completions stream parser, \<open>providers/src/oai_chat_wire/chat_sse_parser.rs\<close>.

  Parameters: \<open>from_str\<close> is \<open>serde_json::from_str\<close> (left: the error's display text), \<open>order\<close> is
  the unspecified order in which draining a \<open>HashSet<u32>\<close> yields its elements. The input is the
  sequence of server-sent events that the \<open>eventsource_stream\<close> crate frames, or its transport
  errors with their display text. Counters wrap at their width.
\<close>

section \<open>State and statements\<close>

record ParserState =
  emitted_response_start :: bool
  emitted_message_start :: bool
  emitted_message_stop :: bool
  emitted_response_stop :: bool
  text_block_open :: bool
  open_tool_blocks :: "u32 list"
  response_id :: string
  response_model :: string
  stream_completed :: bool
  event_count :: u64
  total_data_bytes :: u64
  last_event_kind :: string
  last_finish_reason :: "string option"

definition parser_default :: ParserState where
  "parser_default = \<lparr>emitted_response_start = False, emitted_message_start = False,
     emitted_message_stop = False, emitted_response_stop = False, text_block_open = False,
     open_tool_blocks = [], response_id = [], response_model = [], stream_completed = False,
     event_count = 0, total_data_bytes = 0, last_event_kind = [], last_finish_reason = None\<rparr>"

type_synonym chat_emitter = "(ParserState, StreamEvent) emitter"

definition start_message :: chat_emitter where
  "start_message = emit_when (\<lambda>s. \<not> emitted_message_start s)
     (emit_update (emitted_message_start_update (\<lambda>_. True)) (\<lambda>_. [MessageStart Assistant]))"

definition close_text_block :: chat_emitter where
  "close_text_block = emit_when text_block_open
     (emit_update (text_block_open_update (\<lambda>_. False)) (\<lambda>_. [ContentBlockStop 0]))"

definition drain_tool_blocks :: "(u32 list \<Rightarrow> u32 list) \<Rightarrow> chat_emitter" where
  "drain_tool_blocks order = emit_update (open_tool_blocks_update (\<lambda>_. []))
     (\<lambda>s. tool_stops (order (open_tool_blocks s)))"

definition stop_message :: "StopReason \<Rightarrow> chat_emitter" where
  "stop_message reason = emit_when (\<lambda>s. \<not> emitted_message_stop s)
     (emit_update (emitted_message_stop_update (\<lambda>_. True)) (\<lambda>_. [MessageStop reason None]))"

section \<open>\<open>[DONE]\<close> and end of stream\<close>

definition handle_done :: "(u32 list \<Rightarrow> u32 list) \<Rightarrow> chat_emitter" where
  "handle_done order = emit_block
     [modify (last_event_kind_update (\<lambda>_. ''done'')),
      emit_when (\<lambda>s. \<not> emitted_response_start s)
        (emit_update (emitted_response_start_update (\<lambda>_. True))
           (\<lambda>s. [ResponseStart (response_id s) (response_model s) 0])),
      start_message,
      close_text_block,
      drain_tool_blocks order,
      stop_message EndTurn,
      emit_when (\<lambda>s. \<not> emitted_response_stop s)
        (emit_update (emitted_response_stop_update (\<lambda>_. True)) (\<lambda>_. [ResponseStop None])),
      modify (stream_completed_update (\<lambda>_. True))]"

definition finalize :: "(u32 list \<Rightarrow> u32 list) \<Rightarrow> chat_emitter" where
  "finalize order s =
     (if emitted_response_stop s then (s, [])
      else if \<not> emitted_response_start s then (s, [])
      else emit_block
        [start_message,
         close_text_block,
         drain_tool_blocks order,
         stop_message EndTurn,
         emit_update (emitted_response_stop_update (\<lambda>_. True)) (\<lambda>_. [ResponseStop None])] s)"

section \<open>Chunks\<close>

definition parse_usage :: "json \<Rightarrow> Usage option" where
  "parse_usage v = map_option (\<lambda>u. usage_default\<lparr>
       input_tokens := map_option as_u32 (get_u64 u ''prompt_tokens''),
       output_tokens := map_option as_u32 (get_u64 u ''completion_tokens''),
       cache_creation_input_tokens := map_option as_u32 (get_u64 u ''cache_creation_input_tokens''),
       cache_read_input_tokens := map_option as_u32
         (Option.bind
            (or_opt (jget u ''cache_read_input_tokens'')
               (Option.bind (jget u ''prompt_tokens_details'') (\<lambda>d. jget d ''cached_tokens'')))
            as_u64)\<rparr>) (jget v ''usage'')"

text \<open>\<open>tc.get("function").and_then(|f| f.get(k)).and_then(|a| a.as_str())\<close>\<close>

definition tool_function :: "json \<Rightarrow> string \<Rightarrow> string option" where
  "tool_function tc k = Option.bind (jget tc ''function'') (\<lambda>f. get_str f k)"

definition tool_index :: "json \<Rightarrow> u32" where
  "tool_index tc = as_u32 (unwrap_or (get_u64 tc ''index'') 0)"

definition handle_tool_call :: "json \<Rightarrow> chat_emitter" where
  "handle_tool_call tc =
     (let block_index = tool_index tc + 1
      in emit_block
        [emit_some (get_str tc ''id'') (\<lambda>id. emit_block
           [emit_when (\<lambda>s. block_index \<notin> set (open_tool_blocks s))
              (emit_update (\<lambda>s. s\<lparr>open_tool_blocks := open_tool_blocks s @ [block_index]\<rparr>)
                 (\<lambda>_. [ContentBlockStart block_index KToolCall])),
            emit (\<lambda>_. [ToolCallStart block_index id (unwrap_or (tool_function tc ''name'') [])])]),
         emit_some (tool_function tc ''arguments'') (\<lambda>args.
           emit_when (\<lambda>_. args \<noteq> []) (emit (\<lambda>_. [ToolCallArgumentsDelta block_index args])))])"

definition handle_role :: "json \<Rightarrow> chat_emitter" where
  "handle_role delta = emit_some (get_str delta ''role'') (\<lambda>_. start_message)"

definition handle_content :: "json \<Rightarrow> chat_emitter" where
  "handle_content delta = emit_some (get_str delta ''content'') (\<lambda>t.
     emit_when (\<lambda>_. t \<noteq> []) (emit_block
       [start_message,
        emit_when (\<lambda>s. \<not> text_block_open s)
          (emit_update (text_block_open_update (\<lambda>_. True)) (\<lambda>_. [ContentBlockStart 0 KText])),
        emit (\<lambda>_. [TextDelta 0 t])]))"

definition handle_tool_calls :: "json \<Rightarrow> chat_emitter" where
  "handle_tool_calls delta = emit_some (get_array delta ''tool_calls'') (\<lambda>tcs.
     emit_block [start_message, close_text_block, emit_for tcs handle_tool_call])"

definition handle_finish :: "(u32 list \<Rightarrow> u32 list) \<Rightarrow> json \<Rightarrow> chat_emitter" where
  "handle_finish order choice = emit_some (get_str choice ''finish_reason'') (\<lambda>reason.
     emit_when (\<lambda>_. reason \<noteq> []) (emit_block
       [modify (last_finish_reason_update (\<lambda>_. Some reason)),
        modify (last_event_kind_update (\<lambda>_. ''finish'')),
        close_text_block,
        drain_tool_blocks order,
        stop_message (stop_reason_from_provider_string reason),
        modify (stream_completed_update (\<lambda>_. True))]))"

definition handle_choice :: "(u32 list \<Rightarrow> u32 list) \<Rightarrow> json \<Rightarrow> chat_emitter" where
  "handle_choice order choice = emit_block
     [emit_some (jget choice ''delta'') (\<lambda>delta.
        emit_block [handle_role delta, handle_content delta, handle_tool_calls delta]),
      handle_finish order choice]"

definition start_response :: "json \<Rightarrow> chat_emitter" where
  "start_response v =
     (let id = unwrap_or (get_str v ''id'') ''unknown'';
          model = unwrap_or (get_str v ''model'') ''unknown'';
          created = unwrap_or (get_u64 v ''created'') 0
      in emit_when (\<lambda>s. \<not> emitted_response_start s)
           (emit_update (\<lambda>s. s\<lparr>emitted_response_start := True, response_id := id,
                               response_model := model\<rparr>)
              (\<lambda>_. [ResponseStart id model created])))"

definition error_message :: "json \<Rightarrow> string" where
  "error_message err = unwrap_or (get_str err ''message'') ''upstream error''"

definition non_null_usage :: "json \<Rightarrow> json option" where
  "non_null_usage v = Option.bind (jget v ''usage'') (\<lambda>u. if is_null u then None else Some u)"

definition handle_value :: "(u32 list \<Rightarrow> u32 list) \<Rightarrow> json \<Rightarrow> chat_emitter" where
  "handle_value order v =
     (case jget v ''error'' of
        Some err \<Rightarrow> emit_update (last_event_kind_update (\<lambda>_. ''upstream_error''))
                      (\<lambda>_. [ErrorEvent (error_message err)])
      | None \<Rightarrow> emit_block
          [modify (last_event_kind_update (\<lambda>_. ''delta'')),
           start_response v,
           (case get_array v ''choices'' of
              None \<Rightarrow> emit_some (parse_usage v) (\<lambda>usage. emit (\<lambda>_. [UsageDelta usage]))
            | Some choices \<Rightarrow> emit_block
                [emit_for choices (handle_choice order),
                 emit_some (Option.bind (non_null_usage v) (\<lambda>_. parse_usage v))
                   (\<lambda>usage. emit (\<lambda>_. [UsageDelta usage]))])])"

definition parse_chunk :: "(string \<Rightarrow> string + json) \<Rightarrow> (u32 list \<Rightarrow> u32 list) \<Rightarrow> string
    \<Rightarrow> ParserState \<Rightarrow> ParserState \<times> (string + StreamEvent list)" where
  "parse_chunk from_str order data s =
     (case from_str data of
        Inl e \<Rightarrow> (s, Inl (''json parse: '' @ e))
      | Inr v \<Rightarrow> (let (s', events) = handle_value order v s in (s', Inr events)))"

definition handle_event :: "(string \<Rightarrow> string + json) \<Rightarrow> (u32 list \<Rightarrow> u32 list) \<Rightarrow> string
    \<Rightarrow> (ParserState, stream_item) emitter" where
  "handle_event from_str order data s =
     (let s1 = s\<lparr>event_count := event_count s + 1,
                 total_data_bytes := total_data_bytes s + of_nat (length data)\<rparr>
      in if data = ''[DONE]''
         then let (s2, evts) = handle_done order s1 in (s2, map Inr evts)
         else case parse_chunk from_str order data s1 of
             (s2, Inr evts) \<Rightarrow> (s2, map Inr evts)
           | (s2, Inl e) \<Rightarrow> (s2\<lparr>last_event_kind := ''decode_error''\<rparr>, [Inl (SE_Decode e)]))"

definition handle_transport_error :: "string \<Rightarrow> (ParserState, stream_item) emitter" where
  "handle_transport_error e s =
     (if stream_completed s then (s, []) else (s, [Inl (SE_Upstream e)]))"

definition handle_input :: "(string \<Rightarrow> string + json) \<Rightarrow> (u32 list \<Rightarrow> u32 list)
    \<Rightarrow> ParserState \<Rightarrow> sse_input \<Rightarrow> ParserState \<times> stream_item list" where
  "handle_input from_str order s i =
     (case i of
        SseEvent data \<Rightarrow> handle_event from_str order data s
      | SseTransportError e \<Rightarrow> handle_transport_error e s)"

definition finalize_items :: "(u32 list \<Rightarrow> u32 list) \<Rightarrow> (ParserState, stream_item) emitter" where
  "finalize_items order s = (let (s', evts) = finalize order s in (s', map Inr evts))"

text \<open>The hand-written stream: \<open>poll_next\<close>, and what a consumer collects from it.\<close>

definition chat_poll_next :: "(string \<Rightarrow> string + json) \<Rightarrow> (u32 list \<Rightarrow> u32 list)
    \<Rightarrow> (ParserState, sse_input, stream_item) poll_machine
    \<Rightarrow> stream_item poll \<times> (ParserState, sse_input, stream_item) poll_machine" where
  "chat_poll_next from_str order = poll_loop (handle_input from_str order) (finalize_items order)"

definition chat_parse :: "sse_input source_poll list \<Rightarrow> (ParserState, sse_input, stream_item) poll_machine" where
  "chat_parse src = poll_init src parser_default"

definition chat_collect :: "(string \<Rightarrow> string + json) \<Rightarrow> (u32 list \<Rightarrow> u32 list)
    \<Rightarrow> sse_input source_poll list \<Rightarrow> stream_item list" where
  "chat_collect from_str order src =
     poll_drain (handle_input from_str order) (finalize_items order) (chat_parse src)"

lemmas chat_statement_defs = start_message_def close_text_block_def drain_tool_blocks_def
  stop_message_def

lemmas chat_chunk_defs = handle_tool_call_def handle_role_def handle_content_def
  handle_tool_calls_def handle_finish_def handle_choice_def start_response_def handle_value_def

section \<open>The upstream's side of the protocol\<close>

text \<open>
  What an upstream has to do for its stream to be translatable: text comes before tool calls,
  a tool call's first fragment carries its id, the message starts before it finishes, nothing
  but usage follows the finish reason and nothing follows \<open>[DONE]\<close>. An error chunk ends the
  obligations. Undecodable events and transport errors may occur anywhere.
\<close>

record chat_contract =
  cc_started :: bool
  cc_tools :: "u32 list"
  cc_tooling :: bool
  cc_finished :: bool
  cc_done :: bool
  cc_errored :: bool

definition contract_start :: chat_contract where
  "contract_start = \<lparr>cc_started = False, cc_tools = [], cc_tooling = False, cc_finished = False,
     cc_done = False, cc_errored = False\<rparr>"

definition accept_tool_call :: "json \<Rightarrow> chat_contract \<Rightarrow> chat_contract option" where
  "accept_tool_call tc c =
     (let i = tool_index tc + 1
      in if i = 0 then None
         else if get_str tc ''id'' \<noteq> None
           then Some (c\<lparr>cc_tools := (if i \<in> set (cc_tools c) then cc_tools c else cc_tools c @ [i])\<rparr>)
         else if i \<in> set (cc_tools c) \<or> tool_function tc ''arguments'' \<in> {None, Some []} then Some c
         else None)"

definition accept_role :: "json \<Rightarrow> chat_contract \<Rightarrow> chat_contract option" where
  "accept_role delta c = Some (if get_str delta ''role'' = None then c else c\<lparr>cc_started := True\<rparr>)"

definition accept_content :: "json \<Rightarrow> chat_contract \<Rightarrow> chat_contract option" where
  "accept_content delta c =
     (if get_str delta ''content'' \<in> {None, Some []} then Some c
      else if cc_tooling c \<or> cc_finished c then None
      else Some (c\<lparr>cc_started := True\<rparr>))"

definition accept_tool_calls :: "json \<Rightarrow> chat_contract \<Rightarrow> chat_contract option" where
  "accept_tool_calls delta c =
     (case get_array delta ''tool_calls'' of
        None \<Rightarrow> Some c
      | Some tcs \<Rightarrow> (if cc_finished c then None
                     else accept_all accept_tool_call tcs (c\<lparr>cc_started := True, cc_tooling := True\<rparr>)))"

definition accept_finish :: "json \<Rightarrow> chat_contract \<Rightarrow> chat_contract option" where
  "accept_finish choice c =
     (if get_str choice ''finish_reason'' \<in> {None, Some []} then Some c
      else if \<not> cc_started c then None
      else Some (c\<lparr>cc_finished := True, cc_tools := []\<rparr>))"

definition accept_choice :: "json \<Rightarrow> chat_contract \<Rightarrow> chat_contract option" where
  "accept_choice choice c = Option.bind
     (case jget choice ''delta'' of
        None \<Rightarrow> Some c
      | Some delta \<Rightarrow> Option.bind (Option.bind (accept_role delta c) (accept_content delta))
                       (accept_tool_calls delta))
     (accept_finish choice)"

definition chat_accept :: "(string \<Rightarrow> string + json) \<Rightarrow> chat_contract \<Rightarrow> sse_input
    \<Rightarrow> chat_contract option" where
  "chat_accept from_str c i =
     (if cc_errored c then Some c
      else case i of
        SseTransportError e \<Rightarrow> Some c
      | SseEvent data \<Rightarrow>
          (if data = ''[DONE]''
           then Some (c\<lparr>cc_started := True, cc_finished := True, cc_done := True, cc_tools := []\<rparr>)
           else case from_str data of
             Inl e \<Rightarrow> Some c
           | Inr v \<Rightarrow>
               (if jget v ''error'' \<noteq> None then Some (c\<lparr>cc_errored := True\<rparr>)
                else if cc_done c then None
                else accept_all accept_choice (unwrap_or (get_array v ''choices'') []) c)))"

section \<open>The parser follows the validator\<close>

definition chat_open :: "ParserState \<Rightarrow> u32 \<rightharpoonup> ContentBlockKind" where
  "chat_open s i =
     (if i = 0 then (if text_block_open s then Some KText else None)
      else if i \<in> set (open_tool_blocks s) then Some KToolCall else None)"

lemma chat_open_update [simp]:
  "chat_open (s\<lparr>emitted_response_start := a\<rparr>) = chat_open s"
  "chat_open (s\<lparr>emitted_message_start := a\<rparr>) = chat_open s"
  "chat_open (s\<lparr>emitted_message_stop := a\<rparr>) = chat_open s"
  "chat_open (s\<lparr>emitted_response_stop := a\<rparr>) = chat_open s"
  "chat_open (s\<lparr>response_id := t\<rparr>) = chat_open s"
  "chat_open (s\<lparr>response_model := t\<rparr>) = chat_open s"
  "chat_open (s\<lparr>stream_completed := a\<rparr>) = chat_open s"
  "chat_open (s\<lparr>event_count := n\<rparr>) = chat_open s"
  "chat_open (s\<lparr>total_data_bytes := n\<rparr>) = chat_open s"
  "chat_open (s\<lparr>last_event_kind := t\<rparr>) = chat_open s"
  "chat_open (s\<lparr>last_finish_reason := r\<rparr>) = chat_open s"
  by (simp_all add: chat_open_def fun_eq_iff)

lemma chat_open_none:
  "\<not> text_block_open s \<Longrightarrow> open_tool_blocks s = [] \<Longrightarrow> chat_open s = Map.empty"
  by (simp add: chat_open_def fun_eq_iff)

definition chat_flags :: "ParserState \<Rightarrow> ValidatorState \<Rightarrow> bool" where
  "chat_flags s v \<longleftrightarrow>
     seen_response_start v = emitted_response_start s \<and> seen_message_start v = emitted_message_start s
     \<and> seen_message_stop v = emitted_message_stop s \<and> seen_response_stop v = emitted_response_stop s
     \<and> (emitted_message_start s \<longrightarrow> emitted_response_start s)
     \<and> (emitted_message_stop s \<longrightarrow> emitted_message_start s)
     \<and> (emitted_response_stop s \<longrightarrow> emitted_message_stop s) \<and> \<not> terminated_by_error v"

definition chat_blocks :: "ParserState \<Rightarrow> ValidatorState \<Rightarrow> bool" where
  "chat_blocks s v \<longleftrightarrow> map_of (open_blocks v) = chat_open s
     \<and> distinct (open_tool_blocks s) \<and> 0 \<notin> set (open_tool_blocks s)
     \<and> (text_block_open s \<or> open_tool_blocks s \<noteq> [] \<longrightarrow> emitted_message_start s)"

definition chat_live :: "chat_contract \<Rightarrow> ParserState \<Rightarrow> ValidatorState \<Rightarrow> bool" where
  "chat_live c s v \<longleftrightarrow> chat_flags s v \<and> chat_blocks s v \<and> \<not> cc_errored c
     \<and> cc_started c = emitted_message_start s \<and> cc_finished c = emitted_message_stop s
     \<and> cc_done c = emitted_response_stop s \<and> cc_tools c = open_tool_blocks s
     \<and> (cc_tooling c \<longrightarrow> \<not> text_block_open s)
     \<and> (cc_finished c \<longrightarrow> \<not> text_block_open s \<and> open_tool_blocks s = [])
     \<and> (\<not> cc_finished c \<longrightarrow> closed_indices v \<subseteq> (if cc_tooling c then {0} else {}))"

text \<open>\<open>chat_live\<close> while a response is in progress.\<close>

definition chat_ready :: "chat_contract \<Rightarrow> ParserState \<Rightarrow> ValidatorState \<Rightarrow> bool" where
  "chat_ready c s v \<longleftrightarrow> chat_live c s v \<and> emitted_response_start s \<and> \<not> cc_done c"

definition chat_rel :: "chat_contract \<Rightarrow> ParserState \<Rightarrow> ValidatorState \<Rightarrow> bool" where
  "chat_rel c s v \<longleftrightarrow>
     (if terminated_by_error v
      then cc_errored c
        \<and> (open_blocks v = [] \<or> emitted_response_start s \<and> \<not> emitted_response_stop s)
      else chat_live c s v)"

lemmas chat_rel_defs = chat_live_def chat_flags_def chat_blocks_def

lemma chat_live_update [simp]:
  "chat_live c (s\<lparr>last_event_kind := t\<rparr>) v = chat_live c s v"
  "chat_live c (s\<lparr>last_finish_reason := r\<rparr>) v = chat_live c s v"
  "chat_live c (s\<lparr>stream_completed := b\<rparr>) v = chat_live c s v"
  "chat_live c (s\<lparr>event_count := n\<rparr>) v = chat_live c s v"
  "chat_live c (s\<lparr>total_data_bytes := n\<rparr>) v = chat_live c s v"
  by (simp_all add: chat_rel_defs)

lemma chat_ready_update [simp]:
  "chat_ready c (s\<lparr>last_event_kind := t\<rparr>) v = chat_ready c s v"
  "chat_ready c (s\<lparr>last_finish_reason := r\<rparr>) v = chat_ready c s v"
  "chat_ready c (s\<lparr>stream_completed := b\<rparr>) v = chat_ready c s v"
  by (simp_all add: chat_ready_def)

lemma chat_live_idle:
  "chat_live c s v \<Longrightarrow> \<not> (emitted_response_start s \<and> \<not> emitted_response_stop s) \<Longrightarrow> open_blocks v = []"
proof -
  assume R: "chat_live c s v" and idle: "\<not> (emitted_response_start s \<and> \<not> emitted_response_stop s)"
  have "\<not> text_block_open s \<and> open_tool_blocks s = []"
    using R idle unfolding chat_rel_defs by blast
  moreover have "map_of (open_blocks v) = chat_open s" using R unfolding chat_rel_defs by blast
  ultimately show ?thesis by (simp add: chat_open_none)
qed

definition drain_order :: "(u32 list \<Rightarrow> u32 list) \<Rightarrow> bool" where
  "drain_order order \<longleftrightarrow> (\<forall>xs. set (order xs) = set xs \<and> (distinct xs \<longrightarrow> distinct (order xs)))"

lemma start_message_follows:
  "simulates (chat_ready c) (chat_ready (c\<lparr>cc_started := True\<rparr>)) start_message"
  by (rule simulatesI)
    (auto del: iffCE simp: chat_ready_def chat_rel_defs chat_statement_defs emitter_defs validator_checks
      chat_open_def fun_eq_iff)

lemma role_follows:
  "accept_role delta c = Some c' \<Longrightarrow> simulates (chat_ready c) (chat_ready c') (handle_role delta)"
  by (cases "get_str delta ''role''")
    (auto simp: accept_role_def handle_role_def simulates_skip intro!: start_message_follows)

lemma text_delta_follows:
  assumes "\<not> cc_tooling c" "\<not> cc_finished c" "cc_started c"
  shows "simulates (chat_ready c) (chat_ready c) (emit_block
       [emit_when (\<lambda>s. \<not> text_block_open s)
          (emit_update (text_block_open_update (\<lambda>_. True)) (\<lambda>_. [ContentBlockStart 0 KText])),
        emit (\<lambda>_. [TextDelta 0 t])])"
  by (rule simulatesI)
    (use assms in \<open>auto del: iffCE simp: chat_ready_def chat_rel_defs emitter_defs validator_checks
      chat_open_def fun_eq_iff\<close>)

lemma content_follows:
  assumes "accept_content delta c = Some c'"
  shows "simulates (chat_ready c) (chat_ready c') (handle_content delta)"
proof (cases "get_str delta ''content'' \<in> {None, Some []}")
  case True
  with assms show ?thesis
    by (auto simp: accept_content_def handle_content_def emit_skip_def emit_when_def simulates_def)
next
  case False
  with assms have c': "c' = c\<lparr>cc_started := True\<rparr>" "\<not> cc_tooling c" "\<not> cc_finished c"
    by (auto simp: accept_content_def split: if_splits)
  from False obtain t where "get_str delta ''content'' = Some t" "t \<noteq> []" by auto
  moreover have "simulates (chat_ready (c\<lparr>cc_started := True\<rparr>)) (chat_ready (c\<lparr>cc_started := True\<rparr>))
      (emit_block
       [emit_when (\<lambda>s. \<not> text_block_open s)
          (emit_update (text_block_open_update (\<lambda>_. True)) (\<lambda>_. [ContentBlockStart 0 KText])),
        emit (\<lambda>_. [TextDelta 0 t])])"
    using c' by (intro text_delta_follows) simp_all
  ultimately show ?thesis
    using simulates_then [OF start_message_follows [of c]] c'
    by (simp add: handle_content_def emit_when_def)
qed

lemma close_text_follows:
  "\<not> cc_finished c \<Longrightarrow> simulates (chat_ready c) (chat_ready (c\<lparr>cc_tooling := True\<rparr>)) close_text_block"
  by (rule simulatesI)
    (auto del: iffCE simp: chat_ready_def chat_rel_defs chat_statement_defs emitter_defs validator_checks
      chat_open_def fun_eq_iff split: if_splits)

definition chat_tooling :: "chat_contract \<Rightarrow> ParserState \<Rightarrow> ValidatorState \<Rightarrow> bool" where
  "chat_tooling c s v \<longleftrightarrow> chat_ready c s v \<and> cc_started c \<and> cc_tooling c \<and> \<not> cc_finished c"

lemma chat_tooling_facts:
  "chat_tooling c s v \<Longrightarrow> open_envelope v \<and> map_of (open_blocks v) = chat_open s
     \<and> cc_tools c = open_tool_blocks s \<and> closed_indices v \<subseteq> {0}"
  unfolding chat_tooling_def chat_ready_def chat_rel_defs open_envelope_def by (elim conjE) simp

lemma tool_event_follows:
  "i \<noteq> 0 \<Longrightarrow> i \<in> set (cc_tools c) \<Longrightarrow> e = ToolCallStart i cid name \<or> e = ToolCallArgumentsDelta i frag \<Longrightarrow>
     simulates (chat_tooling c) (chat_tooling c) (emit (\<lambda>_. [e]))"
  by (rule simulatesI, frule chat_tooling_facts)
    (auto simp: emitter_defs open_envelope_def validator_checks chat_open_def)

lemma tool_open_follows:
  assumes "i \<noteq> 0"
  shows "simulates (chat_tooling c)
    (chat_tooling (c\<lparr>cc_tools := (if i \<in> set (cc_tools c) then cc_tools c else cc_tools c @ [i])\<rparr>))
    (emit_when (\<lambda>s. i \<notin> set (open_tool_blocks s))
       (emit_update (\<lambda>s. s\<lparr>open_tool_blocks := open_tool_blocks s @ [i]\<rparr>) (\<lambda>_. [ContentBlockStart i KToolCall])))"
proof (rule simulatesI, frule chat_tooling_facts, goal_cases)
  case (1 s v)
  show ?case
  proof (cases "i \<in> set (open_tool_blocks s)")
    case True
    with 1 have eq: "c\<lparr>cc_tools := (if i \<in> set (cc_tools c) then cc_tools c else cc_tools c @ [i])\<rparr> = c"
      by (cases c) simp
    show ?thesis unfolding eq using 1 True by (simp add: emitter_defs)
  next
    case False
    let ?s = "s\<lparr>open_tool_blocks := open_tool_blocks s @ [i]\<rparr>"
    let ?v = "v\<lparr>open_blocks := AList.update i KToolCall (open_blocks v)\<rparr>"
    have "seen_message_start v" "i \<notin> closed_indices v" "map_of (open_blocks v) i = None"
      using 1 False assms by (auto simp: open_envelope_def chat_open_def)
    then have run: "vrun v [ContentBlockStart i KToolCall] = Some ?v"
      using 1 by (simp add: validator_checks open_envelope_def)
    have "(chat_open s)(i \<mapsto> KToolCall) = chat_open ?s"
      using assms by (auto simp: chat_open_def fun_eq_iff)
    with 1 False assms have "chat_tooling (c\<lparr>cc_tools := cc_tools c @ [i]\<rparr>) ?s ?v"
      unfolding chat_tooling_def chat_ready_def chat_rel_defs by (elim conjE) simp
    then show ?thesis
      using 1 False run by (auto simp: emit_when_def emit_update_def simp del: vrun.simps)
  qed
qed

lemma tool_args_follows:
  assumes "i \<noteq> 0" "i \<in> set (cc_tools c) \<or> args \<in> {None, Some []}"
  shows "simulates (chat_tooling c) (chat_tooling c) (emit_some args (\<lambda>a.
    emit_when (\<lambda>_. a \<noteq> []) (emit (\<lambda>_. [ToolCallArgumentsDelta i a]))))"
proof (cases "args \<in> {None, Some []}")
  case True
  then show ?thesis by (auto simp: simulates_def emitter_defs)
next
  case False
  then obtain a where "args = Some a" "a \<noteq> []" by auto
  with assms show ?thesis
    using tool_event_follows [of i c "ToolCallArgumentsDelta i a"] by (simp add: emit_when_def)
qed

lemma tool_call_follows:
  assumes "accept_tool_call tc c = Some c'"
  shows "simulates (chat_tooling c) (chat_tooling c') (handle_tool_call tc)"
proof -
  let ?i = "tool_index tc + 1"
  have i: "?i \<noteq> 0" using assms by (auto simp: accept_tool_call_def Let_def)
  show ?thesis
  proof (cases "get_str tc ''id''")
    case None
    with assms i have "c' = c" "?i \<in> set (cc_tools c) \<or> tool_function tc ''arguments'' \<in> {None, Some []}"
      by (auto simp: accept_tool_call_def Let_def split: if_splits)
    with None i show ?thesis
      by (auto simp: handle_tool_call_def Let_def
          intro!: simulates_then [OF simulates_skip] simulates_then [OF tool_args_follows] simulates_skip)
  next
    case (Some id)
    with assms i have c': "c' = c\<lparr>cc_tools := (if ?i \<in> set (cc_tools c) then cc_tools c else cc_tools c @ [?i])\<rparr>"
      by (auto simp: accept_tool_call_def Let_def)
    then have mem: "?i \<in> set (cc_tools c')" by simp
    have open': "simulates (chat_tooling c) (chat_tooling c')
        (emit_when (\<lambda>s. ?i \<notin> set (open_tool_blocks s))
          (emit_update (\<lambda>s. s\<lparr>open_tool_blocks := open_tool_blocks s @ [?i]\<rparr>) (\<lambda>_. [ContentBlockStart ?i KToolCall])))"
      unfolding c' by (rule tool_open_follows [OF i])
    have call: "simulates (chat_tooling c') (chat_tooling c')
        (emit (\<lambda>_. [ToolCallStart ?i id (unwrap_or (tool_function tc ''name'') [])]))"
      using tool_event_follows [OF i mem] by blast
    from simulates_then [OF simulates_then [OF open' simulates_then [OF call simulates_skip]]
        simulates_then [OF tool_args_follows [OF i] simulates_skip]] mem Some
    show ?thesis by (simp add: handle_tool_call_def Let_def)
  qed
qed

lemma tool_calls_follows:
  assumes "accept_tool_calls delta c = Some c'"
  shows "simulates (chat_ready c) (chat_ready c') (handle_tool_calls delta)"
proof (cases "get_array delta ''tool_calls''")
  case None
  with assms show ?thesis by (simp add: accept_tool_calls_def handle_tool_calls_def simulates_skip)
next
  case (Some tcs)
  let ?c = "c\<lparr>cc_started := True, cc_tooling := True\<rparr>"
  from Some assms have fin: "\<not> cc_finished c" and all: "accept_all accept_tool_call tcs ?c = Some c'"
    by (auto simp: accept_tool_calls_def split: if_splits)
  have loop: "simulates (chat_ready ?c) (chat_ready c') (emit_for tcs handle_tool_call)"
    by (rule simulates_conseq [OF simulates_accept_all [where R = chat_tooling, OF _ all]])
      (use fin in \<open>auto del: iffCE simp: chat_tooling_def tool_call_follows chat_ready_def chat_live_def\<close>)
  have close: "simulates (chat_ready (c\<lparr>cc_started := True\<rparr>)) (chat_ready ?c) close_text_block"
    using close_text_follows [of "c\<lparr>cc_started := True\<rparr>"] fin by simp
  show ?thesis
    using simulates_then [OF start_message_follows
        simulates_then [OF close simulates_then [OF loop simulates_skip]]] Some
    by (simp add: handle_tool_calls_def)
qed

text \<open>Closing all blocks, as the finish reason, \<open>[DONE]\<close> and the finaliser do.\<close>

definition chat_closed :: "chat_contract \<Rightarrow> ParserState \<Rightarrow> ValidatorState \<Rightarrow> bool" where
  "chat_closed c s v \<longleftrightarrow> chat_flags s v \<and> open_blocks v = [] \<and> \<not> text_block_open s
     \<and> open_tool_blocks s = [] \<and> emitted_response_start s \<and> emitted_message_start s
     \<and> \<not> cc_errored c \<and> cc_started c \<and> cc_finished c = emitted_message_stop s
     \<and> cc_done c = emitted_response_stop s"

lemma close_blocks_follows:
  assumes order: "drain_order order" and started: "cc_started c"
  shows "simulates (\<lambda>s v. chat_live c s v) (chat_closed c)
    (emit_then close_text_block (drain_tool_blocks order))"
proof (rule simulatesI)
  fix s v
  assume R: "chat_live c s v"
  obtain v1 where v1: "vrun v (snd (close_text_block s)) = Some v1" "same_flags v v1"
      "map_of (open_blocks v1) = (map_of (open_blocks v)) (0 := None)"
    using R by (cases "text_block_open s")
      (auto del: iffCE simp: chat_rel_defs close_text_block_def emitter_defs validator_checks same_flags_def
        chat_open_def fun_eq_iff split: if_splits)
  have s1: "fst (close_text_block s) = s\<lparr>text_block_open := False\<rparr>"
    by (simp add: close_text_block_def emitter_defs)
  let ?xs = "order (open_tool_blocks s)"
  have xs: "set ?xs = set (open_tool_blocks s)" "distinct ?xs"
    using order R by (auto del: iffCE simp: drain_order_def chat_rel_defs)
  have "\<exists>v2. vrun v1 (tool_stops ?xs) = Some v2 \<and> same_flags v1 v2 \<and> open_blocks v2 = []"
  proof (cases "open_tool_blocks s = []")
    case True
    have "map_of (open_blocks v1) = Map.empty"
      using R True unfolding v1(3) by (auto del: iffCE simp: chat_rel_defs chat_open_def fun_eq_iff)
    with xs True show ?thesis by (simp add: tool_stops_def same_flags_def)
  next
    case False
    then have live: "\<not> seen_message_stop v1" "\<not> seen_response_stop v1" "\<not> terminated_by_error v1"
      using R v1 by (auto del: iffCE simp: chat_rel_defs same_flags_def)
    have "\<forall>i \<in> set ?xs. map_of (open_blocks v1) i = Some KToolCall"
      using R v1 xs by (auto del: iffCE simp: chat_rel_defs chat_open_def)
    from vrun_tool_stops [OF live xs(2) this] obtain v2
      where v2: "vrun v1 (tool_stops ?xs) = Some v2" "same_flags v1 v2"
        "map_of (open_blocks v2) = (map_of (open_blocks v1)) |` (- set ?xs)" by auto
    have "map_of (open_blocks v2) = Map.empty"
      using v1(3) R xs unfolding v2(3)
      by (auto del: iffCE simp: chat_rel_defs chat_open_def restrict_map_def fun_eq_iff)
    with v2(1,2) show ?thesis by auto
  qed
  then obtain v2 where v2: "vrun v1 (tool_stops ?xs) = Some v2" "same_flags v1 v2"
      "open_blocks v2 = []" by auto
  from vrun_appendI [OF v1(1) v2(1)] v1(2) v2(2,3) R started s1
  show "\<exists>v'. vrun v (snd (emit_then close_text_block (drain_tool_blocks order) s)) = Some v'
      \<and> chat_closed c (fst (emit_then close_text_block (drain_tool_blocks order) s)) v'"
    by (auto del: iffCE simp: emit_then_def drain_tool_blocks_def emit_update_def Let_def case_prod_unfold
        chat_closed_def chat_rel_defs same_flags_def)
qed

lemma stop_message_follows:
  "simulates (chat_closed c) (chat_closed (c\<lparr>cc_finished := True\<rparr>)) (stop_message r)"
  by (rule simulatesI)
    (auto del: iffCE simp: chat_closed_def chat_flags_def stop_message_def emitter_defs validator_checks)

lemma chat_closed_live:
  "chat_closed c s v \<Longrightarrow> cc_finished c \<Longrightarrow> chat_live (c\<lparr>cc_tools := []\<rparr>) s v"
  by (auto del: iffCE simp: chat_closed_def chat_rel_defs chat_open_none)

lemma finish_follows:
  assumes order: "drain_order order" and acc: "accept_finish choice c = Some c'"
  shows "simulates (chat_ready c) (chat_ready c') (handle_finish order choice)"
proof (cases "get_str choice ''finish_reason'' \<in> {None, Some []}")
  case True
  with acc show ?thesis
    by (auto simp: accept_finish_def handle_finish_def emit_skip_def emit_when_def simulates_def)
next
  case False
  then obtain reason where reason: "get_str choice ''finish_reason'' = Some reason" "reason \<noteq> []"
    by auto
  from False acc have c': "cc_started c" "c' = c\<lparr>cc_finished := True, cc_tools := []\<rparr>"
    by (auto simp: accept_finish_def split: if_splits)
  let ?close = "emit_then (emit_then close_text_block (drain_tool_blocks order))
      (stop_message (stop_reason_from_provider_string reason))"
  have "simulates (chat_live c) (\<lambda>s v. chat_closed (c\<lparr>cc_finished := True\<rparr>) s v) ?close"
    by (rule simulates_then [OF close_blocks_follows [OF order c'(1)] stop_message_follows])
  then have body: "simulates (chat_ready c) (chat_ready c') ?close" if "\<not> cc_done c"
  proof (rule simulates_conseq)
    fix s v
    assume "chat_closed (c\<lparr>cc_finished := True\<rparr>) s v"
    with chat_closed_live [OF this] that c' show "chat_ready c' s v"
      by (simp add: chat_ready_def chat_closed_def)
  qed (simp add: chat_ready_def)
  show ?thesis
  proof (rule simulatesI)
    fix s v
    assume R: "chat_ready c s v"
    then have open': "\<not> cc_done c" by (simp add: chat_ready_def)
    from R have "chat_ready c (s\<lparr>last_finish_reason := Some reason, last_event_kind := ''finish''\<rparr>) v"
      by simp
    from simulatesD [OF body [OF open'], OF this] reason
    show "\<exists>v'. vrun v (snd (handle_finish order choice s)) = Some v'
        \<and> chat_ready c' (fst (handle_finish order choice s)) v'"
      by (auto simp: handle_finish_def emitter_defs Let_def case_prod_unfold)
  qed
qed

lemma choice_follows:
  assumes order: "drain_order order" and acc: "accept_choice choice c = Some c'"
  shows "simulates (chat_ready c) (chat_ready c') (handle_choice order choice)"
proof (cases "jget choice ''delta''")
  case None
  with acc finish_follows [OF order] show ?thesis
    by (auto simp: accept_choice_def handle_choice_def intro!: simulates_then simulates_skip)
next
  case (Some delta)
  with acc obtain c1 c2 c3 where "accept_role delta c = Some c1" "accept_content delta c1 = Some c2"
      "accept_tool_calls delta c2 = Some c3" "accept_finish choice c3 = Some c'"
    by (auto simp: accept_choice_def bind_eq_Some_conv)
  then show ?thesis
    using Some by (auto simp: handle_choice_def intro!: simulates_then simulates_skip
        role_follows content_follows tool_calls_follows finish_follows [OF order])
qed

lemma usage_follows: "simulates (chat_ready c) (chat_ready c)
    (emit_some u' (\<lambda>usage. emit (\<lambda>_. [UsageDelta usage])))"
  by (cases u') (auto del: iffCE simp: simulates_def emitter_defs chat_ready_def chat_rel_defs validator_checks)

lemma response_start_follows:
  "simulates (\<lambda>s v. chat_live c s v \<and> \<not> cc_done c) (chat_ready c) (start_response v')"
  by (rule simulatesI)
    (auto del: iffCE simp: chat_ready_def chat_rel_defs start_response_def emitter_defs validator_checks Let_def
      split: if_splits)

lemma value_follows:
  assumes order: "drain_order order" and v: "jget v ''error'' = None" "\<not> cc_done c"
    and acc: "accept_all accept_choice (unwrap_or (get_array v ''choices'') []) c = Some c'"
  shows "simulates (chat_live c) (chat_ready c') (handle_value order v)"
proof -
  let ?rest = "case get_array v ''choices'' of
        None \<Rightarrow> emit_some (parse_usage v) (\<lambda>usage. emit (\<lambda>_. [UsageDelta usage]))
      | Some choices \<Rightarrow> emit_block
          [emit_for choices (handle_choice order),
           emit_some (Option.bind (non_null_usage v) (\<lambda>_. parse_usage v))
             (\<lambda>usage. emit (\<lambda>_. [UsageDelta usage]))]"
  have rest: "simulates (chat_ready c) (chat_ready c') ?rest"
    using acc by (cases "get_array v ''choices''")
      (auto intro!: simulates_then [OF simulates_accept_all] simulates_then [OF usage_follows]
        simulates_skip usage_follows choice_follows [OF order])
  have kind: "simulates (chat_live c) (\<lambda>s v. chat_live c s v \<and> \<not> cc_done c)
      (modify (last_event_kind_update (\<lambda>_. ''delta'')))"
    using v by (simp add: simulates_def modify_def chat_rel_defs)
  show ?thesis
    using simulates_then [OF kind simulates_then [OF response_start_follows
          simulates_then [OF rest simulates_skip]]] v
    by (simp add: handle_value_def)
qed

lemma done_follows:
  assumes order: "drain_order order"
  shows "simulates (chat_live c)
    (chat_live (c\<lparr>cc_started := True, cc_finished := True, cc_done := True, cc_tools := []\<rparr>))
    (handle_done order)"
proof -
  let ?c = "c\<lparr>cc_started := True\<rparr>"
  let ?start = "emit_block
     [modify (last_event_kind_update (\<lambda>_. ''done'')),
      emit_when (\<lambda>s. \<not> emitted_response_start s)
        (emit_update (emitted_response_start_update (\<lambda>_. True))
           (\<lambda>s. [ResponseStart (response_id s) (response_model s) 0])),
      start_message]"
  have start: "simulates (chat_live c) (chat_live ?c) ?start"
    by (rule simulatesI)
      (auto del: iffCE simp: chat_rel_defs chat_statement_defs emitter_defs validator_checks
       )
  let ?stop = "emit_block [emit_when (\<lambda>s. \<not> emitted_response_stop s)
        (emit_update (emitted_response_stop_update (\<lambda>_. True)) (\<lambda>_. [ResponseStop None])),
      modify (stream_completed_update (\<lambda>_. True))]"
  have stop: "simulates (chat_closed (?c\<lparr>cc_finished := True\<rparr>))
      (chat_live (?c\<lparr>cc_finished := True, cc_done := True, cc_tools := []\<rparr>)) ?stop"
    by (rule simulatesI)
      (auto del: iffCE simp: chat_closed_def chat_rel_defs emitter_defs validator_checks chat_open_none)
  have "simulates (chat_live c) (chat_live (?c\<lparr>cc_finished := True, cc_done := True, cc_tools := []\<rparr>))
      (emit_then ?start (emit_then (emit_then close_text_block (drain_tool_blocks order))
        (emit_then (stop_message EndTurn) ?stop)))"
    by (intro simulates_then [OF start] simulates_then [OF close_blocks_follows [OF order]]
        simulates_then [OF stop_message_follows] stop) simp
  moreover have "handle_done order = emit_then ?start
      (emit_then (emit_then close_text_block (drain_tool_blocks order))
        (emit_then (stop_message EndTurn) ?stop))"
    by (rule ext) (simp add: handle_done_def emit_then_def emit_skip_def Let_def case_prod_unfold)
  ultimately show ?thesis by simp
qed

lemma finalize_validates:
  assumes order: "drain_order order" and R: "chat_live c s v"
  shows "validates v (snd (finalize order s))"
proof (cases "emitted_response_start s \<and> \<not> emitted_response_stop s")
  case False
  from chat_live_idle [OF R this] False show ?thesis by (auto simp: finalize_def validates_def)
next
  case True
  let ?c = "c\<lparr>cc_started := True\<rparr>"
  have start: "simulates (\<lambda>s v. chat_live c s v \<and> emitted_response_start s) (chat_live ?c) start_message"
    by (rule simulatesI)
      (auto del: iffCE simp: chat_rel_defs start_message_def emitter_defs validator_checks)
  have stop: "simulates (\<lambda>s v. chat_closed (?c\<lparr>cc_finished := True\<rparr>) s v \<and> \<not> cc_done ?c)
      (\<lambda>s v. open_blocks v = [])
      (emit_block [emit_update (emitted_response_stop_update (\<lambda>_. True)) (\<lambda>_. [ResponseStop None])])"
    by (rule simulatesI) (auto del: iffCE simp: chat_closed_def chat_flags_def emitter_defs validator_checks)
  have "\<not> cc_done ?c" using R True by (simp add: chat_live_def)
  then have "simulates (\<lambda>s v. chat_live c s v \<and> emitted_response_start s) (\<lambda>s v. open_blocks v = [])
      (emit_then start_message (emit_then (emit_then close_text_block (drain_tool_blocks order))
        (emit_then (stop_message EndTurn) (emit_block
          [emit_update (emitted_response_stop_update (\<lambda>_. True)) (\<lambda>_. [ResponseStop None])]))))"
    by (intro simulates_then [OF start] simulates_then [OF close_blocks_follows [OF order]]
        simulates_then [OF stop_message_follows] simulates_conseq [OF stop]) simp_all
  from simulatesD [OF this, of s v] R True show ?thesis
    by (auto simp: finalize_def validates_def emit_then_def emit_skip_def Let_def case_prod_unfold)
qed

section \<open>The parser as a stream producer\<close>

text \<open>Code that pushes nothing does not move the response envelope.\<close>

abbreviation chat_quiet :: "chat_emitter \<Rightarrow> bool" where
  "chat_quiet \<equiv> quiet (\<lambda>s. (emitted_response_start s, emitted_response_stop s))"

lemma quiet_value: "chat_quiet (handle_value order v)"
  by (auto simp: chat_statement_defs chat_chunk_defs Let_def intro!: quiet_intros split: option.splits)

lemma quiet_done: "chat_quiet (handle_done order)"
  by (auto simp: chat_statement_defs handle_done_def intro!: quiet_intros)

definition chat_step :: "(string \<Rightarrow> string + json) \<Rightarrow> (u32 list \<Rightarrow> u32 list) \<Rightarrow> ParserState \<Rightarrow> sse_input
    \<Rightarrow> ParserState \<times> StreamEvent list" where
  "chat_step from_str order s i = apsnd ok_events (handle_input from_str order s i)"

definition chat_fin :: "(u32 list \<Rightarrow> u32 list) \<Rightarrow> ParserState \<Rightarrow> ParserState \<times> StreamEvent list" where
  "chat_fin order s = apsnd ok_events (finalize_items order s)"

definition counted :: "string \<Rightarrow> ParserState \<Rightarrow> ParserState" where
  "counted data s = s\<lparr>event_count := event_count s + 1,
     total_data_bytes := total_data_bytes s + of_nat (length data)\<rparr>"

lemma chat_step_cases:
  "chat_step from_str order s (SseTransportError e) = (s, [])"
  "chat_step from_str order s (SseEvent data) =
     (if data = ''[DONE]'' then handle_done order (counted data s)
      else case from_str data of
        Inl e \<Rightarrow> ((counted data s)\<lparr>last_event_kind := ''decode_error''\<rparr>, [])
      | Inr v \<Rightarrow> handle_value order v (counted data s))"
  by (auto simp: chat_step_def handle_input_def handle_transport_error_def handle_event_def
      parse_chunk_def counted_def Let_def case_prod_unfold split: sum.splits)

lemma chat_fin_eq: "snd (chat_fin order s) = snd (finalize order s)"
  by (simp add: chat_fin_def finalize_items_def Let_def case_prod_unfold)

lemma chat_live_counted [simp]: "chat_live c (counted data s) v = chat_live c s v"
  by (simp add: counted_def)

lemma quiet_step: "quiet (\<lambda>s. (emitted_response_start s, emitted_response_stop s))
    (\<lambda>s. chat_step from_str order s i)"
  using quiet_done [of order] quiet_value [of order]
  by (cases i) (auto simp: quiet_def chat_step_cases counted_def split: sum.splits)

lemma errored_follows:
  "terminated_by_error v \<Longrightarrow> chat_rel c s v \<Longrightarrow> cc_errored c' \<Longrightarrow>
     \<exists>v'. vrun v (snd (chat_step from_str order s i)) = Some v'
       \<and> chat_rel c' (fst (chat_step from_str order s i)) v'"
  using vrun_quiet_terminated [OF _ quiet_step [of from_str order i], of v s]
  by (auto simp: chat_rel_def)

lemma chat_live_rel: "chat_live c s v \<Longrightarrow> chat_rel c s v"
  by (simp add: chat_rel_def chat_rel_defs)

lemma live_follows:
  assumes order: "drain_order order" and acc: "chat_accept from_str c i = Some c'" and R: "chat_live c s v"
  shows "\<exists>v'. vrun v (snd (chat_step from_str order s i)) = Some v'
    \<and> chat_rel c' (fst (chat_step from_str order s i)) v'"
proof -
  have live: "\<not> terminated_by_error v" "\<not> cc_errored c" using R by (simp_all add: chat_rel_defs)
  show ?thesis
  proof (cases i)
    case (SseTransportError e)
    with acc R live show ?thesis by (simp add: chat_accept_def chat_step_cases chat_rel_def)
  next
    case (SseEvent data)
    consider (done') "data = ''[DONE]''" | (bad) e where "data \<noteq> ''[DONE]''" "from_str data = Inl e"
      | (val) j where "data \<noteq> ''[DONE]''" "from_str data = Inr j" by (cases "from_str data") auto
    then show ?thesis
    proof cases
      case done'
      with acc live SseEvent simulatesD [OF done_follows [OF order], of c "counted data s" v] R
      show ?thesis by (auto simp: chat_accept_def chat_step_cases intro: chat_live_rel)
    next
      case bad
      with acc live SseEvent R show ?thesis
        by (auto simp: chat_accept_def chat_step_cases intro: chat_live_rel)
    next
      case (val j)
      show ?thesis
      proof (cases "jget j ''error''")
        case None
        with val acc live SseEvent have a: "\<not> cc_done c"
          "accept_all accept_choice (unwrap_or (get_array j ''choices'') []) c = Some c'"
          by (auto simp: chat_accept_def split: if_splits)
        from simulatesD [OF value_follows [OF order None a], of "counted data s" v] R val SseEvent
        show ?thesis by (auto simp: chat_step_cases chat_ready_def intro: chat_live_rel)
      next
        case (Some err)
        then have c': "cc_errored c'"
          using acc live SseEvent val by (auto simp: chat_accept_def)
        have idle: "open_blocks v = [] \<or> emitted_response_start s \<and> \<not> emitted_response_stop s"
          using chat_live_idle [OF R] by blast
        show ?thesis
          using Some SseEvent val live c' idle
          by (simp add: chat_step_cases handle_value_def emit_update_def chat_rel_def counted_def)
      qed
    qed
  qed
qed

lemma finalize_emits:
  "emitted_response_start s \<Longrightarrow> \<not> emitted_response_stop s \<Longrightarrow> snd (finalize order s) \<noteq> []"
  by (auto simp: finalize_def emitter_defs Let_def case_prod_unfold)

lemma chat_producer:
  assumes "drain_order order"
  shows "lifecycle_producer (chat_step from_str order) parser_default
    (chat_accept from_str) contract_start chat_rel validator_init (chat_fin order)"
proof unfold_locales
  show "chat_rel contract_start parser_default validator_init"
    by (simp add: chat_rel_def chat_rel_defs contract_start_def parser_default_def validator_init_def
        chat_open_def fun_eq_iff)
next
  fix c i c'
  assume acc: "chat_accept from_str c i = Some c'"
  show "simulates (chat_rel c) (chat_rel c') (\<lambda>s. chat_step from_str order s i)"
  proof (rule simulatesI)
    fix s v
    assume R: "chat_rel c s v"
    show "\<exists>v'. vrun v (snd (chat_step from_str order s i)) = Some v'
        \<and> chat_rel c' (fst (chat_step from_str order s i)) v'"
    proof (cases "terminated_by_error v")
      case True
      with R acc have "cc_errored c'" by (auto simp: chat_rel_def chat_accept_def)
      with errored_follows [OF True R] show ?thesis by blast
    next
      case False
      with R have "chat_live c s v" by (simp add: chat_rel_def)
      from live_follows [OF assms acc this] show ?thesis .
    qed
  qed
next
  fix c s v
  assume R: "chat_rel c s v"
  show "validates v (snd (chat_fin order s))"
  proof (cases "terminated_by_error v")
    case True
    with R finalize_emits [of s order] show ?thesis
      by (auto simp: chat_fin_eq chat_rel_def validates_def vrun_terminated)
  next
    case False
    with R finalize_validates [OF assms] show ?thesis by (simp add: chat_rel_def chat_fin_eq)
  qed
qed

interpretation chat: lifecycle_producer "chat_step from_str id" parser_default
  "chat_accept from_str" contract_start chat_rel validator_init "chat_fin id" for from_str
  by (rule chat_producer) (simp add: drain_order_def)

section \<open>The produced stream\<close>

lemma chat_collect_eq:
  "chat_collect from_str order src =
     run_to_end (handle_input from_str order) (finalize_items order) parser_default (src_items src)"
  by (simp add: chat_collect_def chat_parse_def poll_drain_init)

lemma chat_events_eq:
  "ok_events (chat_collect from_str order src) =
     run_to_end (chat_step from_str order) (chat_fin order) parser_default (src_items src)"
  by (simp add: chat_collect_eq ok_events_run_to_end chat_step_def [abs_def] chat_fin_def [abs_def])

text \<open>C6. Whatever way the polls interleave with \<open>Pending\<close> answers, for every JSON reader, every
  hash iteration order and every upstream that keeps its side of the protocol (text before tool
  calls, an id with the first fragment of a tool call, a message start before the finish reason,
  nothing but usage after it and nothing after \<open>[DONE]\<close>), including upstreams that fail with an
  error chunk, undecodable events, transport errors or an abrupt end at any point, the events
  the stream yields satisfy the canonical lifecycle.\<close>

theorem chat_stream_canonical:
  assumes "drain_order order" and "accepts (chat_accept from_str) contract_start (src_items src)"
  shows "assert_canonical_lifecycle (ok_events (chat_collect from_str order src)) = Inr ()"
  unfolding chat_events_eq
  by (intro validates_assert lifecycle_producer.produces_canonical [OF chat_producer] assms)

text \<open>A concrete upstream: a reader that knows three chunks by name.\<close>

definition demo_chunk :: "(string \<times> json) list \<Rightarrow> string option \<Rightarrow> json" where
  "demo_chunk delta fin = JObject [(''id'', JString ''r1''), (''choices'', JArray [JObject
     ((''delta'', JObject delta) # (case fin of None \<Rightarrow> [] | Some r \<Rightarrow> [(''finish_reason'', JString r)]))])]"

definition demo_tool :: "string option \<Rightarrow> string \<Rightarrow> (string \<times> json) list" where
  "demo_tool cid args = [(''tool_calls'', JArray [JObject ((''index'', JPosInt 0) #
     (case cid of None \<Rightarrow> [] | Some i \<Rightarrow> [(''id'', JString i)]) @
     [(''function'', JObject [(''arguments'', JString args)])])])]"

definition demo_from_str :: "string \<Rightarrow> string + json" where
  "demo_from_str data =
     (if data = ''text'' then Inr (demo_chunk [(''content'', JString ''hi'')] None)
      else if data = ''tool'' then Inr (demo_chunk (demo_tool (Some ''c1'') ''{}'') None)
      else if data = ''args'' then Inr (demo_chunk (demo_tool None ''{}'') None)
      else if data = ''finish'' then Inr (demo_chunk [] (Some ''tool_calls''))
      else Inl ''expected value'')"

lemmas demo_defs = demo_chunk_def demo_tool_def demo_from_str_def

lemmas chat_eval = chat_events_eq chat_step_cases chat_fin_eq parser_default_def counted_def
  chat_statement_defs chat_chunk_defs handle_done_def finalize_def demo_defs emitter_defs Let_def
  json_accessors tool_function_def tool_index_def as_u32_def non_null_usage_def parse_usage_def
  stop_reason_from_provider_string_def tool_stops_def

lemmas accept_eval = chat_accept_def contract_start_def accept_choice_def accept_role_def
  accept_content_def accept_tool_calls_def accept_tool_call_def accept_finish_def demo_defs
  json_accessors tool_function_def tool_index_def as_u32_def Let_def

theorem chat_stream_canonical_witness:
  "ok_events (chat_collect demo_from_str rev
     [SrcItem (SseEvent ''text''), SrcPending, SrcItem (SseEvent ''tool''), SrcItem (SseEvent ''junk''),
      SrcItem (SseEvent ''finish''), SrcItem (SseTransportError ''reset'')])
   = [ResponseStart ''r1'' ''unknown'' 0, MessageStart Assistant, ContentBlockStart 0 KText,
      TextDelta 0 ''hi'', ContentBlockStop 0, ContentBlockStart 1 KToolCall, ToolCallStart 1 ''c1'' [],
      ToolCallArgumentsDelta 1 ''{}'', ToolCallStop 1, ContentBlockStop 1, MessageStop ToolUse None,
      ResponseStop None]
   \<and> assert_canonical_lifecycle (ok_events (chat_collect demo_from_str rev
     [SrcItem (SseEvent ''text''), SrcPending, SrcItem (SseEvent ''tool''), SrcItem (SseEvent ''junk''),
      SrcItem (SseEvent ''finish''), SrcItem (SseTransportError ''reset'')])) = Inr ()"
proof
  show "ok_events (chat_collect demo_from_str rev
     [SrcItem (SseEvent ''text''), SrcPending, SrcItem (SseEvent ''tool''), SrcItem (SseEvent ''junk''),
      SrcItem (SseEvent ''finish''), SrcItem (SseTransportError ''reset'')])
   = [ResponseStart ''r1'' ''unknown'' 0, MessageStart Assistant, ContentBlockStart 0 KText,
      TextDelta 0 ''hi'', ContentBlockStop 0, ContentBlockStart 1 KToolCall, ToolCallStart 1 ''c1'' [],
      ToolCallArgumentsDelta 1 ''{}'', ToolCallStop 1, ContentBlockStop 1, MessageStop ToolUse None,
      ResponseStop None]"
    by (simp add: chat_eval)
qed (rule chat_stream_canonical; simp add: drain_order_def accept_eval)

text \<open>What a chunk says: the reference reading of the upstream's content.\<close>

definition non_empty :: "string option \<Rightarrow> string list" where
  "non_empty o' = (case o' of None \<Rightarrow> [] | Some t \<Rightarrow> if t = [] then [] else [t])"

definition tool_call_payload :: "json \<Rightarrow> payload list" where
  "tool_call_payload tc =
     (case get_str tc ''id'' of None \<Rightarrow> []
      | Some cid \<Rightarrow> [PCall (tool_index tc + 1) cid (unwrap_or (tool_function tc ''name'') [])])
     @ map (PArgs (tool_index tc + 1)) (non_empty (tool_function tc ''arguments''))"

definition delta_payloads :: "json \<Rightarrow> payload list" where
  "delta_payloads delta = map PText (non_empty (get_str delta ''content''))
     @ concat (map tool_call_payload (unwrap_or (get_array delta ''tool_calls'') []))"

definition input_payload :: "(string \<Rightarrow> string + json) \<Rightarrow> sse_input \<Rightarrow> payload list" where
  "input_payload from_str i =
     (case i of
        SseTransportError e \<Rightarrow> []
      | SseEvent data \<Rightarrow>
          (if data = ''[DONE]'' then []
           else case from_str data of
             Inl e \<Rightarrow> []
           | Inr v \<Rightarrow>
               (if jget v ''error'' \<noteq> None then []
                else concat (map (\<lambda>choice. case jget choice ''delta'' of None \<Rightarrow> []
                                           | Some delta \<Rightarrow> delta_payloads delta)
                       (unwrap_or (get_array v ''choices'') [])))))"

lemma carries_statements:
  "carries start_message []" "carries close_text_block []" "carries (drain_tool_blocks order) []"
  "carries (stop_message r) []" "carries (start_response v) []" "carries (handle_finish order choice) []"
  "carries (handle_role delta) []" "carries (handle_done order) []"
  by (auto simp: carries_def chat_statement_defs start_response_def handle_finish_def handle_role_def
      handle_done_def emitter_defs emit_some_case Let_def case_prod_unfold split: option.splits)

lemma carries_tool_call: "carries (handle_tool_call tc) (tool_call_payload tc)"
  by (cases "get_str tc ''id''"; cases "tool_function tc ''arguments''")
    (auto simp: carries_def handle_tool_call_def tool_call_payload_def non_empty_def emitter_defs
      Let_def case_prod_unfold)

lemma carries_tool_calls:
  "carries (handle_tool_calls delta)
     (concat (map tool_call_payload (unwrap_or (get_array delta ''tool_calls'') [])))"
  by (cases "get_array delta ''tool_calls''")
    (auto simp: handle_tool_calls_def intro!: carries_skip carries_then_eq carries_statements
      carries_for carries_tool_call)

lemma carries_content:
  "carries (handle_content delta) (map PText (non_empty (get_str delta ''content'')))"
  using carries_statements(1)
  by (cases "get_str delta ''content''")
    (auto simp: carries_def handle_content_def non_empty_def emitter_defs Let_def case_prod_unfold)

lemma carries_choice:
  "carries (handle_choice order choice)
     (case jget choice ''delta'' of None \<Rightarrow> [] | Some delta \<Rightarrow> delta_payloads delta)"
  by (cases "jget choice ''delta''")
    (auto simp: handle_choice_def delta_payloads_def intro!: carries_then_eq carries_skip
      carries_statements carries_content carries_tool_calls)

lemma carries_value:
  "jget v ''error'' = None \<Longrightarrow> carries (handle_value order v)
     (concat (map (\<lambda>choice. case jget choice ''delta'' of None \<Rightarrow> [] | Some delta \<Rightarrow> delta_payloads delta)
        (unwrap_or (get_array v ''choices'') [])))"
proof -
  have usage: "carries (emit_some u' (\<lambda>usage. emit (\<lambda>_. [UsageDelta usage]))) []" for u'
    by (cases u') (auto simp: carries_def emitter_defs)
  show "jget v ''error'' = None \<Longrightarrow> ?thesis"
    by (cases "get_array v ''choices''")
      (auto simp: handle_value_def intro!: carries_then_eq carries_skip carries_modify usage
        carries_statements carries_for carries_choice)
qed

lemma step_payload: "payload_of (snd (chat_step from_str order s i)) = input_payload from_str i"
proof (cases i)
  case (SseEvent data)
  show ?thesis
  proof (cases "from_str data")
    case (Inr v)
    with SseEvent carries_value [of v order] carries_statements(8) [of order] show ?thesis
      by (cases "jget v ''error''")
        (auto simp: chat_step_cases input_payload_def carries_def handle_value_def emit_update_def)
  qed (use SseEvent carries_statements(8) [of order] in
      \<open>auto simp: chat_step_cases input_payload_def carries_def\<close>)
qed (simp add: chat_step_cases input_payload_def)

lemma fin_payload: "payload_of (snd (chat_fin order s)) = []"
  using carries_statements by (auto simp: chat_fin_eq finalize_def carries_def emitter_defs Let_def
      case_prod_unfold)

lemma chat_payload:
  "payload_of (run_to_end (chat_step from_str order) (chat_fin order) s is) =
     concat (map (input_payload from_str) is)"
  by (induction "is" arbitrary: s) (simp_all add: step_payload fin_payload)

text \<open>C20. No content is lost, invented or reordered, whatever the upstream does: the text deltas,
  tool-call announcements and argument fragments the stream yields are exactly those of the
  chunks it was given, in their order.\<close>

theorem chat_stream_content:
  "payload_of (ok_events (chat_collect from_str order src)) =
     concat (map (input_payload from_str) (src_items src))"
  by (simp add: chat_events_eq chat_payload)

text \<open>What the parser does with upstreams outside that protocol: text that resumes after a
  tool call re-opens the closed block 0 (rule 1b), an argument fragment for an unannounced tool
  call refers to a block that was never opened (rule 5), and a finish reason before any delta
  puts the message start after the message stop (rule 3).\<close>

theorem chat_stream_violations:
  "assert_canonical_lifecycle (ok_events (chat_collect demo_from_str order
     [SrcItem (SseEvent ''text''), SrcItem (SseEvent ''tool''), SrcItem (SseEvent ''text'')])) = Inl (8, Rule1b)
   \<and> assert_canonical_lifecycle (ok_events (chat_collect demo_from_str order
     [SrcItem (SseEvent ''args'')])) = Inl (2, Rule5)
   \<and> assert_canonical_lifecycle (ok_events (chat_collect demo_from_str id
     [SrcItem (SseEvent ''finish''), SrcItem (SseEvent ''[DONE]'')])) = Inl (2, Rule3)"
  by (simp add: chat_eval assert_canonical_lifecycle_def assert_canonical_lifecycle_strict_def
      validator_init_def validator_checks)

end
