(* ===== verification/Deepseek.thy ===== *)
theory Deepseek
  imports Interleaver Chat_Sse_Parser
begin

text \<open>
  The DeepSeek provider's response side: \<open>providers/src/deepseek/response.rs\<close> (stream and unary
  parser) and \<open>deepseek/usage.rs\<close>. The stream parser is a variant of the chat parser that routes
  text and reasoning through the interleaver and allocates tool-call indices after its blocks.
  The \<open>HashMap<u32, u32>\<close> of open tool calls is an association list; its values are sorted
  before they are drained, so its iteration order does not show.
\<close>

section \<open>Usage\<close>

definition map_usage :: "json \<Rightarrow> Usage" where
  "map_usage raw =
     (let prompt_tokens = map_option as_u32 (get_u64 raw ''prompt_tokens'');
          completion_tokens = map_option as_u32 (get_u64 raw ''completion_tokens'');
          cache_hit = map_option as_u32 (get_u64 raw ''prompt_cache_hit_tokens'');
          cache_miss = map_option as_u32 (get_u64 raw ''prompt_cache_miss_tokens'')
      in \<lparr>input_tokens = or_opt cache_miss prompt_tokens, output_tokens = completion_tokens,
          cache_creation_input_tokens = None, cache_read_input_tokens = cache_hit,
          reasoning_tokens = None, estimated = False, provider_raw = Some raw,
          safety_ratings = None\<rparr>)"

section \<open>Stream state and statements\<close>

record StreamState =
  ds_response_start :: bool
  ds_message_start :: bool
  ds_message_stop :: bool
  ds_response_stop :: bool
  ds_interleaver :: ReasoningInterleaver
  ds_tools :: "(u32 \<times> u32) list"
  ds_id :: string
  ds_model :: string
  ds_completed :: bool

definition stream_state_default :: StreamState where
  "stream_state_default = \<lparr>ds_response_start = False, ds_message_start = False, ds_message_stop = False,
     ds_response_stop = False, ds_interleaver = interleaver_new, ds_tools = [], ds_id = [],
     ds_model = [], ds_completed = False\<rparr>"

type_synonym ds_emitter = "(StreamState, StreamEvent) emitter"

definition ensure_message_start :: ds_emitter where
  "ensure_message_start = emit_when (\<lambda>s. \<not> ds_message_start s)
     (emit_update (ds_message_start_update (\<lambda>_. True)) (\<lambda>_. [MessageStart Assistant]))"

definition on_interleaver :: "(ReasoningInterleaver, StreamEvent) emitter \<Rightarrow> ds_emitter" where
  "on_interleaver f s = (let (il, es) = f (ds_interleaver s) in (s\<lparr>ds_interleaver := il\<rparr>, es))"

definition drain_open_tool_blocks :: ds_emitter where
  "drain_open_tool_blocks = emit_update (ds_tools_update (\<lambda>_. []))
     (\<lambda>s. tool_stops (sort (map snd (ds_tools s))))"

definition ds_stop_message :: ds_emitter where
  "ds_stop_message = emit_when (\<lambda>s. \<not> ds_message_stop s)
     (emit_update (ds_message_stop_update (\<lambda>_. True)) (\<lambda>_. [MessageStop EndTurn None]))"

definition ds_close :: ds_emitter where
  "ds_close = emit_then (on_interleaver interleaver_flush) drain_open_tool_blocks"

definition ds_handle_done :: ds_emitter where
  "ds_handle_done = emit_block
     [emit_when (\<lambda>s. \<not> ds_response_start s)
        (emit_update (ds_response_start_update (\<lambda>_. True))
           (\<lambda>s. [ResponseStart (ds_id s) (ds_model s) 0])),
      ensure_message_start,
      ds_close,
      ds_stop_message,
      emit_when (\<lambda>s. \<not> ds_response_stop s)
        (emit_update (ds_response_stop_update (\<lambda>_. True)) (\<lambda>_. [ResponseStop None])),
      modify (ds_completed_update (\<lambda>_. True))]"

definition ds_finalize :: ds_emitter where
  "ds_finalize s =
     (if ds_response_stop s then (s, [])
      else if \<not> ds_response_start s then (s, [])
      else emit_block
        [ensure_message_start,
         ds_close,
         ds_stop_message,
         emit_update (ds_response_stop_update (\<lambda>_. True)) (\<lambda>_. [ResponseStop None])] s)"

section \<open>Chunks\<close>

definition ds_delta :: "DeltaKind \<Rightarrow> string option \<Rightarrow> ds_emitter" where
  "ds_delta kind o' = emit_some o' (\<lambda>t. emit_when (\<lambda>_. t \<noteq> []) (emit_block
     [ensure_message_start, on_interleaver (interleaver_push kind t)]))"

definition ds_allocate :: "StreamState \<Rightarrow> u32" where
  "ds_allocate s = il_next_index (ds_interleaver s) + of_nat (length (ds_tools s))"

text \<open>The block index of a tool call, opened on first sight of its provider index.\<close>

definition ds_open_tool :: "u32 \<Rightarrow> ds_emitter" where
  "ds_open_tool provider_idx = emit_when (\<lambda>s. map_of (ds_tools s) provider_idx = None)
     (emit_update (\<lambda>s. s\<lparr>ds_tools := AList.update provider_idx (ds_allocate s) (ds_tools s)\<rparr>)
        (\<lambda>s. [ContentBlockStart (ds_allocate s) KToolCall]))"

definition ds_block_index :: "u32 \<Rightarrow> StreamState \<Rightarrow> u32" where
  "ds_block_index provider_idx s = the (map_of (ds_tools s) provider_idx)"

definition ds_tool_call :: "json \<Rightarrow> ds_emitter" where
  "ds_tool_call tc =
     (let provider_idx = tool_index tc
      in emit_block
        [ds_open_tool provider_idx,
         emit_some (get_str tc ''id'') (\<lambda>id. emit (\<lambda>s.
           [ToolCallStart (ds_block_index provider_idx s) id (unwrap_or (tool_function tc ''name'') [])])),
         emit_some (tool_function tc ''arguments'') (\<lambda>args. emit_when (\<lambda>_. args \<noteq> [])
           (emit (\<lambda>s. [ToolCallArgumentsDelta (ds_block_index provider_idx s) args])))])"

definition ds_tool_calls :: "json \<Rightarrow> ds_emitter" where
  "ds_tool_calls delta = emit_some (get_array delta ''tool_calls'') (\<lambda>tcs. emit_block
     [ensure_message_start, on_interleaver interleaver_flush, emit_for tcs ds_tool_call])"

definition ds_finish :: "json \<Rightarrow> ds_emitter" where
  "ds_finish choice = emit_some (get_str choice ''finish_reason'') (\<lambda>reason.
     emit_when (\<lambda>_. reason \<noteq> []) (emit_block
       [ds_close,
        emit_update (ds_message_stop_update (\<lambda>_. True))
          (\<lambda>_. [MessageStop (stop_reason_from_provider_string reason) None]),
        modify (ds_completed_update (\<lambda>_. True))]))"

definition ds_role :: "json \<Rightarrow> ds_emitter" where
  "ds_role delta = emit_some (get_str delta ''role'') (\<lambda>_. ensure_message_start)"

definition ds_choice :: "json \<Rightarrow> ds_emitter" where
  "ds_choice choice = emit_block
     [emit_some (jget choice ''delta'') (\<lambda>delta. emit_block
        [ds_role delta,
         ds_delta DReasoning (get_str delta ''reasoning_content''),
         ds_delta DText (get_str delta ''content''),
         ds_tool_calls delta]),
      ds_finish choice]"

definition ds_start_response :: "json \<Rightarrow> ds_emitter" where
  "ds_start_response v =
     (let id = unwrap_or (get_str v ''id'') ''unknown'';
          model = unwrap_or (get_str v ''model'') ''unknown'';
          created = unwrap_or (get_u64 v ''created'') 0
      in emit_when (\<lambda>s. \<not> ds_response_start s)
           (emit_update (\<lambda>s. s\<lparr>ds_response_start := True, ds_id := id, ds_model := model\<rparr>)
              (\<lambda>_. [ResponseStart id model created])))"

definition ds_value :: "json \<Rightarrow> ds_emitter" where
  "ds_value v =
     (case jget v ''error'' of
        Some err \<Rightarrow> emit (\<lambda>_. [ErrorEvent (error_message err)])
      | None \<Rightarrow> emit_block
          [ds_start_response v,
           emit_for (unwrap_or (get_array v ''choices'') []) ds_choice,
           emit_some (non_null_usage v) (\<lambda>u. emit (\<lambda>_. [UsageDelta (map_usage u)]))])"

definition ds_parse_chunk :: "(string \<Rightarrow> string + json) \<Rightarrow> string
    \<Rightarrow> StreamState \<Rightarrow> StreamState \<times> (string + StreamEvent list)" where
  "ds_parse_chunk from_str data s =
     (case from_str data of
        Inl e \<Rightarrow> (s, Inl (''json parse: '' @ e))
      | Inr v \<Rightarrow> (let (s', events) = ds_value v s in (s', Inr events)))"

definition ds_handle_input :: "(string \<Rightarrow> string + json) \<Rightarrow> StreamState \<Rightarrow> sse_input
    \<Rightarrow> StreamState \<times> stream_item list" where
  "ds_handle_input from_str s i =
     (case i of
        SseEvent data \<Rightarrow>
          (if data = ''[DONE]'' then let (s', evts) = ds_handle_done s in (s', map Inr evts)
           else case ds_parse_chunk from_str data s of
               (s', Inr evts) \<Rightarrow> (s', map Inr evts)
             | (s', Inl e) \<Rightarrow> (s', [Inl (SE_Decode e)]))
      | SseTransportError e \<Rightarrow> (if ds_completed s then (s, []) else (s, [Inl (SE_Upstream e)])))"

definition ds_finalize_items :: "(StreamState, stream_item) emitter" where
  "ds_finalize_items s = (let (s', evts) = ds_finalize s in (s', map Inr evts))"

definition ds_poll_next :: "(string \<Rightarrow> string + json)
    \<Rightarrow> (StreamState, sse_input, stream_item) poll_machine
    \<Rightarrow> stream_item poll \<times> (StreamState, sse_input, stream_item) poll_machine" where
  "ds_poll_next from_str = poll_loop (ds_handle_input from_str) ds_finalize_items"

definition ds_collect :: "(string \<Rightarrow> string + json) \<Rightarrow> sse_input source_poll list \<Rightarrow> stream_item list" where
  "ds_collect from_str src =
     poll_drain (ds_handle_input from_str) ds_finalize_items (poll_init src stream_state_default)"

lemmas ds_statement_defs = ensure_message_start_def drain_open_tool_blocks_def ds_stop_message_def
  on_interleaver_def ds_close_def

lemmas ds_chunk_defs = ds_delta_def ds_open_tool_def ds_tool_call_def ds_tool_calls_def ds_finish_def
  ds_role_def ds_choice_def ds_start_response_def ds_value_def

section \<open>The upstream's side of the protocol\<close>

text \<open>
  As for the chat parser, except that a tool call needs no id, the finish reason comes once,
  and the blocks (at most one per delta or tool-call fragment) are counted: there are fewer
  than \<open>2 ^ 32\<close>.
\<close>

record ds_contract =
  dc_started :: bool
  dc_tooling :: bool
  dc_finished :: bool
  dc_done :: bool
  dc_errored :: bool
  dc_blocks :: nat

definition ds_contract_start :: ds_contract where
  "ds_contract_start = \<lparr>dc_started = False, dc_tooling = False, dc_finished = False, dc_done = False,
     dc_errored = False, dc_blocks = 0\<rparr>"

definition ds_accept_delta :: "string option \<Rightarrow> ds_contract \<Rightarrow> ds_contract option" where
  "ds_accept_delta o' c =
     (if o' \<in> {None, Some []} then Some c
      else if dc_tooling c \<or> dc_finished c \<or> Suc (dc_blocks c) \<ge> 2 ^ 32 then None
      else Some (c\<lparr>dc_started := True, dc_blocks := Suc (dc_blocks c)\<rparr>))"

definition ds_accept_tool_call :: "json \<Rightarrow> ds_contract \<Rightarrow> ds_contract option" where
  "ds_accept_tool_call tc c =
     (if Suc (dc_blocks c) \<ge> 2 ^ 32 then None else Some (c\<lparr>dc_blocks := Suc (dc_blocks c)\<rparr>))"

definition ds_accept_tool_calls :: "json \<Rightarrow> ds_contract \<Rightarrow> ds_contract option" where
  "ds_accept_tool_calls delta c =
     (case get_array delta ''tool_calls'' of
        None \<Rightarrow> Some c
      | Some tcs \<Rightarrow> (if dc_finished c then None
                     else accept_all ds_accept_tool_call tcs (c\<lparr>dc_started := True, dc_tooling := True\<rparr>)))"

definition ds_accept_role :: "json \<Rightarrow> ds_contract \<Rightarrow> ds_contract option" where
  "ds_accept_role delta c =
     Some (if get_str delta ''role'' = None then c else c\<lparr>dc_started := True\<rparr>)"

definition ds_accept_finish :: "json \<Rightarrow> ds_contract \<Rightarrow> ds_contract option" where
  "ds_accept_finish choice c =
     (if get_str choice ''finish_reason'' \<in> {None, Some []} then Some c
      else if \<not> dc_started c \<or> dc_finished c then None
      else Some (c\<lparr>dc_finished := True\<rparr>))"

definition ds_accept_choice :: "json \<Rightarrow> ds_contract \<Rightarrow> ds_contract option" where
  "ds_accept_choice choice c = Option.bind
     (case jget choice ''delta'' of
        None \<Rightarrow> Some c
      | Some delta \<Rightarrow>
          Option.bind (Option.bind (Option.bind (ds_accept_role delta c)
            (ds_accept_delta (get_str delta ''reasoning_content'')))
            (ds_accept_delta (get_str delta ''content'')))
            (ds_accept_tool_calls delta))
     (ds_accept_finish choice)"

definition ds_accept :: "(string \<Rightarrow> string + json) \<Rightarrow> ds_contract \<Rightarrow> sse_input \<Rightarrow> ds_contract option" where
  "ds_accept from_str c i =
     (if dc_errored c then Some c
      else case i of
        SseTransportError e \<Rightarrow> Some c
      | SseEvent data \<Rightarrow>
          (if data = ''[DONE]''
           then Some (c\<lparr>dc_started := True, dc_finished := True, dc_done := True\<rparr>)
           else case from_str data of
             Inl e \<Rightarrow> Some c
           | Inr v \<Rightarrow>
               (if jget v ''error'' \<noteq> None then Some (c\<lparr>dc_errored := True\<rparr>)
                else if dc_done c then None
                else accept_all ds_accept_choice (unwrap_or (get_array v ''choices'') []) c)))"

section \<open>The parser follows the validator\<close>

definition tools_open :: "(u32 \<times> u32) list \<Rightarrow> u32 \<rightharpoonup> ContentBlockKind" where
  "tools_open tools i = (if i \<in> snd ` set tools then Some KToolCall else None)"

definition ds_text_phase :: "nat \<Rightarrow> StreamState \<Rightarrow> ValidatorState \<Rightarrow> bool" where
  "ds_text_phase n s v \<longleftrightarrow> ds_tools s = [] \<and> map_of (open_blocks v) = il_open (il_state (ds_interleaver s))
     \<and> used_below v (il_next_index (ds_interleaver s)) \<and> unat (il_next_index (ds_interleaver s)) \<le> n"

definition ds_tool_phase :: "nat \<Rightarrow> StreamState \<Rightarrow> ValidatorState \<Rightarrow> bool" where
  "ds_tool_phase n s v \<longleftrightarrow> il_state (ds_interleaver s) = Idle \<and> distinct (map snd (ds_tools s))
     \<and> map_of (open_blocks v) = tools_open (ds_tools s)
     \<and> (\<forall>i. map_of (open_blocks v) i \<noteq> None \<or> i \<in> closed_indices v \<longrightarrow>
            unat i < unat (il_next_index (ds_interleaver s)) + length (ds_tools s))
     \<and> unat (il_next_index (ds_interleaver s)) + length (ds_tools s) \<le> n"

definition ds_shut :: "StreamState \<Rightarrow> ValidatorState \<Rightarrow> bool" where
  "ds_shut s v \<longleftrightarrow> il_state (ds_interleaver s) = Idle \<and> ds_tools s = [] \<and> open_blocks v = []"

definition ds_blocks :: "ds_contract \<Rightarrow> StreamState \<Rightarrow> ValidatorState \<Rightarrow> bool" where
  "ds_blocks c s v \<longleftrightarrow>
     (if dc_finished c then ds_shut s v
      else if dc_tooling c then dc_started c \<and> ds_tool_phase (dc_blocks c) s v
      else (dc_started c \<or> il_state (ds_interleaver s) = Idle) \<and> ds_text_phase (dc_blocks c) s v)"

definition ds_flags :: "ds_contract \<Rightarrow> StreamState \<Rightarrow> ValidatorState \<Rightarrow> bool" where
  "ds_flags c s v \<longleftrightarrow> \<not> dc_errored c \<and> \<not> terminated_by_error v
     \<and> (seen_response_start v \<longleftrightarrow> ds_response_start s) \<and> (dc_started c \<longrightarrow> ds_response_start s)
     \<and> (seen_message_start v \<longleftrightarrow> dc_started c) \<and> (ds_message_start s \<longleftrightarrow> dc_started c)
     \<and> (seen_message_stop v \<longleftrightarrow> dc_finished c) \<and> (ds_message_stop s \<longleftrightarrow> dc_finished c)
     \<and> (seen_response_stop v \<longleftrightarrow> dc_done c) \<and> (ds_response_stop s \<longleftrightarrow> dc_done c)
     \<and> (dc_finished c \<longrightarrow> dc_started c) \<and> (dc_done c \<longrightarrow> dc_finished c) \<and> dc_blocks c < 2 ^ 32"

definition ds_live :: "ds_contract \<Rightarrow> StreamState \<Rightarrow> ValidatorState \<Rightarrow> bool" where
  "ds_live c s v \<longleftrightarrow> ds_flags c s v \<and> ds_blocks c s v"

definition ds_ready :: "ds_contract \<Rightarrow> StreamState \<Rightarrow> ValidatorState \<Rightarrow> bool" where
  "ds_ready c s v \<longleftrightarrow> ds_live c s v \<and> ds_response_start s \<and> \<not> dc_done c"

definition ds_rel :: "ds_contract \<Rightarrow> StreamState \<Rightarrow> ValidatorState \<Rightarrow> bool" where
  "ds_rel c s v \<longleftrightarrow>
     (if terminated_by_error v
      then dc_errored c \<and> (open_blocks v = [] \<or> ds_response_start s \<and> \<not> ds_response_stop s)
      else ds_live c s v)"

lemmas ds_rel_defs = ds_live_def ds_flags_def ds_blocks_def
lemmas ds_phase_defs = ds_text_phase_def ds_tool_phase_def ds_shut_def used_below_def

lemma ds_envelope:
  "ds_ready c s v \<Longrightarrow> dc_started c \<Longrightarrow> \<not> dc_finished c \<Longrightarrow> open_envelope v"
  by (auto simp: ds_ready_def ds_rel_defs open_envelope_def)

lemma ds_flags_envelope:
  "open_envelope v \<Longrightarrow> dc_started c \<Longrightarrow> \<not> dc_finished c \<Longrightarrow> \<not> dc_done c \<Longrightarrow> \<not> dc_errored c \<Longrightarrow>
     dc_blocks c < 2 ^ 32 \<Longrightarrow> ds_flags c s v \<longleftrightarrow> ds_response_start s \<and> ds_message_start s
       \<and> \<not> ds_message_stop s \<and> \<not> ds_response_stop s"
  by (auto simp: ds_flags_def open_envelope_def)

lemma ds_message_follows:
  "simulates (ds_ready c) (ds_ready (c\<lparr>dc_started := True\<rparr>)) ensure_message_start"
proof (rule simulatesI)
  fix s v
  assume R: "ds_ready c s v"
  show "\<exists>v'. vrun v (snd (ensure_message_start s)) = Some v'
      \<and> ds_ready (c\<lparr>dc_started := True\<rparr>) (fst (ensure_message_start s)) v'"
  proof (cases "dc_started c")
    case True
    then have eq: "c\<lparr>dc_started := True\<rparr> = c" by (cases c) simp
    have "ds_message_start s" using R True by (simp add: ds_ready_def ds_live_def ds_flags_def)
    with R show ?thesis unfolding eq by (simp add: ensure_message_start_def emitter_defs)
  next
    case False
    with R show ?thesis
      by (auto simp: ensure_message_start_def emitter_defs ds_ready_def ds_rel_defs validator_checks
          ds_phase_defs)
  qed
qed

lemma ds_push_follows:
  assumes "dc_started c" "\<not> dc_tooling c" "\<not> dc_finished c" "Suc (dc_blocks c) < 2 ^ 32"
  shows "simulates (ds_ready c) (ds_ready (c\<lparr>dc_blocks := Suc (dc_blocks c)\<rparr>))
    (on_interleaver (interleaver_push kind t))"
proof (rule simulatesI)
  fix s v
  assume R: "ds_ready c s v"
  have il: "il_rel (ds_interleaver s) v" "Suc (unat (il_next_index (ds_interleaver s))) < 2 ^ 32"
    using R assms ds_envelope [OF R assms(1,3)]
    by (auto simp: ds_ready_def ds_rel_defs ds_text_phase_def il_rel_def)
  from push_follows [OF il(2,1)] obtain v'
    where v': "vrun v (snd (interleaver_push kind t (ds_interleaver s))) = Some v'"
      "il_rel (fst (interleaver_push kind t (ds_interleaver s))) v'" by blast
  with R assms push_next_index [of kind t "ds_interleaver s"]
  have "ds_ready (c\<lparr>dc_blocks := Suc (dc_blocks c)\<rparr>)
      (s\<lparr>ds_interleaver := fst (interleaver_push kind t (ds_interleaver s))\<rparr>) v'"
    by (auto simp: ds_ready_def ds_rel_defs ds_text_phase_def il_rel_def open_envelope_def)
  with v' show "\<exists>v'. vrun v (snd (on_interleaver (interleaver_push kind t) s)) = Some v'
      \<and> ds_ready (c\<lparr>dc_blocks := Suc (dc_blocks c)\<rparr>) (fst (on_interleaver (interleaver_push kind t) s)) v'"
    by (auto simp: on_interleaver_def Let_def case_prod_unfold)
qed

lemma ds_delta_follows:
  assumes "ds_accept_delta o' c = Some c'"
  shows "simulates (ds_ready c) (ds_ready c') (ds_delta kind o')"
proof (cases "o' \<in> {None, Some []}")
  case True
  with assms show ?thesis
    by (auto simp: ds_accept_delta_def ds_delta_def emit_skip_def emit_when_def simulates_def)
next
  case False
  then obtain t where t: "o' = Some t" "t \<noteq> []" by auto
  from False assms have c': "c' = c\<lparr>dc_started := True, dc_blocks := Suc (dc_blocks c)\<rparr>"
      "\<not> dc_tooling c" "\<not> dc_finished c" "Suc (dc_blocks c) < 2 ^ 32"
    by (auto simp: ds_accept_delta_def split: if_splits)
  have "simulates (ds_ready (c\<lparr>dc_started := True\<rparr>)) (ds_ready c') (on_interleaver (interleaver_push kind t))"
    using ds_push_follows [of "c\<lparr>dc_started := True\<rparr>"] c' by simp
  from simulates_then [OF ds_message_follows simulates_then [OF this simulates_skip]] t
  show ?thesis by (simp add: ds_delta_def emit_when_def)
qed

lemma ds_flush_follows:
  assumes "dc_started c" "\<not> dc_finished c"
  shows "simulates (ds_ready c) (ds_ready (c\<lparr>dc_tooling := True\<rparr>)) (on_interleaver interleaver_flush)"
proof (rule simulatesI)
  fix s v
  assume R: "ds_ready c s v"
  show "\<exists>v'. vrun v (snd (on_interleaver interleaver_flush s)) = Some v'
      \<and> ds_ready (c\<lparr>dc_tooling := True\<rparr>) (fst (on_interleaver interleaver_flush s)) v'"
  proof (cases "dc_tooling c")
    case True
    then have eq: "c\<lparr>dc_tooling := True\<rparr> = c" by (cases c) simp
    have "il_state (ds_interleaver s) = Idle"
      using R True assms by (simp add: ds_ready_def ds_rel_defs ds_tool_phase_def)
    with R show ?thesis unfolding eq by (simp add: on_interleaver_def interleaver_flush_def)
  next
    case False
    have "il_rel (ds_interleaver s) v"
      using R assms False ds_envelope [OF R assms]
      by (auto simp: ds_ready_def ds_rel_defs ds_text_phase_def il_rel_def)
    from simulatesD [OF flush_follows, OF this] obtain v'
      where v': "vrun v (snd (interleaver_flush (ds_interleaver s))) = Some v'"
        "il_rel (fst (interleaver_flush (ds_interleaver s))) v'"
        "il_state (fst (interleaver_flush (ds_interleaver s))) = Idle" by blast
    have next': "il_next_index (fst (interleaver_flush (ds_interleaver s))) = il_next_index (ds_interleaver s)"
      by (cases "il_state (ds_interleaver s)") (simp_all add: interleaver_flush_def)
    have "ds_ready (c\<lparr>dc_tooling := True\<rparr>)
        (s\<lparr>ds_interleaver := fst (interleaver_flush (ds_interleaver s))\<rparr>) v'"
      using R assms False v' next'
      by (auto simp: ds_ready_def ds_rel_defs ds_phase_defs il_rel_def open_envelope_def tools_open_def)
    with v' show ?thesis by (auto simp: on_interleaver_def Let_def case_prod_unfold)
  qed
qed

definition ds_tooling :: "ds_contract \<Rightarrow> StreamState \<Rightarrow> ValidatorState \<Rightarrow> bool" where
  "ds_tooling c s v \<longleftrightarrow> ds_ready c s v \<and> dc_started c \<and> dc_tooling c \<and> \<not> dc_finished c"

lemma ds_tooling_facts:
  "ds_tooling c s v \<Longrightarrow> open_envelope v \<and> ds_tool_phase (dc_blocks c) s v"
  by (auto simp: ds_tooling_def ds_ready_def ds_rel_defs open_envelope_def)

lemma ds_tooling_more: "ds_tooling c s v \<Longrightarrow> Suc (dc_blocks c) < 2 ^ 32 \<Longrightarrow>
    ds_tooling (c\<lparr>dc_blocks := Suc (dc_blocks c)\<rparr>) s v"
  by (auto simp: ds_tooling_def ds_ready_def ds_rel_defs ds_tool_phase_def)

lemma ds_open_tool_follows:
  assumes n: "Suc (dc_blocks c) < 2 ^ 32"
  shows "simulates (ds_tooling c)
    (\<lambda>s v. ds_tooling (c\<lparr>dc_blocks := Suc (dc_blocks c)\<rparr>) s v \<and> map_of (ds_tools s) p \<noteq> None)
    (ds_open_tool p)"
proof (rule simulatesI, frule ds_tooling_facts, goal_cases)
  case (1 s v)
  show ?case
  proof (cases "map_of (ds_tools s) p")
    case (Some i)
    with 1 n show ?thesis by (simp add: ds_open_tool_def emitter_defs ds_tooling_more)
  next
    case None
    let ?a = "ds_allocate s"
    have le: "unat (il_next_index (ds_interleaver s)) + length (ds_tools s) \<le> dc_blocks c"
      using 1 by (simp add: ds_tool_phase_def)
    then have a: "unat ?a = unat (il_next_index (ds_interleaver s)) + length (ds_tools s)"
      using n by (simp add: ds_allocate_def unat_word_ariths)
    have fresh: "map_of (open_blocks v) ?a = None" "?a \<notin> closed_indices v"
      using 1 a by (fastforce simp: ds_tool_phase_def)+
    let ?s = "s\<lparr>ds_tools := AList.update p ?a (ds_tools s)\<rparr>"
    let ?v = "v\<lparr>open_blocks := AList.update ?a KToolCall (open_blocks v)\<rparr>"
    have run: "vrun v [ContentBlockStart ?a KToolCall] = Some ?v"
      using 1 fresh by (simp add: validator_checks open_envelope_def)
    have upd: "AList.update p ?a (ds_tools s) = ds_tools s @ [(p, ?a)]"
      using None by (rule AList_update_fresh)
    have "?a \<notin> snd ` set (ds_tools s)"
      using fresh 1 by (auto simp: ds_tool_phase_def tools_open_def split: if_splits)
    then have "ds_tool_phase (Suc (dc_blocks c)) ?s ?v"
      using 1 le a unfolding ds_tool_phase_def upd
      by (auto simp: tools_open_def fun_eq_iff less_Suc_eq image_iff)
    then have "ds_tooling (c\<lparr>dc_blocks := Suc (dc_blocks c)\<rparr>) ?s ?v"
      using 1 n by (auto simp: ds_tooling_def ds_ready_def ds_rel_defs)
    with run None show ?thesis
      by (auto simp: ds_open_tool_def emit_when_def emit_update_def simp del: vrun.simps)
  qed
qed

lemma ds_tool_event_follows:
  assumes "e = (\<lambda>s. [ToolCallStart (ds_block_index p s) cid name])
    \<or> e = (\<lambda>s. [ToolCallArgumentsDelta (ds_block_index p s) frag])"
  shows "simulates (\<lambda>s v. ds_tooling c s v \<and> map_of (ds_tools s) p \<noteq> None)
    (\<lambda>s v. ds_tooling c s v \<and> map_of (ds_tools s) p \<noteq> None) (emit e)"
proof (rule simulatesI)
  fix s v
  assume R: "ds_tooling c s v \<and> map_of (ds_tools s) p \<noteq> None"
  then have "ds_block_index p s \<in> snd ` set (ds_tools s)"
    by (force simp: ds_block_index_def dest: map_of_SomeD)
  with R ds_tooling_facts [of c s v] have "map_of (open_blocks v) (ds_block_index p s) = Some KToolCall"
    "open_envelope v" by (auto simp: ds_tool_phase_def tools_open_def)
  with R assms show "\<exists>v'. vrun v (snd (emit e s)) = Some v'
      \<and> ds_tooling c (fst (emit e s)) v' \<and> map_of (ds_tools (fst (emit e s))) p \<noteq> None"
    by (auto simp: emit_def validator_checks open_envelope_def)
qed

lemma ds_tool_call_follows:
  assumes "ds_accept_tool_call tc c = Some c'"
  shows "simulates (ds_tooling c) (ds_tooling c') (ds_tool_call tc)"
proof -
  let ?Q = "\<lambda>s v. ds_tooling c' s v \<and> map_of (ds_tools s) (tool_index tc) \<noteq> None"
  have open': "simulates (ds_tooling c) ?Q (ds_open_tool (tool_index tc))"
    using assms ds_open_tool_follows [of c] by (auto simp: ds_accept_tool_call_def split: if_splits)
  have ev: "simulates ?Q ?Q (emit e)" if "e = (\<lambda>s. [ToolCallStart (ds_block_index (tool_index tc) s) cid name])
    \<or> e = (\<lambda>s. [ToolCallArgumentsDelta (ds_block_index (tool_index tc) s) frag])" for e cid name frag
    by (rule ds_tool_event_follows [OF that])
  have call: "simulates ?Q ?Q (emit_some (get_str tc ''id'') (\<lambda>id. emit (\<lambda>s.
      [ToolCallStart (ds_block_index (tool_index tc) s) id (unwrap_or (tool_function tc ''name'') [])])))"
    by (rule simulates_some, simp, rule ev, blast)
  have args: "simulates ?Q ?Q (emit_some (tool_function tc ''arguments'') (\<lambda>args. emit_when (\<lambda>_. args \<noteq> [])
      (emit (\<lambda>s. [ToolCallArgumentsDelta (ds_block_index (tool_index tc) s) args]))))"
  proof (rule simulates_some)
    fix a
    show "simulates ?Q ?Q (emit_when (\<lambda>_. a \<noteq> []) (emit (\<lambda>s. [ToolCallArgumentsDelta (ds_block_index (tool_index tc) s) a])))"
      by (rule simulates_when, rule simulates_conseq [OF ev]) auto
  qed simp
  show ?thesis unfolding ds_tool_call_def Let_def
    by (rule simulates_conseq [OF simulates_block_Cons [OF open' simulates_block_Cons [OF call
          simulates_block_Cons [OF args simulates_block_Nil]]]]) auto
qed

lemma ds_tool_calls_follows:
  assumes "ds_accept_tool_calls delta c = Some c'"
  shows "simulates (ds_ready c) (ds_ready c') (ds_tool_calls delta)"
proof (cases "get_array delta ''tool_calls''")
  case None
  with assms show ?thesis by (simp add: ds_accept_tool_calls_def ds_tool_calls_def simulates_skip)
next
  case (Some tcs)
  let ?c = "c\<lparr>dc_started := True, dc_tooling := True\<rparr>"
  from Some assms have fin: "\<not> dc_finished c" and all: "accept_all ds_accept_tool_call tcs ?c = Some c'"
    by (auto simp: ds_accept_tool_calls_def split: if_splits)
  have loop: "simulates (ds_ready ?c) (ds_ready c') (emit_for tcs ds_tool_call)"
    by (rule simulates_conseq [OF simulates_accept_all [where R = ds_tooling, OF _ all]])
      (use fin in \<open>auto simp: ds_tooling_def intro: ds_tool_call_follows\<close>)
  have flush: "simulates (ds_ready (c\<lparr>dc_started := True\<rparr>)) (ds_ready ?c) (on_interleaver interleaver_flush)"
    using ds_flush_follows [of "c\<lparr>dc_started := True\<rparr>"] fin by simp
  from simulates_then [OF ds_message_follows simulates_then [OF flush simulates_then [OF loop simulates_skip]]] Some
  show ?thesis by (simp add: ds_tool_calls_def)
qed

text \<open>Closing all blocks.\<close>

lemma ds_live_open_flags:
  "ds_live c s v \<Longrightarrow> dc_started c \<Longrightarrow> \<not> dc_finished c \<Longrightarrow> open_envelope v \<and> ds_ready c s v"
  by (auto simp: ds_ready_def ds_rel_defs open_envelope_def)

lemma ds_ready_tooling_close:
  assumes "dc_started c" "dc_tooling c" "\<not> dc_finished c"
  shows "simulates (ds_ready c) (\<lambda>s v. ds_flags c s v \<and> ds_shut s v) drain_open_tool_blocks"
proof (rule simulatesI)
  fix s v
  assume R: "ds_ready c s v"
  let ?xs = "sort (map snd (ds_tools s))"
  have env: "open_envelope v" by (rule ds_envelope [OF R assms(1,3)])
  have phase: "ds_tool_phase (dc_blocks c) s v"
    using R assms by (simp add: ds_ready_def ds_live_def ds_blocks_def)
  have "\<forall>i \<in> set ?xs. map_of (open_blocks v) i = Some KToolCall"
    using phase by (auto simp: ds_tool_phase_def tools_open_def)
  with env phase vrun_tool_stops [of v ?xs] obtain v'
    where v': "vrun v (tool_stops ?xs) = Some v'" "same_flags v v'"
      "map_of (open_blocks v') = (map_of (open_blocks v)) |` (- set ?xs)"
    by (auto simp: open_envelope_def ds_tool_phase_def)
  have "map_of (open_blocks v') = Map.empty"
    using phase unfolding v'(3)
    by (auto simp: ds_tool_phase_def tools_open_def restrict_map_def fun_eq_iff)
  with v'(1,2) R phase show "\<exists>v'. vrun v (snd (drain_open_tool_blocks s)) = Some v'
      \<and> ds_flags c (fst (drain_open_tool_blocks s)) v' \<and> ds_shut (fst (drain_open_tool_blocks s)) v'"
    by (auto simp: drain_open_tool_blocks_def emit_update_def ds_shut_def ds_tool_phase_def
        ds_ready_def ds_live_def ds_flags_def same_flags_def)
qed

lemma ds_close_follows:
  assumes "dc_started c"
  shows "simulates (ds_live c) (\<lambda>s v. ds_flags c s v \<and> ds_shut s v) ds_close"
proof (cases "dc_finished c")
  case True
  then show ?thesis
    by (auto simp: simulates_def ds_close_def ds_live_def ds_blocks_def ds_shut_def on_interleaver_def
        interleaver_flush_def drain_open_tool_blocks_def emitter_defs tool_stops_def ds_flags_def)
next
  case False
  have "simulates (ds_ready c) (\<lambda>s v. ds_flags (c\<lparr>dc_tooling := True\<rparr>) s v \<and> ds_shut s v) ds_close"
    unfolding ds_close_def
    by (rule simulates_then [OF ds_flush_follows [OF assms False] ds_ready_tooling_close])
      (use assms False in auto)
  then show ?thesis
    by (rule simulates_conseq)
      (use assms False ds_live_open_flags in \<open>auto simp: ds_flags_def\<close>)
qed

lemma ds_finish_follows:
  assumes "ds_accept_finish choice c = Some c'"
  shows "simulates (ds_ready c) (ds_ready c') (ds_finish choice)"
proof (cases "get_str choice ''finish_reason'' \<in> {None, Some []}")
  case True
  with assms show ?thesis
    by (auto simp: ds_accept_finish_def ds_finish_def emit_skip_def emit_when_def simulates_def)
next
  case False
  then obtain reason where reason: "get_str choice ''finish_reason'' = Some reason" "reason \<noteq> []"
    by auto
  from False assms have c': "dc_started c" "\<not> dc_finished c" "c' = c\<lparr>dc_finished := True\<rparr>"
    by (auto simp: ds_accept_finish_def split: if_splits)
  have stop: "simulates (\<lambda>s v. ds_flags c s v \<and> ds_shut s v) (ds_ready c') (emit_block
     [emit_update (ds_message_stop_update (\<lambda>_. True))
        (\<lambda>_. [MessageStop (stop_reason_from_provider_string reason) None]),
      modify (ds_completed_update (\<lambda>_. True))])"
    by (rule simulatesI)
      (use c' in \<open>auto simp: emitter_defs validator_checks ds_ready_def ds_rel_defs ds_shut_def\<close>)
  have "simulates (ds_ready c) (ds_ready c') (emit_then ds_close (emit_block
     [emit_update (ds_message_stop_update (\<lambda>_. True))
        (\<lambda>_. [MessageStop (stop_reason_from_provider_string reason) None]),
      modify (ds_completed_update (\<lambda>_. True))]))"
    by (rule simulates_conseq [OF simulates_then [OF ds_close_follows [OF c'(1)] stop]])
      (simp_all add: ds_ready_def)
  with reason show ?thesis by (simp add: ds_finish_def emit_when_def)
qed

lemma ds_role_follows:
  "ds_accept_role delta c = Some c' \<Longrightarrow> simulates (ds_ready c) (ds_ready c') (ds_role delta)"
  by (cases "get_str delta ''role''")
    (auto simp: ds_accept_role_def ds_role_def simulates_skip intro!: ds_message_follows)

lemma ds_choice_follows:
  assumes acc: "ds_accept_choice choice c = Some c'"
  shows "simulates (ds_ready c) (ds_ready c') (ds_choice choice)"
proof (cases "jget choice ''delta''")
  case None
  with acc ds_finish_follows show ?thesis
    by (auto simp: ds_accept_choice_def ds_choice_def intro!: simulates_then simulates_skip)
next
  case (Some delta)
  with acc obtain c1 c2 c3 c4 where "ds_accept_role delta c = Some c1"
      "ds_accept_delta (get_str delta ''reasoning_content'') c1 = Some c2"
      "ds_accept_delta (get_str delta ''content'') c2 = Some c3"
      "ds_accept_tool_calls delta c3 = Some c4" "ds_accept_finish choice c4 = Some c'"
    by (auto simp: ds_accept_choice_def bind_eq_Some_conv)
  then show ?thesis
    using Some by (auto simp: ds_choice_def intro!: simulates_then simulates_skip
        ds_role_follows ds_delta_follows ds_tool_calls_follows ds_finish_follows)
qed

lemma ds_value_follows:
  assumes v: "jget v ''error'' = None" "\<not> dc_done c"
    and acc: "accept_all ds_accept_choice (unwrap_or (get_array v ''choices'') []) c = Some c'"
  shows "simulates (ds_live c) (ds_ready c') (ds_value v)"
proof -
  have start: "simulates (ds_live c) (ds_ready c) (ds_start_response v)"
    by (rule simulatesI)
      (use v in \<open>auto simp: ds_ready_def ds_rel_defs ds_start_response_def emitter_defs validator_checks
        Let_def ds_phase_defs\<close>)
  have usage: "simulates (ds_ready c') (ds_ready c')
      (emit_some (non_null_usage v) (\<lambda>u. emit (\<lambda>_. [UsageDelta (map_usage u)])))"
    by (cases "non_null_usage v")
      (auto simp: simulates_def emitter_defs ds_ready_def ds_rel_defs validator_checks)
  have loop: "simulates (ds_ready c) (ds_ready c')
      (emit_for (unwrap_or (get_array v ''choices'') []) ds_choice)"
    by (rule simulates_accept_all [where R = ds_ready, OF _ acc]) (rule ds_choice_follows)
  from simulates_then [OF start simulates_then [OF loop simulates_then [OF usage simulates_skip]]] v
  show ?thesis by (simp add: ds_value_def)
qed

lemma ds_stop_follows:
  "simulates (\<lambda>s v. ds_flags c s v \<and> ds_shut s v \<and> dc_started c)
     (\<lambda>s v. ds_flags (c\<lparr>dc_finished := True\<rparr>) s v \<and> ds_shut s v) ds_stop_message"
  by (rule simulatesI, cases "dc_finished c")
    (auto simp: ds_stop_message_def emitter_defs validator_checks ds_flags_def ds_shut_def)

lemma ds_done_follows:
  "simulates (ds_live c) (ds_live (c\<lparr>dc_started := True, dc_finished := True, dc_done := True\<rparr>))
     ds_handle_done"
proof -
  let ?c = "c\<lparr>dc_started := True\<rparr>" and ?f = "c\<lparr>dc_started := True, dc_finished := True\<rparr>"
  let ?rs = "emit_when (\<lambda>s. \<not> ds_response_start s) (emit_update (ds_response_start_update (\<lambda>_. True))
           (\<lambda>s. [ResponseStart (ds_id s) (ds_model s) 0]))"
  let ?stop = "emit_block [emit_when (\<lambda>s. \<not> ds_response_stop s)
        (emit_update (ds_response_stop_update (\<lambda>_. True)) (\<lambda>_. [ResponseStop None])),
      modify (ds_completed_update (\<lambda>_. True))]"
  have start: "simulates (ds_live c) (ds_live ?c) (emit_then ?rs ensure_message_start)"
    by (rule simulatesI, cases "dc_started c")
      (auto simp: ensure_message_start_def emitter_defs validator_checks ds_rel_defs ds_phase_defs
        split: if_splits)
  have stop: "simulates (\<lambda>s v. ds_flags ?f s v \<and> ds_shut s v) (ds_live (?f\<lparr>dc_done := True\<rparr>)) ?stop"
    by (rule simulatesI, cases "dc_done c")
      (auto simp: emitter_defs validator_checks ds_rel_defs ds_shut_def)
  have close: "simulates (ds_live ?c) (\<lambda>s v. ds_flags ?c s v \<and> ds_shut s v \<and> dc_started ?c) ds_close"
    by (rule simulates_conseq [OF ds_close_follows]) auto
  have fin: "simulates (\<lambda>s v. ds_flags ?c s v \<and> ds_shut s v \<and> dc_started ?c)
      (\<lambda>s v. ds_flags ?f s v \<and> ds_shut s v) ds_stop_message"
    using ds_stop_follows [of ?c] by simp
  have "ds_handle_done = emit_then (emit_then ?rs ensure_message_start)
      (emit_then ds_close (emit_then ds_stop_message ?stop))"
    by (rule ext) (simp add: ds_handle_done_def emit_then_def emit_skip_def Let_def case_prod_unfold)
  with simulates_then [OF start simulates_then [OF close simulates_then [OF fin stop]]]
  show ?thesis by simp
qed

lemma ds_live_idle:
  "ds_live c s v \<Longrightarrow> \<not> (ds_response_start s \<and> \<not> ds_response_stop s) \<Longrightarrow> open_blocks v = []"
  by (cases "dc_started c"; cases "dc_finished c")
    (auto simp: ds_rel_defs ds_phase_defs split: if_splits)

lemma ds_finalize_validates:
  assumes R: "ds_live c s v"
  shows "validates v (snd (ds_finalize s))"
proof (cases "ds_response_start s \<and> \<not> ds_response_stop s")
  case False
  from ds_live_idle [OF R False] False show ?thesis by (auto simp: ds_finalize_def validates_def)
next
  case True
  let ?c = "c\<lparr>dc_started := True\<rparr>"
  have ready: "ds_ready c s v" using R True by (simp add: ds_ready_def ds_live_def ds_flags_def)
  have close: "simulates (ds_ready ?c) (\<lambda>s v. ds_flags ?c s v \<and> ds_shut s v \<and> dc_started ?c) ds_close"
    by (rule simulates_conseq [OF ds_close_follows]) (auto simp: ds_ready_def)
  have nd: "\<not> dc_done c" using ready by (simp add: ds_ready_def)
  then have stop: "simulates (\<lambda>s v. ds_flags (?c\<lparr>dc_finished := True\<rparr>) s v \<and> ds_shut s v)
      (\<lambda>s v. open_blocks v = [])
      (emit_block [emit_update (ds_response_stop_update (\<lambda>_. True)) (\<lambda>_. [ResponseStop None])])"
    by (auto simp: simulates_def emitter_defs validator_checks ds_flags_def ds_shut_def)
  from simulatesD [OF simulates_then [OF ds_message_follows simulates_then [OF close
        simulates_then [OF ds_stop_follows stop]]], OF ready] True
  show ?thesis by (simp add: ds_finalize_def validates_def emit_block.simps)
qed

section \<open>The parser as a stream producer\<close>

abbreviation ds_quiet :: "ds_emitter \<Rightarrow> bool" where
  "ds_quiet \<equiv> quiet (\<lambda>s. (ds_response_start s, ds_response_stop s))"

lemma quiet_interleaver: "ds_quiet (on_interleaver f)"
  by (simp add: quiet_def on_interleaver_def Let_def case_prod_unfold)

lemma quiet_ds_value: "ds_quiet (ds_value v)"
  by (auto simp: ensure_message_start_def drain_open_tool_blocks_def ds_close_def ds_chunk_defs Let_def
      intro!: quiet_intros quiet_interleaver split: option.splits)

lemma quiet_ds_done: "ds_quiet ds_handle_done"
  by (auto simp: ensure_message_start_def drain_open_tool_blocks_def ds_close_def ds_stop_message_def
      ds_handle_done_def intro!: quiet_intros quiet_interleaver)

definition ds_step :: "(string \<Rightarrow> string + json) \<Rightarrow> StreamState \<Rightarrow> sse_input \<Rightarrow> StreamState \<times> StreamEvent list" where
  "ds_step from_str s i = apsnd ok_events (ds_handle_input from_str s i)"

definition ds_fin :: "StreamState \<Rightarrow> StreamState \<times> StreamEvent list" where
  "ds_fin s = apsnd ok_events (ds_finalize_items s)"

lemma ds_step_cases:
  "ds_step from_str s (SseTransportError e) = (s, [])"
  "ds_step from_str s (SseEvent data) =
     (if data = ''[DONE]'' then ds_handle_done s
      else case from_str data of Inl e \<Rightarrow> (s, []) | Inr v \<Rightarrow> ds_value v s)"
  by (auto simp: ds_step_def ds_handle_input_def ds_parse_chunk_def Let_def case_prod_unfold
      split: sum.splits)

lemma ds_fin_eq: "snd (ds_fin s) = snd (ds_finalize s)"
  by (simp add: ds_fin_def ds_finalize_items_def Let_def case_prod_unfold)

lemma quiet_ds_step: "quiet (\<lambda>s. (ds_response_start s, ds_response_stop s)) (\<lambda>s. ds_step from_str s i)"
  using quiet_ds_done quiet_ds_value
  by (cases i) (auto simp: quiet_def ds_step_cases split: sum.splits)

lemma ds_live_rel: "ds_live c s v \<Longrightarrow> ds_rel c s v"
  by (simp add: ds_rel_def ds_live_def ds_flags_def)

lemma ds_live_follows:
  assumes acc: "ds_accept from_str c i = Some c'" and R: "ds_live c s v"
  shows "\<exists>v'. vrun v (snd (ds_step from_str s i)) = Some v' \<and> ds_rel c' (fst (ds_step from_str s i)) v'"
proof -
  have live: "\<not> terminated_by_error v" "\<not> dc_errored c" using R by (simp_all add: ds_live_def ds_flags_def)
  show ?thesis
  proof (cases i)
    case (SseTransportError e)
    with acc R live show ?thesis by (simp add: ds_accept_def ds_step_cases ds_rel_def)
  next
    case (SseEvent data)
    consider (done') "data = ''[DONE]''" | (bad) e where "data \<noteq> ''[DONE]''" "from_str data = Inl e"
      | (val) j where "data \<noteq> ''[DONE]''" "from_str data = Inr j" by (cases "from_str data") auto
    then show ?thesis
    proof cases
      case done'
      with acc live SseEvent simulatesD [OF ds_done_follows, OF R]
      show ?thesis by (auto simp: ds_accept_def ds_step_cases intro: ds_live_rel)
    next
      case bad
      with acc live SseEvent R show ?thesis
        by (auto simp: ds_accept_def ds_step_cases intro: ds_live_rel)
    next
      case (val j)
      show ?thesis
      proof (cases "jget j ''error''")
        case None
        with val acc live SseEvent have a: "\<not> dc_done c"
          "accept_all ds_accept_choice (unwrap_or (get_array j ''choices'') []) c = Some c'"
          by (auto simp: ds_accept_def split: if_splits)
        from simulatesD [OF ds_value_follows [OF None a], OF R] val SseEvent
        show ?thesis by (auto simp: ds_step_cases ds_ready_def intro: ds_live_rel)
      next
        case (Some err)
        then have c': "dc_errored c'" using acc live SseEvent val by (auto simp: ds_accept_def)
        have idle: "open_blocks v = [] \<or> ds_response_start s \<and> \<not> ds_response_stop s"
          using ds_live_idle [OF R] by blast
        show ?thesis
          using Some SseEvent val live c' idle
          by (simp add: ds_step_cases ds_value_def emit_def ds_rel_def)
      qed
    qed
  qed
qed

lemma ds_finalize_emits:
  "ds_response_start s \<Longrightarrow> \<not> ds_response_stop s \<Longrightarrow> snd (ds_finalize s) \<noteq> []"
  by (auto simp: ds_finalize_def emitter_defs Let_def case_prod_unfold)

interpretation ds: lifecycle_producer "ds_step from_str" stream_state_default
  "ds_accept from_str" ds_contract_start ds_rel validator_init ds_fin for from_str
proof unfold_locales
  show "ds_rel ds_contract_start stream_state_default validator_init"
    by (simp add: ds_rel_def ds_rel_defs ds_contract_start_def stream_state_default_def
        validator_init_def ds_phase_defs interleaver_new_def)
next
  fix c i c'
  assume acc: "ds_accept from_str c i = Some c'"
  show "simulates (ds_rel c) (ds_rel c') (\<lambda>s. ds_step from_str s i)"
  proof (rule simulatesI)
    fix s v
    assume R: "ds_rel c s v"
    show "\<exists>v'. vrun v (snd (ds_step from_str s i)) = Some v' \<and> ds_rel c' (fst (ds_step from_str s i)) v'"
    proof (cases "terminated_by_error v")
      case True
      with R acc have "dc_errored c'" by (auto simp: ds_rel_def ds_accept_def)
      with R True vrun_quiet_terminated [OF True quiet_ds_step [of from_str i], of s]
      show ?thesis by (auto simp: ds_rel_def)
    next
      case False
      with R have "ds_live c s v" by (simp add: ds_rel_def)
      from ds_live_follows [OF acc this] show ?thesis .
    qed
  qed
next
  fix c s v
  assume R: "ds_rel c s v"
  show "validates v (snd (ds_fin s))"
  proof (cases "terminated_by_error v")
    case True
    with R ds_finalize_emits [of s] show ?thesis
      by (auto simp: ds_fin_eq ds_rel_def validates_def vrun_terminated)
  next
    case False
    with R ds_finalize_validates show ?thesis by (simp add: ds_rel_def ds_fin_eq)
  qed
qed

lemma ds_events_eq:
  "ok_events (ds_collect from_str src) =
     run_to_end (ds_step from_str) ds_fin stream_state_default (src_items src)"
  by (simp add: ds_collect_def poll_drain_init ok_events_run_to_end ds_step_def [abs_def]
      ds_fin_def [abs_def])

text \<open>The DeepSeek stream satisfies the canonical lifecycle for every upstream that keeps its
  side of the protocol (reasoning and text, interleaved in any way, before tool calls; one
  finish reason after the message started; nothing but usage after it, nothing after
  \<open>[DONE]\<close>), in particular when the upstream breaks off, sends garbage or an error at any point.\<close>

theorem ds_stream_canonical:
  assumes "accepts (ds_accept from_str) ds_contract_start (src_items src)"
  shows "assert_canonical_lifecycle (ok_events (ds_collect from_str src)) = Inr ()"
  unfolding ds_events_eq by (intro validates_assert ds.produces_canonical assms)

lemmas ds_eval = ds_events_eq ds_step_cases ds_fin_eq stream_state_default_def interleaver_new_def
  ds_statement_defs ds_chunk_defs ds_handle_done_def ds_finalize_def ds_allocate_def
  ds_block_index_def interleaver_defs demo_defs emitter_defs Let_def json_accessors
  tool_function_def tool_index_def as_u32_def non_null_usage_def
  stop_reason_from_provider_string_def tool_stops_def

lemmas ds_accept_eval = ds_accept_def ds_contract_start_def ds_accept_choice_def ds_accept_role_def
  ds_accept_delta_def ds_accept_tool_calls_def ds_accept_tool_call_def ds_accept_finish_def demo_defs
  json_accessors tool_function_def tool_index_def as_u32_def Let_def

theorem ds_stream_canonical_witness:
  "ok_events (ds_collect demo_from_str
     [SrcItem (SseEvent ''text''), SrcItem (SseEvent ''args''), SrcPending, SrcItem (SseEvent ''finish'')])
   = [ResponseStart ''r1'' ''unknown'' 0, MessageStart Assistant, ContentBlockStart 0 KText,
      TextDelta 0 ''hi'', ContentBlockStop 0, ContentBlockStart 1 KToolCall,
      ToolCallArgumentsDelta 1 ''{}'', ToolCallStop 1, ContentBlockStop 1, MessageStop ToolUse None,
      ResponseStop None]
   \<and> assert_canonical_lifecycle (ok_events (ds_collect demo_from_str
     [SrcItem (SseEvent ''text''), SrcItem (SseEvent ''args''), SrcPending, SrcItem (SseEvent ''finish'')])) = Inr ()"
proof
  show "ok_events (ds_collect demo_from_str
     [SrcItem (SseEvent ''text''), SrcItem (SseEvent ''args''), SrcPending, SrcItem (SseEvent ''finish'')])
   = [ResponseStart ''r1'' ''unknown'' 0, MessageStart Assistant, ContentBlockStart 0 KText,
      TextDelta 0 ''hi'', ContentBlockStop 0, ContentBlockStart 1 KToolCall,
      ToolCallArgumentsDelta 1 ''{}'', ToolCallStop 1, ContentBlockStop 1, MessageStop ToolUse None,
      ResponseStop None]"
    by (simp add: ds_eval)
qed (rule ds_stream_canonical; simp add: ds_accept_eval)

text \<open>What the DeepSeek parser does outside that protocol: text that follows a tool call reuses
  the open tool call's block index (rule 1a), a second finish reason emits a second message
  stop (rule 7), and a finish reason before any delta puts the message start after the message
  stop (rule 3).\<close>

theorem ds_stream_violations:
  "assert_canonical_lifecycle (ok_events (ds_collect demo_from_str
     [SrcItem (SseEvent ''tool''), SrcItem (SseEvent ''text'')])) = Inl (5, Rule1a)
   \<and> assert_canonical_lifecycle (ok_events (ds_collect demo_from_str
     [SrcItem (SseEvent ''text''), SrcItem (SseEvent ''finish''), SrcItem (SseEvent ''finish'')])) = Inl (6, Rule7)
   \<and> assert_canonical_lifecycle (ok_events (ds_collect demo_from_str
     [SrcItem (SseEvent ''finish''), SrcItem (SseEvent ''[DONE]'')])) = Inl (2, Rule3)"
  by (simp add: ds_eval assert_canonical_lifecycle_def assert_canonical_lifecycle_strict_def
      validator_init_def validator_checks)

end
