(* ===== verification/Unary_Parser.thy ===== *)
theory Unary_Parser
  imports Deepseek
begin

text \<open>
  The two parsers of complete (non-streaming) chat-completions bodies,
  \<open>providers/src/oai_chat_wire/chat_unary_parser.rs\<close> and \<open>parse_unary\<close> of
  \<open>providers/src/deepseek/response.rs\<close>. The code of the second is the first with another usage
  mapping, so both are instances of \<open>unary_events\<close>. The reader \<open>serde_json::from_slice\<close> is the
  parameter \<open>from_slice\<close> on the bytes of the body.
\<close>

section \<open>The translation\<close>

record unary_state =
  u_stop_reason :: StopReason
  u_block_index :: u32

type_synonym unary_emitter = "(unary_state, StreamEvent) emitter"

definition advance :: "unary_state \<Rightarrow> unary_state" where
  "advance s = s\<lparr>u_block_index := u_block_index s + 1\<rparr>"

definition unary_text :: "string \<Rightarrow> unary_emitter" where
  "unary_text t = emit_when (\<lambda>_. t \<noteq> []) (emit_update advance (\<lambda>s.
     [ContentBlockStart (u_block_index s) KText, TextDelta (u_block_index s) t,
      ContentBlockStop (u_block_index s)]))"

definition unary_tool_call :: "json \<Rightarrow> unary_emitter" where
  "unary_tool_call tc =
     (let cid = unwrap_or (get_str tc ''id'') ''call_unknown'';
          name = unwrap_or (tool_function tc ''name'') [];
          args_str = unwrap_or (tool_function tc ''arguments'') ''{}''
      in emit_update advance (\<lambda>s.
           [ContentBlockStart (u_block_index s) KToolCall, ToolCallStart (u_block_index s) cid name,
            ToolCallArgumentsDelta (u_block_index s) args_str, ToolCallStop (u_block_index s),
            ContentBlockStop (u_block_index s)]))"

definition unary_choice :: "json \<Rightarrow> unary_emitter" where
  "unary_choice choice = emit_block
     [emit_some (get_str choice ''finish_reason'')
        (\<lambda>reason. modify (u_stop_reason_update (\<lambda>_. stop_reason_from_provider_string reason))),
      emit_some (jget choice ''message'') (\<lambda>message. emit_block
        [emit_some (get_str message ''content'') unary_text,
         emit_some (get_array message ''tool_calls'') (\<lambda>tcs. emit_for tcs unary_tool_call)])]"

definition unary_events :: "(json \<Rightarrow> Usage) \<Rightarrow> json \<Rightarrow> string + StreamEvent list" where
  "unary_events usage_of v =
     (case jget v ''error'' of
        Some err \<Rightarrow> Inr [ErrorEvent (error_message err)]
      | None \<Rightarrow>
          (case get_array v ''choices'' of
             None \<Rightarrow> Inl ''missing choices''
           | Some choices \<Rightarrow>
               (let (s, blocks) = emit_for choices unary_choice \<lparr>u_stop_reason = EndTurn, u_block_index = 0\<rparr>
                in Inr ([ResponseStart (unwrap_or (get_str v ''id'') ''unknown'')
                           (unwrap_or (get_str v ''model'') ''unknown'')
                           (unwrap_or (get_u64 v ''created'') 0),
                         MessageStart Assistant] @ blocks @
                        [MessageStop (u_stop_reason s) None,
                         ResponseStop (map_option usage_of (jget v ''usage''))]))))"

definition chat_unary_usage :: "json \<Rightarrow> Usage" where
  "chat_unary_usage u = usage_default\<lparr>
     input_tokens := map_option as_u32 (get_u64 u ''prompt_tokens''),
     output_tokens := map_option as_u32 (get_u64 u ''completion_tokens'')\<rparr>"

definition unary_inner :: "(json \<Rightarrow> Usage) \<Rightarrow> (u8 list \<Rightarrow> string + json) \<Rightarrow> u8 list
    \<Rightarrow> string + StreamEvent list" where
  "unary_inner usage_of from_slice body =
     (case from_slice body of
        Inl e \<Rightarrow> Inl (''json parse: '' @ e)
      | Inr v \<Rightarrow> unary_events usage_of v)"

definition chat_parse_inner :: "(u8 list \<Rightarrow> string + json) \<Rightarrow> u8 list \<Rightarrow> string + StreamEvent list" where
  "chat_parse_inner from_slice body = unary_inner chat_unary_usage from_slice body"

definition ds_parse_unary_inner :: "(u8 list \<Rightarrow> string + json) \<Rightarrow> u8 list \<Rightarrow> string + StreamEvent list" where
  "ds_parse_unary_inner from_slice body = unary_inner map_usage from_slice body"

definition unary_stream :: "string + StreamEvent list \<Rightarrow> stream_item list" where
  "unary_stream r = (case r of Inl e \<Rightarrow> [Inl (SE_Decode e)] | Inr evts \<Rightarrow> map Inr evts)"

definition chat_parse_unary :: "(u8 list \<Rightarrow> string + json) \<Rightarrow> u8 list \<Rightarrow> stream_item list" where
  "chat_parse_unary from_slice body = unary_stream (chat_parse_inner from_slice body)"

definition ds_parse_unary :: "(u8 list \<Rightarrow> string + json) \<Rightarrow> u8 list \<Rightarrow> stream_item list" where
  "ds_parse_unary from_slice body = unary_stream (ds_parse_unary_inner from_slice body)"

section \<open>The lifecycle of a unary response\<close>

text \<open>An upper bound of the number of blocks a body can open.\<close>

definition choice_blocks :: "json \<Rightarrow> nat" where
  "choice_blocks choice = (case jget choice ''message'' of None \<Rightarrow> 0
     | Some message \<Rightarrow> 1 + length (unwrap_or (get_array message ''tool_calls'') []))"

definition body_blocks :: "json \<Rightarrow> nat" where
  "body_blocks v = sum_list (map choice_blocks (unwrap_or (get_array v ''choices'') []))"

definition unary_rel :: "nat \<Rightarrow> unary_state \<Rightarrow> ValidatorState \<Rightarrow> bool" where
  "unary_rel n s v \<longleftrightarrow> open_envelope v \<and> open_blocks v = [] \<and> used_below v (u_block_index s)
     \<and> unat (u_block_index s) + n < 2 ^ 32"

lemma unary_rel_weaken: "unary_rel n s v \<Longrightarrow> m \<le> n \<Longrightarrow> unary_rel m s v"
  by (simp add: unary_rel_def)

lemma unary_tool_call_follows: "simulates (unary_rel (Suc n)) (unary_rel n) (unary_tool_call tc)"
  by (rule simulatesI)
    (auto simp: unary_tool_call_def Let_def emitter_defs advance_def unary_rel_def open_envelope_def
      validator_checks used_below_def unat_Suc_u32 less_Suc_eq)

lemma unary_text_follows: "simulates (unary_rel (Suc n)) (unary_rel n) (unary_text t)"
  by (rule simulatesI)
    (auto simp: unary_text_def Let_def emitter_defs advance_def unary_rel_def open_envelope_def
      validator_checks used_below_def unat_Suc_u32 less_Suc_eq)

lemma unary_tool_calls_follows:
  "simulates (unary_rel (length tcs + n)) (unary_rel n) (emit_for tcs unary_tool_call)"
  by (induction tcs) (auto intro: simulates_skip simulates_then unary_tool_call_follows)

lemma unary_choice_follows:
  "simulates (unary_rel (choice_blocks choice + n)) (unary_rel n) (unary_choice choice)"
proof -
  have reason: "simulates (unary_rel m) (unary_rel m) (emit_some (get_str choice ''finish_reason'')
        (\<lambda>reason. modify (u_stop_reason_update (\<lambda>_. stop_reason_from_provider_string reason))))" for m
    by (rule simulates_some) (auto simp: simulates_def modify_def unary_rel_def)
  show ?thesis
  proof (cases "jget choice ''message''")
    case None
    with simulates_then [OF reason simulates_then [OF simulates_skip simulates_skip]] show ?thesis
      by (simp add: unary_choice_def choice_blocks_def)
  next
    case (Some message)
    let ?tcs = "unwrap_or (get_array message ''tool_calls'') []"
    have content: "simulates (unary_rel (Suc m)) (unary_rel m)
        (emit_some (get_str message ''content'') unary_text)" for m
      by (cases "get_str message ''content''")
        (simp_all add: unary_text_follows, simp add: simulates_def emit_skip_def unary_rel_weaken)
    have calls: "simulates (unary_rel (length ?tcs + n)) (unary_rel n)
        (emit_some (get_array message ''tool_calls'') (\<lambda>tcs. emit_for tcs unary_tool_call))"
      by (cases "get_array message ''tool_calls''") (auto simp: unary_tool_calls_follows simulates_skip)
    from simulates_then [OF reason simulates_then [OF simulates_then [OF content
          simulates_then [OF calls simulates_skip]] simulates_skip]] Some
    show ?thesis by (simp add: unary_choice_def choice_blocks_def)
  qed
qed

lemma unary_choices_follows:
  "simulates (unary_rel (sum_list (map choice_blocks choices) + n)) (unary_rel n)
     (emit_for choices unary_choice)"
proof (induction choices)
  case (Cons choice choices)
  from simulates_then [OF unary_choice_follows Cons.IH] show ?case by (simp add: add.assoc)
qed (simp add: simulates_skip)

lemma unary_events_canonical:
  assumes "unary_events usage_of v = Inr evts" "body_blocks v < 2 ^ 32"
  shows "assert_canonical_lifecycle evts = Inr ()"
proof (cases "jget v ''error''")
  case (Some err)
  with assms show ?thesis
    by (auto simp: unary_events_def assert_canonical_lifecycle_def assert_canonical_lifecycle_strict_def
        validator_init_def)
next
  case None
  with assms obtain choices where choices: "get_array v ''choices'' = Some choices"
    by (auto simp: unary_events_def split: option.splits)
  let ?s0 = "\<lparr>u_stop_reason = EndTurn, u_block_index = 0\<rparr>"
  obtain s blocks where run: "emit_for choices unary_choice ?s0 = (s, blocks)" by fastforce
  have "unary_rel (body_blocks v + 0) ?s0 envelope_opened"
    using assms(2) by (simp add: unary_rel_def envelope_opened_def validator_init_def open_envelope_def
        used_below_def)
  with simulatesD [OF unary_choices_follows, of choices 0 ?s0] choices run obtain v'
    where "vrun envelope_opened blocks = Some v'" "unary_rel 0 s v'"
    by (auto simp: body_blocks_def)
  then have "validates envelope_opened (blocks @ [MessageStop r q, ResponseStop u])" for r q u
    by (auto simp: unary_rel_def intro: validates_append validates_close_envelope)
  with assms(1) None choices run show ?thesis
    by (auto simp: unary_events_def intro: envelope_assert)
qed

text \<open>Whatever JSON an upstream returns as a complete response (with fewer than \<open>2 ^ 32\<close> content
  blocks), the events that the chat parser and the DeepSeek parser make of it satisfy the
  canonical lifecycle; a body they cannot read becomes one decode error and no event.\<close>

theorem unary_canonical:
  assumes "\<And>v. from_slice body = Inr v \<Longrightarrow> body_blocks v < 2 ^ 32"
  shows "assert_canonical_lifecycle (ok_events (chat_parse_unary from_slice body)) = Inr ()
     \<and> assert_canonical_lifecycle (ok_events (ds_parse_unary from_slice body)) = Inr ()"
proof -
  have "assert_canonical_lifecycle (ok_events (unary_stream (unary_inner usage_of from_slice body))) = Inr ()"
    for usage_of
  proof (cases "unary_inner usage_of from_slice body")
    case (Inl e)
    then show ?thesis
      by (simp add: unary_stream_def assert_canonical_lifecycle_def assert_canonical_lifecycle_strict_def
          validator_init_def)
  next
    case (Inr evts)
    then obtain v where "from_slice body = Inr v" "unary_events usage_of v = Inr evts"
      by (auto simp: unary_inner_def split: sum.splits)
    with Inr assms unary_events_canonical show ?thesis by (auto simp: unary_stream_def)
  qed
  then show ?thesis
    by (simp add: chat_parse_unary_def ds_parse_unary_def chat_parse_inner_def ds_parse_unary_inner_def)
qed

definition demo_body :: json where
  "demo_body = JObject [(''id'', JString ''r''), (''choices'', JArray [JObject
     [(''finish_reason'', JString ''stop''), (''message'', JObject [(''content'', JString ''hi'')])]])]"

theorem unary_canonical_witness:
  "chat_parse_unary (\<lambda>_. Inr demo_body) [1] = map Inr
     [ResponseStart ''r'' ''unknown'' 0, MessageStart Assistant, ContentBlockStart 0 KText,
      TextDelta 0 ''hi'', ContentBlockStop 0, MessageStop EndTurn None, ResponseStop None]
   \<and> assert_canonical_lifecycle (ok_events (chat_parse_unary (\<lambda>_. Inr demo_body) [1])) = Inr ()
   \<and> assert_canonical_lifecycle (ok_events (ds_parse_unary (\<lambda>_. Inr demo_body) [1])) = Inr ()"
proof
  show "chat_parse_unary (\<lambda>_. Inr demo_body) [1] = map Inr
     [ResponseStart ''r'' ''unknown'' 0, MessageStart Assistant, ContentBlockStart 0 KText,
      TextDelta 0 ''hi'', ContentBlockStop 0, MessageStop EndTurn None, ResponseStop None]"
    by (simp add: chat_parse_unary_def chat_parse_inner_def unary_inner_def unary_events_def
        unary_stream_def unary_choice_def unary_text_def advance_def demo_body_def json_accessors
        emitter_defs Let_def stop_reason_from_provider_string_def)
qed (rule unary_canonical, simp add: body_blocks_def choice_blocks_def demo_body_def json_accessors)

end
