(* ===== verification/Encoder_Stream.thy ===== *)
theory Encoder_Stream
  imports Emitter Serde
begin

text \<open>
  What the three front-end encoders share: the framing helpers of \<open>frontends/src/sse.rs\<close>, the hand-written
  \<open>Stream\<close> that drains its buffer, stops after a handler asked it to and ends with its source, and
  the keep-alive wrapper. A handler takes one canonical item and yields the frames it pushes and
  whether the stream is finished. The encoders only ever push \<open>Ok\<close> items, so an output item is the
  string of its bytes. Parameters: \<open>to_writer\<close>, the JSON writer of \<open>serde_json\<close> (\<open>None\<close>: it failed),
  and the answers of the interval timer.
\<close>

section \<open>Frames\<close>

abbreviation newline :: char where
  "newline \<equiv> CHR 0x0A"

definition data_frame :: "string \<Rightarrow> string" where
  "data_frame data_json = ''data: '' @ data_json @ [newline, newline]"

definition event_frame :: "string \<Rightarrow> string \<Rightarrow> string" where
  "event_frame event_name data_json =
     ''event: '' @ event_name @ [newline] @ ''data: '' @ data_json @ [newline, newline]"

definition comment_frame :: "string \<Rightarrow> string" where
  "comment_frame txt = '': '' @ txt @ [newline, newline]"

definition event_serialized :: "(json \<Rightarrow> string option) \<Rightarrow> string \<Rightarrow> json \<Rightarrow> string option" where
  "event_serialized to_writer event_name v = map_option (event_frame event_name) (to_writer v)"

definition data_only_serialized :: "(json \<Rightarrow> string option) \<Rightarrow> json \<Rightarrow> string" where
  "data_only_serialized to_writer v = (case to_writer v of None \<Rightarrow> [] | Some s \<Rightarrow> data_frame s)"

section \<open>The encoder stream\<close>

text \<open>What a front end yields per item: frames, or for the Responses dialect frames and encoding errors.\<close>

type_synonym ('s, 'o) item_handler = "'s \<Rightarrow> stream_item \<Rightarrow> 's \<times> 'o list \<times> bool"

type_synonym 's handler = "('s, string) item_handler"

record ('s, 'o) encoder_stream =
  es_source :: "stream_item source_poll list"
  es_state :: 's
  es_pending :: "'o list"
  es_done :: bool

definition encoder_init :: "stream_item source_poll list \<Rightarrow> 's \<Rightarrow> ('s, 'o) encoder_stream" where
  "encoder_init src s = \<lparr>es_source = src, es_state = s, es_pending = [], es_done = False\<rparr>"

function encoder_poll :: "('s, 'o) item_handler \<Rightarrow> ('s, 'o) encoder_stream \<Rightarrow> 'o poll \<times> ('s, 'o) encoder_stream" where
  "encoder_poll handle m =
     (case es_pending m of
        x # xs \<Rightarrow> (ReadySome x, m\<lparr>es_pending := xs\<rparr>)
      | [] \<Rightarrow>
          (if es_done m then (ReadyNone, m)
           else case es_source m of
             SrcItem i # src \<Rightarrow>
               (let (s', out, stop) = handle (es_state m) i
                in encoder_poll handle (m\<lparr>es_source := src, es_state := s', es_pending := out, es_done := stop\<rparr>))
           | [] \<Rightarrow> (ReadyNone, m)
           | SrcPending # src \<Rightarrow> (Pending, m\<lparr>es_source := src\<rparr>)))"
  by pat_completeness auto
termination
  by (relation "measure (\<lambda>(_, m). length (es_source m))") auto

declare encoder_poll.simps [simp del]

definition encoder_rank :: "(('s, 'o) encoder_stream \<Rightarrow> nat) list" where
  "encoder_rank = [\<lambda>m. length (es_source m), \<lambda>m. length (es_pending m)]"

text \<open>The reference: the handler's output on each item until it asks to stop.\<close>

fun run_encoder :: "('s, 'o) item_handler \<Rightarrow> 's \<Rightarrow> stream_item list \<Rightarrow> 'o list" where
  "run_encoder handle s [] = []"
| "run_encoder handle s (i # is) =
     (let (s', out, stop) = handle s i in out @ (if stop then [] else run_encoder handle s' is))"

definition encoder_owed :: "('s, 'o) item_handler \<Rightarrow> ('s, 'o) encoder_stream \<Rightarrow> 'o list" where
  "encoder_owed handle m = es_pending m @
     (if es_done m then [] else run_encoder handle (es_state m) (src_items (es_source m)))"

lemma encoder_poll_owed:
  "encoder_poll handle m = (r, m') \<Longrightarrow>
     (r \<noteq> ReadyNone \<longrightarrow> (m', m) \<in> measures encoder_rank)
     \<and> encoder_owed handle m = (case r of ReadySome x \<Rightarrow> x # encoder_owed handle m'
                                  | Pending \<Rightarrow> encoder_owed handle m' | ReadyNone \<Rightarrow> [])"
proof (induction handle m rule: encoder_poll.induct)
  case (1 handle m)
  show ?case
  proof (cases "es_pending m = [] \<and> \<not> es_done m \<and> (\<exists>i src. es_source m = SrcItem i # src)")
    case True
    then obtain i src where src: "es_source m = SrcItem i # src" by blast
    obtain s' out stop where h: "handle (es_state m) i = (s', out, stop)" by (metis prod_cases3)
    let ?m = "m\<lparr>es_source := src, es_state := s', es_pending := out, es_done := stop\<rparr>"
    have "encoder_poll handle ?m = (r, m')"
      using 1(2) True src h by (simp add: encoder_poll.simps [of handle m])
    from 1(1) [OF _ _ src refl h [symmetric] refl refl this] True
    have "r \<noteq> ReadyNone \<longrightarrow> (m', ?m) \<in> measures encoder_rank"
        "encoder_owed handle ?m = (case r of ReadySome x \<Rightarrow> x # encoder_owed handle m'
           | Pending \<Rightarrow> encoder_owed handle m' | ReadyNone \<Rightarrow> [])" by auto
    moreover have "encoder_owed handle m = encoder_owed handle ?m"
      using True src h by (simp add: encoder_owed_def)
    moreover have "(m', ?m) \<in> measures encoder_rank \<Longrightarrow> (m', m) \<in> measures encoder_rank"
      using src by (auto simp: encoder_rank_def)
    ultimately show ?thesis by auto
  next
    case False
    then show ?thesis
      using 1(2) by (auto simp: encoder_poll.simps [of handle m] encoder_owed_def encoder_rank_def
          split: list.splits source_poll.splits if_splits)
  qed
qed

section \<open>The keep-alive wrapper\<close>

definition keepalive_poll :: "'o \<Rightarrow> bool \<Rightarrow> 'o poll \<Rightarrow> 'o poll" where
  "keepalive_poll ping tick inner =
     (case inner of
        ReadySome x \<Rightarrow> ReadySome x
      | ReadyNone \<Rightarrow> ReadyNone
      | Pending \<Rightarrow> (if tick then ReadySome ping else Pending))"

text \<open>What a consumer collects that polls until the stream ends: \<open>tick n\<close> is the timer's answer at the
  \<open>n\<close>-th poll, \<open>ping\<close> the item it injects, and \<open>keepalive = False\<close> is the encoder without the wrapper.\<close>

function drain_outputs :: "'o \<Rightarrow> ('s, 'o) item_handler \<Rightarrow> bool \<Rightarrow> (nat \<Rightarrow> bool) \<Rightarrow> nat \<Rightarrow> ('s, 'o) encoder_stream \<Rightarrow> 'o list" where
  "drain_outputs ping handle keepalive tick n m =
     (case encoder_poll handle m of (inner, m') \<Rightarrow>
        (case (if keepalive then keepalive_poll ping (tick n) inner else inner) of
           ReadySome x \<Rightarrow> x # drain_outputs ping handle keepalive tick (Suc n) m'
         | Pending \<Rightarrow> drain_outputs ping handle keepalive tick (Suc n) m'
         | ReadyNone \<Rightarrow> []))"
  by pat_completeness auto
termination
proof (relation "inv_image (measures encoder_rank) (\<lambda>(_, _, _, _, _, m). m)")
  fix ping :: 'o and handle :: "('s, 'o) item_handler" and keepalive tick and n :: nat and m m' :: "('s, 'o) encoder_stream" and inner x
  assume p: "(inner, m') = encoder_poll handle m"
  show "((ping, handle, keepalive, tick, Suc n, m'), ping, handle, keepalive, tick, n, m)
      \<in> inv_image (measures encoder_rank) (\<lambda>(_, _, _, _, _, m). m)"
    if "(if keepalive then keepalive_poll ping (tick n) inner else inner) = ReadySome x"
    using encoder_poll_owed [OF p [symmetric]] that
    by (auto simp: keepalive_poll_def simp del: in_measures split: if_splits)
  show "((ping, handle, keepalive, tick, Suc n, m'), ping, handle, keepalive, tick, n, m)
      \<in> inv_image (measures encoder_rank) (\<lambda>(_, _, _, _, _, m). m)"
    if "(if keepalive then keepalive_poll ping (tick n) inner else inner) = Pending"
    using encoder_poll_owed [OF p [symmetric]] that
    by (auto simp: keepalive_poll_def simp del: in_measures split: if_splits)
qed simp

declare drain_outputs.simps [simp del]

lemma drain_outputs_plain: "drain_outputs ping handle False tick n m = encoder_owed handle m"
proof (induction ping handle False tick n m rule: drain_outputs.induct)
  case (1 ping handle tick n m)
  obtain inner m' where p: "encoder_poll handle m = (inner, m')" by fastforce
  show ?case
    using encoder_poll_owed [OF p] 1 p
    by (auto simp: drain_outputs.simps [of ping handle False tick n m] split: poll.splits)
qed

lemma drain_outputs_keepalive:
  assumes "ping \<notin> set (encoder_owed handle m)"
  shows "filter (\<lambda>f. f \<noteq> ping) (drain_outputs ping handle True tick n m) = encoder_owed handle m"
  using assms
proof (induction ping handle True tick n m rule: drain_outputs.induct)
  case (1 ping handle tick n m)
  obtain inner m' where p: "encoder_poll handle m = (inner, m')" by fastforce
  show ?case
    using encoder_poll_owed [OF p] 1 p
    by (cases inner; cases "tick n")
      (auto simp: drain_outputs.simps [of ping handle True tick n m] keepalive_poll_def)
qed

abbreviation drain_encoder :: "'s handler \<Rightarrow> bool \<Rightarrow> (nat \<Rightarrow> bool) \<Rightarrow> nat \<Rightarrow> ('s, string) encoder_stream \<Rightarrow> string list" where
  "drain_encoder \<equiv> drain_outputs (comment_frame ''ping'')"

lemma encoder_owed_init [simp]: "encoder_owed handle (encoder_init src s) = run_encoder handle s (src_items src)"
  by (simp add: encoder_owed_def encoder_init_def)

section \<open>The decoder at the other end\<close>

text \<open>The contract of an event-stream decoder (the \<open>eventsource_stream\<close> crate): on one-line blocks it
  yields the data of the events in order and ignores comments.\<close>

datatype sse_block = DataBlock string | EventBlock string string | CommentBlock string

fun block_bytes :: "sse_block \<Rightarrow> string" where
  "block_bytes (DataBlock d) = data_frame d"
| "block_bytes (EventBlock n d) = event_frame n d"
| "block_bytes (CommentBlock c) = comment_frame c"

fun block_data :: "sse_block \<Rightarrow> string list" where
  "block_data (DataBlock d) = [d]"
| "block_data (EventBlock n d) = [d]"
| "block_data (CommentBlock c) = []"

fun block_text :: "sse_block \<Rightarrow> string" where
  "block_text (DataBlock d) = d"
| "block_text (EventBlock n d) = n @ d"
| "block_text (CommentBlock c) = c"

definition sse_decodes :: "(string list \<Rightarrow> sse_input list) \<Rightarrow> bool" where
  "sse_decodes decode \<longleftrightarrow> (\<forall>bs. (\<forall>b \<in> set bs. newline \<notin> set (block_text b)) \<longrightarrow>
     decode (map block_bytes bs) = map SseEvent (concat (map block_data bs)))"

text \<open>The JSON writer and reader agree on a value: its text is one line, not blank, not \<open>[DONE]\<close>,
  and reads back.\<close>

definition serde_roundtrip :: "(json \<Rightarrow> string option) \<Rightarrow> (string \<Rightarrow> string + json) \<Rightarrow> json \<Rightarrow> bool" where
  "serde_roundtrip w from_str v \<longleftrightarrow>
     (\<exists>d. w v = Some d \<and> from_str d = Inr v \<and> newline \<notin> set d \<and> trim d \<noteq> [] \<and> d \<noteq> ''[DONE]'')"

definition plain_block :: "sse_block \<Rightarrow> bool" where
  "plain_block b \<longleftrightarrow> newline \<notin> set (block_text b) \<and> (\<forall>c. b \<noteq> CommentBlock c)"

lemma plain_block_not_comment: "plain_block b \<Longrightarrow> block_bytes b \<noteq> comment_frame c"
  by (cases b) (simp_all add: plain_block_def data_frame_def event_frame_def comment_frame_def)

lemma blocks_of_frames:
  "filter (\<lambda>f. f \<noteq> comment_frame ''ping'') fs = map block_bytes ds \<Longrightarrow>
     \<exists>bs. map block_bytes bs = fs \<and> concat (map block_data bs) = concat (map block_data ds)
        \<and> set bs \<subseteq> insert (CommentBlock ''ping'') (set ds)"
proof (induction fs arbitrary: ds)
  case Nil
  then show ?case by simp
next
  case (Cons f fs)
  show ?case
  proof (cases "f = comment_frame ''ping''")
    case True
    with Cons.prems have "filter (\<lambda>f. f \<noteq> comment_frame ''ping'') fs = map block_bytes ds" by simp
    from Cons.IH [OF this] obtain bs where "map block_bytes bs = fs"
      "concat (map block_data bs) = concat (map block_data ds)"
      "set bs \<subseteq> insert (CommentBlock ''ping'') (set ds)" by auto
    with True show ?thesis by (intro exI [of _ "CommentBlock ''ping'' # bs"]) auto
  next
    case False
    with Cons.prems obtain d ds' where ds: "ds = d # ds'" "f = block_bytes d"
      "filter (\<lambda>f. f \<noteq> comment_frame ''ping'') fs = map block_bytes ds'" by auto
    from Cons.IH [OF ds(3)] obtain bs where "map block_bytes bs = fs"
      "concat (map block_data bs) = concat (map block_data ds')"
      "set bs \<subseteq> insert (CommentBlock ''ping'') (set ds')" by auto
    with ds show ?thesis by (intro exI [of _ "d # bs"]) auto
  qed
qed

text \<open>Keep-alive or not, at every poll schedule, the decoder sees exactly the handler's blocks.\<close>

lemma drain_decodes:
  assumes dec: "sse_decodes decode"
    and run: "run_encoder handle s (src_items src) = map block_bytes ds"
    and plain: "\<forall>b \<in> set ds. plain_block b"
  shows "decode (drain_encoder handle ka tick n (encoder_init src s)) = map SseEvent (concat (map block_data ds))"
proof -
  let ?fs = "drain_encoder handle ka tick n (encoder_init src s)"
  have owed: "encoder_owed handle (encoder_init src s) = map block_bytes ds" by (simp add: run)
  have noping: "comment_frame ''ping'' \<notin> set (map block_bytes ds)"
    using plain plain_block_not_comment by (metis imageE list.set_map)
  have "filter (\<lambda>f. f \<noteq> comment_frame ''ping'') ?fs = map block_bytes ds"
  proof (cases ka)
    case True
    then show ?thesis using drain_outputs_keepalive [OF noping [folded owed]] by (simp only: owed)
  next
    case False
    have "filter (\<lambda>f. f \<noteq> comment_frame ''ping'') (map block_bytes ds) = map block_bytes ds"
      using noping by (intro filter_True) blast
    with False show ?thesis by (simp only: drain_outputs_plain owed)
  qed
  from blocks_of_frames [OF this] obtain bs where bs: "map block_bytes bs = ?fs"
    "concat (map block_data bs) = concat (map block_data ds)"
    "set bs \<subseteq> insert (CommentBlock ''ping'') (set ds)" by blast
  then have "\<forall>b \<in> set bs. newline \<notin> set (block_text b)" using plain by (auto simp: plain_block_def)
  with dec have "decode (map block_bytes bs) = map SseEvent (concat (map block_data bs))"
    unfolding sse_decodes_def by blast
  then show ?thesis by (simp add: bs)
qed

text \<open>A decoder that meets the contract.\<close>

definition plain_decode :: "string list \<Rightarrow> sse_input list" where
  "plain_decode frames = concat (map (\<lambda>f.
     if take 6 f = ''data: '' then [SseEvent (take (length f - 8) (drop 6 f))]
     else if take 7 f = ''event: ''
       then (let rest = drop 7 (dropWhile (\<lambda>c. c \<noteq> newline) f) in [SseEvent (take (length rest - 2) rest)])
     else []) frames)"

lemma plain_decode_decodes: "sse_decodes plain_decode"
  unfolding sse_decodes_def
proof (intro allI impI)
  fix bs
  assume "\<forall>b \<in> set bs. newline \<notin> set (block_text b)"
  then show "plain_decode (map block_bytes bs) = map SseEvent (concat (map block_data bs))"
  proof (induction bs)
    case (Cons b bs)
    have name: "dropWhile (\<lambda>c. c \<noteq> newline) (n @ newline # r) = newline # r" if "newline \<notin> set n" for n r
      using that by (induction n) auto
    from Cons show ?case
      by (cases b) (simp_all add: plain_decode_def data_frame_def event_frame_def comment_frame_def name)
  qed (simp add: plain_decode_def)
qed

end
