(* ===== verification/Chat_Encoder.thy ===== *)
theory Chat_Encoder
  imports Encoder_Stream Chat_Sse_Parser
begin

text \<open>
  The OpenAI chat front end's stream encoder: \<open>frontends/src/openai_chat/encode_stream.rs\<close> with its wire types
  (\<open>wire.rs\<close>, \<open>mapping.rs\<close>). Parameters: the JSON writer, the derived \<open>Display\<close> of a stream error and
  the system clock's reading. Integer sums wrap.
\<close>

section \<open>Wire types\<close>

record ToolCallDeltaOut =
  td_index :: u32
  td_id :: "string option"
  td_ty :: "string option"
  td_fn_name :: "string option"
  td_fn_arguments :: "string option"

record DeltaOut =
  do_role :: "string option"
  do_content :: "string option"
  do_tool_calls :: "ToolCallDeltaOut list"

record UsageOut =
  uo_prompt_tokens :: u32
  uo_completion_tokens :: u32
  uo_total_tokens :: u32

definition delta_default :: DeltaOut where
  "delta_default = \<lparr>do_role = None, do_content = None, do_tool_calls = []\<rparr>"

definition tool_call_delta_json :: "ToolCallDeltaOut \<Rightarrow> json" where
  "tool_call_delta_json d = JObject ([(''index'', json_u32 (td_index d))] @ opt_member ''id'' JString (td_id d)
     @ opt_member ''type'' JString (td_ty d)
     @ [(''function'', JObject (opt_member ''name'' JString (td_fn_name d)
          @ opt_member ''arguments'' JString (td_fn_arguments d)))])"

definition delta_json :: "DeltaOut \<Rightarrow> json" where
  "delta_json d = JObject (opt_member ''role'' JString (do_role d) @ opt_member ''content'' JString (do_content d)
     @ (if do_tool_calls d = [] then [] else [(''tool_calls'', JArray (map tool_call_delta_json (do_tool_calls d)))]))"

definition choice_json :: "DeltaOut \<Rightarrow> string option \<Rightarrow> json" where
  "choice_json delta finish_reason = JObject [(''index'', JPosInt 0), (''delta'', delta_json delta),
     (''finish_reason'', case finish_reason of None \<Rightarrow> JNull | Some r \<Rightarrow> JString r)]"

definition usage_json :: "UsageOut \<Rightarrow> json" where
  "usage_json u = JObject [(''prompt_tokens'', json_u32 (uo_prompt_tokens u)),
     (''completion_tokens'', json_u32 (uo_completion_tokens u)), (''total_tokens'', json_u32 (uo_total_tokens u))]"

fun finish_reason_from_canonical :: "StopReason \<Rightarrow> string" where
  "finish_reason_from_canonical EndTurn = ''stop''"
| "finish_reason_from_canonical MaxTokens = ''length''"
| "finish_reason_from_canonical ToolUse = ''tool_calls''"
| "finish_reason_from_canonical ContentFilter = ''content_filter''"
| "finish_reason_from_canonical StopSequence = ''stop''"
| "finish_reason_from_canonical (OtherStop s) = ''stop''"

section \<open>The encoder\<close>

record ChatEncoderState =
  ce_response_id :: string
  ce_model :: string
  ce_created :: u64

definition chat_encoder_new :: "u64 option \<Rightarrow> u64 \<Rightarrow> ChatEncoderState" where
  "chat_encoder_new clock_override now =
     \<lparr>ce_response_id = [], ce_model = [], ce_created = unwrap_or clock_override now\<rparr>"

definition chunk_json :: "ChatEncoderState \<Rightarrow> json list \<Rightarrow> UsageOut option \<Rightarrow> json" where
  "chunk_json st choices usage = JObject ([(''id'', JString (ce_response_id st)),
     (''object'', JString ''chat.completion.chunk''), (''created'', JPosInt (ce_created st)),
     (''model'', JString (ce_model st)), (''choices'', JArray choices)] @ opt_member ''usage'' usage_json usage)"

definition make_chunk :: "(json \<Rightarrow> string option) \<Rightarrow> ChatEncoderState \<Rightarrow> DeltaOut \<Rightarrow> string option \<Rightarrow> string" where
  "make_chunk to_writer st delta finish_reason =
     data_only_serialized to_writer (chunk_json st [choice_json delta finish_reason] None)"

definition usage_out :: "Usage \<Rightarrow> UsageOut" where
  "usage_out u = \<lparr>uo_prompt_tokens = unwrap_or (input_tokens u) 0,
     uo_completion_tokens = unwrap_or (output_tokens u) 0,
     uo_total_tokens = unwrap_or (input_tokens u) 0 + unwrap_or (output_tokens u) 0\<rparr>"

definition make_usage_chunk :: "(json \<Rightarrow> string option) \<Rightarrow> ChatEncoderState \<Rightarrow> Usage \<Rightarrow> string" where
  "make_usage_chunk to_writer st u = data_only_serialized to_writer (chunk_json st [] (Some (usage_out u)))"

definition error_json :: "string \<Rightarrow> json" where
  "error_json message = JObject [(''error'', JObject [(''message'', JString message)])]"

definition done_frame :: string where
  "done_frame = data_frame ''[DONE]''"

definition tool_start_delta :: "u32 \<Rightarrow> ToolCallId \<Rightarrow> string \<Rightarrow> DeltaOut" where
  "tool_start_delta index cid name = delta_default\<lparr>do_tool_calls := [\<lparr>td_index = index, td_id = Some cid,
     td_ty = Some ''function'', td_fn_name = Some name, td_fn_arguments = Some []\<rparr>]\<rparr>"

definition tool_args_delta :: "u32 \<Rightarrow> string \<Rightarrow> DeltaOut" where
  "tool_args_delta index frag = delta_default\<lparr>do_tool_calls := [\<lparr>td_index = index, td_id = None,
     td_ty = None, td_fn_name = None, td_fn_arguments = Some frag\<rparr>]\<rparr>"

definition chat_encode_event :: "(json \<Rightarrow> string option) \<Rightarrow> u64 option \<Rightarrow> ChatEncoderState \<Rightarrow> StreamEvent
    \<Rightarrow> ChatEncoderState \<times> string list \<times> bool" where
  "chat_encode_event to_writer clock_override st ev =
     (case ev of
        ResponseStart rid model created \<Rightarrow>
          (let st' = st\<lparr>ce_response_id := rid, ce_model := model,
                 ce_created := (if clock_override = None then created else ce_created st)\<rparr>
           in (st', [make_chunk to_writer st' (delta_default\<lparr>do_role := Some ''assistant''\<rparr>) None], False))
      | ToolCallStart index cid name \<Rightarrow>
          (st, [make_chunk to_writer st (tool_start_delta index cid name) None], False)
      | TextDelta index t \<Rightarrow> (st, [make_chunk to_writer st (delta_default\<lparr>do_content := Some t\<rparr>) None], False)
      | ToolCallArgumentsDelta index frag \<Rightarrow>
          (st, [make_chunk to_writer st (tool_args_delta index frag) None], False)
      | MessageStop stop_reason stop_sequence \<Rightarrow>
          (st, [make_chunk to_writer st delta_default (Some (finish_reason_from_canonical stop_reason))], False)
      | ResponseStop usage \<Rightarrow>
          (st, (case usage of None \<Rightarrow> [] | Some u \<Rightarrow> [make_usage_chunk to_writer st u]) @ [done_frame], True)
      | ErrorEvent message \<Rightarrow> (st, [data_only_serialized to_writer (error_json message)], False)
      | _ \<Rightarrow> (st, [], False))"

definition chat_encode_handle :: "(json \<Rightarrow> string option) \<Rightarrow> (StreamError \<Rightarrow> string) \<Rightarrow> u64 option
    \<Rightarrow> ChatEncoderState handler" where
  "chat_encode_handle to_writer display clock_override st item =
     (case item of
        Inl e \<Rightarrow> (st, [data_only_serialized to_writer (error_json (display e)), done_frame], True)
      | Inr ev \<Rightarrow> chat_encode_event to_writer clock_override st ev)"

definition chat_encode :: "(json \<Rightarrow> string option) \<Rightarrow> (StreamError \<Rightarrow> string) \<Rightarrow> bool \<Rightarrow> (nat \<Rightarrow> bool)
    \<Rightarrow> u64 option \<Rightarrow> u64 \<Rightarrow> stream_item source_poll list \<Rightarrow> string list" where
  "chat_encode to_writer display keepalive tick clock_override now src =
     drain_encoder (chat_encode_handle to_writer display clock_override) keepalive tick 0
       (encoder_init src (chat_encoder_new clock_override now))"

section \<open>What goes over the wire\<close>

text \<open>The values the encoder writes, \<open>None\<close> standing for \<open>[DONE]\<close>.\<close>

definition encoder_after :: "u64 option \<Rightarrow> ChatEncoderState \<Rightarrow> StreamEvent \<Rightarrow> ChatEncoderState" where
  "encoder_after clk st ev =
     (case ev of ResponseStart rid model created \<Rightarrow> st\<lparr>ce_response_id := rid, ce_model := model,
        ce_created := (if clk = None then created else ce_created st)\<rparr> | _ \<Rightarrow> st)"

definition event_deltas :: "StreamEvent \<Rightarrow> (DeltaOut \<times> string option) list" where
  "event_deltas ev =
     (case ev of
        ResponseStart rid model created \<Rightarrow> [(delta_default\<lparr>do_role := Some ''assistant''\<rparr>, None)]
      | ToolCallStart i cid name \<Rightarrow> [(tool_start_delta i cid name, None)]
      | TextDelta i t \<Rightarrow> [(delta_default\<lparr>do_content := Some t\<rparr>, None)]
      | ToolCallArgumentsDelta i frag \<Rightarrow> [(tool_args_delta i frag, None)]
      | MessageStop r ss \<Rightarrow> [(delta_default, Some (finish_reason_from_canonical r))]
      | _ \<Rightarrow> [])"

definition event_values :: "ChatEncoderState \<Rightarrow> StreamEvent \<Rightarrow> json list" where
  "event_values st ev =
     map (\<lambda>(delta, finish). chunk_json st [choice_json delta finish] None) (event_deltas ev)
     @ (case ev of ErrorEvent m \<Rightarrow> [error_json m] | ResponseStop (Some u) \<Rightarrow> [chunk_json st [] (Some (usage_out u))] | _ \<Rightarrow> [])"

definition is_response_stop :: "StreamEvent \<Rightarrow> bool" where
  "is_response_stop ev = (case ev of ResponseStop _ \<Rightarrow> True | _ \<Rightarrow> False)"

fun chat_wire :: "(StreamError \<Rightarrow> string) \<Rightarrow> u64 option \<Rightarrow> ChatEncoderState \<Rightarrow> stream_item list \<Rightarrow> json option list" where
  "chat_wire display clk st [] = []"
| "chat_wire display clk st (Inl e # is) = [Some (error_json (display e)), None]"
| "chat_wire display clk st (Inr ev # is) =
     map Some (event_values (encoder_after clk st ev) ev)
     @ (if is_response_stop ev then [None] else chat_wire display clk (encoder_after clk st ev) is)"

definition wire_frame :: "(json \<Rightarrow> string option) \<Rightarrow> json option \<Rightarrow> string" where
  "wire_frame w o' = (case o' of None \<Rightarrow> done_frame | Some v \<Rightarrow> data_only_serialized w v)"

lemma run_chat_encoder:
  "run_encoder (chat_encode_handle w display clk) st is = map (wire_frame w) (chat_wire display clk st is)"
proof (induction display clk st "is" rule: chat_wire.induct)
  case (3 display clk st ev "is")
  then show ?case
    by (cases ev) (auto simp: chat_encode_handle_def chat_encode_event_def encoder_after_def event_values_def
        event_deltas_def is_response_stop_def wire_frame_def make_chunk_def make_usage_chunk_def Let_def
        split: option.splits)
qed (simp_all add: chat_encode_handle_def wire_frame_def)

section \<open>The round trip through the chat parser\<close>

definition wire_data :: "(json \<Rightarrow> string option) \<Rightarrow> json option \<Rightarrow> string" where
  "wire_data w o' = (case o' of None \<Rightarrow> ''[DONE]'' | Some v \<Rightarrow> the (w v))"

lemma wire_frame_data:
  "\<forall>v. o' = Some v \<longrightarrow> serde_roundtrip w from_str v \<Longrightarrow>
     wire_frame w o' = block_bytes (DataBlock (wire_data w o')) \<and> plain_block (DataBlock (wire_data w o'))"
  by (auto simp: wire_frame_def wire_data_def serde_roundtrip_def done_frame_def data_only_serialized_def
      plain_block_def split: option.splits)

lemma chat_encode_decodes:
  assumes dec: "sse_decodes decode"
    and ok: "\<forall>v. Some v \<in> set (chat_wire display clk (chat_encoder_new clk now) (src_items src)) \<longrightarrow> serde_roundtrip w from_str v"
  shows "decode (chat_encode w display ka tick clk now src)
    = map (SseEvent \<circ> wire_data w) (chat_wire display clk (chat_encoder_new clk now) (src_items src))"
proof -
  let ?os = "chat_wire display clk (chat_encoder_new clk now) (src_items src)"
  let ?bs = "map (DataBlock \<circ> wire_data w) ?os"
  have frame: "wire_frame w o' = block_bytes (DataBlock (wire_data w o')) \<and> plain_block (DataBlock (wire_data w o'))"
    if "o' \<in> set ?os" for o'
    by (rule wire_frame_data) (use ok that in blast)
  then have run: "run_encoder (chat_encode_handle w display clk) (chat_encoder_new clk now) (src_items src)
      = map block_bytes ?bs"
    by (simp add: run_chat_encoder)
  have "\<forall>b \<in> set ?bs. plain_block b" using frame by simp
  from drain_decodes [OF dec run this] show ?thesis
    unfolding chat_encode_def by (simp add: comp_def concat_map_singleton)
qed

text \<open>What a chat client can see of a canonical stream: text and tool calls up to the first
  \<open>ResponseStop\<close> or stream error; empty fragments vanish, reasoning is not part of the dialect, and
  reading the stream back numbers the tool blocks one higher.\<close>

fun visible_payload :: "payload \<Rightarrow> payload list" where
  "visible_payload (PText t) = (if t = [] then [] else [PText t])"
| "visible_payload (PReasoning t) = []"
| "visible_payload (PCall i cid name) = [PCall (i + 1) cid name]"
| "visible_payload (PArgs i frag) = (if frag = [] then [] else [PArgs (i + 1) frag])"

fun chat_visible :: "stream_item list \<Rightarrow> payload list" where
  "chat_visible [] = []"
| "chat_visible (Inl e # is) = []"
| "chat_visible (Inr ev # is) = concat (map visible_payload (event_payload ev))
     @ (if is_response_stop ev then [] else chat_visible is)"

lemmas chat_value_defs = chunk_json_def choice_json_def delta_json_def tool_call_delta_json_def delta_default_def
  tool_start_delta_def tool_args_delta_def error_json_def json_u32_def

definition value_payload :: "json \<Rightarrow> payload list" where
  "value_payload v =
     (if jget v ''error'' \<noteq> None then []
      else concat (map (\<lambda>choice. case jget choice ''delta'' of None \<Rightarrow> [] | Some delta \<Rightarrow> delta_payloads delta)
        (unwrap_or (get_array v ''choices'') [])))"

lemma input_payload_wire:
  "\<forall>v. o' = Some v \<longrightarrow> serde_roundtrip w from_str v \<Longrightarrow>
     input_payload from_str (SseEvent (wire_data w o')) = (case o' of None \<Rightarrow> [] | Some v \<Rightarrow> value_payload v)"
  by (auto simp: input_payload_def wire_data_def serde_roundtrip_def value_payload_def split: option.splits)

lemma event_values_payload:
  "concat (map value_payload (event_values st ev)) = concat (map visible_payload (event_payload ev))"
  by (cases ev) (auto simp: event_values_def event_deltas_def value_payload_def chat_value_defs json_accessors
      delta_payloads_def tool_call_payload_def non_empty_def tool_function_def tool_index_def split: option.splits)

lemma chat_wire_payload:
  "concat (map (\<lambda>o'. case o' of None \<Rightarrow> [] | Some v \<Rightarrow> value_payload v) (chat_wire display clk st is)) = chat_visible is"
proof (induction display clk st "is" rule: chat_wire.induct)
  case (3 display clk st ev "is")
  have "concat (map (\<lambda>o'. case o' of None \<Rightarrow> [] | Some v \<Rightarrow> value_payload v) (map Some vs)) = concat (map value_payload vs)" for vs
    by (simp add: comp_def)
  with 3 event_values_payload show ?case by simp
qed (simp_all add: value_payload_def chat_value_defs)

lemma chat_wire_done:
  "None \<in> set (chat_wire display clk st is) \<Longrightarrow>
     \<exists>vs. chat_wire display clk st is = map Some vs @ [None]"
proof (induction display clk st "is" rule: chat_wire.induct)
  case (2 display clk st e "is")
  show ?case by (intro exI [of _ "[error_json (display e)]"]) simp
next
  case (3 display clk st ev "is")
  show ?case
  proof (cases "is_response_stop ev")
    case False
    with 3 obtain vs where "chat_wire display clk (encoder_after clk st ev) is = map Some vs @ [None]" by auto
    with False show ?thesis
      by (intro exI [of _ "event_values (encoder_after clk st ev) ev @ vs"]) simp
  qed auto
qed simp

lemma chat_wire_ends: "None \<in> set (chat_wire display clk st is) \<longleftrightarrow>
    (\<exists>i \<in> set is. case i of Inl e \<Rightarrow> True | Inr ev \<Rightarrow> is_response_stop ev)"
  by (induction display clk st "is" rule: chat_wire.induct) auto

text \<open>C10. Round trip through the chat dialect. For every canonical stream, every poll schedule and with or
  without keep-alive pings, a client that decodes the encoder's bytes and reads them with the
  chat parser recovers exactly the visible content, in order; and it sees \<open>[DONE]\<close> at most once,
  as the last event, and sees it whenever the stream stopped or failed.\<close>

theorem chat_reencode_roundtrip:
  assumes "sse_decodes decode"
    and "\<forall>v. Some v \<in> set (chat_wire display clk (chat_encoder_new clk now) (src_items src)) \<longrightarrow> serde_roundtrip w from_str v"
  shows "payload_of (ok_events (chat_collect from_str order
      (map SrcItem (decode (chat_encode w display ka tick clk now src))))) = chat_visible (src_items src)
    \<and> (\<exists>ds. decode (chat_encode w display ka tick clk now src) =
         map SseEvent (ds @ (if \<exists>i \<in> set (src_items src). case i of Inl e \<Rightarrow> True | Inr ev \<Rightarrow> is_response_stop ev
                             then [''[DONE]''] else [])) \<and> ''[DONE]'' \<notin> set ds)"
proof
  let ?os = "chat_wire display clk (chat_encoder_new clk now) (src_items src)"
  note dec = chat_encode_decodes [OF assms, of ka tick]
  have items: "src_items (map SrcItem xs) = xs" for xs :: "'x list" by (induction xs) simp_all
  have "input_payload from_str (SseEvent (wire_data w o')) = (case o' of None \<Rightarrow> [] | Some v \<Rightarrow> value_payload v)"
    if "o' \<in> set ?os" for o'
    by (rule input_payload_wire) (use assms(2) that in blast)
  then have "map (input_payload from_str) (map (SseEvent \<circ> wire_data w) ?os)
      = map (\<lambda>o'. case o' of None \<Rightarrow> [] | Some v \<Rightarrow> value_payload v) ?os" by simp
  then show "payload_of (ok_events (chat_collect from_str order
      (map SrcItem (decode (chat_encode w display ka tick clk now src))))) = chat_visible (src_items src)"
    by (simp only: dec chat_events_eq chat_payload items chat_wire_payload)
  have data: "wire_data w (Some v) \<noteq> ''[DONE]''" if "Some v \<in> set ?os" for v
    using assms(2) that by (auto simp: wire_data_def serde_roundtrip_def)
  show "\<exists>ds. decode (chat_encode w display ka tick clk now src) =
         map SseEvent (ds @ (if \<exists>i \<in> set (src_items src). case i of Inl e \<Rightarrow> True | Inr ev \<Rightarrow> is_response_stop ev
                             then [''[DONE]''] else [])) \<and> ''[DONE]'' \<notin> set ds"
  proof (cases "None \<in> set ?os")
    case True
    then obtain vs where vs: "?os = map Some vs @ [None]" using chat_wire_done by blast
    from True have ended: "\<exists>i \<in> set (src_items src). case i of Inl e \<Rightarrow> True | Inr ev \<Rightarrow> is_response_stop ev"
      by (simp only: chat_wire_ends)
    have "''[DONE]'' \<notin> set (map (\<lambda>v. wire_data w (Some v)) vs)" using data vs by fastforce
    with ended vs show ?thesis unfolding dec
      by (intro exI [of _ "map (\<lambda>v. wire_data w (Some v)) vs"]) (simp add: wire_data_def)
  next
    case False
    with data have "''[DONE]'' \<notin> set (map (wire_data w) ?os)"
      by (auto simp: image_iff) (metis option.exhaust)
    with False show ?thesis unfolding dec
      by (intro exI [of _ "map (wire_data w) ?os"]) (simp add: chat_wire_ends)
  qed
qed

abbreviation demo_text_chunk :: json where
  "demo_text_chunk \<equiv> chunk_json (chat_encoder_new (Some 7) 0) [choice_json (delta_default\<lparr>do_content := Some ''hi''\<rparr>) None] None"

abbreviation demo_tool_chunk :: json where
  "demo_tool_chunk \<equiv> chunk_json (chat_encoder_new (Some 7) 0) [choice_json (tool_start_delta 1 ''c1'' ''f'') None] None"

lemma demo_chunks_differ: "demo_tool_chunk \<noteq> demo_text_chunk"
  by (simp add: chat_value_defs)

theorem chat_reencode_roundtrip_witness:
  "payload_of (ok_events (chat_collect (\<lambda>d. Inr (if d = ''a'' then demo_text_chunk else demo_tool_chunk)) (\<lambda>xs. xs)
      (map SrcItem (plain_decode (chat_encode (\<lambda>v. Some (if v = demo_text_chunk then ''a'' else ''b'')) (\<lambda>_. ''e'') True
        (\<lambda>_. True) (Some 7) 0 [SrcItem (Inr (TextDelta 0 ''hi'')), SrcPending, SrcItem (Inr (ToolCallStart 1 ''c1'' ''f'')),
          SrcItem (Inr (ResponseStop None))])))))
   = [PText ''hi'', PCall 2 ''c1'' ''f'']"
proof -
  let ?src = "[SrcItem (Inr (TextDelta 0 ''hi'')), SrcPending, SrcItem (Inr (ToolCallStart 1 ''c1'' ''f'')),
    SrcItem (Inr (ResponseStop None))] :: stream_item source_poll list"
  let ?w = "\<lambda>v. Some (if v = demo_text_chunk then ''a'' else ''b'')"
  let ?r = "\<lambda>d. Inr (if d = ''a'' then demo_text_chunk else demo_tool_chunk) :: string + json"
  have wire: "chat_wire (\<lambda>_. ''e'') (Some 7) (chat_encoder_new (Some 7) 0) (src_items ?src)
      = [Some demo_text_chunk, Some demo_tool_chunk, None]"
    by (simp add: event_values_def event_deltas_def encoder_after_def is_response_stop_def)
  have "serde_roundtrip ?w ?r demo_text_chunk" "serde_roundtrip ?w ?r demo_tool_chunk"
    using demo_chunks_differ by (simp_all add: serde_roundtrip_def trim_def is_space_def)
  then have "\<forall>v. Some v \<in> set (chat_wire (\<lambda>_. ''e'') (Some 7) (chat_encoder_new (Some 7) 0) (src_items ?src)) \<longrightarrow> serde_roundtrip ?w ?r v"
    unfolding wire by auto
  from chat_reencode_roundtrip [OF plain_decode_decodes this, of "\<lambda>xs. xs" True "\<lambda>_. True"]
  show ?thesis by (simp add: is_response_stop_def)
qed

section \<open>What proxying loses\<close>

text \<open>No event the chat parser yields is a \<open>ResponseStop\<close> with usage: usage only travels in \<open>UsageDelta\<close>.
  Only an error chunk makes it yield an error event.\<close>

definition bare_stop :: "StreamEvent \<Rightarrow> bool" where
  "bare_stop ev = (case ev of ResponseStop (Some u) \<Rightarrow> False | _ \<Rightarrow> True)"

definition plain_event :: "StreamEvent \<Rightarrow> bool" where
  "plain_event ev = (case ev of ResponseStop (Some u) \<Rightarrow> False | ErrorEvent m \<Rightarrow> False | _ \<Rightarrow> True)"

lemma plain_bare: "list_all plain_event es \<Longrightarrow> list_all bare_stop es"
  by (auto simp: list_all_iff plain_event_def bare_stop_def split: StreamEvent.splits option.splits)

lemma plain_error_free: "list_all plain_event es \<Longrightarrow> error_free es"
  by (auto simp: list_all_iff plain_event_def error_free_def split: StreamEvent.splits)

lemma plain_tool_stops [simp]: "list_all plain_event (tool_stops is)"
  by (auto simp: tool_stops_def list_all_iff plain_event_def)

lemma plain_statements:
  "emits_only plain_event start_message" "emits_only plain_event close_text_block"
  "emits_only plain_event (drain_tool_blocks order)" "emits_only plain_event (stop_message r)"
  "emits_only plain_event (start_response v)"
  by (auto simp: chat_statement_defs start_response_def Let_def plain_event_def emits_only_def emitter_defs case_prod_unfold)

lemma plain_tool_call: "emits_only plain_event (handle_tool_call tc)"
  by (auto simp: handle_tool_call_def Let_def plain_event_def intro!: emits_only_intros)

lemma plain_choice: "emits_only plain_event (handle_choice order choice)"
  by (auto simp: handle_choice_def handle_role_def handle_content_def handle_tool_calls_def handle_finish_def
      intro!: emits_only_intros emits_only_for plain_statements plain_tool_call simp: plain_event_def)

lemma plain_value: "jget v ''error'' = None \<Longrightarrow> emits_only plain_event (handle_value order v)"
  by (auto simp: handle_value_def plain_event_def intro!: emits_only_intros emits_only_for plain_statements plain_choice
      split: option.splits)

lemma plain_done: "emits_only plain_event (handle_done order)"
  by (auto simp: handle_done_def plain_event_def intro!: emits_only_intros emits_only_for plain_statements)

lemma plain_finalize: "list_all plain_event (snd (finalize order s))"
proof -
  have "emits_only plain_event (emit_block [start_message, close_text_block, drain_tool_blocks order, stop_message EndTurn,
      emit_update (emitted_response_stop_update (\<lambda>_. True)) (\<lambda>_. [ResponseStop None])])"
    by (auto simp: plain_event_def intro!: emits_only_intros emits_only_for plain_statements)
  then show ?thesis by (simp add: finalize_def emits_only_def)
qed

lemma bare_value: "list_all bare_stop (snd (handle_value order v s))"
proof (cases "jget v ''error''")
  case None
  with plain_value [of v order] show ?thesis by (auto simp: emits_only_def intro: plain_bare)
qed (simp add: handle_value_def emit_update_def bare_stop_def)

lemma bare_step: "list_all bare_stop (snd (chat_step from_str order s i))"
  using plain_bare plain_done [of order]
  by (cases i) (auto simp: chat_step_cases emits_only_def bare_value split: sum.splits)

lemma chat_collect_bare: "list_all bare_stop (ok_events (chat_collect from_str order src))"
proof -
  have "list_all bare_stop (run_to_end (chat_step from_str order) (chat_fin order) s is)" for s "is"
    by (induction "is" arbitrary: s) (simp_all add: bare_step plain_bare [OF plain_finalize] chat_fin_eq)
  then show ?thesis by (simp add: chat_events_eq)
qed

lemma chat_wire_no_usage:
  "list_all bare_stop (ok_events is) \<Longrightarrow> Some v \<in> set (chat_wire display clk st is) \<Longrightarrow> jget v ''usage'' = None"
proof (induction display clk st "is" rule: chat_wire.induct)
  case (3 display clk st ev "is")
  have "jget v ''usage'' = None" if "v \<in> set (event_values (encoder_after clk st ev) ev)"
    using that 3(2) by (cases ev) (auto simp: event_values_def event_deltas_def chat_value_defs json_accessors bare_stop_def
        split: option.splits)
  with 3 show ?case by (auto split: if_splits)
qed (auto simp: chat_value_defs json_accessors)

definition usage_chunk :: json where
  "usage_chunk = JObject [(''id'', JString ''r1''), (''choices'', JArray []),
     (''usage'', JObject [(''prompt_tokens'', JPosInt 5), (''completion_tokens'', JPosInt 3)])]"

text \<open>What proxying a chat upstream to a chat client loses. Whatever the upstream sends, not one
  chunk written to the client carries \<open>usage\<close>: the parser reports usage as \<open>UsageDelta\<close> (second conjunct:
  an upstream that reports 5 and 3 tokens) and stops the response with none, while the encoder
  ignores \<open>UsageDelta\<close> and writes only the usage of \<open>ResponseStop\<close>.\<close>

theorem chat_proxy_drops_usage:
  "filter (\<lambda>o'. case o' of None \<Rightarrow> False | Some v \<Rightarrow> jget v ''usage'' \<noteq> None)
     (chat_wire display clk st (chat_collect from_str order src)) = []
   \<and> UsageDelta (usage_default\<lparr>input_tokens := Some 5, output_tokens := Some 3\<rparr>)
        \<in> set (ok_events (chat_collect (\<lambda>_. Inr usage_chunk) order [SrcItem (SseEvent ''usage''), SrcItem (SseEvent ''[DONE]'')]))"
proof
  show "filter (\<lambda>o'. case o' of None \<Rightarrow> False | Some v \<Rightarrow> jget v ''usage'' \<noteq> None)
     (chat_wire display clk st (chat_collect from_str order src)) = []"
    using chat_wire_no_usage [OF chat_collect_bare] by (auto simp: filter_empty_conv split: option.split)
qed (simp add: chat_eval usage_chunk_def usage_default_def)

end
