(* ===== verification/Anthropic_Parser.thy ===== *)
theory Anthropic_Parser
  imports Lifecycle Serde
begin

text \<open>
  The Anthropic provider's response parsers: \<open>providers/src/anthropic/response.rs\<close> with the incoming wire
  types of \<open>wire.rs\<close>. Parameters: the JSON reader \<open>from_str\<close>, the message \<open>shape_error v\<close> with which
  \<open>serde\<close> rejects a value of the wrong shape, the JSON writer that prints a complete tool input, and
  the sequence of server-sent events. \<open>flat_map\<close> over the events is the polling machine without a
  closing step: this parser adds nothing when its upstream just ends.
\<close>

section \<open>Incoming wire types\<close>

record IncomingUsage =
  iu_input_tokens :: "u32 option"
  iu_output_tokens :: "u32 option"
  iu_cache_creation_input_tokens :: "u32 option"
  iu_cache_read_input_tokens :: "u32 option"

record IncomingMessageStart =
  ims_id :: string
  ims_model :: string
  ims_usage :: "IncomingUsage option"

datatype IncomingContentBlockStart =
    StartText string
  | StartToolUse string string json
  | StartThinking string
  | StartRedactedThinking string

datatype IncomingContentBlockDelta =
    InTextDelta string
  | InInputJsonDelta string
  | InThinkingDelta string
  | InSignatureDelta string

record IncomingMessageDelta =
  imd_stop_reason :: "string option"
  imd_stop_sequence :: "string option"

record IncomingErrorPayload =
  iep_ty :: string
  iep_message :: string

datatype IncomingEvent =
    InMessageStart IncomingMessageStart
  | InContentBlockStart u32 IncomingContentBlockStart
  | InContentBlockDelta u32 IncomingContentBlockDelta
  | InContentBlockStop u32
  | InMessageDelta IncomingMessageDelta "IncomingUsage option"
  | InMessageStop
  | InPing
  | InError IncomingErrorPayload

datatype IncomingContentBlock =
    InText string
  | InToolUse string string json
  | InThinking string "string option"
  | InRedactedThinking string

record IncomingMessagesResponse =
  imr_id :: string
  imr_model :: string
  imr_content :: "IncomingContentBlock list"
  imr_stop_reason :: "string option"
  imr_stop_sequence :: "string option"
  imr_usage :: "IncomingUsage option"

definition incoming_usage :: "json \<Rightarrow> IncomingUsage option" where
  "incoming_usage v = Option.bind (de_object v) (\<lambda>_.
     Option.bind (de_option v ''input_tokens'' de_u32) (\<lambda>a.
     Option.bind (de_option v ''output_tokens'' de_u32) (\<lambda>b.
     Option.bind (de_option v ''cache_creation_input_tokens'' de_u32) (\<lambda>c.
     Option.bind (de_option v ''cache_read_input_tokens'' de_u32) (\<lambda>d.
       Some \<lparr>iu_input_tokens = a, iu_output_tokens = b, iu_cache_creation_input_tokens = c,
             iu_cache_read_input_tokens = d\<rparr>)))))"

definition incoming_message_start :: "json \<Rightarrow> IncomingMessageStart option" where
  "incoming_message_start v = Option.bind (de_object v) (\<lambda>_.
     Option.bind (de_field v ''id'' as_str) (\<lambda>i.
     Option.bind (de_default v ''model'' [] as_str) (\<lambda>m.
     Option.bind (de_option v ''usage'' incoming_usage) (\<lambda>u.
       Some \<lparr>ims_id = i, ims_model = m, ims_usage = u\<rparr>))))"

definition incoming_block_start :: "json \<Rightarrow> IncomingContentBlockStart option" where
  "incoming_block_start v = Option.bind (de_field v ''type'' as_str) (\<lambda>ty.
     if ty = ''text'' then map_option StartText (de_default v ''text'' [] as_str)
     else if ty = ''tool_use'' then
       Option.bind (de_field v ''id'' as_str) (\<lambda>i. Option.bind (de_field v ''name'' as_str) (\<lambda>n.
         map_option (StartToolUse i n) (de_default v ''input'' JNull Some)))
     else if ty = ''thinking'' then map_option StartThinking (de_default v ''thinking'' [] as_str)
     else if ty = ''redacted_thinking'' then map_option StartRedactedThinking (de_default v ''data'' [] as_str)
     else None)"

definition incoming_delta :: "json \<Rightarrow> IncomingContentBlockDelta option" where
  "incoming_delta v = Option.bind (de_field v ''type'' as_str) (\<lambda>ty.
     if ty = ''text_delta'' then map_option InTextDelta (de_field v ''text'' as_str)
     else if ty = ''input_json_delta'' then map_option InInputJsonDelta (de_field v ''partial_json'' as_str)
     else if ty = ''thinking_delta'' then map_option InThinkingDelta (de_field v ''thinking'' as_str)
     else if ty = ''signature_delta'' then map_option InSignatureDelta (de_field v ''signature'' as_str)
     else None)"

definition incoming_message_delta :: "json \<Rightarrow> IncomingMessageDelta option" where
  "incoming_message_delta v = Option.bind (de_object v) (\<lambda>_.
     Option.bind (de_option v ''stop_reason'' as_str) (\<lambda>r.
     Option.bind (de_option v ''stop_sequence'' as_str) (\<lambda>q.
       Some \<lparr>imd_stop_reason = r, imd_stop_sequence = q\<rparr>)))"

definition incoming_error :: "json \<Rightarrow> IncomingErrorPayload option" where
  "incoming_error v = Option.bind (de_object v) (\<lambda>_.
     Option.bind (de_default v ''type'' [] as_str) (\<lambda>t.
     Option.bind (de_default v ''message'' [] as_str) (\<lambda>m.
       Some \<lparr>iep_ty = t, iep_message = m\<rparr>)))"

definition incoming_event :: "json \<Rightarrow> IncomingEvent option" where
  "incoming_event v = Option.bind (de_field v ''type'' as_str) (\<lambda>ty.
     if ty = ''message_start'' then map_option InMessageStart (de_field v ''message'' incoming_message_start)
     else if ty = ''content_block_start'' then
       Option.bind (de_field v ''index'' de_u32) (\<lambda>i.
         map_option (InContentBlockStart i) (de_field v ''content_block'' incoming_block_start))
     else if ty = ''content_block_delta'' then
       Option.bind (de_field v ''index'' de_u32) (\<lambda>i.
         map_option (InContentBlockDelta i) (de_field v ''delta'' incoming_delta))
     else if ty = ''content_block_stop'' then map_option InContentBlockStop (de_field v ''index'' de_u32)
     else if ty = ''message_delta'' then
       Option.bind (de_field v ''delta'' incoming_message_delta) (\<lambda>d.
         map_option (InMessageDelta d) (de_option v ''usage'' incoming_usage))
     else if ty = ''message_stop'' then Some InMessageStop
     else if ty = ''ping'' then Some InPing
     else if ty = ''error'' then map_option InError (de_field v ''error'' incoming_error)
     else None)"

section \<open>Usage\<close>

definition anth_map_usage :: "IncomingUsage \<Rightarrow> Usage" where
  "anth_map_usage u = usage_default\<lparr>input_tokens := iu_input_tokens u, output_tokens := iu_output_tokens u,
     cache_creation_input_tokens := iu_cache_creation_input_tokens u,
     cache_read_input_tokens := iu_cache_read_input_tokens u\<rparr>"

text \<open>\<open>if let Some(v) = delta.f { acc.f = Some(acc.f.unwrap_or(0).max(v)) }\<close>\<close>

definition merge_count :: "u32 option \<Rightarrow> u32 option \<Rightarrow> u32 option" where
  "merge_count acc delta = (case delta of None \<Rightarrow> acc | Some v \<Rightarrow> Some (max (unwrap_or acc 0) v))"

definition merge_usage :: "Usage \<Rightarrow> Usage \<Rightarrow> Usage" where
  "merge_usage acc delta = acc\<lparr>input_tokens := merge_count (input_tokens acc) (input_tokens delta),
     output_tokens := merge_count (output_tokens acc) (output_tokens delta),
     cache_creation_input_tokens := merge_count (cache_creation_input_tokens acc) (cache_creation_input_tokens delta),
     cache_read_input_tokens := merge_count (cache_read_input_tokens acc) (cache_read_input_tokens delta)\<rparr>"

definition is_usage_empty :: "Usage \<Rightarrow> bool" where
  "is_usage_empty u \<longleftrightarrow> input_tokens u = None \<and> output_tokens u = None
     \<and> cache_creation_input_tokens u = None \<and> cache_read_input_tokens u = None"

section \<open>The stream parser\<close>

record AnthStreamState =
  an_stop_reason :: "StopReason option"
  an_stop_sequence :: "string option"
  an_accumulated_usage :: Usage
  an_open_tool_indices :: "u32 list"
  an_completed :: bool

definition anth_state_default :: AnthStreamState where
  "anth_state_default = \<lparr>an_stop_reason = None, an_stop_sequence = None, an_accumulated_usage = usage_default,
     an_open_tool_indices = [], an_completed = False\<rparr>"

type_synonym anth_emitter = "(AnthStreamState, StreamEvent) emitter"

definition report_usage :: "IncomingUsage option \<Rightarrow> anth_emitter" where
  "report_usage usage = emit_some usage (\<lambda>u.
     emit_update (\<lambda>s. s\<lparr>an_accumulated_usage := merge_usage (an_accumulated_usage s) (anth_map_usage u)\<rparr>)
       (\<lambda>_. [UsageDelta (anth_map_usage u)]))"

fun anth_block_start :: "u32 \<Rightarrow> IncomingContentBlockStart \<Rightarrow> anth_emitter" where
  "anth_block_start index (StartText t) = emit (\<lambda>_.
     ContentBlockStart index KText # (if t = [] then [] else [TextDelta index t]))"
| "anth_block_start index (StartToolUse i name inp) =
     emit_update (\<lambda>s. s\<lparr>an_open_tool_indices := List.insert index (an_open_tool_indices s)\<rparr>)
       (\<lambda>_. [ContentBlockStart index KToolCall, ToolCallStart index i name])"
| "anth_block_start index (StartThinking t) = emit (\<lambda>_.
     ContentBlockStart index KReasoning # (if t = [] then [] else [ReasoningDelta index t]))"
| "anth_block_start index (StartRedactedThinking d) = emit (\<lambda>_. [ContentBlockStart index KRedactedReasoning])"

fun anth_delta :: "u32 \<Rightarrow> IncomingContentBlockDelta \<Rightarrow> StreamEvent list" where
  "anth_delta index (InTextDelta t) = [TextDelta index t]"
| "anth_delta index (InInputJsonDelta j) = [ToolCallArgumentsDelta index j]"
| "anth_delta index (InThinkingDelta t) = [ReasoningDelta index t]"
| "anth_delta index (InSignatureDelta g) = []"

definition anth_message_delta :: "IncomingMessageDelta \<Rightarrow> AnthStreamState \<Rightarrow> AnthStreamState" where
  "anth_message_delta d s =
     (let s1 = (case imd_stop_reason d of None \<Rightarrow> s
                | Some r \<Rightarrow> s\<lparr>an_stop_reason := Some (stop_reason_from_anthropic r)\<rparr>)
      in case imd_stop_sequence d of None \<Rightarrow> s1 | Some q \<Rightarrow> s1\<lparr>an_stop_sequence := Some q\<rparr>)"

fun anth_event :: "IncomingEvent \<Rightarrow> anth_emitter" where
  "anth_event (InMessageStart m) = emit_block
     [emit (\<lambda>_. [ResponseStart (ims_id m) (ims_model m) 0, MessageStart Assistant]), report_usage (ims_usage m)]"
| "anth_event (InContentBlockStart index cb) = anth_block_start index cb"
| "anth_event (InContentBlockDelta index d) = emit (\<lambda>_. anth_delta index d)"
| "anth_event (InContentBlockStop index) =
     emit_update (\<lambda>s. s\<lparr>an_open_tool_indices := removeAll index (an_open_tool_indices s)\<rparr>)
       (\<lambda>s. (if index \<in> set (an_open_tool_indices s) then [ToolCallStop index] else []) @ [ContentBlockStop index])"
| "anth_event (InMessageDelta d usage) = emit_block [modify (anth_message_delta d), report_usage usage]"
| "anth_event InMessageStop =
     emit_update (\<lambda>s. s\<lparr>an_stop_reason := None, an_stop_sequence := None, an_accumulated_usage := usage_default,
                        an_completed := True\<rparr>)
       (\<lambda>s. [MessageStop (unwrap_or (an_stop_reason s) EndTurn) (an_stop_sequence s),
              ResponseStop (Some (an_accumulated_usage s))])"
| "anth_event InPing = emit_skip"
| "anth_event (InError e) = emit (\<lambda>_. [ErrorEvent (''upstream '' @ iep_ty e @ '': '' @ iep_message e)])"

text \<open>\<open>serde_json::from_str::<IncomingEvent>\<close>\<close>

definition read_event :: "(string \<Rightarrow> string + json) \<Rightarrow> (json \<Rightarrow> string) \<Rightarrow> string \<Rightarrow> string + IncomingEvent" where
  "read_event from_str shape_error data =
     (case from_str data of
        Inl e \<Rightarrow> Inl e
      | Inr v \<Rightarrow> (case incoming_event v of None \<Rightarrow> Inl (shape_error v) | Some ev \<Rightarrow> Inr ev))"

definition anth_parse_chunk :: "(string \<Rightarrow> string + json) \<Rightarrow> (json \<Rightarrow> string) \<Rightarrow> string \<Rightarrow> AnthStreamState
    \<Rightarrow> AnthStreamState \<times> (string + StreamEvent list)" where
  "anth_parse_chunk from_str shape_error data s =
     (if trim data = [] then (s, Inr [])
      else case read_event from_str shape_error data of
          Inl e \<Rightarrow> (s, Inl (''anthropic SSE json parse: '' @ e))
        | Inr ev \<Rightarrow> (let (s', out) = anth_event ev s in (s', Inr out)))"

definition anth_handle_input :: "(string \<Rightarrow> string + json) \<Rightarrow> (json \<Rightarrow> string)
    \<Rightarrow> AnthStreamState \<Rightarrow> sse_input \<Rightarrow> AnthStreamState \<times> stream_item list" where
  "anth_handle_input from_str shape_error s i =
     (case i of
        SseTransportError e \<Rightarrow> (if an_completed s then (s, []) else (s, [Inl (SE_Upstream e)]))
      | SseEvent data \<Rightarrow>
          (case anth_parse_chunk from_str shape_error data s of
             (s', Inr evts) \<Rightarrow> (s', map Inr evts)
           | (s', Inl e) \<Rightarrow> (s', [Inl (SE_Decode e)])))"

definition anth_parse_stream :: "(string \<Rightarrow> string + json) \<Rightarrow> (json \<Rightarrow> string) \<Rightarrow> sse_input source_poll list
    \<Rightarrow> stream_item list" where
  "anth_parse_stream from_str shape_error src =
     poll_drain (anth_handle_input from_str shape_error) emit_skip (poll_init src anth_state_default)"

section \<open>The unary parser\<close>

definition incoming_block :: "json \<Rightarrow> IncomingContentBlock option" where
  "incoming_block v = Option.bind (de_field v ''type'' as_str) (\<lambda>ty.
     if ty = ''text'' then map_option InText (de_field v ''text'' as_str)
     else if ty = ''tool_use'' then
       Option.bind (de_field v ''id'' as_str) (\<lambda>i. Option.bind (de_field v ''name'' as_str) (\<lambda>n.
         map_option (InToolUse i n) (de_field v ''input'' Some)))
     else if ty = ''thinking'' then
       Option.bind (de_field v ''thinking'' as_str) (\<lambda>t.
         map_option (InThinking t) (de_option v ''signature'' as_str))
     else if ty = ''redacted_thinking'' then map_option InRedactedThinking (de_field v ''data'' as_str)
     else None)"

definition incoming_response :: "json \<Rightarrow> IncomingMessagesResponse option" where
  "incoming_response v = Option.bind (de_object v) (\<lambda>_.
     Option.bind (de_field v ''id'' as_str) (\<lambda>i.
     Option.bind (de_default v ''model'' [] as_str) (\<lambda>m.
     Option.bind (de_default v ''content'' [] (de_array incoming_block)) (\<lambda>c.
     Option.bind (de_option v ''stop_reason'' as_str) (\<lambda>r.
     Option.bind (de_option v ''stop_sequence'' as_str) (\<lambda>q.
     Option.bind (de_option v ''usage'' incoming_usage) (\<lambda>u.
       Some \<lparr>imr_id = i, imr_model = m, imr_content = c, imr_stop_reason = r, imr_stop_sequence = q,
             imr_usage = u\<rparr>)))))))"

fun anth_unary_block :: "(json \<Rightarrow> string option) \<Rightarrow> u32 \<Rightarrow> IncomingContentBlock \<Rightarrow> StreamEvent list" where
  "anth_unary_block to_string index (InText t) =
     [ContentBlockStart index KText] @ (if t = [] then [] else [TextDelta index t]) @ [ContentBlockStop index]"
| "anth_unary_block to_string index (InToolUse i name inp) =
     [ContentBlockStart index KToolCall, ToolCallStart index i name,
      ToolCallArgumentsDelta index (unwrap_or (to_string inp) ''{}''), ToolCallStop index, ContentBlockStop index]"
| "anth_unary_block to_string index (InThinking t sig) =
     [ContentBlockStart index KReasoning] @ (if t = [] then [] else [ReasoningDelta index t]) @ [ContentBlockStop index]"
| "anth_unary_block to_string index (InRedactedThinking d) =
     [ContentBlockStart index KRedactedReasoning, ContentBlockStop index]"

text \<open>\<open>for (idx, block) in content.into_iter().enumerate()\<close>, with \<open>idx as u32\<close>.\<close>

fun anth_unary_blocks :: "(json \<Rightarrow> string option) \<Rightarrow> nat \<Rightarrow> IncomingContentBlock list \<Rightarrow> StreamEvent list" where
  "anth_unary_blocks to_string idx [] = []"
| "anth_unary_blocks to_string idx (b # bs) =
     anth_unary_block to_string (of_nat idx) b @ anth_unary_blocks to_string (Suc idx) bs"

definition anth_unary_events :: "(json \<Rightarrow> string option) \<Rightarrow> IncomingMessagesResponse \<Rightarrow> StreamEvent list" where
  "anth_unary_events to_string resp =
     (let usage = (case imr_usage resp of None \<Rightarrow> usage_default | Some u \<Rightarrow> anth_map_usage u)
      in [ResponseStart (imr_id resp) (imr_model resp) 0, MessageStart Assistant]
         @ (if is_usage_empty usage then [] else [UsageDelta usage])
         @ anth_unary_blocks to_string 0 (imr_content resp)
         @ [MessageStop (case imr_stop_reason resp of None \<Rightarrow> EndTurn | Some r \<Rightarrow> stop_reason_from_anthropic r)
              (imr_stop_sequence resp),
            ResponseStop (if is_usage_empty usage then None else Some usage)])"

definition anth_parse_unary_inner :: "(string \<Rightarrow> string + json) \<Rightarrow> (json \<Rightarrow> string) \<Rightarrow> (json \<Rightarrow> string option)
    \<Rightarrow> string \<Rightarrow> string + StreamEvent list" where
  "anth_parse_unary_inner from_slice shape_error to_string body =
     (case from_slice body of
        Inl e \<Rightarrow> Inl (''anthropic unary json parse: '' @ e)
      | Inr v \<Rightarrow>
          (case jget v ''error'' of
             Some err \<Rightarrow> Inr [ErrorEvent (''upstream '' @ unwrap_or (get_str err ''type'') ''api_error'' @ '': ''
                          @ unwrap_or (get_str err ''message'') ''upstream error'')]
           | None \<Rightarrow>
               (case incoming_response v of
                  None \<Rightarrow> Inl (''anthropic unary json parse: '' @ shape_error v)
                | Some resp \<Rightarrow> Inr (anth_unary_events to_string resp))))"

definition anth_parse_unary :: "(string \<Rightarrow> string + json) \<Rightarrow> (json \<Rightarrow> string) \<Rightarrow> (json \<Rightarrow> string option)
    \<Rightarrow> string \<Rightarrow> stream_item list" where
  "anth_parse_unary from_slice shape_error to_string body =
     (case anth_parse_unary_inner from_slice shape_error to_string body of
        Inl e \<Rightarrow> [Inl (SE_Decode e)] | Inr evts \<Rightarrow> map Inr evts)"

section \<open>The upstream's side of the protocol\<close>

text \<open>One \<open>message_start\<close>, then blocks with fresh indices whose deltas have the block's type, then, with every
  block stopped, \<open>message_stop\<close>. Pings, signatures, undecodable events and transport errors may occur
  anywhere; an \<open>error\<close> event ends the obligations.\<close>

record anth_contract =
  ac_started :: bool
  ac_open :: "(u32 \<times> ContentBlockKind) list"
  ac_closed :: "u32 set"
  ac_stopped :: bool
  ac_errored :: bool

definition anth_contract_start :: anth_contract where
  "anth_contract_start = \<lparr>ac_started = False, ac_open = [], ac_closed = {}, ac_stopped = False, ac_errored = False\<rparr>"

fun start_kind :: "IncomingContentBlockStart \<Rightarrow> ContentBlockKind" where
  "start_kind (StartText t) = KText"
| "start_kind (StartToolUse i n inp) = KToolCall"
| "start_kind (StartThinking t) = KReasoning"
| "start_kind (StartRedactedThinking d) = KRedactedReasoning"

fun delta_kind :: "IncomingContentBlockDelta \<Rightarrow> ContentBlockKind option" where
  "delta_kind (InTextDelta t) = Some KText"
| "delta_kind (InInputJsonDelta j) = Some KToolCall"
| "delta_kind (InThinkingDelta t) = Some KReasoning"
| "delta_kind (InSignatureDelta g) = None"

fun accept_event :: "IncomingEvent \<Rightarrow> anth_contract \<Rightarrow> anth_contract option" where
  "accept_event (InMessageStart m) c = (if ac_started c \<or> ac_stopped c then None else Some (c\<lparr>ac_started := True\<rparr>))"
| "accept_event (InContentBlockStart i cb) c =
     (if ac_started c \<and> \<not> ac_stopped c \<and> map_of (ac_open c) i = None \<and> i \<notin> ac_closed c
      then Some (c\<lparr>ac_open := AList.update i (start_kind cb) (ac_open c)\<rparr>) else None)"
| "accept_event (InContentBlockDelta i d) c =
     (if delta_kind d = None \<or> \<not> ac_stopped c \<and> map_of (ac_open c) i = delta_kind d then Some c else None)"
| "accept_event (InContentBlockStop i) c =
     (if \<not> ac_stopped c \<and> map_of (ac_open c) i \<noteq> None
      then Some (c\<lparr>ac_open := AList.delete i (ac_open c), ac_closed := insert i (ac_closed c)\<rparr>) else None)"
| "accept_event (InMessageDelta d u) c = (if ac_stopped c \<and> u \<noteq> None then None else Some c)"
| "accept_event InMessageStop c = (if ac_stopped c \<or> ac_open c \<noteq> [] then None else Some (c\<lparr>ac_stopped := True\<rparr>))"
| "accept_event InPing c = Some c"
| "accept_event (InError e) c = Some (c\<lparr>ac_errored := True\<rparr>)"

definition anth_accept :: "(string \<Rightarrow> string + json) \<Rightarrow> (json \<Rightarrow> string) \<Rightarrow> anth_contract \<Rightarrow> sse_input
    \<Rightarrow> anth_contract option" where
  "anth_accept from_str shape_error c i =
     (if ac_errored c then Some c
      else case i of
        SseTransportError e \<Rightarrow> Some c
      | SseEvent data \<Rightarrow>
          (if trim data = [] then Some c
           else case read_event from_str shape_error data of Inl e \<Rightarrow> Some c | Inr ev \<Rightarrow> accept_event ev c))"

section \<open>The parser follows the validator\<close>

definition anth_step :: "(string \<Rightarrow> string + json) \<Rightarrow> (json \<Rightarrow> string) \<Rightarrow> AnthStreamState \<Rightarrow> sse_input
    \<Rightarrow> AnthStreamState \<times> StreamEvent list" where
  "anth_step from_str shape_error s i = apsnd ok_events (anth_handle_input from_str shape_error s i)"

lemma anth_step_cases:
  "anth_step from_str shape_error s (SseTransportError e) = (s, [])"
  "anth_step from_str shape_error s (SseEvent data) =
     (if trim data = [] then (s, [])
      else case read_event from_str shape_error data of Inl e \<Rightarrow> (s, []) | Inr ev \<Rightarrow> anth_event ev s)"
  by (auto simp: anth_step_def anth_handle_input_def anth_parse_chunk_def Let_def case_prod_unfold split: sum.splits)

definition anth_live :: "anth_contract \<Rightarrow> AnthStreamState \<Rightarrow> ValidatorState \<Rightarrow> bool" where
  "anth_live c s v \<longleftrightarrow> \<not> ac_errored c \<and> \<not> terminated_by_error v
     \<and> seen_response_start v = ac_started c \<and> seen_message_start v = ac_started c
     \<and> seen_message_stop v = ac_stopped c \<and> seen_response_stop v = ac_stopped c
     \<and> open_blocks v = ac_open c \<and> closed_indices v = ac_closed c
     \<and> set (an_open_tool_indices s) = {i. map_of (ac_open c) i = Some KToolCall}"

definition anth_rel :: "anth_contract \<Rightarrow> AnthStreamState \<Rightarrow> ValidatorState \<Rightarrow> bool" where
  "anth_rel c s v \<longleftrightarrow> (if terminated_by_error v then ac_errored c \<and> set (open_blocks v) \<subseteq> set (ac_open c) else anth_live c s v)"

lemma anth_live_rel: "anth_live c s v \<Longrightarrow> anth_rel c s v"
  by (simp add: anth_rel_def anth_live_def)

lemma report_usage_follows:
  "\<not> ac_stopped c \<or> usage = None \<Longrightarrow> simulates (anth_live c) (anth_live c) (report_usage usage)"
  by (rule simulatesI)
    (auto simp: anth_live_def report_usage_def emit_some_case emitter_defs validator_checks split: option.split)

lemma anth_start_follows:
  "\<not> ac_started c \<Longrightarrow> \<not> ac_stopped c \<Longrightarrow> simulates (anth_live c) (anth_live (c\<lparr>ac_started := True\<rparr>))
     (emit (\<lambda>_. [ResponseStart i m 0, MessageStart Assistant]))"
  by (rule simulatesI) (auto simp: anth_live_def emitter_defs validator_checks)

lemma block_start_follows:
  assumes "ac_started c" "\<not> ac_stopped c" "map_of (ac_open c) i = None" "i \<notin> ac_closed c"
  shows "simulates (anth_live c) (anth_live (c\<lparr>ac_open := AList.update i (start_kind cb) (ac_open c)\<rparr>))
     (anth_block_start i cb)"
  by (rule simulatesI, cases cb) (use assms in \<open>auto simp: anth_live_def emitter_defs validator_checks\<close>)

lemma delta_follows:
  "delta_kind d = None \<or> \<not> ac_stopped c \<and> map_of (ac_open c) i = delta_kind d \<Longrightarrow>
     simulates (anth_live c) (anth_live c) (emit (\<lambda>_. anth_delta i d))"
  by (rule simulatesI, cases d) (auto simp: anth_live_def emitter_defs validator_checks)

lemma block_stop_follows:
  assumes "\<not> ac_stopped c" "map_of (ac_open c) i = Some k"
  shows "simulates (anth_live c) (anth_live (c\<lparr>ac_open := AList.delete i (ac_open c), ac_closed := insert i (ac_closed c)\<rparr>))
     (anth_event (InContentBlockStop i))"
  by (rule simulatesI, cases "k = KToolCall") (use assms in \<open>auto simp: anth_live_def emitter_defs validator_checks\<close>)

lemma message_stop_follows:
  "\<not> ac_stopped c \<Longrightarrow> simulates (anth_live c) (anth_live (c\<lparr>ac_stopped := True\<rparr>)) (anth_event InMessageStop)"
  by (rule simulatesI) (auto simp: anth_live_def emitter_defs validator_checks)

lemma anth_live_message_delta [simp]: "anth_live c (anth_message_delta d s) v = anth_live c s v"
  by (simp add: anth_live_def anth_message_delta_def Let_def split: option.split)

lemma event_follows:
  assumes acc: "accept_event ev c = Some c'" and ok: "\<not> ac_errored c'"
  shows "simulates (anth_live c) (anth_live c') (anth_event ev)"
proof (cases ev)
  case (InMessageStart m)
  with acc have c': "\<not> ac_started c" "\<not> ac_stopped c" "c' = c\<lparr>ac_started := True\<rparr>" by (auto split: if_splits)
  show ?thesis
    unfolding InMessageStart anth_event.simps c'(3)
    by (rule simulates_block_Cons [OF anth_start_follows [OF c'(1,2)] simulates_block_Cons [OF report_usage_follows simulates_block_Nil]])
      (simp add: c')
next
  case (InContentBlockStart i cb)
  with acc show ?thesis by (auto intro: block_start_follows split: if_splits)
next
  case (InContentBlockDelta i d)
  with acc show ?thesis by (auto intro: delta_follows split: if_splits)
next
  case (InContentBlockStop i)
  with acc show ?thesis
    by (auto simp del: anth_event.simps intro: block_stop_follows split: if_splits)
next
  case (InMessageDelta d u)
  with acc have c': "\<not> ac_stopped c \<or> u = None" "c' = c" by (auto split: if_splits)
  have "simulates (anth_live c) (anth_live c) (modify (anth_message_delta d))"
    by (rule simulatesI) (simp add: modify_def)
  then show ?thesis
    unfolding InMessageDelta anth_event.simps c'(2)
    by (rule simulates_block_Cons [OF _ simulates_block_Cons [OF report_usage_follows [OF c'(1)] simulates_block_Nil]])
next
  case InMessageStop
  with acc show ?thesis by (auto simp del: anth_event.simps intro: message_stop_follows split: if_splits)
next
  case InPing
  with acc show ?thesis by (auto intro: simulates_skip)
next
  case (InError e)
  with acc ok show ?thesis by auto
qed

lemma error_event:
  "accept_event ev c = Some c' \<Longrightarrow> \<not> ac_errored c \<Longrightarrow> ac_errored c' \<Longrightarrow>
     c' = c\<lparr>ac_errored := True\<rparr> \<and> (\<exists>e. ev = InError e)"
  by (cases ev) (auto split: if_splits)

interpretation anth: lifecycle_follower "anth_step from_str shape_error" anth_state_default
  "anth_accept from_str shape_error" anth_contract_start anth_rel validator_init for from_str shape_error
proof unfold_locales
  show "anth_rel anth_contract_start anth_state_default validator_init"
    by (simp add: anth_rel_def anth_live_def anth_contract_start_def anth_state_default_def validator_init_def)
next
  fix c i c'
  assume acc: "anth_accept from_str shape_error c i = Some c'"
  show "simulates (anth_rel c) (anth_rel c') (\<lambda>s. anth_step from_str shape_error s i)"
  proof (rule simulatesI)
    fix s v
    assume R: "anth_rel c s v"
    let ?out = "anth_step from_str shape_error s i"
    show "\<exists>v'. vrun v (snd ?out) = Some v' \<and> anth_rel c' (fst ?out) v'"
    proof (cases "terminated_by_error v")
      case True
      with R acc show ?thesis by (auto simp: anth_rel_def anth_accept_def vrun_terminated)
    next
      case False
      with R have live: "anth_live c s v" "\<not> ac_errored c" by (simp_all add: anth_rel_def anth_live_def)
      show ?thesis
      proof (cases "\<exists>data ev. i = SseEvent data \<and> trim data \<noteq> [] \<and> read_event from_str shape_error data = Inr ev")
        case True
        then obtain ev where ev: "accept_event ev c = Some c'" "?out = anth_event ev s"
          using acc live by (auto simp: anth_accept_def anth_step_cases)
        show ?thesis
        proof (cases "ac_errored c'")
          case True
          with error_event [OF ev(1) live(2)] ev(2) live(1) show ?thesis
            by (auto simp: anth_rel_def anth_live_def emit_def)
        next
          case False
          from simulatesD [OF event_follows [OF ev(1) False] live(1)] ev(2) show ?thesis
            by (auto intro: anth_live_rel)
        qed
      next
        case False
        with acc live have "?out = (s, []) \<and> c' = c"
          by (cases i) (auto simp: anth_accept_def anth_step_cases split: if_splits sum.splits)
        with R show ?thesis by simp
      qed
    qed
  qed
qed

section \<open>The produced stream\<close>

lemma anth_events_eq:
  "ok_events (anth_parse_stream from_str shape_error src) =
     snd (run_steps (anth_step from_str shape_error) anth_state_default (src_items src))"
  by (simp add: anth_parse_stream_def poll_drain_init run_to_end_def emit_skip_def ok_events_run_steps
      anth_step_def [abs_def] Let_def case_prod_unfold)

text \<open>C25. For every JSON reader, every poll schedule and every upstream that keeps its protocol without
  reporting an error, the Anthropic parser's stream is canonical exactly when the upstream left no
  block open. A connection that is cut inside a block therefore ends in a stream that breaks rule 1d:
  unlike the chat and DeepSeek parsers, this one never closes what its upstream left open.\<close>

theorem anth_stream_canonical:
  assumes "contract_run (anth_accept from_str shape_error) anth_contract_start (src_items src) = Some c"
    and "\<not> ac_errored c"
  shows "assert_canonical_lifecycle (ok_events (anth_parse_stream from_str shape_error src)) =
    (if ac_open c = [] then Inr ()
     else Inl (length (ok_events (anth_parse_stream from_str shape_error src)), Rule1d))"
proof -
  from anth.follows [OF assms(1)] obtain v where v: "vrun validator_init (ok_events (anth_parse_stream from_str shape_error src)) = Some v"
    "anth_rel c (fst (run_steps (anth_step from_str shape_error) anth_state_default (src_items src))) v"
    by (auto simp: anth_events_eq)
  with assms(2) have "\<not> terminated_by_error v" "open_blocks v = ac_open c"
    by (auto simp: anth_rel_def anth_live_def split: if_splits)
  with assert_of_vrun [OF v(1)] show ?thesis by simp
qed

definition demo_anth :: "string \<Rightarrow> string + json" where
  "demo_anth data =
     (if data = ''start'' then Inr (JObject [(''type'', JString ''message_start''), (''message'', JObject [(''id'', JString ''r1'')])])
      else if data = ''block'' then Inr (JObject [(''type'', JString ''content_block_start''), (''index'', JPosInt 0),
        (''content_block'', JObject [(''type'', JString ''text'')])])
      else if data = ''stop'' then Inr (JObject [(''type'', JString ''content_block_stop''), (''index'', JPosInt 0)])
      else if data = ''end'' then Inr (JObject [(''type'', JString ''message_stop'')])
      else Inl ''expected value'')"

lemmas anth_eval = demo_anth_def read_event_def incoming_event_def incoming_message_start_def incoming_block_start_def
  de_defs de_u32_def as_u32_def trim_def is_space_def

theorem anth_stream_canonical_witness:
  "assert_canonical_lifecycle (ok_events (anth_parse_stream demo_anth (\<lambda>_. ''shape'')
     [SrcItem (SseEvent ''start''), SrcPending, SrcItem (SseEvent ''block''), SrcItem (SseTransportError ''reset'')])) = Inl (3, Rule1d)
   \<and> assert_canonical_lifecycle (ok_events (anth_parse_stream demo_anth (\<lambda>_. ''shape'')
     [SrcItem (SseEvent ''start''), SrcItem (SseEvent ''block''), SrcItem (SseEvent ''junk''), SrcItem (SseEvent ''stop''),
      SrcItem (SseEvent ''end'')])) = Inr ()"
proof
  let ?src = "[SrcItem (SseEvent ''start''), SrcPending, SrcItem (SseEvent ''block''), SrcItem (SseTransportError ''reset'')]"
  have "contract_run (anth_accept demo_anth (\<lambda>_. ''shape'')) anth_contract_start (src_items ?src)
      = Some (anth_contract_start\<lparr>ac_started := True, ac_open := [(0, KText)]\<rparr>)"
    by (simp add: anth_accept_def anth_contract_start_def anth_eval)
  from anth_stream_canonical [OF this]
  have "assert_canonical_lifecycle (ok_events (anth_parse_stream demo_anth (\<lambda>_. ''shape'') ?src))
      = Inl (length (ok_events (anth_parse_stream demo_anth (\<lambda>_. ''shape'') ?src)), Rule1d)"
    by (simp add: anth_contract_start_def)
  moreover have "length (ok_events (anth_parse_stream demo_anth (\<lambda>_. ''shape'') ?src)) = 3"
    by (simp add: anth_events_eq anth_step_cases anth_eval emitter_defs report_usage_def)
  ultimately show "assert_canonical_lifecycle (ok_events (anth_parse_stream demo_anth (\<lambda>_. ''shape'') ?src)) = Inl (3, Rule1d)"
    by simp
next
  let ?src = "[SrcItem (SseEvent ''start''), SrcItem (SseEvent ''block''), SrcItem (SseEvent ''junk''), SrcItem (SseEvent ''stop''),
      SrcItem (SseEvent ''end'')]"
  have "contract_run (anth_accept demo_anth (\<lambda>_. ''shape'')) anth_contract_start (src_items ?src)
      = Some (anth_contract_start\<lparr>ac_started := True, ac_closed := {0}, ac_stopped := True\<rparr>)"
    by (simp add: anth_accept_def anth_contract_start_def anth_eval)
  from anth_stream_canonical [OF this]
  show "assert_canonical_lifecycle (ok_events (anth_parse_stream demo_anth (\<lambda>_. ''shape'') ?src)) = Inr ()"
    by (simp add: anth_contract_start_def)
qed

section \<open>Complete responses\<close>

lemma unary_blocks_follow:
  "open_envelope v \<Longrightarrow> open_blocks v = [] \<Longrightarrow> \<forall>j \<in> closed_indices v. unat j < idx \<Longrightarrow> idx + length bs \<le> 2 ^ 32 \<Longrightarrow>
     \<exists>v'. vrun v (anth_unary_blocks to_string idx bs) = Some v' \<and> open_envelope v' \<and> open_blocks v' = []"
proof (induction to_string idx bs arbitrary: v rule: anth_unary_blocks.induct)
  case (2 to_string idx b bs)
  have idx: "unat (of_nat idx :: u32) = idx" using 2(5) by (intro unat_of_nat_u32) simp
  then have fresh: "of_nat idx \<notin> closed_indices v" using 2(4) by force
  let ?v = "v\<lparr>closed_indices := insert (of_nat idx) (closed_indices v),
     tool_stopped := (case b of InToolUse i n inp \<Rightarrow> insert (of_nat idx) (tool_stopped v) - {of_nat idx} | _ \<Rightarrow> tool_stopped v)\<rparr>"
  have "vrun v (anth_unary_block to_string (of_nat idx) b) = Some ?v"
    using 2(2,3) fresh by (cases b) (auto simp: open_envelope_def validator_checks)
  moreover have "\<exists>v'. vrun ?v (anth_unary_blocks to_string (Suc idx) bs) = Some v' \<and> open_envelope v' \<and> open_blocks v' = []"
    by (rule 2(1)) (use 2(2-5) idx in \<open>auto simp: open_envelope_def less_Suc_eq\<close>)
  ultimately show ?case by (auto intro: vrun_appendI)
qed simp

text \<open>A complete Anthropic response of at most \<open>2^32\<close> blocks becomes a canonical stream, whatever its
  blocks, usage and stop reason.\<close>

theorem anth_unary_canonical:
  assumes "length (imr_content resp) \<le> 2 ^ 32"
  shows "assert_canonical_lifecycle (anth_unary_events to_string resp) = Inr ()"
proof -
  let ?usage = "case imr_usage resp of None \<Rightarrow> usage_default | Some u \<Rightarrow> anth_map_usage u"
  let ?rep = "if is_usage_empty ?usage then [] else [UsageDelta ?usage]"
  have rep: "vrun envelope_opened ?rep = Some envelope_opened"
    by (simp add: envelope_opened_def validator_init_def validator_checks)
  obtain v where v: "vrun envelope_opened (anth_unary_blocks to_string 0 (imr_content resp)) = Some v"
    "open_envelope v" "open_blocks v = []"
    using unary_blocks_follow [of envelope_opened 0 "imr_content resp" to_string] assms
    by (auto simp: envelope_opened_def validator_init_def open_envelope_def)
  from validates_append [OF vrun_appendI [OF rep v(1)] validates_close_envelope [OF v(2,3)]]
  show ?thesis by (simp add: anth_unary_events_def Let_def envelope_assert)
qed

theorem anth_unary_canonical_witness:
  "length [InText ''hi'', InToolUse ''t1'' ''f'' JNull] \<le> 2 ^ 32
   \<and> assert_canonical_lifecycle (anth_unary_events (\<lambda>_. None)
       \<lparr>imr_id = ''r'', imr_model = [], imr_content = [InText ''hi'', InToolUse ''t1'' ''f'' JNull], imr_stop_reason = None,
        imr_stop_sequence = None, imr_usage = None\<rparr>) = Inr ()"
  using anth_unary_canonical [of "\<lparr>imr_id = ''r'', imr_model = [], imr_content = [InText ''hi'', InToolUse ''t1'' ''f'' JNull],
    imr_stop_reason = None, imr_stop_sequence = None, imr_usage = None\<rparr>" "\<lambda>_. None"] by simp

end
