(* ===== verification/Anthropic_Encoder.thy ===== *)
theory Anthropic_Encoder
  imports Encoder_Stream Anthropic_Parser
begin

text \<open>
  The Anthropic front end's stream encoder: \<open>frontends/src/anthropic_messages/encode_stream.rs\<close> with its
  outbound wire types (\<open>wire.rs\<close>), and the round trip through the Anthropic provider's parser, which
  the source calls its mirror image. Parameters: the JSON writer, the \<open>Display\<close> of a stream error and
  the generated response id that is replaced by the first \<open>ResponseStart\<close>. Counters wrap.
\<close>

section \<open>Outbound wire types\<close>

record OutboundUsage =
  ou_input_tokens :: u32
  ou_output_tokens :: u32
  ou_cache_creation_input_tokens :: "u32 option"
  ou_cache_read_input_tokens :: "u32 option"

definition outbound_usage_default :: OutboundUsage where
  "outbound_usage_default = \<lparr>ou_input_tokens = 0, ou_output_tokens = 0, ou_cache_creation_input_tokens = None,
     ou_cache_read_input_tokens = None\<rparr>"

record MessageStartPayload =
  msp_id :: string
  msp_model :: string
  msp_usage :: OutboundUsage

datatype ContentBlockStartPayload =
    PayText string
  | PayToolUse string string string
  | PayThinking string
  | PayRedactedThinking string

datatype ContentBlockDelta =
    OutTextDelta string
  | OutInputJsonDelta string
  | OutThinkingDelta string
  | OutSignatureDelta string

record MessageDeltaPayload =
  mdp_stop_reason :: string
  mdp_stop_sequence :: "string option"

record ErrorPayload =
  ep_ty :: string
  ep_message :: string

datatype OutboundEvent =
    OutMessageStart MessageStartPayload
  | OutContentBlockStart u32 ContentBlockStartPayload
  | OutContentBlockDelta u32 ContentBlockDelta
  | OutContentBlockStop u32
  | OutMessageDelta MessageDeltaPayload OutboundUsage
  | OutMessageStop
  | OutPing
  | OutError ErrorPayload

definition outbound_usage_json :: "OutboundUsage \<Rightarrow> json" where
  "outbound_usage_json u = JObject ([(''input_tokens'', json_u32 (ou_input_tokens u)),
     (''output_tokens'', json_u32 (ou_output_tokens u))]
     @ opt_member ''cache_creation_input_tokens'' json_u32 (ou_cache_creation_input_tokens u)
     @ opt_member ''cache_read_input_tokens'' json_u32 (ou_cache_read_input_tokens u))"

definition message_start_json :: "MessageStartPayload \<Rightarrow> json" where
  "message_start_json m = JObject [(''id'', JString (msp_id m)), (''type'', JString ''message''),
     (''role'', JString ''assistant''), (''model'', JString (msp_model m)), (''usage'', outbound_usage_json (msp_usage m))]"

fun block_start_json :: "ContentBlockStartPayload \<Rightarrow> json" where
  "block_start_json (PayText t) = JObject [(''type'', JString ''text''), (''text'', JString t)]"
| "block_start_json (PayToolUse i n inp) = JObject [(''type'', JString ''tool_use''), (''id'', JString i),
     (''name'', JString n), (''input'', JString inp)]"
| "block_start_json (PayThinking t) = JObject [(''type'', JString ''thinking''), (''thinking'', JString t)]"
| "block_start_json (PayRedactedThinking d) = JObject [(''type'', JString ''redacted_thinking''), (''data'', JString d)]"

fun block_delta_json :: "ContentBlockDelta \<Rightarrow> json" where
  "block_delta_json (OutTextDelta t) = JObject [(''type'', JString ''text_delta''), (''text'', JString t)]"
| "block_delta_json (OutInputJsonDelta j) = JObject [(''type'', JString ''input_json_delta''), (''partial_json'', JString j)]"
| "block_delta_json (OutThinkingDelta t) = JObject [(''type'', JString ''thinking_delta''), (''thinking'', JString t)]"
| "block_delta_json (OutSignatureDelta g) = JObject [(''type'', JString ''signature_delta''), (''signature'', JString g)]"

fun outbound_json :: "OutboundEvent \<Rightarrow> json" where
  "outbound_json (OutMessageStart m) = JObject [(''type'', JString ''message_start''), (''message'', message_start_json m)]"
| "outbound_json (OutContentBlockStart i p) = JObject [(''type'', JString ''content_block_start''),
     (''index'', json_u32 i), (''content_block'', block_start_json p)]"
| "outbound_json (OutContentBlockDelta i d) = JObject [(''type'', JString ''content_block_delta''),
     (''index'', json_u32 i), (''delta'', block_delta_json d)]"
| "outbound_json (OutContentBlockStop i) = JObject [(''type'', JString ''content_block_stop''), (''index'', json_u32 i)]"
| "outbound_json (OutMessageDelta d u) = JObject [(''type'', JString ''message_delta''),
     (''delta'', JObject ((''stop_reason'', JString (mdp_stop_reason d)) # opt_member ''stop_sequence'' JString (mdp_stop_sequence d))),
     (''usage'', outbound_usage_json u)]"
| "outbound_json OutMessageStop = JObject [(''type'', JString ''message_stop'')]"
| "outbound_json OutPing = JObject [(''type'', JString ''ping'')]"
| "outbound_json (OutError e) = JObject [(''type'', JString ''error''),
     (''error'', JObject [(''type'', JString (ep_ty e)), (''message'', JString (ep_message e))])]"

fun outbound_name :: "OutboundEvent \<Rightarrow> string" where
  "outbound_name (OutMessageStart m) = ''message_start''"
| "outbound_name (OutContentBlockStart i p) = ''content_block_start''"
| "outbound_name (OutContentBlockDelta i d) = ''content_block_delta''"
| "outbound_name (OutContentBlockStop i) = ''content_block_stop''"
| "outbound_name (OutMessageDelta d u) = ''message_delta''"
| "outbound_name OutMessageStop = ''message_stop''"
| "outbound_name OutPing = ''ping''"
| "outbound_name (OutError e) = ''error''"

definition serialize_event :: "(json \<Rightarrow> string option) \<Rightarrow> OutboundEvent \<Rightarrow> string option" where
  "serialize_event to_writer ev = event_serialized to_writer (outbound_name ev) (outbound_json ev)"

section \<open>The encoder\<close>

record EncoderState =
  es_response_id :: string
  es_model :: string
  es_block_kinds :: "ContentBlockKind list"
  es_input_tokens :: u32
  es_output_tokens :: u32
  es_cache_creation_input_tokens :: "u32 option"
  es_cache_read_input_tokens :: "u32 option"
  es_pending_stop :: "(StopReason \<times> string option) option"

definition encoder_state_new :: "string \<Rightarrow> EncoderState" where
  "encoder_state_new rid = \<lparr>es_response_id = rid, es_model = [], es_block_kinds = [], es_input_tokens = 0,
     es_output_tokens = 0, es_cache_creation_input_tokens = None, es_cache_read_input_tokens = None,
     es_pending_stop = None\<rparr>"

text \<open>\<open>Vec::resize\<close> to \<open>idx + 1\<close> when it is shorter, then the store at \<open>idx\<close>.\<close>

definition set_block_kind :: "nat \<Rightarrow> ContentBlockKind \<Rightarrow> ContentBlockKind list \<Rightarrow> ContentBlockKind list" where
  "set_block_kind idx kind ks =
     (let ks' = (if length ks \<le> idx then ks @ replicate (idx + 1 - length ks) KText else ks) in ks'[idx := kind])"

definition block_start_payload :: "ContentBlockKind \<Rightarrow> ContentBlockStartPayload" where
  "block_start_payload kind =
     (case kind of KReasoning \<Rightarrow> PayThinking [] | KRedactedReasoning \<Rightarrow> PayRedactedThinking [] | _ \<Rightarrow> PayText [])"

definition add_cache :: "u32 option \<Rightarrow> u32 option \<Rightarrow> u32 option" where
  "add_cache acc delta = (case delta of None \<Rightarrow> acc | Some v \<Rightarrow> Some (unwrap_or acc 0 + v))"

definition add_usage :: "Usage \<Rightarrow> EncoderState \<Rightarrow> EncoderState" where
  "add_usage usage st = st\<lparr>es_input_tokens := es_input_tokens st + unwrap_or (input_tokens usage) 0,
     es_output_tokens := es_output_tokens st + unwrap_or (output_tokens usage) 0,
     es_cache_creation_input_tokens := add_cache (es_cache_creation_input_tokens st) (cache_creation_input_tokens usage),
     es_cache_read_input_tokens := add_cache (es_cache_read_input_tokens st) (cache_read_input_tokens usage)\<rparr>"

definition override_usage :: "Usage option \<Rightarrow> EncoderState \<Rightarrow> EncoderState" where
  "override_usage usage st =
     (case usage of None \<Rightarrow> st
      | Some u \<Rightarrow> st\<lparr>es_input_tokens := unwrap_or (input_tokens u) (es_input_tokens st),
          es_output_tokens := unwrap_or (output_tokens u) (es_output_tokens st),
          es_cache_creation_input_tokens := or_opt (cache_creation_input_tokens u) (es_cache_creation_input_tokens st),
          es_cache_read_input_tokens := or_opt (cache_read_input_tokens u) (es_cache_read_input_tokens st)\<rparr>)"

definition final_usage :: "EncoderState \<Rightarrow> OutboundUsage" where
  "final_usage st = \<lparr>ou_input_tokens = es_input_tokens st, ou_output_tokens = es_output_tokens st,
     ou_cache_creation_input_tokens = es_cache_creation_input_tokens st,
     ou_cache_read_input_tokens = es_cache_read_input_tokens st\<rparr>"

text \<open>\<open>handle\<close>: the new state, the events pushed, and whether the stream is finished.\<close>

definition anth_encode_event :: "EncoderState \<Rightarrow> StreamEvent \<Rightarrow> EncoderState \<times> OutboundEvent list \<times> bool" where
  "anth_encode_event st ev =
     (case ev of
        ResponseStart rid model created \<Rightarrow>
          (st\<lparr>es_response_id := rid, es_model := model\<rparr>,
           [OutMessageStart \<lparr>msp_id = rid, msp_model = model, msp_usage = outbound_usage_default\<rparr>, OutPing], False)
      | ContentBlockStart index kind \<Rightarrow>
          (st\<lparr>es_block_kinds := set_block_kind (unat index) kind (es_block_kinds st)\<rparr>,
           (if kind \<noteq> KToolCall then [OutContentBlockStart index (block_start_payload kind)] else []), False)
      | ToolCallStart index cid name \<Rightarrow> (st, [OutContentBlockStart index (PayToolUse cid name [])], False)
      | TextDelta index t \<Rightarrow> (st, [OutContentBlockDelta index (OutTextDelta t)], False)
      | ReasoningDelta index t \<Rightarrow> (st, [OutContentBlockDelta index (OutThinkingDelta t)], False)
      | ToolCallArgumentsDelta index frag \<Rightarrow> (st, [OutContentBlockDelta index (OutInputJsonDelta frag)], False)
      | ContentBlockStop index \<Rightarrow> (st, [OutContentBlockStop index], False)
      | UsageDelta usage \<Rightarrow> (add_usage usage st, [], False)
      | MessageStop stop_reason stop_sequence \<Rightarrow>
          (st\<lparr>es_pending_stop := Some (stop_reason, stop_sequence)\<rparr>, [], False)
      | ResponseStop usage \<Rightarrow>
          (let st' = override_usage usage st
           in case es_pending_stop st' of
                None \<Rightarrow> (st', [], False)
              | Some (stop_reason, stop_sequence) \<Rightarrow>
                  (st'\<lparr>es_pending_stop := None\<rparr>,
                   [OutMessageDelta \<lparr>mdp_stop_reason = stop_reason_to_anthropic stop_reason, mdp_stop_sequence = stop_sequence\<rparr>
                      (final_usage st'), OutMessageStop], True))
      | ErrorEvent message \<Rightarrow> (st, [OutError \<lparr>ep_ty = ''api_error'', ep_message = message\<rparr>], False)
      | ToolCallStop index \<Rightarrow> (st, [], False)
      | MessageStart role \<Rightarrow> (st, [], False)
      | RawEvent r \<Rightarrow> (st, [], False))"

definition anth_encode_item :: "(StreamError \<Rightarrow> string) \<Rightarrow> EncoderState \<Rightarrow> stream_item
    \<Rightarrow> EncoderState \<times> OutboundEvent list \<times> bool" where
  "anth_encode_item display st item =
     (case item of
        Inl e \<Rightarrow> (st, [OutError \<lparr>ep_ty = ''api_error'', ep_message = display e\<rparr>], False)
      | Inr ev \<Rightarrow> anth_encode_event st ev)"

text \<open>\<open>push\<close> drops an event the writer cannot serialize.\<close>

definition anth_encode_handle :: "(json \<Rightarrow> string option) \<Rightarrow> (StreamError \<Rightarrow> string) \<Rightarrow> EncoderState handler" where
  "anth_encode_handle to_writer display st item =
     (let (st', out, stop) = anth_encode_item display st item
      in (st', List.map_filter (serialize_event to_writer) out, stop))"

definition anth_encode :: "(json \<Rightarrow> string option) \<Rightarrow> (StreamError \<Rightarrow> string) \<Rightarrow> bool \<Rightarrow> (nat \<Rightarrow> bool) \<Rightarrow> string
    \<Rightarrow> stream_item source_poll list \<Rightarrow> string list" where
  "anth_encode to_writer display keepalive tick rid src =
     drain_encoder (anth_encode_handle to_writer display) keepalive tick 0 (encoder_init src (encoder_state_new rid))"

section \<open>What goes over the wire\<close>

fun anth_wire :: "(StreamError \<Rightarrow> string) \<Rightarrow> EncoderState \<Rightarrow> stream_item list \<Rightarrow> OutboundEvent list" where
  "anth_wire display st [] = []"
| "anth_wire display st (i # is) =
     (let (st', out, stop) = anth_encode_item display st i in out @ (if stop then [] else anth_wire display st' is))"

lemma run_anth_encoder:
  "run_encoder (anth_encode_handle w display) st is = List.map_filter (serialize_event w) (anth_wire display st is)"
  by (induction "is" arbitrary: st)
    (simp_all add: anth_encode_handle_def [of w display] Let_def case_prod_unfold List.map_filter_simps)

text \<open>The shape a written event has for the reader.\<close>

definition in_usage :: "OutboundUsage \<Rightarrow> IncomingUsage" where
  "in_usage u = \<lparr>iu_input_tokens = Some (ou_input_tokens u), iu_output_tokens = Some (ou_output_tokens u),
     iu_cache_creation_input_tokens = ou_cache_creation_input_tokens u,
     iu_cache_read_input_tokens = ou_cache_read_input_tokens u\<rparr>"

fun in_start :: "ContentBlockStartPayload \<Rightarrow> IncomingContentBlockStart" where
  "in_start (PayText t) = StartText t"
| "in_start (PayToolUse i n inp) = StartToolUse i n (JString inp)"
| "in_start (PayThinking t) = StartThinking t"
| "in_start (PayRedactedThinking d) = StartRedactedThinking d"

fun in_delta :: "ContentBlockDelta \<Rightarrow> IncomingContentBlockDelta" where
  "in_delta (OutTextDelta t) = InTextDelta t"
| "in_delta (OutInputJsonDelta j) = InInputJsonDelta j"
| "in_delta (OutThinkingDelta t) = InThinkingDelta t"
| "in_delta (OutSignatureDelta g) = InSignatureDelta g"

fun in_event :: "OutboundEvent \<Rightarrow> IncomingEvent" where
  "in_event (OutMessageStart m) =
     InMessageStart \<lparr>ims_id = msp_id m, ims_model = msp_model m, ims_usage = Some (in_usage (msp_usage m))\<rparr>"
| "in_event (OutContentBlockStart i p) = InContentBlockStart i (in_start p)"
| "in_event (OutContentBlockDelta i d) = InContentBlockDelta i (in_delta d)"
| "in_event (OutContentBlockStop i) = InContentBlockStop i"
| "in_event (OutMessageDelta d u) = InMessageDelta
     \<lparr>imd_stop_reason = Some (mdp_stop_reason d), imd_stop_sequence = mdp_stop_sequence d\<rparr> (Some (in_usage u))"
| "in_event OutMessageStop = InMessageStop"
| "in_event OutPing = InPing"
| "in_event (OutError e) = InError \<lparr>iep_ty = ep_ty e, iep_message = ep_message e\<rparr>"

lemma incoming_usage_outbound [simp]: "incoming_usage (outbound_usage_json u) = Some (in_usage u)"
  by (cases "ou_cache_creation_input_tokens u"; cases "ou_cache_read_input_tokens u")
    (simp_all add: incoming_usage_def outbound_usage_json_def in_usage_def de_defs)

lemma is_null_outbound [simp]: "\<not> is_null (outbound_usage_json u)"
  by (simp add: outbound_usage_json_def)

lemma incoming_start_outbound [simp]: "incoming_block_start (block_start_json p) = Some (in_start p)"
  by (cases p) (simp_all add: incoming_block_start_def de_defs)

lemma incoming_delta_outbound [simp]: "incoming_delta (block_delta_json d) = Some (in_delta d)"
  by (cases d) (simp_all add: incoming_delta_def de_defs)

text \<open>The two wire modules agree: every event the front end can write, the provider reads as the same event.\<close>

lemma incoming_event_outbound: "incoming_event (outbound_json ev) = Some (in_event ev)"
proof (cases ev)
  case (OutMessageDelta d u)
  then show ?thesis
    by (cases "mdp_stop_sequence d") (simp_all add: incoming_event_def incoming_message_delta_def de_defs)
qed (simp_all add: incoming_event_def incoming_message_start_def message_start_json_def incoming_error_def de_defs)

lemma newline_outbound_name [simp]: "newline \<notin> set (outbound_name ev)"
  by (cases ev) simp_all

lemma anth_encode_decodes:
  assumes dec: "sse_decodes decode"
    and ok: "\<forall>ev \<in> set (anth_wire display (encoder_state_new rid) (src_items src)). serde_roundtrip w from_str (outbound_json ev)"
  shows "decode (anth_encode w display ka tick rid src)
    = map (\<lambda>ev. SseEvent (the (w (outbound_json ev)))) (anth_wire display (encoder_state_new rid) (src_items src))"
proof -
  let ?os = "anth_wire display (encoder_state_new rid) (src_items src)"
  let ?b = "\<lambda>ev. EventBlock (outbound_name ev) (the (w (outbound_json ev)))"
  have frame: "serialize_event w ev = Some (block_bytes (?b ev)) \<and> plain_block (?b ev)" if "ev \<in> set ?os" for ev
    using ok that by (auto simp: serde_roundtrip_def serialize_event_def event_serialized_def plain_block_def)
  then have "List.map_filter (serialize_event w) ?os = map (\<lambda>ev. block_bytes (?b ev)) ?os"
    by (induction ?os) (simp_all add: List.map_filter_def)
  then have run: "run_encoder (anth_encode_handle w display) (encoder_state_new rid) (src_items src) = map block_bytes (map ?b ?os)"
    by (simp add: run_anth_encoder comp_def)
  have "\<forall>b \<in> set (map ?b ?os). plain_block b" using frame by simp
  from drain_decodes [OF dec run this] show ?thesis
    unfolding anth_encode_def by (simp add: comp_def concat_map_singleton)
qed

lemma src_items_map_SrcItem [simp]: "src_items (map SrcItem xs) = xs"
  by (induction xs) simp_all

lemma anth_parse_wire:
  assumes "\<forall>ev \<in> set os. serde_roundtrip w from_str (outbound_json ev)"
  shows "run_steps (anth_step from_str shape_error) s (map (\<lambda>ev. SseEvent (the (w (outbound_json ev)))) os)
    = run_steps (\<lambda>s ev. anth_event (in_event ev) s) s os"
  using assms
proof (induction os arbitrary: s)
  case (Cons ev os)
  then have "anth_step from_str shape_error s (SseEvent (the (w (outbound_json ev)))) = anth_event (in_event ev) s"
    by (auto simp: anth_step_cases read_event_def serde_roundtrip_def incoming_event_outbound)
  with Cons show ?case by (simp add: Let_def case_prod_unfold)
qed simp

section \<open>The encoder's run over a stream\<close>

definition no_stop :: "StreamEvent \<Rightarrow> bool" where
  "no_stop ev = (case ev of MessageStop r q \<Rightarrow> False | ResponseStop u \<Rightarrow> False | _ \<Rightarrow> True)"

fun usages :: "StreamEvent list \<Rightarrow> Usage list" where
  "usages [] = []"
| "usages (UsageDelta u # es) = u # usages es"
| "usages (_ # es) = usages es"

text \<open>The reference for the usage a client is billed: the reported counts added up, each one replaced by
  the final report where there is one.\<close>

definition total :: "(Usage \<Rightarrow> u32 option) \<Rightarrow> Usage list \<Rightarrow> u32" where
  "total f us = sum_list (map (\<lambda>u. unwrap_or (f u) 0) us)"

definition total_opt :: "(Usage \<Rightarrow> u32 option) \<Rightarrow> Usage list \<Rightarrow> u32 option" where
  "total_opt f us = (if \<forall>u \<in> set us. f u = None then None else Some (total f us))"

definition billed :: "Usage list \<Rightarrow> Usage option \<Rightarrow> OutboundUsage" where
  "billed us final =
     \<lparr>ou_input_tokens = unwrap_or (Option.bind final input_tokens) (total input_tokens us),
      ou_output_tokens = unwrap_or (Option.bind final output_tokens) (total output_tokens us),
      ou_cache_creation_input_tokens =
        or_opt (Option.bind final cache_creation_input_tokens) (total_opt cache_creation_input_tokens us),
      ou_cache_read_input_tokens =
        or_opt (Option.bind final cache_read_input_tokens) (total_opt cache_read_input_tokens us)\<rparr>"

definition encoder_run :: "StreamEvent list \<Rightarrow> EncoderState \<Rightarrow> EncoderState" where
  "encoder_run es st = fold (\<lambda>ev st. fst (anth_encode_event st ev)) es st"

lemma usages_append [simp]: "usages (es @ fs) = usages es @ usages fs"
  by (induction es rule: usages.induct) simp_all

lemma total_snoc: "total f (us @ [u]) = total f us + unwrap_or (f u) 0"
  by (simp add: total_def)

lemma total_opt_snoc: "total_opt f (us @ [u]) = add_cache (total_opt f us) (f u)"
proof -
  have "total f us = 0" if "\<forall>u \<in> set us. f u = None"
    using that by (induction us) (auto simp: total_def)
  then show ?thesis by (cases "f u") (auto simp: total_opt_def total_snoc add_cache_def)
qed

lemma encoder_run_usage:
  "list_all no_stop es \<Longrightarrow> final_usage (encoder_run es (encoder_state_new rid)) = billed (usages es) None
     \<and> es_pending_stop (encoder_run es (encoder_state_new rid)) = None"
proof (induction es rule: rev_induct)
  case Nil
  then show ?case by (simp add: encoder_run_def final_usage_def encoder_state_new_def billed_def total_def total_opt_def)
next
  case (snoc ev es)
  then show ?case
    by (cases ev) (auto simp: encoder_run_def anth_encode_event_def no_stop_def final_usage_def billed_def
        add_usage_def total_snoc total_opt_snoc)
qed

definition out_payload :: "OutboundEvent \<Rightarrow> payload list" where
  "out_payload ev =
     (case ev of
        OutContentBlockStart i (PayToolUse cid n inp) \<Rightarrow> [PCall i cid n]
      | OutContentBlockStart i (PayText t) \<Rightarrow> (if t = [] then [] else [PText t])
      | OutContentBlockStart i (PayThinking t) \<Rightarrow> (if t = [] then [] else [PReasoning t])
      | OutContentBlockDelta i (OutTextDelta t) \<Rightarrow> [PText t]
      | OutContentBlockDelta i (OutInputJsonDelta j) \<Rightarrow> [PArgs i j]
      | OutContentBlockDelta i (OutThinkingDelta t) \<Rightarrow> [PReasoning t]
      | _ \<Rightarrow> [])"

text \<open>Events before the closing pair: no stop, and no usage but the zeroes of \<open>message_start\<close>.\<close>

definition pre_close :: "OutboundEvent \<Rightarrow> bool" where
  "pre_close ev = (case ev of OutMessageStart m \<Rightarrow> msp_usage m = outbound_usage_default
     | OutMessageDelta d u \<Rightarrow> False | OutMessageStop \<Rightarrow> False | _ \<Rightarrow> True)"

lemma encode_event_payload:
  "no_stop ev \<Longrightarrow> \<exists>st' out. anth_encode_event st ev = (st', out, False) \<and> list_all pre_close out
     \<and> concat (map out_payload out) = event_payload ev"
  by (cases ev) (auto simp: anth_encode_event_def no_stop_def pre_close_def out_payload_def block_start_payload_def
      split: ContentBlockKind.split)

lemma anth_wire_run:
  "list_all no_stop es \<Longrightarrow> \<exists>out. anth_wire display st (map Inr es @ rest) = out @ anth_wire display (encoder_run es st) rest
     \<and> list_all pre_close out \<and> concat (map out_payload out) = payload_of es"
proof (induction es arbitrary: st)
  case (Cons ev es)
  then obtain st' out where ev: "anth_encode_event st ev = (st', out, False)" "list_all pre_close out"
    "concat (map out_payload out) = event_payload ev" using encode_event_payload [of ev st] by auto
  from Cons obtain out' where "anth_wire display st' (map Inr es @ rest) = out' @ anth_wire display (encoder_run es st') rest"
    "list_all pre_close out'" "concat (map out_payload out') = payload_of es" by fastforce
  with ev show ?case
    by (intro exI [of _ "out @ out'"]) (simp add: anth_encode_item_def encoder_run_def payload_of_def)
qed (simp add: encoder_run_def payload_of_def)

section \<open>The parser's run over the wire\<close>

definition unbilled :: "AnthStreamState \<Rightarrow> bool" where
  "unbilled s \<longleftrightarrow> an_stop_reason s = None \<and> an_stop_sequence s = None
     \<and> (\<exists>a b. a \<in> {None, Some 0} \<and> b \<in> {None, Some 0}
          \<and> an_accumulated_usage s = usage_default\<lparr>input_tokens := a, output_tokens := b\<rparr>)"

abbreviation wire_event :: "AnthStreamState \<Rightarrow> OutboundEvent \<Rightarrow> AnthStreamState \<times> StreamEvent list" where
  "wire_event s ev \<equiv> anth_event (in_event ev) s"

lemma merge_zero: "a \<in> {None, Some 0} \<Longrightarrow> merge_count a (Some v) = Some v"
  by (auto simp: merge_count_def max_def)

lemma unbilled_merge:
  "unbilled s \<Longrightarrow> merge_usage (an_accumulated_usage s) (anth_map_usage (in_usage u)) = anth_map_usage (in_usage u)"
  by (cases "ou_cache_creation_input_tokens u"; cases "ou_cache_read_input_tokens u")
    (auto simp: unbilled_def merge_usage_def anth_map_usage_def in_usage_def usage_default_def merge_count_def max_def)

lemma pre_close_event:
  "pre_close ev \<Longrightarrow> unbilled s \<Longrightarrow>
     unbilled (fst (wire_event s ev)) \<and> payload_of (snd (wire_event s ev)) = out_payload ev"
proof (cases ev)
  case (OutMessageStart m)
  assume "pre_close ev" "unbilled s"
  then have s: "merge_usage (an_accumulated_usage s) (anth_map_usage (in_usage (msp_usage m)))
      = usage_default\<lparr>input_tokens := Some 0, output_tokens := Some 0\<rparr>"
    using unbilled_merge [of s "msp_usage m"] OutMessageStart
    by (simp add: pre_close_def anth_map_usage_def in_usage_def outbound_usage_default_def usage_default_def)
  have "unbilled (s\<lparr>an_accumulated_usage := usage_default\<lparr>input_tokens := Some 0, output_tokens := Some 0\<rparr>\<rparr>)"
    using \<open>unbilled s\<close> unfolding unbilled_def by auto
  with s OutMessageStart show ?thesis
    by (simp add: out_payload_def report_usage_def emitter_defs)
next
  case (OutContentBlockStart i p)
  assume "unbilled s"
  with OutContentBlockStart show ?thesis by (cases p) (auto simp: unbilled_def out_payload_def emitter_defs)
next
  case (OutContentBlockDelta i d)
  assume "unbilled s"
  with OutContentBlockDelta show ?thesis by (cases d) (auto simp: unbilled_def out_payload_def emitter_defs)
qed (auto simp: pre_close_def unbilled_def out_payload_def emitter_defs)

lemma pre_close_run:
  "list_all pre_close os \<Longrightarrow> unbilled s \<Longrightarrow>
     unbilled (fst (run_steps wire_event s os))
     \<and> payload_of (snd (run_steps wire_event s os)) = concat (map out_payload os)"
  by (induction os arbitrary: s) (simp_all add: Let_def case_prod_unfold pre_close_event)

lemma close_run:
  "unbilled s \<Longrightarrow> snd (run_steps wire_event s [OutMessageDelta d u, OutMessageStop]) =
     [UsageDelta (anth_map_usage (in_usage u)), MessageStop (stop_reason_from_anthropic (mdp_stop_reason d)) (mdp_stop_sequence d),
      ResponseStop (Some (anth_map_usage (in_usage u)))]"
  using unbilled_merge [of s u]
  by (auto simp: unbilled_def emitter_defs report_usage_def anth_message_delta_def Let_def case_prod_unfold
      split: option.split)

text \<open>The stop reason a client of a client sees: an unknown reason becomes \<open>end_turn\<close>.\<close>

definition seen_reason :: "StopReason \<Rightarrow> StopReason" where
  "seen_reason r = (case r of OtherStop s \<Rightarrow> EndTurn | _ \<Rightarrow> r)"

lemma stop_reason_roundtrip: "stop_reason_from_anthropic (stop_reason_to_anthropic r) = seen_reason r"
  by (cases r) (simp_all add: stop_reason_from_anthropic_def seen_reason_def)

lemma final_usage_override:
  "final_usage st = billed us None \<Longrightarrow> final_usage (override_usage u st) = billed us u"
  by (cases u) (auto simp: final_usage_def override_usage_def billed_def)

lemma anth_wire_complete:
  assumes "list_all no_stop es" "list_all no_stop us"
  obtains out where "anth_wire display (encoder_state_new rid) (map Inr (es @ MessageStop r q # us @ ResponseStop u # post))
      = out @ [OutMessageDelta \<lparr>mdp_stop_reason = stop_reason_to_anthropic r, mdp_stop_sequence = q\<rparr>
                 (billed (usages (es @ us)) u), OutMessageStop]"
    "list_all pre_close out" "concat (map out_payload out) = payload_of (es @ us)"
proof -
  let ?st = "encoder_run es (encoder_state_new rid)"
  let ?st1 = "?st\<lparr>es_pending_stop := Some (r, q)\<rparr>"
  let ?st2 = "encoder_run us ?st1"
  obtain out where out: "anth_wire display (encoder_state_new rid) (map Inr es @ map Inr (MessageStop r q # us @ ResponseStop u # post))
      = out @ anth_wire display ?st (map Inr (MessageStop r q # us @ ResponseStop u # post))"
    "list_all pre_close out" "concat (map out_payload out) = payload_of es"
    using anth_wire_run [OF assms(1)] by blast
  obtain out' where out': "anth_wire display ?st1 (map Inr us @ map Inr (ResponseStop u # post))
      = out' @ anth_wire display ?st2 (map Inr (ResponseStop u # post))"
    "list_all pre_close out'" "concat (map out_payload out') = payload_of us"
    using anth_wire_run [OF assms(2)] by blast
  have run: "es_pending_stop ?st2 = Some (r, q) \<and> final_usage ?st2 = final_usage (encoder_run us ?st)"
    using assms(2)
  proof (induction us rule: rev_induct)
    case (snoc ev us)
    then show ?case
      by (cases ev) (auto simp: encoder_run_def anth_encode_event_def no_stop_def final_usage_def add_usage_def)
  qed (simp add: encoder_run_def final_usage_def)
  have "encoder_run us ?st = encoder_run (es @ us) (encoder_state_new rid)" by (simp add: encoder_run_def)
  with encoder_run_usage [of "es @ us" rid] assms run
  have fin: "es_pending_stop ?st2 = Some (r, q)" "final_usage ?st2 = billed (usages (es @ us)) None" by simp_all
  have pend: "es_pending_stop (override_usage u st) = es_pending_stop st" for st
    by (cases u) (simp_all add: override_usage_def)
  have "anth_wire display ?st2 (map Inr (ResponseStop u # post))
      = [OutMessageDelta \<lparr>mdp_stop_reason = stop_reason_to_anthropic r, mdp_stop_sequence = q\<rparr>
           (billed (usages (es @ us)) u), OutMessageStop]"
    using fin final_usage_override [OF fin(2), of u]
    by (simp add: anth_encode_item_def anth_encode_event_def Let_def pend)
  with out out' show thesis
    by (intro that [of "out @ out'"]) (simp_all add: anth_encode_item_def anth_encode_event_def)
qed


definition demo_usage :: Usage where
  "demo_usage = usage_default\<lparr>input_tokens := Some 5, output_tokens := Some 3\<rparr>"

definition demo_delta :: OutboundEvent where
  "demo_delta = OutContentBlockDelta 0 (OutTextDelta ''hi'')"

definition demo_close :: OutboundEvent where
  "demo_close = OutMessageDelta \<lparr>mdp_stop_reason = ''tool_use'', mdp_stop_sequence = None\<rparr> (billed [demo_usage, demo_usage] None)"

definition demo_writer :: "json \<Rightarrow> string option" where
  "demo_writer v = Some (if v = outbound_json demo_delta then ''a'' else if v = outbound_json demo_close then ''b'' else ''c'')"

definition demo_reader :: "string \<Rightarrow> string + json" where
  "demo_reader d = Inr (outbound_json (if d = ''a'' then demo_delta else if d = ''b'' then demo_close else OutMessageStop))"

definition demo_stream :: "stream_item source_poll list" where
  "demo_stream = map (SrcItem \<circ> Inr) [TextDelta 0 ''hi'', UsageDelta demo_usage, MessageStop ToolUse None, UsageDelta demo_usage,
     ResponseStop None]"


end
