(* ===== verification/Unary_Encoders.thy ===== *)
theory Unary_Encoders
  imports Unary_Parser Chat_Encoder Anthropic_Encoder Collect Request_Wire
begin

text \<open>
  The encoders of complete responses, \<open>encode_unary.rs\<close> of \<open>frontends/src/openai_chat\<close> and
  \<open>frontends/src/anthropic_messages\<close>, with their wire types, and what a response becomes that is encoded for a
  client and read back by the provider parser of the same dialect: the unary hop between two gateways.
  Parameters: the JSON writer \<open>to_vec\<close>, the readers, and the clock.
\<close>

section \<open>OpenAI chat\<close>

record UnaryToolCallFunction =
  utf_name :: string
  utf_arguments :: string

record UnaryToolCall =
  utc_id :: string
  utc_ty :: string
  utc_function :: UnaryToolCallFunction

record UnaryMessage =
  um_role :: string
  um_content :: "string option"
  um_tool_calls :: "UnaryToolCall list"

record UnaryChoice =
  uc_index :: u32
  uc_message :: UnaryMessage
  uc_finish_reason :: string

record ChatCompletionOut =
  cco_id :: string
  cco_object :: string
  cco_created :: u64
  cco_model :: string
  cco_choices :: "UnaryChoice list"
  cco_usage :: "UsageOut option"

definition unary_tool_call_json :: "UnaryToolCall \<Rightarrow> json" where
  "unary_tool_call_json tc = JObject [(''id'', JString (utc_id tc)), (''type'', JString (utc_ty tc)),
     (''function'', JObject [(''name'', JString (utf_name (utc_function tc))),
        (''arguments'', JString (utf_arguments (utc_function tc)))])]"

definition unary_message_json :: "UnaryMessage \<Rightarrow> json" where
  "unary_message_json m = JObject ([(''role'', JString (um_role m))] @ opt_member ''content'' JString (um_content m)
     @ (if um_tool_calls m = [] then [] else [(''tool_calls'', JArray (map unary_tool_call_json (um_tool_calls m)))]))"

definition unary_choice_json :: "UnaryChoice \<Rightarrow> json" where
  "unary_choice_json c = JObject [(''index'', json_u32 (uc_index c)), (''message'', unary_message_json (uc_message c)),
     (''finish_reason'', JString (uc_finish_reason c))]"

definition chat_completion_json :: "ChatCompletionOut \<Rightarrow> json" where
  "chat_completion_json c = JObject ([(''id'', JString (cco_id c)), (''object'', JString (cco_object c)),
     (''created'', JPosInt (cco_created c)), (''model'', JString (cco_model c)),
     (''choices'', JArray (map unary_choice_json (cco_choices c)))] @ opt_member ''usage'' usage_json (cco_usage c))"

fun response_text :: "ContentBlock \<Rightarrow> string option" where
  "response_text (BText t) = Some (tb_text t)"
| "response_text _ = None"

fun response_call :: "(json \<Rightarrow> string) \<Rightarrow> ContentBlock \<Rightarrow> UnaryToolCall option" where
  "response_call to_string (BToolCall tc) = Some \<lparr>utc_id = tc_id tc, utc_ty = ''function'',
     utc_function = \<lparr>utf_name = tc_name tc, utf_arguments =
       (case tc_arguments tc of Complete v \<Rightarrow> to_string v | Streaming d \<Rightarrow> d)\<rparr>\<rparr>"
| "response_call to_string _ = None"

definition chat_completion_out :: "(json \<Rightarrow> string) \<Rightarrow> u64 \<Rightarrow> CanonicalResponse \<Rightarrow> ChatCompletionOut" where
  "chat_completion_out to_string created response =
     (let text_parts = List.map_filter response_text (cr_content response);
          tool_calls = List.map_filter (response_call to_string) (cr_content response)
      in \<lparr>cco_id = cr_id response, cco_object = ''chat.completion'', cco_created = created, cco_model = cr_model response,
          cco_choices = [\<lparr>uc_index = 0,
             uc_message = \<lparr>um_role = ''assistant'', um_content = (if text_parts = [] then None else Some (concat text_parts)),
                um_tool_calls = tool_calls\<rparr>,
             uc_finish_reason = finish_reason_from_canonical (cr_stop_reason response)\<rparr>],
          cco_usage = map_option usage_out (cr_usage response)\<rparr>)"

definition chat_encode_unary :: "(json \<Rightarrow> string + 'b) \<Rightarrow> (json \<Rightarrow> string) \<Rightarrow> u64 option \<Rightarrow> u64 \<Rightarrow> CanonicalResponse
    \<Rightarrow> FrontendError + 'b" where
  "chat_encode_unary to_vec to_string clock_override now response =
     (case to_vec (chat_completion_json (chat_completion_out to_string (unwrap_or clock_override now) response)) of
        Inl e \<Rightarrow> Inl (FE_Encode e) | Inr bytes \<Rightarrow> Inr bytes)"

section \<open>Anthropic\<close>

datatype OutboundContentBlock =
    ObText string
  | ObToolUse string string json
  | ObThinking string
  | ObRedactedThinking string

record MessagesResponse =
  mrs_id :: string
  mrs_ty :: string
  mrs_role :: string
  mrs_content :: "OutboundContentBlock list"
  mrs_model :: string
  mrs_stop_reason :: string
  mrs_stop_sequence :: "string option"
  mrs_usage :: OutboundUsage

fun outbound_block_json :: "OutboundContentBlock \<Rightarrow> json" where
  "outbound_block_json (ObText t) = JObject [(''type'', JString ''text''), (''text'', JString t)]"
| "outbound_block_json (ObToolUse i n x) = JObject [(''type'', JString ''tool_use''), (''id'', JString i),
     (''name'', JString n), (''input'', x)]"
| "outbound_block_json (ObThinking t) = JObject [(''type'', JString ''thinking''), (''thinking'', JString t)]"
| "outbound_block_json (ObRedactedThinking d) = JObject [(''type'', JString ''redacted_thinking''), (''data'', JString d)]"

definition messages_response_json :: "MessagesResponse \<Rightarrow> json" where
  "messages_response_json r = JObject ([(''id'', JString (mrs_id r)), (''type'', JString (mrs_ty r)),
     (''role'', JString (mrs_role r)), (''content'', JArray (map outbound_block_json (mrs_content r))),
     (''model'', JString (mrs_model r)), (''stop_reason'', JString (mrs_stop_reason r))]
     @ opt_member ''stop_sequence'' JString (mrs_stop_sequence r) @ [(''usage'', outbound_usage_json (mrs_usage r))])"

fun response_block :: "(string \<Rightarrow> string + json) \<Rightarrow> ContentBlock \<Rightarrow> OutboundContentBlock option" where
  "response_block from_str (BText t) = Some (ObText (tb_text t))"
| "response_block from_str (BToolCall tc) = Some (ObToolUse (tc_id tc) (tc_name tc)
     (case tc_arguments tc of Complete v \<Rightarrow> v
      | Streaming d \<Rightarrow> (case from_str d of Inl e \<Rightarrow> JString d | Inr v \<Rightarrow> v)))"
| "response_block from_str (BReasoning r) = Some (ObThinking (tb_text r))"
| "response_block from_str (BRedactedReasoning r) = Some (ObRedactedThinking (rr_data r))"
| "response_block from_str _ = None"

definition response_usage :: "Usage option \<Rightarrow> OutboundUsage" where
  "response_usage usage = unwrap_or (map_option (\<lambda>u. \<lparr>ou_input_tokens = unwrap_or (input_tokens u) 0,
     ou_output_tokens = unwrap_or (output_tokens u) 0, ou_cache_creation_input_tokens = cache_creation_input_tokens u,
     ou_cache_read_input_tokens = cache_read_input_tokens u\<rparr>) usage) outbound_usage_default"

definition messages_response :: "(string \<Rightarrow> string + json) \<Rightarrow> CanonicalResponse \<Rightarrow> MessagesResponse" where
  "messages_response from_str response =
     \<lparr>mrs_id = cr_id response, mrs_ty = ''message'', mrs_role = ''assistant'',
      mrs_content = List.map_filter (response_block from_str) (cr_content response), mrs_model = cr_model response,
      mrs_stop_reason = stop_reason_to_anthropic (cr_stop_reason response), mrs_stop_sequence = cr_stop_sequence response,
      mrs_usage = response_usage (cr_usage response)\<rparr>"

definition anth_encode_unary :: "(json \<Rightarrow> string + 'b) \<Rightarrow> (string \<Rightarrow> string + json) \<Rightarrow> CanonicalResponse \<Rightarrow> FrontendError + 'b" where
  "anth_encode_unary to_vec from_str response =
     (case to_vec (messages_response_json (messages_response from_str response)) of
        Inl e \<Rightarrow> Inl (FE_Encode e) | Inr bytes \<Rightarrow> Inr bytes)"

section \<open>The chat hop\<close>

text \<open>What a chat client that is itself a gateway collects of a response: one text, the calls with the arguments
  read again, and a usage whose counts are always present.\<close>

definition call_block :: "(string \<Rightarrow> string + json) \<Rightarrow> UnaryToolCall \<Rightarrow> ContentBlock" where
  "call_block from_str tc = tool_block (utc_id tc) (utf_name (utc_function tc)) (read_args from_str (utf_arguments (utc_function tc)))"

definition chat_kept :: "(string \<Rightarrow> string + json) \<Rightarrow> (json \<Rightarrow> string) \<Rightarrow> ContentBlock list \<Rightarrow> ContentBlock list" where
  "chat_kept from_str to_string bs =
     (let t = concat (List.map_filter response_text bs) in if t = [] then [] else [text_content_block t])
     @ map (call_block from_str) (List.map_filter (response_call to_string) bs)"

definition reread_usage :: "Usage \<Rightarrow> Usage" where
  "reread_usage u = usage_default\<lparr>input_tokens := Some (unwrap_or (input_tokens u) 0),
     output_tokens := Some (unwrap_or (output_tokens u) 0)\<rparr>"

definition call_events :: "u32 \<Rightarrow> UnaryToolCall \<Rightarrow> StreamEvent list" where
  "call_events i tc = [ContentBlockStart i KToolCall, ToolCallStart i (utc_id tc) (utf_name (utc_function tc)),
     ToolCallArgumentsDelta i (utf_arguments (utc_function tc)), ToolCallStop i, ContentBlockStop i]"

lemma unary_tool_call_written:
  "unary_tool_call (unary_tool_call_json tc) s = (advance s, call_events (u_block_index s) tc)"
  by (simp add: unary_tool_call_def unary_tool_call_json_def get_str_def tool_function_def emit_update_def call_events_def)

lemma collect_call:
  assumes "idle st"
  shows "\<exists>st'. collect_loop from_str display (map Inr (call_events i tc)) st = Inr st' \<and> idle st'
    \<and> collected st' = (collected st)\<lparr>cr_content := co_content st @ [call_block from_str tc]\<rparr>"
  using assms by (auto simp: call_events_def idle_def collect_block_stop_def collected_def Let_def call_block_def)

lemma collect_calls:
  assumes "idle st"
  shows "\<exists>st'. collect_loop from_str display (map Inr (snd (emit_for (map unary_tool_call_json tcs) unary_tool_call s))) st = Inr st'
    \<and> idle st' \<and> collected st' = (collected st)\<lparr>cr_content := co_content st @ map (call_block from_str) tcs\<rparr>
    \<and> u_stop_reason (fst (emit_for (map unary_tool_call_json tcs) unary_tool_call s)) = u_stop_reason s"
  using assms
proof (induction tcs arbitrary: s st)
  case Nil
  then show ?case by (simp add: emit_skip_def collected_def)
next
  case (Cons tc tcs)
  from collect_call [OF Cons.prems, of from_str display "u_block_index s" tc] obtain st1
    where st1: "collect_loop from_str display (map Inr (call_events (u_block_index s) tc)) st = Inr st1" "idle st1"
      "collected st1 = (collected st)\<lparr>cr_content := co_content st @ [call_block from_str tc]\<rparr>" by blast
  from Cons.IH [OF st1(2), of "advance s"] st1 show ?case
    by (auto simp: emit_then_def unary_tool_call_written case_prod_unfold collect_loop_append collected_def advance_def Let_def)
qed

lemma collect_text:
  assumes "idle st"
  shows "\<exists>st'. collect_loop from_str display (map Inr (snd (unary_text t s))) st = Inr st' \<and> idle st'
    \<and> collected st' = (collected st)\<lparr>cr_content := co_content st @ (if t = [] then [] else [text_content_block t])\<rparr>
    \<and> u_stop_reason (fst (unary_text t s)) = u_stop_reason s"
  using assms
  by (auto simp: unary_text_def emit_when_def emit_update_def advance_def idle_def collect_block_stop_def collected_def Let_def)

lemma chat_choice_written:
  fixes to_string :: "json \<Rightarrow> string"
  assumes "idle st"
    and "choice = unary_choice_json (hd (cco_choices (chat_completion_out to_string created resp)))"
  shows "\<exists>st'. collect_loop from_str display (map Inr (snd (unary_choice choice s))) st = Inr st'
    \<and> collected st' = (collected st)\<lparr>cr_content := co_content st @ chat_kept from_str to_string (cr_content resp)\<rparr>
    \<and> u_stop_reason (fst (unary_choice choice s))
        = stop_reason_from_provider_string (finish_reason_from_canonical (cr_stop_reason resp))"
proof -
  let ?reason = "stop_reason_from_provider_string (finish_reason_from_canonical (cr_stop_reason resp))"
  let ?texts = "List.map_filter response_text (cr_content resp)" and ?calls = "List.map_filter (response_call to_string) (cr_content resp)"
  let ?s1 = "s\<lparr>u_stop_reason := ?reason\<rparr>"
  have get: "get_str choice ''finish_reason'' = Some (finish_reason_from_canonical (cr_stop_reason resp))"
    "jget choice ''message'' = Some (unary_message_json \<lparr>um_role = ''assistant'',
        um_content = (if ?texts = [] then None else Some (concat ?texts)), um_tool_calls = ?calls\<rparr>)"
    by (simp_all add: assms(2) unary_choice_json_def chat_completion_out_def Let_def get_str_def)
  have msg: "get_str (unary_message_json \<lparr>um_role = ''assistant'', um_content = c, um_tool_calls = calls\<rparr>) ''content'' = c"
    "get_array (unary_message_json \<lparr>um_role = ''assistant'', um_content = c, um_tool_calls = calls\<rparr>) ''tool_calls''
       = (if calls = [] then None else Some (map unary_tool_call_json calls))" for c calls
    by (cases c; simp add: unary_message_json_def get_str_def get_array_def)+
  have texts: "snd (emit_some (if ?texts = [] then None else Some (concat ?texts)) unary_text ?s1) = snd (unary_text (concat ?texts) ?s1)"
    "fst (emit_some (if ?texts = [] then None else Some (concat ?texts)) unary_text ?s1) = fst (unary_text (concat ?texts) ?s1)"
    by (auto simp: emit_skip_def unary_text_def emit_when_def)
  have calls: "emit_some (if calls = [] then None else Some (map unary_tool_call_json calls)) (\<lambda>tcs. emit_for tcs unary_tool_call)
      = emit_for (map unary_tool_call_json calls) unary_tool_call" for calls
    by auto
  have run: "unary_choice choice s = (fst (emit_for (map unary_tool_call_json ?calls) unary_tool_call (fst (unary_text (concat ?texts) ?s1))),
      snd (unary_text (concat ?texts) ?s1)
      @ snd (emit_for (map unary_tool_call_json ?calls) unary_tool_call (fst (unary_text (concat ?texts) ?s1))))"
    unfolding unary_choice_def get emit_some.simps msg calls
    by (simp add: emit_then_def emit_skip_def modify_def Let_def case_prod_unfold texts)
  obtain st1 where st1: "collect_loop from_str display (map Inr (snd (unary_text (concat ?texts) ?s1))) st = Inr st1" "idle st1"
    "collected st1 = (collected st)\<lparr>cr_content := co_content st @ (if concat ?texts = [] then [] else [text_content_block (concat ?texts)])\<rparr>"
    "u_stop_reason (fst (unary_text (concat ?texts) ?s1)) = ?reason"
    using collect_text [OF assms(1), of from_str display "concat ?texts" ?s1] by (auto simp del: concat_eq_Nil_conv)
  from collect_calls [OF st1(2), of from_str display ?calls "fst (unary_text (concat ?texts) ?s1)"] st1 show ?thesis
    unfolding run by (auto simp: collect_loop_append collected_def chat_kept_def Let_def simp del: concat_eq_Nil_conv)
qed


lemma usage_reread:
  "chat_unary_usage (usage_json (usage_out u)) = reread_usage u"
  by (simp add: chat_unary_usage_def usage_json_def usage_out_def reread_usage_def get_u64_def json_u32_def)

lemma chat_hop:
  fixes to_string :: "json \<Rightarrow> string"
  assumes "unary_events chat_unary_usage (chat_completion_json (chat_completion_out to_string created resp)) = Inr es"
  shows "collect_stream from_str display rid (map Inr es) = Inr \<lparr>cr_id = cr_id resp, cr_model = cr_model resp,
    cr_content = chat_kept from_str to_string (cr_content resp),
    cr_stop_reason = stop_reason_from_provider_string (finish_reason_from_canonical (cr_stop_reason resp)),
    cr_stop_sequence = None, cr_usage = map_option reread_usage (cr_usage resp)\<rparr>"
proof -
  let ?c = "chat_completion_out to_string created resp"
  let ?v = "chat_completion_json ?c"
  let ?choice = "unary_choice_json (hd (cco_choices ?c))"
  let ?s0 = "\<lparr>u_stop_reason = EndTurn, u_block_index = 0\<rparr>"
  let ?st = "(collector_new rid)\<lparr>co_id := cr_id resp, co_model := cr_model resp\<rparr>"
  have get: "jget ?v ''error'' = None" "get_array ?v ''choices'' = Some [?choice]" "get_str ?v ''id'' = Some (cr_id resp)"
    "get_str ?v ''model'' = Some (cr_model resp)" "get_u64 ?v ''created'' = Some created"
    "jget ?v ''usage'' = map_option (usage_json \<circ> usage_out) (cr_usage resp)"
    by (cases "cr_usage resp"; simp add: chat_completion_json_def chat_completion_out_def Let_def get_str_def get_array_def get_u64_def)+
  have es: "es = [ResponseStart (cr_id resp) (cr_model resp) created, MessageStart Assistant]
      @ snd (emit_for [?choice] unary_choice ?s0)
      @ [MessageStop (u_stop_reason (fst (emit_for [?choice] unary_choice ?s0))) None,
         ResponseStop (map_option reread_usage (cr_usage resp))]"
    using assms unfolding unary_events_def get
    by (cases "cr_usage resp") (auto simp: case_prod_unfold usage_reread Let_def)
  have one: "emit_for [?choice] unary_choice ?s0 = unary_choice ?choice ?s0"
    by (simp add: emit_then_def emit_skip_def case_prod_unfold Let_def)
  have "idle ?st" by (simp add: idle_def collector_new_def)
  from chat_choice_written [OF this refl, of from_str display to_string created resp ?s0]
  obtain st1 where st1: "collect_loop from_str display (map Inr (snd (unary_choice ?choice ?s0))) ?st = Inr st1"
    "collected st1 = (collected ?st)\<lparr>cr_content := co_content ?st @ chat_kept from_str to_string (cr_content resp)\<rparr>"
    "u_stop_reason (fst (unary_choice ?choice ?s0)) = stop_reason_from_provider_string (finish_reason_from_canonical (cr_stop_reason resp))"
    by blast
  then show ?thesis
    unfolding es one collect_stream_def
    by (cases "cr_usage resp") (simp_all add: collect_loop_append collected_def collector_new_def)
qed

text \<open>
  A response that is encoded for a chat client and read back by the chat provider's parser, as happens between
  two gateways, is collected with the same id, model and stop reason (up to the wire's vocabulary), its texts as
  one text, its tool calls in order with the arguments that were written, and its token counts; reasoning, the stop
  sequence and cache counts do not survive the chat dialect.
\<close>

theorem chat_unary_hop:
  fixes to_string :: "json \<Rightarrow> string"
  assumes "chat_encode_unary to_vec to_string clock now resp = Inr body"
    and "from_slice body = Inr (chat_completion_json (chat_completion_out to_string (unwrap_or clock now) resp))"
  shows "collect_stream from_str display rid (chat_parse_unary from_slice body) = Inr \<lparr>cr_id = cr_id resp,
    cr_model = cr_model resp, cr_content = chat_kept from_str to_string (cr_content resp),
    cr_stop_reason = stop_reason_from_provider_string (finish_reason_from_canonical (cr_stop_reason resp)),
    cr_stop_sequence = None, cr_usage = map_option reread_usage (cr_usage resp)\<rparr>"
proof -
  let ?v = "chat_completion_json (chat_completion_out to_string (unwrap_or clock now) resp)"
  have "\<exists>es. unary_events chat_unary_usage ?v = Inr es"
    by (cases "cr_usage resp")
       (simp_all add: unary_events_def chat_completion_json_def chat_completion_out_def Let_def get_array_def case_prod_unfold)
  then obtain es where "unary_events chat_unary_usage ?v = Inr es" by blast
  with chat_hop [OF this] assms(2) show ?thesis
    by (simp add: chat_parse_unary_def chat_parse_inner_def unary_inner_def unary_stream_def)
qed

section \<open>The Anthropic hop\<close>

fun in_block :: "OutboundContentBlock \<Rightarrow> IncomingContentBlock" where
  "in_block (ObText t) = InText t"
| "in_block (ObToolUse i n x) = InToolUse i n x"
| "in_block (ObThinking t) = InThinking t None"
| "in_block (ObRedactedThinking d) = InRedactedThinking d"

text \<open>What is collected of one block: reasoning is not.\<close>

fun anth_kept :: "(string \<Rightarrow> string + json) \<Rightarrow> (json \<Rightarrow> string option) \<Rightarrow> OutboundContentBlock \<Rightarrow> ContentBlock list" where
  "anth_kept from_str to_string (ObText t) = (if t = [] then [] else [text_content_block t])"
| "anth_kept from_str to_string (ObToolUse i n x) = [tool_block i n (read_args from_str (unwrap_or (to_string x) ''{}''))]"
| "anth_kept from_str to_string _ = []"

definition billed_usage :: "OutboundUsage \<Rightarrow> Usage" where
  "billed_usage u = usage_default\<lparr>input_tokens := Some (ou_input_tokens u), output_tokens := Some (ou_output_tokens u),
     cache_creation_input_tokens := ou_cache_creation_input_tokens u, cache_read_input_tokens := ou_cache_read_input_tokens u\<rparr>"

lemma incoming_block_written: "incoming_block (outbound_block_json b) = Some (in_block b)"
  by (cases b) (simp_all add: incoming_block_def de_defs)

lemma collect_anth_block:
  assumes "idle st"
  shows "\<exists>st'. collect_loop from_str display (map Inr (anth_unary_block to_string i (in_block b))) st = Inr st' \<and> idle st'
    \<and> collected st' = (collected st)\<lparr>cr_content := co_content st @ anth_kept from_str to_string b\<rparr>"
  using assms by (cases b) (auto simp: idle_def collect_block_stop_def collected_def Let_def)

lemma collect_anth_blocks:
  assumes "idle st"
  shows "\<exists>st'. collect_loop from_str display (map Inr (anth_unary_blocks to_string n (map in_block bs))) st = Inr st' \<and> idle st'
    \<and> collected st' = (collected st)\<lparr>cr_content := co_content st @ concat (map (anth_kept from_str to_string) bs)\<rparr>"
  using assms
proof (induction bs arbitrary: n st)
  case Nil
  then show ?case by (simp add: collected_def)
next
  case (Cons b bs)
  from collect_anth_block [OF Cons.prems, of from_str display to_string "of_nat n" b] obtain st1
    where st1: "collect_loop from_str display (map Inr (anth_unary_block to_string (of_nat n) (in_block b))) st = Inr st1" "idle st1"
      "collected st1 = (collected st)\<lparr>cr_content := co_content st @ anth_kept from_str to_string b\<rparr>" by blast
  from Cons.IH [OF st1(2), of "Suc n"] st1 show ?case by (auto simp: collect_loop_append collected_def)
qed

lemma messages_response_read:
  "incoming_response (messages_response_json r) = Some \<lparr>imr_id = mrs_id r, imr_model = mrs_model r,
     imr_content = map in_block (mrs_content r), imr_stop_reason = Some (mrs_stop_reason r),
     imr_stop_sequence = mrs_stop_sequence r, imr_usage = Some (in_usage (mrs_usage r))\<rparr>"
  by (cases "mrs_stop_sequence r")
     (simp_all add: incoming_response_def messages_response_json_def de_defs de_array_written incoming_block_written)

lemma billed_in_usage:
  "anth_map_usage (in_usage u) = billed_usage u" "\<not> is_usage_empty (billed_usage u)"
  by (simp_all add: anth_map_usage_def in_usage_def billed_usage_def is_usage_empty_def)

lemma anth_hop:
  fixes r :: MessagesResponse
  shows "collect_stream from_str display rid (map Inr (anth_unary_events to_string (the (incoming_response (messages_response_json r)))))
    = Inr \<lparr>cr_id = mrs_id r, cr_model = mrs_model r, cr_content = concat (map (anth_kept from_str to_string) (mrs_content r)),
        cr_stop_reason = stop_reason_from_anthropic (mrs_stop_reason r), cr_stop_sequence = mrs_stop_sequence r,
        cr_usage = Some (billed_usage (mrs_usage r))\<rparr>"
proof -
  let ?st = "(collector_new rid)\<lparr>co_id := mrs_id r, co_model := mrs_model r, co_usage := Some (billed_usage (mrs_usage r))\<rparr>"
  have "idle ?st" by (simp add: idle_def collector_new_def)
  from collect_anth_blocks [OF this, of from_str display to_string 0 "mrs_content r"] obtain st
    where "collect_loop from_str display (map Inr (anth_unary_blocks to_string 0 (map in_block (mrs_content r)))) ?st = Inr st"
      "collected st = (collected ?st)\<lparr>cr_content := co_content ?st @ concat (map (anth_kept from_str to_string) (mrs_content r))\<rparr>"
    by blast
  then show ?thesis
    by (simp add: collect_stream_def anth_unary_events_def messages_response_read Let_def billed_in_usage collect_loop_append
        collected_def collector_new_def)
qed


text \<open>A response with a text, thinking and a call, through both hops; writer and reader are constant.\<close>

definition demo_response :: CanonicalResponse where
  "demo_response = \<lparr>cr_id = ''r1'', cr_model = ''m'', cr_content = [text_content_block ''Hi'',
     BReasoning \<lparr>tb_text = ''hm'', tb_extensions = []\<rparr>,
     BToolCall \<lparr>tc_id = ''c1'', tc_name = ''look'', tc_arguments = Complete (JObject []), tc_extensions = []\<rparr>],
     cr_stop_reason = ToolUse, cr_stop_sequence = None,
     cr_usage = Some (usage_default\<lparr>input_tokens := Some 7, cache_read_input_tokens := Some 3\<rparr>)\<rparr>"

definition demo_args :: "string \<Rightarrow> string + json" where
  "demo_args s = (if s = ''{}'' then Inr (JObject []) else Inl ''bad'')"

theorem chat_unary_hop_witness:
  "collect_stream demo_args (\<lambda>e. []) ''x'' (chat_parse_unary (\<lambda>b. Inr (chat_completion_json
      (chat_completion_out (\<lambda>v. ''{}'') 5 demo_response))) []) = Inr \<lparr>cr_id = ''r1'', cr_model = ''m'',
     cr_content = [text_content_block ''Hi'', tool_block ''c1'' ''look'' (JObject [])], cr_stop_reason = ToolUse,
     cr_stop_sequence = None, cr_usage = Some (usage_default\<lparr>input_tokens := Some 7, output_tokens := Some 0\<rparr>)\<rparr>"
proof -
  let ?read = "\<lambda>b :: u8 list. Inr (chat_completion_json (chat_completion_out (\<lambda>v. ''{}'') 5 demo_response))"
  have "chat_encode_unary (\<lambda>v. Inr []) (\<lambda>v. ''{}'') (Some 5) 0 demo_response = Inr ([] :: u8 list)"
    by (simp add: chat_encode_unary_def)
  from chat_unary_hop [OF this, of ?read demo_args "\<lambda>e. []" "''x''"] show ?thesis
    by (simp add: demo_response_def chat_kept_def call_block_def text_content_block_def List.map_filter_simps demo_args_def
        read_args_def reread_usage_def stop_reason_from_provider_string_def usage_default_def)
qed


text \<open>The chat dialect's total is a \<open>u32\<close> sum that wraps (and panics in a debug build).\<close>

lemma chat_total_wraps:
  "input_tokens u = Some 4294967295 \<Longrightarrow> output_tokens u = Some 1 \<Longrightarrow> uo_total_tokens (usage_out u) = 0"
  by (simp add: usage_out_def)

end
