(* ===== verification/Gemini_Request.thy ===== *)
theory Gemini_Request
  imports Gemini Anthropic_Forward
begin

text \<open>
  The Gemini request side: the request types of \<open>providers/src/gemini/wire.rs\<close> with their JSON form and the encoder
  \<open>request.rs\<close>. An Anthropic request is followed through the decoder, the encoder and the wire to what a Gemini
  upstream reads. Two types that have namesakes elsewhere carry a prefix (\<open>GmTool\<close>, \<open>GmThinkingConfig\<close>). The
  debug line about a collapsed system message is left out; an \<open>f32\<close> is a real, so its cast to \<open>f64\<close> is exact.
\<close>

section \<open>Request wire types\<close>

record FunctionDeclaration =
  fde_name :: string
  fde_description :: "string option"
  fde_parameters :: "json option"

record GmTool =
  gt_function_declarations :: "FunctionDeclaration list"

record GmThinkingConfig =
  gtc_thinking_budget :: "int option"
  gtc_include_thoughts :: "bool option"

record GenerationConfig =
  gcf_temperature :: "f64 option"
  gcf_top_p :: "f64 option"
  gcf_top_k :: "int option"
  gcf_max_output_tokens :: "int option"
  gcf_stop_sequences :: "string list option"
  gcf_response_mime_type :: "string option"
  gcf_response_schema :: "json option"
  gcf_thinking_config :: "GmThinkingConfig option"

record SafetySetting =
  sse_category :: string
  sse_threshold :: string

record GenerateContentRequest =
  gcr_contents :: "Content list"
  gcr_system_instruction :: "Content option"
  gcr_tools :: "GmTool list option"
  gcr_generation_config :: "GenerationConfig option"
  gcr_safety_settings :: "SafetySetting list option"

definition json_i64 :: "int \<Rightarrow> json" where
  "json_i64 n = (if 0 \<le> n then JPosInt (word_of_int n) else JNegInt n)"

definition inline_data_json :: "InlineData \<Rightarrow> json" where
  "inline_data_json d = JObject [(''mimeType'', JString (id_mime_type d)), (''data'', JString (id_data d))]"

definition file_data_json :: "FileData \<Rightarrow> json" where
  "file_data_json d = JObject [(''mimeType'', JString (fd_mime_type d)), (''fileUri'', JString (fd_file_uri d))]"

definition function_call_json :: "FunctionCall \<Rightarrow> json" where
  "function_call_json c = JObject ([(''name'', JString (fc_name c))] @ opt_member ''args'' (\<lambda>v. v) (fc_args c)
     @ opt_member ''id'' JString (fc_id c))"

definition function_response_json :: "FunctionResponse \<Rightarrow> json" where
  "function_response_json r = JObject ([(''name'', JString (fr_name r)), (''response'', fr_response r)]
     @ opt_member ''id'' JString (fr_id r))"

definition part_json :: "Part \<Rightarrow> json" where
  "part_json p = JObject (opt_member ''text'' JString (pt_text p) @ opt_member ''thought'' JBool (pt_thought p)
     @ opt_member ''inlineData'' inline_data_json (pt_inline_data p)
     @ opt_member ''fileData'' file_data_json (pt_file_data p)
     @ opt_member ''functionCall'' function_call_json (pt_function_call p)
     @ opt_member ''functionResponse'' function_response_json (pt_function_response p))"

definition content_json :: "Content \<Rightarrow> json" where
  "content_json c = JObject [(''role'', JString (cn_role c)), (''parts'', JArray (map part_json (cn_parts c)))]"

definition function_declaration_json :: "FunctionDeclaration \<Rightarrow> json" where
  "function_declaration_json d = JObject ([(''name'', JString (fde_name d))]
     @ opt_member ''description'' JString (fde_description d) @ opt_member ''parameters'' (\<lambda>v. v) (fde_parameters d))"

definition gm_tool_json :: "GmTool \<Rightarrow> json" where
  "gm_tool_json t = JObject [(''functionDeclarations'', JArray (map function_declaration_json (gt_function_declarations t)))]"

definition gm_thinking_json :: "GmThinkingConfig \<Rightarrow> json" where
  "gm_thinking_json t = JObject (opt_member ''thinkingBudget'' json_i64 (gtc_thinking_budget t)
     @ opt_member ''includeThoughts'' JBool (gtc_include_thoughts t))"

definition generation_config_json :: "GenerationConfig \<Rightarrow> json" where
  "generation_config_json g = JObject (opt_member ''temperature'' JFloat (gcf_temperature g)
     @ opt_member ''topP'' JFloat (gcf_top_p g) @ opt_member ''topK'' json_i64 (gcf_top_k g)
     @ opt_member ''maxOutputTokens'' json_i64 (gcf_max_output_tokens g)
     @ opt_member ''stopSequences'' (\<lambda>ss. JArray (map JString ss)) (gcf_stop_sequences g)
     @ opt_member ''responseMimeType'' JString (gcf_response_mime_type g)
     @ opt_member ''responseSchema'' (\<lambda>v. v) (gcf_response_schema g)
     @ opt_member ''thinkingConfig'' gm_thinking_json (gcf_thinking_config g))"

definition safety_setting_json :: "SafetySetting \<Rightarrow> json" where
  "safety_setting_json s = JObject [(''category'', JString (sse_category s)), (''threshold'', JString (sse_threshold s))]"

definition generate_request_json :: "GenerateContentRequest \<Rightarrow> json" where
  "generate_request_json r = JObject ([(''contents'', JArray (map content_json (gcr_contents r)))]
     @ opt_member ''systemInstruction'' content_json (gcr_system_instruction r)
     @ opt_member ''tools'' (\<lambda>ts. JArray (map gm_tool_json ts)) (gcr_tools r)
     @ opt_member ''generationConfig'' generation_config_json (gcr_generation_config r)
     @ opt_member ''safetySettings'' (\<lambda>ss. JArray (map safety_setting_json ss)) (gcr_safety_settings r))"

section \<open>The encoder\<close>

definition part_default :: Part where
  "part_default = \<lparr>pt_text = None, pt_thought = None, pt_inline_data = None, pt_file_data = None, pt_function_call = None,
     pt_function_response = None\<rparr>"

definition note_call :: "(string \<rightharpoonup> string) \<Rightarrow> ContentBlock \<Rightarrow> (string \<rightharpoonup> string)" where
  "note_call by_id b = (case b of BToolCall tc \<Rightarrow> by_id(tc_id tc \<mapsto> tc_name tc) | _ \<Rightarrow> by_id)"

definition collect_tool_call_names :: "CanonicalRequest \<Rightarrow> (string \<rightharpoonup> string)" where
  "collect_tool_call_names req = foldl (\<lambda>by_id msg. foldl note_call by_id (msg_content msg)) Map.empty (req_messages req)"

fun binary_to_part :: "WireEnv \<Rightarrow> BinarySource \<Rightarrow> Part option" where
  "binary_to_part env (Base64 m d) =
     Some (part_default\<lparr>pt_inline_data := Some \<lparr>id_mime_type = m, id_data = we_b64_encode env d\<rparr>\<rparr>)"
| "binary_to_part env (Bytes m d) =
     Some (part_default\<lparr>pt_inline_data := Some \<lparr>id_mime_type = m, id_data = we_b64_encode env d\<rparr>\<rparr>)"
| "binary_to_part env (Url u) = Some (part_default\<lparr>pt_file_data := Some \<lparr>fd_mime_type = [], fd_file_uri = u\<rparr>\<rparr>)"
| "binary_to_part env (ProviderFileId f) = Some (part_default\<lparr>pt_file_data := Some \<lparr>fd_mime_type = [], fd_file_uri = f\<rparr>\<rparr>)"

definition wrap_tool_result_content :: "json \<Rightarrow> json" where
  "wrap_tool_result_content content = (case content of JObject kvs \<Rightarrow> content | _ \<Rightarrow> JObject [(''content'', content)])"

fun block_to_part :: "WireEnv \<Rightarrow> (string \<rightharpoonup> string) \<Rightarrow> ContentBlock \<Rightarrow> Part option" where
  "block_to_part env names (BText t) = Some (part_default\<lparr>pt_text := Some (tb_text t)\<rparr>)"
| "block_to_part env names (BReasoning t) = Some (part_default\<lparr>pt_text := Some (tb_text t), pt_thought := Some True\<rparr>)"
| "block_to_part env names (BImage m) = binary_to_part env (mb_source m)"
| "block_to_part env names (BAudio m) = binary_to_part env (mb_source m)"
| "block_to_part env names (BFile m) = binary_to_part env (mb_source m)"
| "block_to_part env names (BToolCall tc) = Some (part_default\<lparr>pt_function_call := Some \<lparr>fc_name = tc_name tc,
     fc_args = (case tc_arguments tc of Complete v \<Rightarrow> Some v | Streaming d \<Rightarrow> we_from_str env d), fc_id = None\<rparr>\<rparr>)"
| "block_to_part env names (BToolResult tr) = Some (part_default\<lparr>pt_function_response := Some \<lparr>
     fr_name = unwrap_or (names (tr_tool_call_id tr)) (tr_tool_call_id tr),
     fr_response = wrap_tool_result_content (tr_content tr), fr_id = None\<rparr>\<rparr>)"
| "block_to_part env names (BRedactedReasoning r) = None"
| "block_to_part env names (BUnsupported u) = None"

fun gemini_role :: "MessageRole \<Rightarrow> string option" where
  "gemini_role User = Some ''user''"
| "gemini_role Assistant = Some ''model''"
| "gemini_role ToolRole = Some ''function''"
| "gemini_role SystemRole = None"

definition message_content :: "WireEnv \<Rightarrow> (string \<rightharpoonup> string) \<Rightarrow> Message \<Rightarrow> Content option" where
  "message_content env names msg =
     (case gemini_role (msg_role msg) of
        None \<Rightarrow> None
      | Some role \<Rightarrow>
          (let parts = List.map_filter (block_to_part env names) (msg_content msg) in
           if parts = [] then None else Some \<lparr>cn_role = role, cn_parts = parts\<rparr>))"

definition build_contents :: "WireEnv \<Rightarrow> CanonicalRequest \<Rightarrow> (string \<rightharpoonup> string) \<Rightarrow> Content list" where
  "build_contents env req names = List.map_filter (message_content env names) (req_messages req)"

fun text_to_part :: "ContentBlock \<Rightarrow> Part option" where
  "text_to_part (BText t) = Some (part_default\<lparr>pt_text := Some (tb_text t)\<rparr>)"
| "text_to_part _ = None"

definition build_system_instruction :: "CanonicalRequest \<Rightarrow> Content option" where
  "build_system_instruction req =
     (let parts = concat (map (\<lambda>si. List.map_filter text_to_part (si_content si)) (req_system req))
        @ concat (map (\<lambda>msg. if msg_role msg = SystemRole then List.map_filter text_to_part (msg_content msg) else [])
            (req_messages req))
      in if parts = [] then None else Some \<lparr>cn_role = ''user'', cn_parts = parts\<rparr>)"

definition gm_build_tools :: "CanonicalRequest \<Rightarrow> GmTool list option" where
  "gm_build_tools req =
     (if req_tools req = [] then None
      else Some [\<lparr>gt_function_declarations = map (\<lambda>t. \<lparr>fde_name = td_name t, fde_description = td_description t,
        fde_parameters = Some (td_input_schema t)\<rparr>) (req_tools req)\<rparr>])"

fun gm_effort_to_budget :: "ReasoningEffort \<Rightarrow> int" where
  "gm_effort_to_budget Minimal = 128"
| "gm_effort_to_budget Low = 256"
| "gm_effort_to_budget Medium = 1024"
| "gm_effort_to_budget High = 4096"
| "gm_effort_to_budget Xhigh = 16384"
| "gm_effort_to_budget MaxEffort = 24576"

definition gm_thinking_config :: "CanonicalRequest \<Rightarrow> GmThinkingConfig option" where
  "gm_thinking_config req =
     (case rp_reasoning_budget_tokens (req_resolved_policy req) of
        Some b \<Rightarrow> Some \<lparr>gtc_thinking_budget = Some (uint b), gtc_include_thoughts = Some True\<rparr>
      | None \<Rightarrow>
          (case rp_reasoning_effort (req_resolved_policy req) of
             Some effort \<Rightarrow> Some \<lparr>gtc_thinking_budget = Some (gm_effort_to_budget effort), gtc_include_thoughts = Some True\<rparr>
           | None \<Rightarrow> None))"

definition build_generation_config :: "CanonicalRequest \<Rightarrow> GenerationConfig option" where
  "build_generation_config req =
     (let g = req_generation req;
          fmt = (case req_response_format req of
             None \<Rightarrow> (None, None)
           | Some FormatText \<Rightarrow> (None, None)
           | Some FormatJsonObject \<Rightarrow> (Some ''application/json'', None)
           | Some (FormatJsonSchema n schema s) \<Rightarrow> (Some ''application/json'', Some schema));
          stops = (if stop_sequences g = [] then None else Some (stop_sequences g));
          thinking = gm_thinking_config req
      in if max_tokens g = None \<and> temperature g = None \<and> top_p g = None \<and> top_k g = None \<and> stops = None
           \<and> fst fmt = None \<and> snd fmt = None \<and> thinking = None then None
         else Some \<lparr>gcf_temperature = temperature g, gcf_top_p = top_p g, gcf_top_k = map_option uint (top_k g),
           gcf_max_output_tokens = map_option uint (max_tokens g), gcf_stop_sequences = stops,
           gcf_response_mime_type = fst fmt, gcf_response_schema = snd fmt, gcf_thinking_config = thinking\<rparr>)"

definition gm_build :: "WireEnv \<Rightarrow> CanonicalRequest \<Rightarrow> BackendTarget \<Rightarrow> GenerateContentRequest" where
  "gm_build env req target = \<lparr>gcr_contents = build_contents env req (collect_tool_call_names req),
     gcr_system_instruction = build_system_instruction req, gcr_tools = gm_build_tools req,
     gcr_generation_config = build_generation_config req, gcr_safety_settings = None\<rparr>"

definition gm_build_json :: "WireEnv \<Rightarrow> CanonicalRequest \<Rightarrow> BackendTarget \<Rightarrow> json" where
  "gm_build_json env req target = generate_request_json (gm_build env req target)"

section \<open>What an upstream reads\<close>

text \<open>The derived \<open>Deserialize\<close> of the request types that have one; the body itself is read field by field.\<close>

definition de_f64 :: "json \<Rightarrow> f64 option" where
  "de_f64 v = (case v of JPosInt n \<Rightarrow> Some (real (unat n)) | JNegInt i \<Rightarrow> Some (real_of_int i) | JFloat x \<Rightarrow> Some x | _ \<Rightarrow> None)"

definition de_function_declaration :: "json \<Rightarrow> FunctionDeclaration option" where
  "de_function_declaration v = Option.bind (de_field v ''name'' as_str) (\<lambda>n.
     Option.bind (de_option v ''description'' as_str) (\<lambda>d.
     Option.bind (de_option v ''parameters'' Some) (\<lambda>p.
       Some \<lparr>fde_name = n, fde_description = d, fde_parameters = p\<rparr>)))"

definition de_gm_tool :: "json \<Rightarrow> GmTool option" where
  "de_gm_tool v = map_option (\<lambda>ds. \<lparr>gt_function_declarations = ds\<rparr>)
     (de_field v ''functionDeclarations'' (de_array de_function_declaration))"

definition de_gm_thinking :: "json \<Rightarrow> GmThinkingConfig option" where
  "de_gm_thinking v = Option.bind (de_object v) (\<lambda>_.
     Option.bind (de_option v ''thinkingBudget'' de_i64) (\<lambda>b.
     Option.bind (de_option v ''includeThoughts'' as_bool) (\<lambda>i.
       Some \<lparr>gtc_thinking_budget = b, gtc_include_thoughts = i\<rparr>)))"

definition de_generation_config :: "json \<Rightarrow> GenerationConfig option" where
  "de_generation_config v = Option.bind (de_object v) (\<lambda>_.
     Option.bind (de_option v ''temperature'' de_f64) (\<lambda>te.
     Option.bind (de_option v ''topP'' de_f64) (\<lambda>tp.
     Option.bind (de_option v ''topK'' de_i64) (\<lambda>tk.
     Option.bind (de_option v ''maxOutputTokens'' de_i64) (\<lambda>mt.
     Option.bind (de_option v ''stopSequences'' (de_array as_str)) (\<lambda>ss.
     Option.bind (de_option v ''responseMimeType'' as_str) (\<lambda>mi.
     Option.bind (de_option v ''responseSchema'' Some) (\<lambda>sc.
     Option.bind (de_option v ''thinkingConfig'' de_gm_thinking) (\<lambda>th.
       Some \<lparr>gcf_temperature = te, gcf_top_p = tp, gcf_top_k = tk, gcf_max_output_tokens = mt, gcf_stop_sequences = ss,
         gcf_response_mime_type = mi, gcf_response_schema = sc, gcf_thinking_config = th\<rparr>)))))))))"

text \<open>A null argument value or schema is read as an absent one.\<close>

definition non_null :: "json \<Rightarrow> json option" where
  "non_null v = (if is_null v then None else Some v)"

definition normal_part :: "Part \<Rightarrow> Part" where
  "normal_part p = p\<lparr>pt_function_call := map_option (\<lambda>c. c\<lparr>fc_args := Option.bind (fc_args c) non_null\<rparr>) (pt_function_call p)\<rparr>"

lemma de_option_id: "jget v k = x \<Longrightarrow> de_option v k Some = Some (Option.bind x non_null)"
  by (cases x) (simp_all add: de_option_def non_null_def)

lemma de_i64_json [simp]: "- (2 ^ 63) \<le> n \<Longrightarrow> n < 2 ^ 63 \<Longrightarrow> de_i64 (json_i64 n) = Some n"
  by (simp add: json_i64_def uint_word_of_int)

lemma is_null_json_i64 [simp]: "\<not> is_null (json_i64 n)"
  by (simp add: json_i64_def)

lemma u32_fits [simp]: "- 9223372036854775808 \<le> uint (n :: u32)" "uint n < 9223372036854775808"
proof -
  show "- 9223372036854775808 \<le> uint n" by (rule order_trans [OF _ unsigned_greater_eq]) simp
  show "uint n < 9223372036854775808"
    using unsigned_less [of n, where ?'a = int] by simp
qed

lemma inline_data_read: "de_inline_data (inline_data_json d) = Some d"
  by (simp add: de_inline_data_def inline_data_json_def de_field_def)

lemma file_data_read: "de_file_data (file_data_json d) = Some d"
  by (simp add: de_file_data_def file_data_json_def de_field_def)

lemma function_call_read:
  "de_function_call (function_call_json c) = Some (c\<lparr>fc_args := Option.bind (fc_args c) non_null\<rparr>)"
proof -
  have "de_option (function_call_json c) ''args'' Some = Some (Option.bind (fc_args c) non_null)"
    by (rule de_option_id) (simp add: function_call_json_def map_of_opt_member map_of_opt_member_last del: map_of_append)
  moreover have "de_option (function_call_json c) ''id'' as_str = Some (fc_id c)"
    by (subst de_option_get [where f = JString and g = "\<lambda>x. x" and o' = "fc_id c"])
       (simp_all add: function_call_json_def map_of_opt_member map_of_opt_member_last del: map_of_append)
  moreover have "de_field (function_call_json c) ''name'' as_str = Some (fc_name c)"
    by (simp add: function_call_json_def de_field_def)
  ultimately show ?thesis by (simp add: de_function_call_def)
qed

lemma function_response_read: "de_function_response (function_response_json r) = Some r"
proof -
  have "de_option (function_response_json r) ''id'' as_str = Some (fr_id r)"
    by (subst de_option_get [where f = JString and g = "\<lambda>x. x" and o' = "fr_id r"])
       (simp_all add: function_response_json_def map_of_opt_member map_of_opt_member_last del: map_of_append)
  then show ?thesis by (simp add: de_function_response_def) (simp add: function_response_json_def de_field_def)
qed

lemma part_json_get:
  "jget (part_json p) ''text'' = map_option JString (pt_text p)"
  "jget (part_json p) ''thought'' = map_option JBool (pt_thought p)"
  "jget (part_json p) ''inlineData'' = map_option inline_data_json (pt_inline_data p)"
  "jget (part_json p) ''fileData'' = map_option file_data_json (pt_file_data p)"
  "jget (part_json p) ''functionCall'' = map_option function_call_json (pt_function_call p)"
  "jget (part_json p) ''functionResponse'' = map_option function_response_json (pt_function_response p)"
  by (simp_all add: part_json_def map_of_opt_member map_of_opt_member_last del: map_of_append)

lemma part_read: "de_part (part_json p) = Some (normal_part p)"
proof -
  have "de_object (part_json p) = Some (part_json p)" by (simp add: part_json_def de_object_def)
  moreover have "de_option (part_json p) ''text'' as_str = Some (pt_text p)"
    by (subst de_option_get [OF part_json_get(1), where g = "\<lambda>x. x"]) simp_all
  moreover have "de_option (part_json p) ''thought'' as_bool = Some (pt_thought p)"
    by (subst de_option_get [OF part_json_get(2), where g = "\<lambda>x. x"]) simp_all
  moreover have "de_option (part_json p) ''inlineData'' de_inline_data = Some (pt_inline_data p)"
    by (subst de_option_get [OF part_json_get(3), where g = "\<lambda>x. x"]) (simp_all add: inline_data_read, simp add: inline_data_json_def)
  moreover have "de_option (part_json p) ''fileData'' de_file_data = Some (pt_file_data p)"
    by (subst de_option_get [OF part_json_get(4), where g = "\<lambda>x. x"]) (simp_all add: file_data_read, simp add: file_data_json_def)
  moreover have "de_option (part_json p) ''functionCall'' de_function_call
      = Some (map_option (\<lambda>c. c\<lparr>fc_args := Option.bind (fc_args c) non_null\<rparr>) (pt_function_call p))"
    by (rule de_option_get [OF part_json_get(5)]) (simp add: function_call_read, simp add: function_call_json_def)
  moreover have "de_option (part_json p) ''functionResponse'' de_function_response = Some (pt_function_response p)"
    by (subst de_option_get [OF part_json_get(6), where g = "\<lambda>x. x"])
       (simp_all add: function_response_read, simp add: function_response_json_def)
  ultimately show ?thesis by (simp add: de_part_def normal_part_def)
qed

lemma content_read: "de_content (content_json c) = Some (c\<lparr>cn_parts := map normal_part (cn_parts c)\<rparr>)"
  by (simp add: de_content_def content_json_def de_field_def de_array_written part_read)

lemma contents_read: "de_array de_content (JArray (map content_json cs))
    = Some (map (\<lambda>c. c\<lparr>cn_parts := map normal_part (cn_parts c)\<rparr>) cs)"
  by (rule de_array_written) (rule content_read)

lemma function_declaration_read:
  "de_function_declaration (function_declaration_json d) = Some (d\<lparr>fde_parameters := Option.bind (fde_parameters d) non_null\<rparr>)"
proof -
  have "de_option (function_declaration_json d) ''parameters'' Some = Some (Option.bind (fde_parameters d) non_null)"
    by (rule de_option_id) (simp add: function_declaration_json_def map_of_opt_member map_of_opt_member_last del: map_of_append)
  moreover have "de_option (function_declaration_json d) ''description'' as_str = Some (fde_description d)"
    by (subst de_option_get [where f = JString and g = "\<lambda>x. x" and o' = "fde_description d"])
       (simp_all add: function_declaration_json_def map_of_opt_member map_of_opt_member_last del: map_of_append)
  moreover have "de_field (function_declaration_json d) ''name'' as_str = Some (fde_name d)"
    by (simp add: function_declaration_json_def de_field_def)
  ultimately show ?thesis by (simp add: de_function_declaration_def)
qed

lemma gm_tool_read: "de_gm_tool (gm_tool_json t) = Some \<lparr>gt_function_declarations =
    map (\<lambda>d. d\<lparr>fde_parameters := Option.bind (fde_parameters d) non_null\<rparr>) (gt_function_declarations t)\<rparr>"
  by (simp add: de_gm_tool_def gm_tool_json_def de_field_def de_array_written function_declaration_read)

lemma gm_thinking_read:
  assumes "\<And>b. gtc_thinking_budget t = Some b \<Longrightarrow> - (2 ^ 63) \<le> b \<and> b < 2 ^ 63"
  shows "de_gm_thinking (gm_thinking_json t) = Some t"
proof -
  have "de_option (gm_thinking_json t) ''thinkingBudget'' de_i64 = Some (gtc_thinking_budget t)"
    using assms by (subst de_option_get [where f = json_i64 and g = "\<lambda>x. x" and o' = "gtc_thinking_budget t"])
       (simp_all add: gm_thinking_json_def map_of_opt_member map_of_opt_member_last del: map_of_append)
  moreover have "de_option (gm_thinking_json t) ''includeThoughts'' as_bool = Some (gtc_include_thoughts t)"
    by (subst de_option_get [where f = JBool and g = "\<lambda>x. x" and o' = "gtc_include_thoughts t"])
       (simp_all add: gm_thinking_json_def map_of_opt_member map_of_opt_member_last del: map_of_append)
  ultimately show ?thesis by (simp add: de_gm_thinking_def) (simp add: gm_thinking_json_def de_object_def)
qed

lemma generation_config_get:
  "jget (generation_config_json g) ''temperature'' = map_option JFloat (gcf_temperature g)"
  "jget (generation_config_json g) ''topP'' = map_option JFloat (gcf_top_p g)"
  "jget (generation_config_json g) ''topK'' = map_option json_i64 (gcf_top_k g)"
  "jget (generation_config_json g) ''maxOutputTokens'' = map_option json_i64 (gcf_max_output_tokens g)"
  "jget (generation_config_json g) ''stopSequences'' = map_option (\<lambda>ss. JArray (map JString ss)) (gcf_stop_sequences g)"
  "jget (generation_config_json g) ''responseMimeType'' = map_option JString (gcf_response_mime_type g)"
  "jget (generation_config_json g) ''responseSchema'' = gcf_response_schema g"
  "jget (generation_config_json g) ''thinkingConfig'' = map_option gm_thinking_json (gcf_thinking_config g)"
  by (simp_all add: generation_config_json_def map_of_opt_member map_of_opt_member_last del: map_of_append)

text \<open>The integers a request can carry fit an \<open>i64\<close>, so the configuration comes back as it was built.\<close>

definition small_config :: "GenerationConfig \<Rightarrow> bool" where
  "small_config g \<longleftrightarrow> (\<forall>n \<in> set_option (gcf_top_k g) \<union> set_option (gcf_max_output_tokens g)
      \<union> set_option (Option.bind (gcf_thinking_config g) gtc_thinking_budget). - (2 ^ 63) \<le> n \<and> n < 2 ^ 63)"

lemma generation_config_read:
  assumes "small_config g"
  shows "de_generation_config (generation_config_json g) = Some (g\<lparr>gcf_response_schema := Option.bind (gcf_response_schema g) non_null\<rparr>)"
proof -
  let ?j = "generation_config_json g"
  have "de_object ?j = Some ?j" by (simp add: generation_config_json_def de_object_def)
  moreover have "de_option ?j ''temperature'' de_f64 = Some (gcf_temperature g)"
    by (subst de_option_get [OF generation_config_get(1), where g = "\<lambda>x. x"]) (simp_all add: de_f64_def)
  moreover have "de_option ?j ''topP'' de_f64 = Some (gcf_top_p g)"
    by (subst de_option_get [OF generation_config_get(2), where g = "\<lambda>x. x"]) (simp_all add: de_f64_def)
  moreover have "de_option ?j ''topK'' de_i64 = Some (gcf_top_k g)"
    using assms by (subst de_option_get [OF generation_config_get(3), where g = "\<lambda>x. x"]) (simp_all add: small_config_def)
  moreover have "de_option ?j ''maxOutputTokens'' de_i64 = Some (gcf_max_output_tokens g)"
    using assms by (subst de_option_get [OF generation_config_get(4), where g = "\<lambda>x. x"]) (simp_all add: small_config_def)
  moreover have "de_option ?j ''stopSequences'' (de_array as_str) = Some (gcf_stop_sequences g)"
    by (subst de_option_get [OF generation_config_get(5), where g = "\<lambda>x. x"]) (simp_all add: de_array_read_back)
  moreover have "de_option ?j ''responseMimeType'' as_str = Some (gcf_response_mime_type g)"
    by (subst de_option_get [OF generation_config_get(6), where g = "\<lambda>x. x"]) simp_all
  moreover have "de_option ?j ''responseSchema'' Some = Some (Option.bind (gcf_response_schema g) non_null)"
    by (rule de_option_id) (rule generation_config_get(7))
  moreover have "de_option ?j ''thinkingConfig'' de_gm_thinking = Some (gcf_thinking_config g)"
  proof -
    have "de_gm_thinking (gm_thinking_json t) = Some t" if "gcf_thinking_config g = Some t" for t
      using assms that by (intro gm_thinking_read) (auto simp: small_config_def)
    then show ?thesis
      by (subst de_option_get [OF generation_config_get(8), where g = "\<lambda>x. x"]) (simp_all, simp add: gm_thinking_json_def)
  qed
  ultimately show ?thesis by (simp add: de_generation_config_def del: generation_config_get)
qed

definition gemini_reads :: "json \<Rightarrow> GenerateContentRequest option" where
  "gemini_reads v = Option.bind (de_object v) (\<lambda>_.
     Option.bind (de_field v ''contents'' (de_array de_content)) (\<lambda>cs.
     Option.bind (de_option v ''systemInstruction'' de_content) (\<lambda>si.
     Option.bind (de_option v ''tools'' (de_array de_gm_tool)) (\<lambda>ts.
     Option.bind (de_option v ''generationConfig'' de_generation_config) (\<lambda>gc.
       Some \<lparr>gcr_contents = cs, gcr_system_instruction = si, gcr_tools = ts, gcr_generation_config = gc,
             gcr_safety_settings = None\<rparr>)))))"

definition normal_request :: "GenerateContentRequest \<Rightarrow> GenerateContentRequest" where
  "normal_request r = r\<lparr>gcr_contents := map (\<lambda>c. c\<lparr>cn_parts := map normal_part (cn_parts c)\<rparr>) (gcr_contents r),
     gcr_system_instruction := map_option (\<lambda>c. c\<lparr>cn_parts := map normal_part (cn_parts c)\<rparr>) (gcr_system_instruction r),
     gcr_tools := map_option (map (\<lambda>t. \<lparr>gt_function_declarations =
       map (\<lambda>d. d\<lparr>fde_parameters := Option.bind (fde_parameters d) non_null\<rparr>) (gt_function_declarations t)\<rparr>)) (gcr_tools r),
     gcr_generation_config := map_option (\<lambda>g. g\<lparr>gcf_response_schema := Option.bind (gcf_response_schema g) non_null\<rparr>)
       (gcr_generation_config r)\<rparr>"

lemma generate_request_get:
  "jget (generate_request_json r) ''contents'' = Some (JArray (map content_json (gcr_contents r)))"
  "jget (generate_request_json r) ''systemInstruction'' = map_option content_json (gcr_system_instruction r)"
  "jget (generate_request_json r) ''tools'' = map_option (\<lambda>ts. JArray (map gm_tool_json ts)) (gcr_tools r)"
  "jget (generate_request_json r) ''generationConfig'' = map_option generation_config_json (gcr_generation_config r)"
  by (simp_all add: generate_request_json_def map_of_opt_member map_of_opt_member_last del: map_of_append)

lemma gemini_reads_written:
  assumes "gcr_safety_settings r = None" "\<And>g. gcr_generation_config r = Some g \<Longrightarrow> small_config g"
  shows "gemini_reads (generate_request_json r) = Some (normal_request r)"
proof -
  let ?j = "generate_request_json r"
  have "de_object ?j = Some ?j" by (simp add: generate_request_json_def de_object_def)
  moreover have "de_field ?j ''contents'' (de_array de_content) = Some (gcr_contents (normal_request r))"
    by (simp add: de_field_def generate_request_get contents_read normal_request_def)
  moreover have "de_option ?j ''systemInstruction'' de_content = Some (gcr_system_instruction (normal_request r))"
    unfolding normal_request_def
    by (subst de_option_get [OF generate_request_get(2)]) (simp add: content_read, simp add: content_json_def, simp)
  moreover have "de_option ?j ''tools'' (de_array de_gm_tool) = Some (gcr_tools (normal_request r))"
    unfolding normal_request_def
    by (subst de_option_get [OF generate_request_get(3)]) (simp add: de_array_written gm_tool_read, simp)
  moreover have "de_option ?j ''generationConfig'' de_generation_config = Some (gcr_generation_config (normal_request r))"
    unfolding normal_request_def
    by (subst de_option_get [OF generate_request_get(4)])
       (simp add: generation_config_read assms(2), simp add: generation_config_json_def, simp)
  ultimately show ?thesis
    by (simp add: gemini_reads_def del: generate_request_get) (simp add: normal_request_def assms(1))
qed

lemma config_small: "build_generation_config req = Some g \<Longrightarrow> small_config g"
proof -
  assume g: "build_generation_config req = Some g"
  have "gcf_top_k g = map_option uint (top_k (req_generation req))"
    "gcf_max_output_tokens g = map_option uint (max_tokens (req_generation req))"
    "gcf_thinking_config g = gm_thinking_config req"
    using g by (auto simp: build_generation_config_def Let_def split: if_splits)
  moreover have "- (2 ^ 63) \<le> n \<and> n < 2 ^ 63" if budget: "Option.bind (gm_thinking_config req) gtc_thinking_budget = Some n" for n
  proof (cases "rp_reasoning_budget_tokens (req_resolved_policy req)")
    case None
    obtain e where "rp_reasoning_effort (req_resolved_policy req) = Some e" "n = gm_effort_to_budget e"
      using budget None by (auto simp: gm_thinking_config_def split: option.splits)
    then show ?thesis by (cases e) simp_all
  next
    case (Some b)
    with budget show ?thesis by (auto simp: gm_thinking_config_def)
  qed
  ultimately show ?thesis by (auto simp: small_config_def)
qed

text \<open>Every body the encoder builds is read back by the types it was written from.\<close>

lemma gm_body_read: "gemini_reads (gm_build_json env req target) = Some (normal_request (gm_build env req target))"
  unfolding gm_build_json_def by (rule gemini_reads_written) (simp_all add: gm_build_def config_small)

section \<open>From an Anthropic client to a Gemini upstream\<close>

text \<open>The Gemini reading of a client's request, stated over the client's own blocks.\<close>

definition text_part :: "string \<Rightarrow> Part" where
  "text_part t = part_default\<lparr>pt_text := Some t\<rparr>"

fun seen_image :: "WireEnv \<Rightarrow> BinarySource \<Rightarrow> Part" where
  "seen_image env (Base64 m d) = part_default\<lparr>pt_inline_data := Some \<lparr>id_mime_type = m, id_data = we_b64_encode env d\<rparr>\<rparr>"
| "seen_image env (Bytes m d) = part_default\<lparr>pt_inline_data := Some \<lparr>id_mime_type = m, id_data = we_b64_encode env d\<rparr>\<rparr>"
| "seen_image env (Url u) = part_default\<lparr>pt_file_data := Some \<lparr>fd_mime_type = [], fd_file_uri = u\<rparr>\<rparr>"
| "seen_image env (ProviderFileId f) = part_default\<lparr>pt_file_data := Some \<lparr>fd_mime_type = [], fd_file_uri = f\<rparr>\<rparr>"

definition seen_result :: "AnthToolResultContent option \<Rightarrow> json" where
  "seen_result c = JObject [(''content'', case c of None \<Rightarrow> JNull | Some (ResultText t) \<Rightarrow> JString t | Some (ResultBlocks b) \<Rightarrow> JArray b)]"

fun seen_part :: "WireEnv \<Rightarrow> (string \<Rightarrow> string) \<Rightarrow> AnthInboundBlock \<Rightarrow> Part option" where
  "seen_part env name (AnText t _) = Some (text_part t)"
| "seen_part env name (AnImage s _) = map_option (seen_image env) (read_source env s)"
| "seen_part env name (AnToolUse i n x _) =
     Some (part_default\<lparr>pt_function_call := Some \<lparr>fc_name = n, fc_args = non_null x, fc_id = None\<rparr>\<rparr>)"
| "seen_part env name (AnToolResult i _ c _) =
     Some (part_default\<lparr>pt_function_response := Some \<lparr>fr_name = name i, fr_response = seen_result c, fr_id = None\<rparr>\<rparr>)"
| "seen_part env name (AnThinking t _) = Some (part_default\<lparr>pt_text := Some t, pt_thought := Some True\<rparr>)"
| "seen_part env name (AnRedactedThinking _) = None"

fun client_call :: "AnthInboundBlock \<Rightarrow> (string \<times> string) option" where
  "client_call (AnToolUse i n _ _) = Some (i, n)"
| "client_call _ = None"

definition client_blocks :: "AnthInboundMessage list \<Rightarrow> AnthInboundBlock list" where
  "client_blocks ms = concat (map (content_list \<circ> aim_content) ms)"

text \<open>The name under which a tool result is reported: that of the last call with its id, else the id.\<close>

definition call_name :: "MessagesRequest \<Rightarrow> string \<Rightarrow> string" where
  "call_name r i =
     (case filter (\<lambda>c. fst c = i) (List.map_filter client_call (client_blocks (dropWhile anth_is_system (mrq_messages r)))) of
        [] \<Rightarrow> i | calls \<Rightarrow> snd (last calls))"

definition seen_turn :: "WireEnv \<Rightarrow> (string \<Rightarrow> string) \<Rightarrow> AnthInboundMessage \<Rightarrow> Content" where
  "seen_turn env name m = \<lparr>cn_role = (if aim_role m = ''assistant'' then ''model'' else ''user''),
     cn_parts = List.map_filter (seen_part env name) (content_list (aim_content m))\<rparr>"

fun client_text :: "AnthInboundBlock \<Rightarrow> string option" where
  "client_text (AnText t _) = Some t"
| "client_text _ = None"

definition seen_system :: "MessagesRequest \<Rightarrow> string list" where
  "seen_system r = List.map_filter client_text
     (system_list (mrq_system r) @ client_blocks (filter anth_is_system (mrq_messages r)))"

definition seen_thinking :: "ResolvedPolicy \<Rightarrow> GmThinkingConfig option" where
  "seen_thinking p = map_option (\<lambda>b. \<lparr>gtc_thinking_budget = Some b, gtc_include_thoughts = Some True\<rparr>)
     (or_opt (map_option uint (rp_reasoning_budget_tokens p)) (map_option gm_effort_to_budget (rp_reasoning_effort p)))"

definition gemini_view :: "WireEnv \<Rightarrow> MessagesRequest \<Rightarrow> ResolvedPolicy \<Rightarrow> GenerateContentRequest" where
  "gemini_view env r p = \<lparr>
     gcr_contents = filter (\<lambda>c. cn_parts c \<noteq> []) (map (seen_turn env (call_name r))
       (filter (\<lambda>m. \<not> anth_is_system m) (mrq_messages r))),
     gcr_system_instruction = (if seen_system r = [] then None
       else Some \<lparr>cn_role = ''user'', cn_parts = map text_part (seen_system r)\<rparr>),
     gcr_tools = (if unwrap_or (mrq_tools r) [] = [] then None else Some [\<lparr>gt_function_declarations =
       map (\<lambda>t. \<lparr>fde_name = ait_name t, fde_description = ait_description t,
         fde_parameters = non_null (ait_input_schema t)\<rparr>) (unwrap_or (mrq_tools r) [])\<rparr>]),
     gcr_generation_config = Some \<lparr>gcf_temperature = mrq_temperature r, gcf_top_p = mrq_top_p r,
       gcf_top_k = map_option uint (mrq_top_k r), gcf_max_output_tokens = Some (uint (mrq_max_tokens r)),
       gcf_stop_sequences = (if unwrap_or (mrq_stop_sequences r) [] = [] then None else Some (unwrap_or (mrq_stop_sequences r) [])),
       gcf_response_mime_type = None, gcf_response_schema = None, gcf_thinking_config = seen_thinking p\<rparr>,
     gcr_safety_settings = None\<rparr>"

lemma map_filter_comp: "List.map_filter f (map g xs) = List.map_filter (f \<circ> g) xs"
  by (induction xs) (simp_all add: List.map_filter_simps split: option.splits)

lemma map_map_filter: "map g (List.map_filter f xs) = List.map_filter (map_option g \<circ> f) xs"
  by (induction xs) (auto simp: List.map_filter_simps split: option.splits)

lemma note_calls: "foldl note_call m bs = m ++ map_of (rev (List.map_filter (\<lambda>b. case b of BToolCall tc \<Rightarrow> Some (tc_id tc, tc_name tc) | _ \<Rightarrow> None) bs))"
proof (induction bs arbitrary: m)
  case (Cons b bs)
  then show ?case by (cases b) (auto simp: note_call_def List.map_filter_simps map_add_def fun_eq_iff split: option.splits)
qed (simp add: List.map_filter_simps)

lemma foldl_concat: "foldl (\<lambda>a x. foldl f a (g x)) a xs = foldl f a (concat (map g xs))"
  by (induction xs arbitrary: a) simp_all

lemma map_of_rev: "map_of (rev xs) i = (case filter (\<lambda>x. fst x = i) xs of [] \<Rightarrow> None | ys \<Rightarrow> Some (snd (last ys)))"
proof (induction xs rule: rev_induct)
  case (snoc x xs)
  then show ?case by (cases x) (auto split: list.splits)
qed simp

lemma canonical_call:
  "(case inbound_block_to_canonical env b of BToolCall tc \<Rightarrow> Some (tc_id tc, tc_name tc) | _ \<Rightarrow> None) = client_call b"
  by (cases b) (auto split: option.splits)

lemma canonical_blocks:
  assumes "anth_decode_request env rid r = Inr c"
  shows "concat (map msg_content (req_messages c))
    = map (inbound_block_to_canonical env) (client_blocks (dropWhile anth_is_system (mrq_messages r)))"
  by (simp add: anth_decode_request_fields [OF assms] anth_canonical_message_def anth_content_blocks_list client_blocks_def
      map_concat comp_def)

lemma names_read:
  assumes "anth_decode_request env rid r = Inr c"
  shows "unwrap_or (collect_tool_call_names c i) i = call_name r i"
proof -
  let ?bs = "client_blocks (dropWhile anth_is_system (mrq_messages r))"
  have "collect_tool_call_names c = foldl note_call Map.empty (concat (map msg_content (req_messages c)))"
    unfolding collect_tool_call_names_def by (rule foldl_concat)
  also have "\<dots> = map_of (rev (List.map_filter client_call ?bs))"
    unfolding canonical_blocks [OF assms] note_calls map_filter_comp comp_def canonical_call by simp
  finally show ?thesis by (simp add: map_of_rev call_name_def split: list.split)
qed

lemma part_seen:
  assumes "\<And>i. unwrap_or (names i) i = name i"
  shows "map_option normal_part (block_to_part env names (inbound_block_to_canonical env b)) = seen_part env name b"
proof (cases b)
  case (AnImage s cc)
  then show ?thesis
    by (cases "read_source env s"; simp) (rename_tac src, case_tac src; simp add: normal_part_def part_default_def)
next
  case (AnToolResult i e c cc)
  then show ?thesis
    by (cases c rule: result_content_value.cases)
       (simp_all add: normal_part_def part_default_def seen_result_def wrap_tool_result_content_def assms)
qed (simp_all add: normal_part_def part_default_def text_part_def)

lemma turn_seen:
  assumes "\<And>i. unwrap_or (names i) i = name i" and "\<not> anth_bad_role m"
  shows "map_option (\<lambda>c. c\<lparr>cn_parts := map normal_part (cn_parts c)\<rparr>) (message_content env names (anth_canonical_message env m))
    = (if anth_is_system m \<or> cn_parts (seen_turn env name m) = [] then None else Some (seen_turn env name m))"
proof -
  have parts: "map normal_part (List.map_filter (block_to_part env names) (anth_content_blocks env (aim_content m)))
      = cn_parts (seen_turn env name m)"
    by (simp add: anth_content_blocks_list map_filter_comp map_map_filter comp_def part_seen [OF assms(1)] seen_turn_def)
  then have empty: "List.map_filter (block_to_part env names) (anth_content_blocks env (aim_content m)) = []
      \<longleftrightarrow> cn_parts (seen_turn env name m) = []" by (metis Nil_is_map_conv)
  consider "aim_role m = ''user''" | "aim_role m = ''assistant''" | "aim_role m = ''system''"
    using assms(2) by (auto simp: anth_bad_role_def role_from_anthropic_def split: if_splits)
  then show ?thesis
    by cases (simp_all add: message_content_def anth_canonical_message_def role_from_anthropic_def anth_is_system_def Let_def
        empty parts, simp_all add: seen_turn_def)
qed

lemma map_filter_if: "List.map_filter (\<lambda>x. if P x \<or> Q (f x) then None else Some (f x)) xs
    = filter (\<lambda>y. \<not> Q y) (map f (filter (\<lambda>x. \<not> P x) xs))"
  by (induction xs) (simp_all add: List.map_filter_simps)

lemma map_filter_cong_set: "(\<And>x. x \<in> set xs \<Longrightarrow> f x = g x) \<Longrightarrow> List.map_filter f xs = List.map_filter g xs"
  by (induction xs) (simp_all add: List.map_filter_simps split: option.split)

lemma filter_dropWhile_Not: "filter (\<lambda>x. \<not> P x) (dropWhile P xs) = filter (\<lambda>x. \<not> P x) xs"
  by (induction xs) simp_all

lemma filter_takeWhile_dropWhile: "takeWhile P xs @ filter P (dropWhile P xs) = filter P xs"
  by (induction xs) simp_all

lemma contents_seen:
  assumes "anth_decode_request env rid r = Inr c"
  shows "map (\<lambda>c. c\<lparr>cn_parts := map normal_part (cn_parts c)\<rparr>) (build_contents env c (collect_tool_call_names c))
    = gcr_contents (gemini_view env r p)"
proof -
  note f = anth_decode_request_fields [OF assms]
  let ?names = "collect_tool_call_names c" and ?ms = "dropWhile anth_is_system (mrq_messages r)"
  have "map_option (\<lambda>c. c\<lparr>cn_parts := map normal_part (cn_parts c)\<rparr>) (message_content env ?names (anth_canonical_message env m))
      = (if anth_is_system m \<or> cn_parts (seen_turn env (call_name r) m) = [] then None else Some (seen_turn env (call_name r) m))"
    if "m \<in> set ?ms" for m
    using f(1) set_dropWhileD [OF that] by (intro turn_seen names_read [OF assms]) (auto simp: find_None_iff)
  then show ?thesis
    unfolding build_contents_def f(3) map_filter_comp map_map_filter comp_def
    by (subst map_filter_cong_set [where g = "\<lambda>m. if anth_is_system m \<or> cn_parts (seen_turn env (call_name r) m) = [] then None
          else Some (seen_turn env (call_name r) m)"])
       (simp_all add: map_filter_if [where Q = "\<lambda>c. cn_parts c = []"] filter_dropWhile_Not gemini_view_def)
qed

lemma text_seen: "text_to_part (inbound_block_to_canonical env b) = map_option text_part (client_text b)"
  by (cases b) (simp_all add: text_part_def split: option.splits)

lemma texts_seen: "List.map_filter text_to_part (map (inbound_block_to_canonical env) bs) = map text_part (List.map_filter client_text bs)"
  by (simp add: map_filter_comp map_map_filter comp_def text_seen)

lemma map_filter_concat: "List.map_filter f (concat xss) = concat (map (List.map_filter f) xss)"
  by (induction xss) simp_all

lemma system_role_seen: "\<not> anth_bad_role m \<Longrightarrow> msg_role (anth_canonical_message env m) = SystemRole \<longleftrightarrow> anth_is_system m"
  by (auto simp: anth_canonical_message_def anth_bad_role_def role_from_anthropic_def anth_is_system_def split: if_splits)

lemma concat_map_if: "concat (map (\<lambda>m. if P m then g m else []) xs) = concat (map g (filter P xs))"
  by (induction xs) simp_all

lemma system_seen:
  assumes "anth_decode_request env rid r = Inr c"
  shows "build_system_instruction c = (if seen_system r = [] then None
    else Some \<lparr>cn_role = ''user'', cn_parts = map text_part (seen_system r)\<rparr>)"
proof -
  note f = anth_decode_request_fields [OF assms]
  let ?texts = "\<lambda>bs. List.map_filter text_to_part (map (inbound_block_to_canonical env) bs)"
  let ?pre = "takeWhile anth_is_system (mrq_messages r)" and ?rest = "dropWhile anth_is_system (mrq_messages r)"
  have sys: "concat (map (\<lambda>si. List.map_filter text_to_part (si_content si)) (req_system c))
      = ?texts (system_list (mrq_system r)) @ ?texts (client_blocks ?pre)"
    unfolding f(2) map_append concat_append
    by (simp add: anth_prelude_instruction_def anth_content_blocks_list client_blocks_def comp_def map_concat map_filter_concat
        flip: anth_system_list)
  have role: "msg_role (anth_canonical_message env m) = SystemRole \<longleftrightarrow> anth_is_system m" if "m \<in> set ?rest" for m
    using f(1) set_dropWhileD [OF that] by (intro system_role_seen) (auto simp: find_None_iff)
  have "concat (map (\<lambda>msg. if msg_role msg = SystemRole then List.map_filter text_to_part (msg_content msg) else []) (req_messages c))
      = concat (map (\<lambda>m. if anth_is_system m then ?texts (content_list (aim_content m)) else []) ?rest)"
    unfolding f(3) map_map comp_def
    by (intro arg_cong [where f = concat] map_cong refl) (simp add: role, simp add: anth_canonical_message_def anth_content_blocks_list)
  also have "\<dots> = ?texts (client_blocks (filter anth_is_system ?rest))"
    by (simp add: concat_map_if client_blocks_def comp_def map_concat map_filter_concat)
  finally have msgs: "concat (map (\<lambda>msg. if msg_role msg = SystemRole then List.map_filter text_to_part (msg_content msg) else [])
      (req_messages c)) = ?texts (client_blocks (filter anth_is_system ?rest))" .
  have "client_blocks (filter anth_is_system (mrq_messages r)) = client_blocks ?pre @ client_blocks (filter anth_is_system ?rest)"
    by (simp add: client_blocks_def flip: concat_append map_append) (simp add: filter_takeWhile_dropWhile)
  then have "?texts (system_list (mrq_system r)) @ ?texts (client_blocks ?pre) @ ?texts (client_blocks (filter anth_is_system ?rest))
      = map text_part (seen_system r)"
    by (simp add: seen_system_def texts_seen)
  then show ?thesis by (simp add: build_system_instruction_def sys msgs Let_def)
qed

lemma thinking_seen: "gm_thinking_config (c\<lparr>req_resolved_policy := p\<rparr>) = seen_thinking p"
  by (simp add: gm_thinking_config_def seen_thinking_def split: option.split)

lemma anth_decode_format: "anth_decode_request env rid r = Inr c \<Longrightarrow> req_response_format c = None"
  by (auto simp: anth_decode_request_def anth_decode_prelude split: option.splits sum.splits)

text \<open>
  C34. An Anthropic client's request that is routed to Gemini is read there as the same conversation: every turn of
  the client in order and with its role, every text, thought, readable image and tool call with its input, every
  tool result under the name of the call it answers, all system texts in order as one instruction, the tools with
  their schemas, and the sampling parameters unchanged. The statement goes through the decoder, the encoder and the
  JSON body; \<open>gemini_view\<close> says what is left out (redacted thinking, unreadable images, turns without content,
  error flags, the tool choice).
\<close>

theorem anth_request_to_gemini:
  assumes "anth_decode_request env rid r = Inr c"
  shows "gemini_reads (gm_build_json env (c\<lparr>req_resolved_policy := p\<rparr>) target) = Some (gemini_view env r p)"
proof -
  note f = anth_decode_request_fields [OF assms]
  let ?c = "c\<lparr>req_resolved_policy := p\<rparr>" and ?v = "gemini_view env r p"
  let ?b = "normal_request (gm_build env ?c target)"
  have same: "build_contents env ?c = build_contents env c" "collect_tool_call_names ?c = collect_tool_call_names c"
    "build_system_instruction ?c = build_system_instruction c"
    by (simp_all add: build_contents_def collect_tool_call_names_def build_system_instruction_def fun_eq_iff)
  have "gcr_contents ?b = gcr_contents ?v"
    using contents_seen [OF assms, of p] by (simp add: normal_request_def gm_build_def same)
  moreover have "gcr_system_instruction ?b = gcr_system_instruction ?v"
    by (simp add: normal_request_def gm_build_def same system_seen [OF assms] gemini_view_def normal_part_def text_part_def
        part_default_def comp_def)
  moreover have "gcr_tools ?b = gcr_tools ?v"
    by (simp add: normal_request_def gm_build_def gm_build_tools_def f gemini_view_def anth_decode_tool_def comp_def)
  moreover have "gcr_generation_config ?b = gcr_generation_config ?v"
    by (simp add: normal_request_def gm_build_def build_generation_config_def Let_def f anth_decode_format [OF assms] gemini_view_def
        thinking_seen)
  moreover have "gcr_safety_settings ?b = gcr_safety_settings ?v"
    by (simp add: normal_request_def gm_build_def gemini_view_def)
  ultimately show ?thesis by (simp add: gm_body_read)
qed

theorem anth_request_to_gemini_witness:
  "\<exists>c. anth_decode_request demo_codec ''req_1'' demo_messages_request = Inr c \<and>
    map_option gcr_contents (gemini_reads (gm_build_json demo_codec (c\<lparr>req_resolved_policy := demo_effort_policy\<rparr>) demo_claude))
    = Some [\<lparr>cn_role = ''user'', cn_parts = [part_default\<lparr>pt_inline_data := Some \<lparr>id_mime_type = ''image/png'', id_data = ''iVBO''\<rparr>\<rparr>]\<rparr>,
       \<lparr>cn_role = ''model'', cn_parts = [part_default\<lparr>pt_text := Some ''hm'', pt_thought := Some True\<rparr>,
          part_default\<lparr>pt_function_call := Some \<lparr>fc_name = ''look'', fc_args = Some (JObject []), fc_id = None\<rparr>\<rparr>]\<rparr>,
       \<lparr>cn_role = ''user'', cn_parts = [part_default\<lparr>pt_function_response := Some \<lparr>fr_name = ''look'',
          fr_response = JObject [(''content'', JString ''no'')], fr_id = None\<rparr>\<rparr>]\<rparr>]"
proof -
  obtain c where c: "anth_decode_request demo_codec ''req_1'' demo_messages_request = Inr c"
    using demo_messages_forwardable by (auto simp: anth_decode_request_def anth_decode_prelude forwardable_request_def)
  have image: "read_source demo_codec demo_image_source = Some (Base64 ''image/png'' ''iVBO'')"
    by (simp add: read_source_def demo_image_source_def de_field_def demo_codec_def)
  have "gcr_contents (gemini_view demo_codec demo_messages_request demo_effort_policy) = 
      [\<lparr>cn_role = ''user'', cn_parts = [part_default\<lparr>pt_inline_data := Some \<lparr>id_mime_type = ''image/png'', id_data = ''iVBO''\<rparr>\<rparr>]\<rparr>,
       \<lparr>cn_role = ''model'', cn_parts = [part_default\<lparr>pt_text := Some ''hm'', pt_thought := Some True\<rparr>,
          part_default\<lparr>pt_function_call := Some \<lparr>fc_name = ''look'', fc_args = Some (JObject []), fc_id = None\<rparr>\<rparr>]\<rparr>,
       \<lparr>cn_role = ''user'', cn_parts = [part_default\<lparr>pt_function_response := Some \<lparr>fr_name = ''look'',
          fr_response = JObject [(''content'', JString ''no'')], fr_id = None\<rparr>\<rparr>]\<rparr>]"
    by (simp add: gemini_view_def demo_messages_request_def seen_turn_def List.map_filter_simps image anth_is_system_def
        call_name_def client_blocks_def non_null_def seen_result_def)
       (simp add: demo_codec_def)
  with anth_request_to_gemini [OF c, of demo_effort_policy demo_claude] c show ?thesis by simp
qed

text \<open>What the encoder never reads: the tool choice, the penalties and the seed of a request. Whether a tool failed
  is not written either.\<close>

lemma gemini_ignores_choice:
  "gm_build_json env (req\<lparr>req_tool_choice := tc\<rparr>) target = gm_build_json env req target"
proof -
  let ?r = "req\<lparr>req_tool_choice := tc\<rparr>"
  have "build_contents env ?r = build_contents env req" "collect_tool_call_names ?r = collect_tool_call_names req"
    "build_system_instruction ?r = build_system_instruction req" "gm_build_tools ?r = gm_build_tools req"
    by (simp_all add: build_contents_def collect_tool_call_names_def build_system_instruction_def gm_build_tools_def fun_eq_iff)
  moreover have "build_generation_config ?r = build_generation_config req"
  proof -
    have "req_generation ?r = req_generation req" "req_response_format ?r = req_response_format req"
      "req_resolved_policy ?r = req_resolved_policy req" by simp_all
    then show ?thesis by (simp only: build_generation_config_def gm_thinking_config_def)
  qed
  ultimately show ?thesis by (simp only: gm_build_json_def gm_build_def)
qed

lemma gemini_error_flag_lost:
  "block_to_part env names (BToolResult (tr\<lparr>tr_is_error := e\<rparr>)) = block_to_part env names (BToolResult tr)"
  by simp

text \<open>Two calls with one id: an earlier call's result is reported under the later call's name.\<close>

lemma reused_call_id:
  "collect_tool_call_names c i = Some n \<Longrightarrow>
    block_to_part env (collect_tool_call_names c) (BToolResult tr) = Some p \<Longrightarrow> tr_tool_call_id tr = i \<Longrightarrow>
    map_option fr_name (pt_function_response p) = Some n"
  by auto

end
