(* ===== verification/Responses_Parser.thy ===== *)
theory Responses_Parser
  imports Lifecycle
begin

text \<open>
  The OpenAI Responses stream parser, \<open>providers/src/openai_compatible/responses_api/parse_stream.rs\<close>.
  The input is what the \<open>eventsource_stream\<close> crate yields: an event's name and data, or a transport error's text;
  \<open>from_str\<close> is \<open>serde_json::from_str\<close>. The table of open blocks is an association list with distinct keys: its
  only enumeration is sorted by key, so the order of the hash table does not matter.
\<close>

section \<open>State and events\<close>

datatype resp_input = RespEvent string string | RespTransportError string

record RespParserState =
  rs_response_start :: bool
  rs_message_start :: bool
  rs_message_stop :: bool
  rs_response_stop :: bool
  rs_stream_completed :: bool
  rs_open_blocks :: "(u32 \<times> ContentBlockKind) list"

definition resp_parser_default :: RespParserState where
  "resp_parser_default = \<lparr>rs_response_start = False, rs_message_start = False, rs_message_stop = False,
     rs_response_stop = False, rs_stream_completed = False, rs_open_blocks = []\<rparr>"

type_synonym resp_emitter = "(RespParserState, StreamEvent) emitter"

definition resp_start_message :: resp_emitter where
  "resp_start_message = emit_when (\<lambda>s. \<not> rs_message_start s)
     (emit_update (rs_message_start_update (\<lambda>_. True)) (\<lambda>_. [MessageStart Assistant]))"

definition orphan_stops :: "(u32 \<times> ContentBlockKind) list \<Rightarrow> StreamEvent list" where
  "orphan_stops bs = concat (map (\<lambda>(idx, kind).
     (if kind = KToolCall then [ToolCallStop idx] else []) @ [ContentBlockStop idx]) bs)"

definition resp_finalize :: resp_emitter where
  "resp_finalize s =
     (if rs_response_stop s then (s, [])
      else if \<not> rs_response_start s then (s, [])
      else emit_block
        [resp_start_message,
         emit_update (rs_open_blocks_update (\<lambda>_. [])) (\<lambda>s. orphan_stops (sort_key fst (rs_open_blocks s))),
         emit_when (\<lambda>s. \<not> rs_message_stop s)
           (emit_update (rs_message_stop_update (\<lambda>_. True)) (\<lambda>_. [MessageStop EndTurn None])),
         emit_update (rs_response_stop_update (\<lambda>_. True)) (\<lambda>_. [ResponseStop None])] s)"

definition resp_created :: "json \<Rightarrow> resp_emitter" where
  "resp_created data = emit_when (\<lambda>s. \<not> rs_response_start s)
     (emit_update (rs_response_start_update (\<lambda>_. True))
        (\<lambda>_. [ResponseStart (unwrap_or (get_str data ''id'') ''unknown'') (unwrap_or (get_str data ''model'') ''unknown'')
                (unwrap_or (get_u64 data ''created_at'') 0)]))"

definition resp_item :: "json \<Rightarrow> json" where
  "resp_item data = unwrap_or (jget data ''item'') data"

definition resp_item_type :: "json \<Rightarrow> string" where
  "resp_item_type data = unwrap_or (get_str (resp_item data) ''type'') []"

definition resp_index :: "json \<Rightarrow> u32" where
  "resp_index data = as_u32 (unwrap_or (get_u64 data ''output_index'') 0)"

definition resp_delta :: "json \<Rightarrow> string" where
  "resp_delta data = unwrap_or (get_str data ''delta'') []"

definition resp_item_added :: "json \<Rightarrow> resp_emitter" where
  "resp_item_added data =
     (let i = resp_index data; item = resp_item data in emit_block
        [resp_start_message,
         (if resp_item_type data = ''message'' then
            emit_update (\<lambda>s. s\<lparr>rs_open_blocks := AList.update i KText (rs_open_blocks s)\<rparr>)
              (\<lambda>_. [ContentBlockStart i KText])
          else if resp_item_type data = ''function_call'' then
            emit_update (\<lambda>s. s\<lparr>rs_open_blocks := AList.update i KToolCall (rs_open_blocks s)\<rparr>)
              (\<lambda>_. [ContentBlockStart i KToolCall,
                     ToolCallStart i (unwrap_or (get_str item ''call_id'') []) (unwrap_or (get_str item ''name'') [])])
          else emit_skip)])"

definition resp_item_done :: "json \<Rightarrow> resp_emitter" where
  "resp_item_done data =
     (let i = resp_index data; close = (\<lambda>s. s\<lparr>rs_open_blocks := AList.delete i (rs_open_blocks s)\<rparr>) in
      if resp_item_type data = ''function_call'' then emit_update close (\<lambda>_. [ToolCallStop i, ContentBlockStop i])
      else if resp_item_type data = ''message'' then emit_update close (\<lambda>_. [ContentBlockStop i])
      else emit_skip)"

definition resp_usage :: "json \<Rightarrow> Usage option" where
  "resp_usage data = map_option (\<lambda>u. usage_default\<lparr>input_tokens := map_option as_u32 (get_u64 u ''input_tokens''),
     output_tokens := map_option as_u32 (get_u64 u ''output_tokens'')\<rparr>) (jget data ''usage'')"

definition resp_status_reason :: "json \<Rightarrow> StopReason" where
  "resp_status_reason data =
     (if unwrap_or (get_str data ''status'') ''completed'' = ''incomplete'' then ContentFilter else EndTurn)"

definition resp_completed :: "json \<Rightarrow> resp_emitter" where
  "resp_completed data = emit_block
     [emit_update (rs_message_stop_update (\<lambda>_. True)) (\<lambda>_. [MessageStop (resp_status_reason data) None]),
      emit_update (rs_response_stop_update (\<lambda>_. True)) (\<lambda>_. [ResponseStop (resp_usage data)])]"

definition resp_failure :: "json \<Rightarrow> string" where
  "resp_failure data = unwrap_or (Option.bind (jget data ''error'') (\<lambda>e. get_str e ''message'')) ''upstream response failed''"

text \<open>\<open>parse_event\<close>\<close>

definition resp_event :: "string \<Rightarrow> json \<Rightarrow> resp_emitter" where
  "resp_event ty data =
     (if ty \<in> {''response.created'', ''response.in_progress''} then resp_created data
      else if ty = ''response.output_item.added'' then resp_item_added data
      else if ty = ''response.output_text.delta'' then
        emit (\<lambda>_. if resp_delta data = [] then [] else [TextDelta (resp_index data) (resp_delta data)])
      else if ty = ''response.function_call_arguments.delta'' then
        emit (\<lambda>_. if resp_delta data = [] then [] else [ToolCallArgumentsDelta (resp_index data) (resp_delta data)])
      else if ty = ''response.output_item.done'' then resp_item_done data
      else if ty = ''response.completed'' then resp_completed data
      else if ty = ''response.failed'' then emit (\<lambda>_. [ErrorEvent (resp_failure data)])
      else if ty = ''error'' then emit (\<lambda>_. [ErrorEvent (unwrap_or (get_str data ''message'') ''unknown error'')])
      else emit_skip)"

text \<open>The closure of the \<open>flat_map\<close> and the whole stream: the source, then one \<open>finalize\<close>.\<close>

definition resp_handle_input :: "(string \<Rightarrow> string + json) \<Rightarrow> RespParserState \<Rightarrow> resp_input
    \<Rightarrow> RespParserState \<times> stream_item list" where
  "resp_handle_input from_str s i =
     (case i of
        RespTransportError e \<Rightarrow> (s, if rs_stream_completed s then [] else [Inl (SE_Upstream e)])
      | RespEvent ty data \<Rightarrow>
          (let s1 = (if ty \<in> {''response.completed'', ''response.failed''} then s\<lparr>rs_stream_completed := True\<rparr> else s) in
           case from_str data of
             Inl e \<Rightarrow> (s1, [Inl (SE_Decode (''json parse for '' @ ty @ '': '' @ e))])
           | Inr v \<Rightarrow> apsnd (map Inr) (resp_event ty v s1)))"

definition resp_parse :: "(string \<Rightarrow> string + json) \<Rightarrow> resp_input source_poll list \<Rightarrow> stream_item list" where
  "resp_parse from_str src = poll_drain (resp_handle_input from_str) (\<lambda>s. apsnd (map Inr) (resp_finalize s))
     (poll_init src resp_parser_default)"

section \<open>The upstream's side of the protocol\<close>

text \<open>Items are added after \<open>response.created\<close> under fresh indices, deltas and \<open>done\<close> events name an open item of
  their kind, and \<open>response.completed\<close> comes once, after every item is done. Items of other types, undecodable
  events and transport errors may occur anywhere; a failure ends the obligations.\<close>

record resp_contract =
  rc_created :: bool
  rc_message :: bool
  rc_open :: "(u32 \<times> ContentBlockKind) list"
  rc_closed :: "u32 set"
  rc_completed :: bool
  rc_errored :: bool

definition resp_contract_start :: resp_contract where
  "resp_contract_start = \<lparr>rc_created = False, rc_message = False, rc_open = [], rc_closed = {}, rc_completed = False,
     rc_errored = False\<rparr>"

definition resp_kind :: "json \<Rightarrow> ContentBlockKind option" where
  "resp_kind data = (if resp_item_type data = ''message'' then Some KText
     else if resp_item_type data = ''function_call'' then Some KToolCall else None)"

definition accept_added :: "json \<Rightarrow> resp_contract \<Rightarrow> resp_contract option" where
  "accept_added data c =
     (if rc_completed c \<or> \<not> rc_created c then None
      else case resp_kind data of
        None \<Rightarrow> Some (c\<lparr>rc_message := True\<rparr>)
      | Some k \<Rightarrow>
          (if map_of (rc_open c) (resp_index data) \<noteq> None \<or> resp_index data \<in> rc_closed c then None
           else Some (c\<lparr>rc_message := True, rc_open := AList.update (resp_index data) k (rc_open c)\<rparr>)))"

definition accept_done :: "json \<Rightarrow> resp_contract \<Rightarrow> resp_contract option" where
  "accept_done data c =
     (case resp_kind data of
        None \<Rightarrow> Some c
      | Some k \<Rightarrow>
          (if map_of (rc_open c) (resp_index data) = Some k
           then Some (c\<lparr>rc_open := AList.delete (resp_index data) (rc_open c), rc_closed := insert (resp_index data) (rc_closed c)\<rparr>)
           else None))"

definition accept_resp_delta :: "ContentBlockKind \<Rightarrow> json \<Rightarrow> resp_contract \<Rightarrow> resp_contract option" where
  "accept_resp_delta k data c =
     (if resp_delta data = [] \<or> map_of (rc_open c) (resp_index data) = Some k then Some c else None)"

definition accept_resp_event :: "string \<Rightarrow> json \<Rightarrow> resp_contract \<Rightarrow> resp_contract option" where
  "accept_resp_event ty data c =
     (if ty \<in> {''response.created'', ''response.in_progress''} then Some (c\<lparr>rc_created := True\<rparr>)
      else if ty = ''response.output_item.added'' then accept_added data c
      else if ty = ''response.output_text.delta'' then accept_resp_delta KText data c
      else if ty = ''response.function_call_arguments.delta'' then accept_resp_delta KToolCall data c
      else if ty = ''response.output_item.done'' then accept_done data c
      else if ty = ''response.completed'' then
        (if rc_completed c \<or> rc_open c \<noteq> [] then None else Some (c\<lparr>rc_completed := True\<rparr>))
      else if ty \<in> {''response.failed'', ''error''} then Some (c\<lparr>rc_errored := True\<rparr>)
      else Some c)"

definition resp_accept :: "(string \<Rightarrow> string + json) \<Rightarrow> resp_contract \<Rightarrow> resp_input \<Rightarrow> resp_contract option" where
  "resp_accept from_str c i =
     (if rc_errored c then Some c
      else case i of
        RespTransportError e \<Rightarrow> Some c
      | RespEvent ty data \<Rightarrow> (case from_str data of Inl e \<Rightarrow> Some c | Inr v \<Rightarrow> accept_resp_event ty v c))"

section \<open>The parser follows the validator\<close>

definition resp_step :: "(string \<Rightarrow> string + json) \<Rightarrow> RespParserState \<Rightarrow> resp_input \<Rightarrow> RespParserState \<times> StreamEvent list" where
  "resp_step from_str s i = apsnd ok_events (resp_handle_input from_str s i)"

definition mark_completed :: "string \<Rightarrow> RespParserState \<Rightarrow> RespParserState" where
  "mark_completed ty s = (if ty \<in> {''response.completed'', ''response.failed''} then s\<lparr>rs_stream_completed := True\<rparr> else s)"

lemma resp_step_cases:
  "resp_step from_str s (RespTransportError e) = (s, [])"
  "resp_step from_str s (RespEvent ty data) =
     (case from_str data of Inl e \<Rightarrow> (mark_completed ty s, []) | Inr v \<Rightarrow> resp_event ty v (mark_completed ty s))"
  by (simp_all add: resp_step_def resp_handle_input_def mark_completed_def Let_def apsnd_def map_prod_def case_prod_unfold
      split: sum.split)

definition resp_live :: "resp_contract \<Rightarrow> RespParserState \<Rightarrow> ValidatorState \<Rightarrow> bool" where
  "resp_live c s v \<longleftrightarrow> \<not> rc_errored c \<and> \<not> terminated_by_error v
     \<and> seen_response_start v = rc_created c \<and> rs_response_start s = rc_created c
     \<and> seen_message_start v = rc_message c \<and> rs_message_start s = rc_message c
     \<and> seen_message_stop v = rc_completed c \<and> rs_message_stop s = rc_completed c
     \<and> seen_response_stop v = rc_completed c \<and> rs_response_stop s = rc_completed c
     \<and> open_blocks v = rc_open c \<and> rs_open_blocks s = rc_open c \<and> closed_indices v = rc_closed c
     \<and> distinct (map fst (rc_open c)) \<and> (rc_completed c \<or> \<not> rc_created c \<longrightarrow> rc_open c = [])"

text \<open>After an error the verdict is settled by the next event; if none comes, nothing may be open.\<close>

definition resp_rel :: "resp_contract \<Rightarrow> RespParserState \<Rightarrow> ValidatorState \<Rightarrow> bool" where
  "resp_rel c s v \<longleftrightarrow>
     (if terminated_by_error v then rc_errored c \<and> (open_blocks v = [] \<or> rs_response_start s \<and> \<not> rs_response_stop s)
      else resp_live c s v)"

lemma resp_live_rel: "resp_live c s v \<Longrightarrow> resp_rel c s v"
  by (simp add: resp_rel_def resp_live_def)

lemma resp_live_mark [simp]: "resp_live c (mark_completed ty s) v = resp_live c s v"
  by (simp add: resp_live_def mark_completed_def)

lemma resp_start_message_follows:
  "\<not> rc_completed c \<Longrightarrow> simulates (resp_live c) (resp_live (c\<lparr>rc_message := True\<rparr>)) resp_start_message"
  by (rule simulatesI) (auto simp: resp_start_message_def emitter_defs resp_live_def validator_checks)

lemma resp_created_follows: "simulates (resp_live c) (resp_live (c\<lparr>rc_created := True\<rparr>)) (resp_created data)"
  by (rule simulatesI) (auto simp: resp_created_def emitter_defs resp_live_def validator_checks)

lemma resp_open_follows:
  assumes "\<not> rc_completed c" "rc_created c" "rc_message c" "map_of (rc_open c) i = None" "i \<notin> rc_closed c"
  shows "simulates (resp_live c) (resp_live (c\<lparr>rc_open := AList.update i KText (rc_open c)\<rparr>))
      (emit_update (\<lambda>s. s\<lparr>rs_open_blocks := AList.update i KText (rs_open_blocks s)\<rparr>) (\<lambda>_. [ContentBlockStart i KText]))"
    and "simulates (resp_live c) (resp_live (c\<lparr>rc_open := AList.update i KToolCall (rc_open c)\<rparr>))
      (emit_update (\<lambda>s. s\<lparr>rs_open_blocks := AList.update i KToolCall (rs_open_blocks s)\<rparr>)
         (\<lambda>_. [ContentBlockStart i KToolCall, ToolCallStart i cid name]))"
  by (rule simulatesI, use assms in \<open>auto simp: emitter_defs resp_live_def validator_checks distinct_update\<close>)+

lemma resp_added_follows:
  assumes "accept_added data c = Some c'"
  shows "simulates (resp_live c) (resp_live c') (resp_item_added data)"
proof -
  let ?c = "c\<lparr>rc_message := True\<rparr>"
  have c: "\<not> rc_completed c" "rc_created c" using assms by (auto simp: accept_added_def split: if_splits)
  note start = resp_start_message_follows [OF c(1)]
  show ?thesis
  proof (cases "resp_kind data")
    case None
    then have "c' = ?c" "resp_item_type data \<noteq> ''message''" "resp_item_type data \<noteq> ''function_call''"
      using assms by (auto simp: accept_added_def resp_kind_def split: if_splits)
    then show ?thesis
      using simulates_block_Cons [OF start simulates_block_Cons [OF simulates_skip simulates_block_Nil]]
      by (simp add: resp_item_added_def Let_def del: emit_block.simps)
  next
    case (Some k)
    then have fresh: "map_of (rc_open ?c) (resp_index data) = None" "resp_index data \<notin> rc_closed ?c"
      "c' = ?c\<lparr>rc_open := AList.update (resp_index data) k (rc_open ?c)\<rparr>"
      using assms by (auto simp: accept_added_def split: if_splits)
    note opened = resp_open_follows [of ?c "resp_index data", OF _ _ _ fresh(1,2)]
    show ?thesis
      using Some c fresh(3) simulates_block_Cons [OF start simulates_block_Cons [OF opened(1) simulates_block_Nil]]
        simulates_block_Cons [OF start simulates_block_Cons [OF opened(2) simulates_block_Nil]]
      by (auto simp: resp_item_added_def resp_kind_def Let_def simp del: emit_block.simps split: if_splits)
  qed
qed

lemma resp_done_follows:
  assumes "accept_done data c = Some c'"
  shows "simulates (resp_live c) (resp_live c') (resp_item_done data)"
proof (rule simulatesI)
  fix s v
  assume R: "resp_live c s v"
  show "\<exists>v'. vrun v (snd (resp_item_done data s)) = Some v' \<and> resp_live c' (fst (resp_item_done data s)) v'"
  proof (cases "resp_kind data")
    case None
    with R assms show ?thesis
      by (auto simp: accept_done_def resp_item_done_def resp_kind_def Let_def emit_skip_def split: if_splits)
  next
    case (Some k)
    then have c': "map_of (rc_open c) (resp_index data) = Some k"
      "c' = c\<lparr>rc_open := AList.delete (resp_index data) (rc_open c), rc_closed := insert (resp_index data) (rc_closed c)\<rparr>"
      using assms by (auto simp: accept_done_def split: if_splits)
    then have "rc_open c \<noteq> []" by auto
    with Some R c' show ?thesis
      by (auto simp: resp_item_done_def resp_kind_def Let_def emitter_defs resp_live_def validator_checks distinct_delete
          split: if_splits)
  qed
qed

lemma resp_delta_follows:
  assumes "accept_resp_delta k data c = Some c'" "k = KText \<and> ev = TextDelta (resp_index data) (resp_delta data)
      \<or> k = KToolCall \<and> ev = ToolCallArgumentsDelta (resp_index data) (resp_delta data)"
  shows "simulates (resp_live c) (resp_live c') (emit (\<lambda>_. if resp_delta data = [] then [] else [ev]))"
proof (rule simulatesI)
  fix s v
  assume R: "resp_live c s v"
  have "c' = c" "resp_delta data = [] \<or> map_of (rc_open c) (resp_index data) = Some k"
    using assms(1) by (auto simp: accept_resp_delta_def split: if_splits)
  moreover from this R have "resp_delta data = [] \<or> \<not> rc_completed c" by (auto simp: resp_live_def)
  ultimately show "\<exists>v'. vrun v (snd (emit (\<lambda>_. if resp_delta data = [] then [] else [ev]) s)) = Some v'
      \<and> resp_live c' (fst (emit (\<lambda>_. if resp_delta data = [] then [] else [ev]) s)) v'"
    using R assms(2) by (auto simp: emit_def resp_live_def validator_checks)
qed

lemma resp_completed_follows:
  "\<not> rc_completed c \<Longrightarrow> rc_open c = [] \<Longrightarrow> simulates (resp_live c) (resp_live (c\<lparr>rc_completed := True\<rparr>)) (resp_completed data)"
  by (rule simulatesI) (auto simp: resp_completed_def emitter_defs resp_live_def validator_checks)

lemma resp_event_cases:
  obtains "ty \<in> {''response.created'', ''response.in_progress''}"
      "resp_event ty data = resp_created data" "accept_resp_event ty data c = Some (c\<lparr>rc_created := True\<rparr>)"
  | "ty = ''response.output_item.added''"
      "resp_event ty data = resp_item_added data" "accept_resp_event ty data c = accept_added data c"
  | "ty = ''response.output_text.delta''"
      "resp_event ty data = emit (\<lambda>_. if resp_delta data = [] then [] else [TextDelta (resp_index data) (resp_delta data)])"
      "accept_resp_event ty data c = accept_resp_delta KText data c"
  | "ty = ''response.function_call_arguments.delta''"
      "resp_event ty data
        = emit (\<lambda>_. if resp_delta data = [] then [] else [ToolCallArgumentsDelta (resp_index data) (resp_delta data)])"
      "accept_resp_event ty data c = accept_resp_delta KToolCall data c"
  | "ty = ''response.output_item.done''"
      "resp_event ty data = resp_item_done data" "accept_resp_event ty data c = accept_done data c"
  | "ty = ''response.completed''" "resp_event ty data = resp_completed data"
      "accept_resp_event ty data c = (if rc_completed c \<or> rc_open c \<noteq> [] then None else Some (c\<lparr>rc_completed := True\<rparr>))"
  | m where "ty \<in> {''response.failed'', ''error''}" "resp_event ty data = emit (\<lambda>_. [ErrorEvent m])"
      "accept_resp_event ty data c = Some (c\<lparr>rc_errored := True\<rparr>)"
  | "ty \<notin> {''response.output_item.added'', ''response.output_text.delta'', ''response.function_call_arguments.delta''}"
      "resp_event ty data = emit_skip" "accept_resp_event ty data c = Some c"
proof -
  consider "ty \<in> {''response.created'', ''response.in_progress''}" | "ty = ''response.output_item.added''"
    | "ty = ''response.output_text.delta''" | "ty = ''response.function_call_arguments.delta''"
    | "ty = ''response.output_item.done''" | "ty = ''response.completed''" | "ty = ''response.failed''" | "ty = ''error''"
    | "ty \<notin> {''response.created'', ''response.in_progress'', ''response.output_item.added'', ''response.output_text.delta'',
        ''response.function_call_arguments.delta'', ''response.output_item.done'', ''response.completed'',
        ''response.failed'', ''error''}" by auto
  then show ?thesis
  proof cases
    case 1 then show ?thesis by (intro that(1)) (auto simp: resp_event_def accept_resp_event_def)
  next
    case 2 then show ?thesis by (intro that(2)) (auto simp: resp_event_def accept_resp_event_def)
  next
    case 3 then show ?thesis by (intro that(3)) (simp_all add: resp_event_def accept_resp_event_def)
  next
    case 4 then show ?thesis by (intro that(4)) (simp_all add: resp_event_def accept_resp_event_def)
  next
    case 5 then show ?thesis by (intro that(5)) (simp_all add: resp_event_def accept_resp_event_def)
  next
    case 6 then show ?thesis by (intro that(6)) (simp_all add: resp_event_def accept_resp_event_def)
  next
    case 7 then show ?thesis by (intro that(7)) (simp_all add: resp_event_def accept_resp_event_def)
  next
    case 8 then show ?thesis by (intro that(7)) (simp_all add: resp_event_def accept_resp_event_def)
  next
    case 9 then show ?thesis by (intro that(8)) (simp_all add: resp_event_def accept_resp_event_def)
  qed
qed

lemma resp_event_follows:
  assumes "accept_resp_event ty data c = Some c'" "\<not> rc_errored c'"
  shows "simulates (resp_live c) (resp_live c') (resp_event ty data)"
proof (cases rule: resp_event_cases [of ty data c])
  case 1
  with assms resp_created_follows [of c data] show ?thesis by simp
next
  case 2
  with assms resp_added_follows [of data c] show ?thesis by simp
next
  case 3
  with assms show ?thesis by (simp only:) (rule resp_delta_follows, auto)
next
  case 4
  with assms show ?thesis by (simp only:) (rule resp_delta_follows, auto)
next
  case 5
  with assms resp_done_follows [of data c] show ?thesis by simp
next
  case 6
  with assms resp_completed_follows [of c data] show ?thesis by (auto split: if_splits)
next
  case 7
  with assms show ?thesis by auto
next
  case 8
  with assms show ?thesis by (simp add: simulates_skip)
qed

lemma resp_error_event:
  assumes "accept_resp_event ty data c = Some c'" "\<not> rc_errored c" "rc_errored c'"
  shows "c' = c\<lparr>rc_errored := True\<rparr> \<and> (\<exists>m. resp_event ty data = emit (\<lambda>_. [ErrorEvent m]))"
  using assms
  by (cases rule: resp_event_cases [of ty data c])
     (auto simp: accept_added_def accept_done_def accept_resp_delta_def split: if_splits option.splits)

abbreviation resp_obs :: "RespParserState \<Rightarrow> bool \<times> bool" where
  "resp_obs s \<equiv> (rs_response_start s, rs_response_stop s)"

lemma quiet_resp_event: "quiet resp_obs (resp_event ty data)"
  by (cases rule: resp_event_cases [of ty data resp_contract_start])
     (auto simp: resp_created_def resp_item_added_def resp_item_done_def resp_completed_def resp_start_message_def Let_def
       intro!: quiet_intros)

lemma quiet_resp_step: "quiet resp_obs (\<lambda>s. resp_step from_str s i)"
proof (cases i)
  case (RespEvent ty data)
  have "resp_obs (mark_completed ty s) = resp_obs s" for s by (simp add: mark_completed_def)
  with RespEvent quiet_resp_event [of ty] show ?thesis by (auto simp: quiet_def resp_step_cases split: sum.split)
qed (simp add: quiet_def resp_step_cases)

text \<open>Closing what is open, whatever its kind.\<close>

lemma vrun_orphan_stops:
  assumes "\<not> seen_message_stop v" "\<not> seen_response_stop v" "\<not> terminated_by_error v"
    and "distinct (map fst bs)" "map_of (open_blocks v) = map_of bs" "distinct (map fst (open_blocks v))"
  shows "\<exists>v'. vrun v (orphan_stops bs) = Some v' \<and> same_flags v v' \<and> open_blocks v' = []"
  using assms
proof (induction bs arbitrary: v)
  case Nil
  then have "open_blocks v = []" by (cases "open_blocks v") (auto dest: fun_cong split: if_splits)
  then show ?case by (simp add: orphan_stops_def same_flags_def)
next
  case (Cons b bs)
  obtain i k where b: "b = (i, k)" by (cases b)
  let ?w = "v\<lparr>open_blocks := AList.delete i (open_blocks v), tool_stopped := (if k = KToolCall then insert i (tool_stopped v) - {i} else tool_stopped v),
      closed_indices := insert i (closed_indices v)\<rparr>"
  have k: "map_of (open_blocks v) i = Some k" using Cons.prems(5) b by simp
  have run: "vrun v ((if k = KToolCall then [ToolCallStop i] else []) @ [ContentBlockStop i]) = Some ?w"
    using Cons.prems(1-3) k by (auto simp: validator_checks)
  have "map_of bs i = None" using Cons.prems(4) b by (simp add: map_of_eq_None_iff)
  then have "map_of (AList.delete i (open_blocks v)) = map_of bs"
    using Cons.prems(5) b by (simp add: delete_conv' fun_eq_iff)
  moreover have w: "open_blocks ?w = AList.delete i (open_blocks v)" by simp
  ultimately have "map_of (open_blocks ?w) = map_of bs" by (simp only: w)
  moreover have "\<not> seen_message_stop ?w" "\<not> seen_response_stop ?w" "\<not> terminated_by_error ?w" "distinct (map fst bs)"
    "distinct (map fst (open_blocks ?w))"
    using Cons.prems(1-4,6) by (simp_all add: distinct_delete)
  ultimately obtain v' where "vrun ?w (orphan_stops bs) = Some v'" "same_flags ?w v'" "open_blocks v' = []"
    using Cons.IH [of ?w] by blast
  with vrun_appendI [OF run this(1)] have "vrun v (((if k = KToolCall then [ToolCallStop i] else []) @ [ContentBlockStop i]) @ orphan_stops bs) = Some v'"
    by blast
  with \<open>same_flags ?w v'\<close> \<open>open_blocks v' = []\<close> b show ?case
    by (auto simp: orphan_stops_def same_flags_def)
qed

lemma map_of_sort_key_fst: "distinct (map fst bs) \<Longrightarrow> map_of (sort_key fst bs) = map_of bs"
  by (rule map_of_eqI) (auto simp: map_of_eq_Some_iff distinct_map inj_on_def dest: map_of_SomeD)

lemma resp_finalize_validates:
  assumes "resp_live c s v"
  shows "validates v (snd (resp_finalize s))"
proof (cases "rs_response_stop s \<or> \<not> rs_response_start s")
  case True
  with assms have "open_blocks v = []" by (auto simp: resp_live_def)
  with True show ?thesis by (auto simp: resp_finalize_def validates_def)
next
  case False
  then have fresh: "\<not> rc_completed c" using assms by (simp add: resp_live_def)
  from simulatesD [OF resp_start_message_follows [OF fresh] assms] obtain v1 where
    v1: "vrun v (snd (resp_start_message s)) = Some v1" "resp_live (c\<lparr>rc_message := True\<rparr>) (fst (resp_start_message s)) v1" by blast
  let ?s1 = "fst (resp_start_message s)"
  have d: "distinct (map fst (rs_open_blocks ?s1))" "open_blocks v1 = rs_open_blocks ?s1" using v1(2) by (simp_all add: resp_live_def)
  have "distinct (map fst (sort_key fst (rs_open_blocks ?s1)))"
    using d(1) by (metis distinct_map distinct_sort set_sort)
  with d v1(2) fresh vrun_orphan_stops [of v1 "sort_key fst (rs_open_blocks ?s1)"] obtain v2 where
    v2: "vrun v1 (orphan_stops (sort_key fst (rs_open_blocks ?s1))) = Some v2" "same_flags v1 v2" "open_blocks v2 = []"
    by (auto simp: resp_live_def map_of_sort_key_fst)
  have "validates v2 [MessageStop EndTurn None, ResponseStop None]"
    using v2 v1(2) fresh by (auto simp: validates_def same_flags_def resp_live_def validator_checks)
  moreover have "snd (resp_finalize s) = snd (resp_start_message s) @ orphan_stops (sort_key fst (rs_open_blocks ?s1))
      @ [MessageStop EndTurn None, ResponseStop None]"
    using False v1(2) fresh
    by (simp add: resp_finalize_def emitter_defs Let_def case_prod_unfold resp_live_def)
  ultimately show ?thesis
    using validates_append [OF v1(1) validates_append [OF v2(1)]] by simp
qed

interpretation responses: lifecycle_producer "resp_step from_str" resp_parser_default "resp_accept from_str" resp_contract_start
  resp_rel validator_init resp_finalize for from_str
proof unfold_locales
  show "resp_rel resp_contract_start resp_parser_default validator_init"
    by (simp add: resp_rel_def resp_live_def resp_contract_start_def resp_parser_default_def validator_init_def)
next
  fix c i c'
  assume acc: "resp_accept from_str c i = Some c'"
  show "simulates (resp_rel c) (resp_rel c') (\<lambda>s. resp_step from_str s i)"
  proof (rule simulatesI)
    fix s v
    assume R: "resp_rel c s v"
    let ?out = "resp_step from_str s i"
    show "\<exists>v'. vrun v (snd ?out) = Some v' \<and> resp_rel c' (fst ?out) v'"
    proof (cases "terminated_by_error v")
      case True
      with R acc have "c' = c" by (simp add: resp_rel_def resp_accept_def)
      with vrun_quiet_terminated [OF True quiet_resp_step [of from_str i], of s] R True show ?thesis
        by (auto simp: resp_rel_def)
    next
      case False
      with R have live: "resp_live c s v" "\<not> rc_errored c" by (simp_all add: resp_rel_def resp_live_def)
      show ?thesis
      proof (cases "\<exists>ty data x. i = RespEvent ty data \<and> from_str data = Inr x")
        case True
        then obtain ty data x where i: "i = RespEvent ty data" "from_str data = Inr x" by blast
        have out: "?out = resp_event ty x (mark_completed ty s)" and c': "accept_resp_event ty x c = Some c'"
          using i acc live(2) by (simp_all add: resp_step_cases resp_accept_def)
        show ?thesis
        proof (cases "rc_errored c'")
          case True
          with resp_error_event [OF c' live(2)] obtain m where m: "c' = c\<lparr>rc_errored := True\<rparr>"
            "?out = (mark_completed ty s, [ErrorEvent m])" by (auto simp: out emit_def)
          let ?v = "v\<lparr>terminated_by_error := True\<rparr>"
          have "vrun v [ErrorEvent m] = Some ?v" using live(1) by (simp add: resp_live_def)
          moreover have "open_blocks v = [] \<or> rs_response_start s \<and> \<not> rs_response_stop s"
            using live(1) unfolding resp_live_def by metis
          then have "resp_rel c' (mark_completed ty s) ?v" by (auto simp: resp_rel_def m(1) mark_completed_def)
          ultimately show ?thesis by (simp add: m(2))
        next
          case False
          from simulatesD [OF resp_event_follows [OF c' False], of "mark_completed ty s" v] live(1) out show ?thesis
            by (auto intro: resp_live_rel)
        qed
      next
        case False
        with acc live have c': "c' = c" "snd ?out = []" "resp_live c (fst ?out) v"
          by (cases i; auto simp: resp_accept_def resp_step_cases split: sum.splits)+
        then show ?thesis by (auto intro: resp_live_rel)
      qed
    qed
  qed
next
  fix c s v
  assume R: "resp_rel c s v"
  show "validates v (snd (resp_finalize s))"
  proof (cases "terminated_by_error v")
    case True
    with R have "snd (resp_finalize s) = [] \<Longrightarrow> open_blocks v = []"
      by (auto simp: resp_rel_def resp_finalize_def emitter_defs Let_def case_prod_unfold split: if_splits)
    with True show ?thesis by (auto simp: validates_def vrun_terminated)
  next
    case False
    with R resp_finalize_validates show ?thesis by (auto simp: resp_rel_def)
  qed
qed

section \<open>The produced stream\<close>

lemma resp_events_eq:
  "ok_events (resp_parse from_str src) = run_to_end (resp_step from_str) resp_finalize resp_parser_default (src_items src)"
proof -
  have "(\<lambda>s. apsnd ok_events (apsnd (map Inr) (resp_finalize s))) = resp_finalize"
    by (rule ext) (simp add: apsnd_def map_prod_def case_prod_unfold)
  then show ?thesis by (simp add: resp_parse_def poll_drain_init ok_events_run_to_end resp_step_def [abs_def])
qed

text \<open>The content of the upstream's events: texts, calls and argument fragments under the item's output index.\<close>

definition resp_event_payload :: "string \<Rightarrow> json \<Rightarrow> payload list" where
  "resp_event_payload ty data =
     (if ty = ''response.output_text.delta'' then (if resp_delta data = [] then [] else [PText (resp_delta data)])
      else if ty = ''response.function_call_arguments.delta'' then
        (if resp_delta data = [] then [] else [PArgs (resp_index data) (resp_delta data)])
      else if ty = ''response.output_item.added'' \<and> resp_item_type data = ''function_call'' then
        [PCall (resp_index data) (unwrap_or (get_str (resp_item data) ''call_id'') [])
           (unwrap_or (get_str (resp_item data) ''name'') [])]
      else [])"

definition resp_input_payload :: "(string \<Rightarrow> string + json) \<Rightarrow> resp_input \<Rightarrow> payload list" where
  "resp_input_payload from_str i =
     (case i of RespTransportError e \<Rightarrow> []
      | RespEvent ty data \<Rightarrow> (case from_str data of Inl e \<Rightarrow> [] | Inr v \<Rightarrow> resp_event_payload ty v))"

lemma resp_event_carries: "payload_of (snd (resp_event ty data s)) = resp_event_payload ty data"
proof (cases rule: resp_event_cases [of ty data resp_contract_start])
  case 1
  then have "resp_event_payload ty data = []" by (auto simp: resp_event_payload_def)
  with 1(2) show ?thesis by (simp only:) (simp add: resp_created_def emitter_defs)
next
  case 2
  have "payload_of (snd (resp_item_added data s)) = resp_event_payload ty data"
    by (simp add: resp_event_payload_def 2(1) resp_item_added_def resp_start_message_def Let_def emitter_defs)
  with 2(2) show ?thesis by simp
next
  case 3
  show ?thesis unfolding 3(2) using 3(1) by (simp add: resp_event_payload_def emit_def)
next
  case 4
  show ?thesis unfolding 4(2) using 4(1) by (simp add: resp_event_payload_def emit_def)
next
  case 5
  then have "resp_event_payload ty data = []" by (simp add: resp_event_payload_def)
  with 5(2) show ?thesis by (simp only:) (simp add: resp_item_done_def Let_def emitter_defs)
next
  case 6
  then have "resp_event_payload ty data = []" by (simp add: resp_event_payload_def)
  with 6(2) show ?thesis by (simp only:) (simp add: resp_completed_def emitter_defs)
next
  case (7 m)
  then have "resp_event_payload ty data = []" by (auto simp: resp_event_payload_def)
  with 7(2) show ?thesis by (simp only:) (simp add: emit_def)
next
  case 8
  then have "resp_event_payload ty data = []" by (simp add: resp_event_payload_def)
  with 8(2) show ?thesis by (simp only:) (simp add: emit_skip_def)
qed

lemma resp_step_payload: "payload_of (snd (resp_step from_str s i)) = resp_input_payload from_str i"
  by (cases i) (auto simp: resp_step_cases resp_input_payload_def resp_event_carries split: sum.split)

lemma orphan_stops_payload [simp]: "payload_of (orphan_stops bs) = []"
  by (induction bs) (auto simp: orphan_stops_def)

lemma resp_finalize_payload: "payload_of (snd (resp_finalize s)) = []"
  by (simp add: resp_finalize_def resp_start_message_def emitter_defs Let_def case_prod_unfold)

lemma resp_payload:
  "payload_of (run_to_end (resp_step from_str) resp_finalize s is) = concat (map (resp_input_payload from_str) is)"
  by (induction "is" arbitrary: s) (simp_all add: resp_finalize_payload resp_step_payload)

text \<open>
  C39. For every JSON reader and every poll schedule, the Responses parser's stream is canonical whenever the upstream
  keeps its protocol (an upstream that is cut off at any point does: what it left open is closed in order of the
  output indices), and for every upstream at all the stream carries exactly its texts, calls and argument
  fragments, in order.
\<close>

theorem responses_stream_canonical:
  "(accepts (resp_accept from_str) resp_contract_start (src_items src) \<longrightarrow>
      assert_canonical_lifecycle (ok_events (resp_parse from_str src)) = Inr ())
    \<and> payload_of (ok_events (resp_parse from_str src)) = concat (map (resp_input_payload from_str) (src_items src))"
  using responses.produces_canonical [of from_str "src_items src"] validates_assert
  by (auto simp: resp_events_eq resp_payload)

definition demo_responses :: "string \<Rightarrow> string + json" where
  "demo_responses d =
     (if d = ''item'' then Inr (JObject [(''output_index'', JPosInt 1), (''item'',
        JObject [(''type'', JString ''function_call''), (''call_id'', JString ''c1''), (''name'', JString ''look'')])])
      else if d = ''{'' then Inr (JObject [(''output_index'', JPosInt 1), (''delta'', JString ''{'')])
      else if d = ''{}'' then Inr (JObject [])
      else Inl ''bad'')"

lemmas resp_eval = resp_accept_def resp_contract_start_def accept_resp_event_def accept_added_def accept_resp_delta_def
  resp_kind_def resp_item_type_def resp_item_def resp_index_def resp_delta_def get_str_def get_u64_def demo_responses_def as_u32_def

theorem responses_stream_canonical_witness:
  "assert_canonical_lifecycle (ok_events (resp_parse demo_responses [SrcItem (RespEvent ''response.created'' ''{}''), SrcPending,
      SrcItem (RespEvent ''response.output_item.added'' ''item''),
      SrcItem (RespEvent ''response.function_call_arguments.delta'' ''{''), SrcItem (RespTransportError ''reset'')])) = Inr ()
   \<and> payload_of (ok_events (resp_parse demo_responses [SrcItem (RespEvent ''response.created'' ''{}''), SrcPending,
      SrcItem (RespEvent ''response.output_item.added'' ''item''),
      SrcItem (RespEvent ''response.function_call_arguments.delta'' ''{''), SrcItem (RespTransportError ''reset'')]))
     = [PCall 1 ''c1'' ''look'', PArgs 1 ''{'']"
proof -
  let ?src = "[SrcItem (RespEvent ''response.created'' ''{}''), SrcPending,
      SrcItem (RespEvent ''response.output_item.added'' ''item''),
      SrcItem (RespEvent ''response.function_call_arguments.delta'' ''{''), SrcItem (RespTransportError ''reset'')]"
  have "accepts (resp_accept demo_responses) resp_contract_start (src_items ?src)"
    by (simp add: resp_eval)
  moreover have "concat (map (resp_input_payload demo_responses) (src_items ?src)) = [PCall 1 ''c1'' ''look'', PArgs 1 ''{'']"
    by (simp add: resp_input_payload_def resp_event_payload_def resp_eval)
  ultimately show ?thesis using responses_stream_canonical [of demo_responses ?src] by simp
qed

section \<open>What the parser does not do\<close>

text \<open>A response that completes with an item still open leaves its block open, because \<open>finalize\<close> returns early;
  and whatever the upstream called, the stop reason of a completed response is never \<open>ToolUse\<close>.\<close>

lemma completed_with_open_item:
  "assert_canonical_lifecycle (ok_events (resp_parse demo_responses [SrcItem (RespEvent ''response.created'' ''{}''),
      SrcItem (RespEvent ''response.output_item.added'' ''item''), SrcItem (RespEvent ''response.completed'' ''{}'')]))
    = Inl (6, Rule1d)"
  by (simp add: resp_events_eq resp_step_cases resp_event_def resp_created_def resp_item_added_def resp_completed_def
      resp_start_message_def resp_finalize_def resp_eval emitter_defs resp_parser_default_def mark_completed_def Let_def
      assert_canonical_lifecycle_def assert_canonical_lifecycle_strict_def validator_init_def validator_checks)

lemma resp_stop_reasons:
  "MessageStop r q \<in> set (snd (resp_event ty data s)) \<Longrightarrow> r = EndTurn \<or> r = ContentFilter"
  by (cases rule: resp_event_cases [of ty data resp_contract_start]; simp only:)
     (auto simp: resp_created_def resp_item_added_def resp_item_done_def resp_completed_def resp_status_reason_def
       resp_start_message_def Let_def emitter_defs split: if_splits)

end
