(* ===== verification/Spec2Isabelle.thy ===== *)
theory Spec2Isabelle
  imports Gateway Policy Chat_Dialects Token_Count Unary_Encoders Gemini_Request Responses_Parser
begin

text \<open>
  \<^bold>\<open>AgentShim: the canonical stream, the resilience layer and the request pipeline.\<close>

  AgentShim (\<open>src/crates\<close>) is a gateway between LLM clients and LLM upstreams that speak different API
  dialects. A request is decoded into a canonical request, resolved to a chain of upstream targets,
  admitted, and sent to the first upstream that answers. The answer is parsed into a stream of canonical
  events, which is encoded again in the client's dialect, or collected into one response. Two contracts
  hold the system together: the \<^emph>\<open>canonical lifecycle\<close> that every event stream has to satisfy, and
  the \<^emph>\<open>breaker hold\<close> that every admitted request owns and has to settle exactly once.

  \<^bold>\<open>Conventions.\<close> \<open>u32\<close> and \<open>u64\<close> are words and wrap as in a release build; \<open>i64\<close> and instants are
  integers and naturals; \<open>f64\<close> is an exact real. A string is the list of its bytes. \<open>Result\<close> is a sum
  with the error on the left. Code that is not in the repository is a parameter: the JSON reader and
  writer (\<open>serde_json\<close>), the framing of server-sent events, the order in which a hash table is drained,
  SHA-256, the token bucket of the \<open>governor\<close> crate, base64, the tokenizer, the providers, the clock, the
  jitter, generated ids and the \<open>Display\<close> texts that \<open>thiserror\<close> derives. What \<open>serde\<close>'s derived
  \<open>Deserialize\<close> does with a struct is modelled in \<open>Serde\<close>. A stream is driven by polls: a source
  is the list of its answers, \<open>Pending\<close> included, so every theorem about a stream holds for every
  poll schedule. All loops are total functions with termination proofs; no fuel is used.

  \<^bold>\<open>Theories and sources.\<close>

  \<^item> \<open>Prelude\<close>, \<open>Json\<close>, \<open>Serde\<close>: strings, integers, lists; \<open>serde_json::Value\<close>; derived deserialization.
  \<^item> \<open>Core_Model\<close>: \<open>core/src\<close>: blocks, messages, usage, stop reasons, stream events, responses.
    \<open>Policy\<close>: \<open>core/src/policy.rs\<close>, \<open>request.rs\<close>, \<open>target.rs\<close>: reasoning effort and route policies.
  \<^item> \<open>Emitter\<close>: the code shape the stream parsers share (push events, thread a state) and the polling
    machine of their hand-written \<open>Stream\<close> implementations, with the lemma that draining it equals
    running it over the source's items.
  \<^item> \<open>Lifecycle\<close>: the validator \<open>protocol-tests/src/lifecycle.rs\<close>, what an accepted stream looks like, and
    the two interfaces \<open>lifecycle_follower\<close> and \<open>lifecycle_producer\<close>: a parser with a contract on its upstream
    whose laws make the validator accept everything it yields. They are interpreted by the interleaver,
    the chat, DeepSeek, Anthropic, Gemini and Responses parsers.
  \<^item> \<open>Interleaver\<close>, \<open>Chat_Sse_Parser\<close>, \<open>Deepseek\<close>, \<open>Unary_Parser\<close>: \<open>providers/src/oai_chat_wire\<close> and
    \<open>deepseek\<close>: their streams are canonical for every upstream that keeps its protocol, the chat
    stream carries exactly its upstream's content, and the inputs outside the protocol that break it.
  \<^item> \<open>Anthropic_Parser\<close>: \<open>providers/src/anthropic/response.rs\<close>, \<open>wire.rs\<close>: canonical exactly when the upstream
    closed its blocks. \<open>Gemini_Scanner\<close>, \<open>Gemini\<close>: \<open>providers/src/gemini\<close>: the byte scanner finds exactly
    the objects of a chunked JSON array, and the parser's stream is canonical whatever arrives.
    \<open>Gemini_Request\<close>: \<open>gemini/request.rs\<close>: what a Gemini upstream reads of an Anthropic client's request.
  \<^item> \<open>Responses_Parser\<close>: \<open>providers/src/openai_compatible/responses_api/parse_stream.rs\<close>: canonical for every upstream
    that keeps its protocol, with exactly its content.
  \<^item> \<open>Encoder_Stream\<close>, \<open>Chat_Encoder\<close>, \<open>Anthropic_Encoder\<close>: \<open>frontends/src/sse.rs\<close> and the two stream
    encoders; what they write, read back by the matching parser, is what went in. \<open>Collect\<close>:
    \<open>collect_stream\<close> of \<open>gateway/src/handlers/mod.rs\<close>, with its specification on canonical streams.
  \<^item> \<open>Config\<close>, \<open>Static_Routes\<close>: \<open>config/src/schema.rs\<close> as far as routing reads it, the route checks of
    \<open>validation.rs\<close>, \<open>router/src/static_routes.rs\<close>: the built router equals a declarative lookup.
  \<^item> \<open>Circuit_Breaker\<close>, \<open>Retry\<close>, \<open>Rate_Limit\<close>, \<open>Cost_Filter\<close>: \<open>router/src\<close>: trip conditions, single
    probe and recovery of a breaker; what the retry loop does and its bounds; the gates of the rate
    limiter; the filter and the cost bound it enforces.
  \<^item> \<open>Admission\<close>, \<open>Resilient_Caller\<close>: \<open>router/src/admission.rs\<close>, \<open>resilient_caller.rs\<close>: the composition. A
    ticket holds what it admits, no request leaks a probe, the chain walk equals its reference
    definition, and the ticket is settled once however the answer is consumed. The interface \<open>probe_gate\<close>
    states what the breaker registry promises to its clients and is interpreted by the registry.

  \<^item> \<open>Request_Wire\<close>, \<open>Chat_Request\<close>, \<open>Chat_Forward\<close>, \<open>Anthropic_Request\<close>, \<open>Anthropic_Forward\<close>: the request side:
    the decoders of \<open>frontends/src/openai_chat\<close> and \<open>anthropic_messages\<close> (\<open>wire.rs\<close>, \<open>decode.rs\<close>) and the encoders
    \<open>providers/src/oai_chat_wire/canonical_to_chat.rs\<close> and \<open>anthropic/request.rs\<close>. Which bodies are accepted, what of a
    client's request an upstream of the same dialect reads back, and the order of tool replies.
    \<open>Chat_Dialects\<close>: the passes \<open>deepseek/request.rs\<close> and \<open>glm/request.rs\<close> over the chat body.
  \<^item> \<open>Unary_Encoders\<close>, \<open>Token_Count\<close>: \<open>encode_unary.rs\<close> of both front ends, with what a second gateway collects of
    an encoded response; \<open>count_tokens.rs\<close>, \<open>count_tokens_wire.rs\<close> and \<open>handlers/anthropic_count_tokens.rs\<close>: the
    estimate is the exact sum, capped.
  \<^item> \<open>Model_Index\<close>: \<open>router/src/model_index.rs\<close>, \<open>resolver.rs\<close>: what a requested model becomes, which targets
    a route is upgraded to, and the published catalog.
  \<^item> \<open>Plugins\<close>: \<open>plugins/src\<close>: the hooks, their timeouts and error policies, the registry and its construction,
    the task supervisor. A plugin is any record of functions, so the theorems hold for every plugin.
  \<^item> \<open>Handler_Error\<close>, \<open>Pipeline\<close>, \<open>Dispatch\<close>: \<open>gateway/src/handlers/mod.rs\<close>, \<open>pipeline.rs\<close>: the composition of
    all of the above into one request, from its bytes to its reply: authentication, hooks, routing,
    admission, passthrough or chain walk, collection; \<open>Dispatch\<close> proves what a request can do to the
    shared state and where its reply comes from.
  \<^item> \<open>Validation\<close>: \<open>config/src/validation.rs\<close>, \<open>plugins.rs\<close>: the startup, plugin, strict-model and reload rules,
    and what an accepted configuration guarantees.
  \<^item> \<open>Gateway\<close>: \<open>gateway/src/state.rs\<close>, \<open>commands/serve.rs\<close>, \<open>reload_trigger.rs\<close>, \<open>admin/reload_handler.rs\<close>: startup,
    hot reload and shutdown, and the running process as a step relation \<open>gateway_run\<close> whose steps are
    requests on any snapshot, ends of lazy replies, plugin tasks and reloads; its invariant is proved by
    rule induction over that relation.

  Statements that describe a defect (a stream that the parser breaks, a fallback whose breaker trips
  although it was never called, usage that a proxy loses, limits that never apply, routes that a reload
  cannot add) are theorems about the code as it is.

  \<^bold>\<open>Not modelled.\<close> The OpenAI Responses front end and request encoder (its stream parser is modelled): in
  \<open>Pipeline\<close> a front end is its decoder and encoders as functions and a provider is a function from a
  request to a stream. The built-in plugins are instances of what \<open>Plugins\<close> quantifies over. The loader, HTTP, the
  credentials of the providers, the CLI, metrics and tracing are I/O around the modelled components.
\<close>

end
